(* ===== verification/Prelude.thy ===== *)
theory Prelude
  imports Main "HOL-Library.Word"
begin

text \<open>
  Shared vocabulary of the development.

  \<^item> \<open>'a run\<close> is the outcome of a C call: it returns a value, a \<open>TEN_ASSERT\<close> fires and the
    process aborts (the macro is active in every build but \<open>TEN_PRODUCTION\<close>), or the call has
    undefined behaviour in the C standard.
  \<^item> \<open>ten_error\<close> is the error context of \<open>core/src/ten_utils/lib/sys/general/error.c\<close>.
  \<^item> The formatting helpers model the three \<open>printf\<close> conversions the modelled code uses
    (\<open>%s\<close>, \<open>%d\<close> of a non-negative index, and a format string that is used as plain text).
  \<^item> Generic facts on association lists that the value, path and schema theories share.
\<close>

named_theorems run_simps
  \<comment> \<open>rewriting of outcomes: binds, folds over lists that stop at the first failure\<close>

named_theorems word_bounds
  \<comment> \<open>comparisons of a word with a constant outside its range\<close>

named_theorems cast_simps
  \<comment> \<open>the integer in a word after a cast that can hold it\<close>

named_theorems spec_simps
  \<comment> \<open>characteristic equations of component operations\<close>

section \<open>Outcomes of a C call\<close>

datatype (set_run: 'a) run = Ret (run_val: 'a) | Abort | Undef
  for map: map_run

fun run_bind :: "'a run \<Rightarrow> ('a \<Rightarrow> 'b run) \<Rightarrow> 'b run" where
  "run_bind (Ret a) f = f a"
| "run_bind Abort f = Abort"
| "run_bind Undef f = Undef"

definition returns :: "'a run \<Rightarrow> bool" where
  "returns r \<longleftrightarrow> (\<exists>a. r = Ret a)"

lemma returns_simps [simp, run_simps]:
  "returns (Ret a)" "\<not> returns Abort" "\<not> returns Undef"
  by (simp_all add: returns_def)

lemma run_bind_eq_Ret [simp, run_simps]:
  "run_bind r f = Ret b \<longleftrightarrow> (\<exists>a. r = Ret a \<and> f a = Ret b)"
  by (cases r) auto

lemma map_run_eq_Ret [simp, run_simps]:
  "map_run f r = Ret b \<longleftrightarrow> (\<exists>a. r = Ret a \<and> b = f a)"
  by (cases r) auto

lemma run_bind_Ret_right [simp, run_simps]: "run_bind r Ret = r"
  by (cases r) auto

lemma run_bind_assoc [run_simps]:
  "run_bind (run_bind r f) g = run_bind r (\<lambda>a. run_bind (f a) g)"
  by (cases r) auto

lemma run_bind_cong [fundef_cong]:
  assumes "r = r'" and "\<And>a. r' = Ret a \<Longrightarrow> f a = g a"
  shows "run_bind r f = run_bind r' g"
  using assms by (cases r') auto

text \<open>A loop that applies a call to every element and stops at the first call that does not
  return.\<close>

fun run_map :: "('a \<Rightarrow> 'b run) \<Rightarrow> 'a list \<Rightarrow> 'b list run" where
  "run_map f [] = Ret []"
| "run_map f (x # xs) = run_bind (f x) (\<lambda>y. map_run ((#) y) (run_map f xs))"

lemma run_map_cong [fundef_cong]:
  assumes "xs = ys" and "\<And>x. x \<in> set ys \<Longrightarrow> f x = g x"
  shows "run_map f xs = run_map g ys"
proof -
  have "(\<And>x. x \<in> set ys \<Longrightarrow> f x = g x) \<Longrightarrow> run_map f ys = run_map g ys"
    by (induction ys) auto
  with assms show ?thesis by simp
qed

lemma run_map_all_Ret [run_simps]:
  "(\<And>x. x \<in> set xs \<Longrightarrow> f x = Ret (g x)) \<Longrightarrow> run_map f xs = Ret (map g xs)"
  by (induction xs) auto

lemma run_map_eq_RetD:
  "run_map f xs = Ret ys \<Longrightarrow> list_all2 (\<lambda>x y. f x = Ret y) xs ys"
  by (induction xs arbitrary: ys) auto

text \<open>A loop that runs a test on every element and stops at the first that is false or does not
  return.\<close>

fun run_all :: "('a \<Rightarrow> bool run) \<Rightarrow> 'a list \<Rightarrow> bool run" where
  "run_all P [] = Ret True"
| "run_all P (x # xs) = run_bind (P x) (\<lambda>b. if b then run_all P xs else Ret False)"

lemma run_all_cong [fundef_cong]:
  assumes "xs = ys" and "\<And>x. x \<in> set ys \<Longrightarrow> P x = Q x"
  shows "run_all P xs = run_all Q ys"
proof -
  have "(\<And>x. x \<in> set ys \<Longrightarrow> P x = Q x) \<Longrightarrow> run_all P ys = run_all Q ys"
    by (induction ys) (auto cong: if_cong)
  with assms show ?thesis by simp
qed

lemma run_all_Ret_True [run_simps]:
  "run_all P xs = Ret True \<longleftrightarrow> (\<forall>x \<in> set xs. P x = Ret True)"
  by (induction xs) (auto split: if_splits)

text \<open>A loop that passes a state from element to element.\<close>

fun run_fold :: "('a \<Rightarrow> 's \<Rightarrow> 's run) \<Rightarrow> 'a list \<Rightarrow> 's \<Rightarrow> 's run" where
  "run_fold f [] s = Ret s"
| "run_fold f (x # xs) s = run_bind (f x s) (run_fold f xs)"

lemma run_fold_cong [fundef_cong]:
  assumes "xs = ys" and "s = t" and "\<And>x s. x \<in> set ys \<Longrightarrow> f x s = g x s"
  shows "run_fold f xs s = run_fold g ys t"
proof -
  have "(\<And>x s. x \<in> set ys \<Longrightarrow> f x s = g x s) \<Longrightarrow> run_fold f ys t = run_fold g ys t"
    by (induction ys arbitrary: t) (auto intro!: run_bind_cong)
  with assms show ?thesis by simp
qed

lemma run_fold_append:
  "run_fold f (xs @ ys) s = run_bind (run_fold f xs s) (run_fold f ys)"
  by (induction xs arbitrary: s) (simp_all add: run_bind_assoc fun_eq_iff cong: run_bind_cong)

text \<open>A loop whose steps all return, as long as an invariant holds, is a fold.\<close>

lemma run_fold_Ret:
  assumes "I s" and "\<And>x s. x \<in> set xs \<Longrightarrow> I s \<Longrightarrow> f x s = Ret (g x s) \<and> I (g x s)"
  shows "run_fold f xs s = Ret (fold g xs s) \<and> I (fold g xs s)"
  using assms by (induction xs arbitrary: s) auto

text \<open>Every \<open>ten_list_foreach\<close> (\<open>container/list.h\<close>) first asserts that the list is not too long; \<open>loop\<close> is
  the loop that comes after.\<close>

definition TEN_LIST_LOOP_MAX_ALLOWABLE_CNT :: nat where
  "TEN_LIST_LOOP_MAX_ALLOWABLE_CNT = 100000"

definition walkable :: "'x list \<Rightarrow> bool" where
  "walkable xs \<longleftrightarrow> length xs \<le> TEN_LIST_LOOP_MAX_ALLOWABLE_CNT"

definition ten_list_foreach_of :: "'x list \<Rightarrow> 'a run \<Rightarrow> 'a run" where
  "ten_list_foreach_of xs loop = (if walkable xs then loop else Abort)"

lemma foreach_of_walkable [simp]: "walkable xs \<Longrightarrow> ten_list_foreach_of xs loop = loop"
  by (simp add: ten_list_foreach_of_def)

lemma foreach_of_Ret [simp, run_simps]: "ten_list_foreach_of xs loop = Ret r \<longleftrightarrow> walkable xs \<and> loop = Ret r"
  by (simp add: ten_list_foreach_of_def)

lemma foreach_of_cong [fundef_cong]:
  "xs = ys \<Longrightarrow> (walkable ys \<Longrightarrow> loop = loop') \<Longrightarrow> ten_list_foreach_of xs loop = ten_list_foreach_of ys loop'"
  by (simp add: ten_list_foreach_of_def)

lemma walkable_Nil [simp]: "walkable []"
  by (simp add: walkable_def)

lemma walkable_length: "walkable xs \<Longrightarrow> length ys \<le> length xs \<Longrightarrow> walkable ys"
  by (simp add: walkable_def)

lemma walkable_code [code]: "walkable xs \<longleftrightarrow> int (length xs) \<le> 100000"
  by (simp add: walkable_def TEN_LIST_LOOP_MAX_ALLOWABLE_CNT_def)

lemma run_map_walkable: "run_map f xs = Ret ys \<Longrightarrow> walkable xs \<Longrightarrow> walkable ys"
  using list_all2_lengthD [OF run_map_eq_RetD, of f xs ys] by (simp add: walkable_def)

lemmas walkable_numeral = walkable_def TEN_LIST_LOOP_MAX_ALLOWABLE_CNT_def

text \<open>Reading through a pointer that is not in the store is undefined.\<close>

definition load :: "(nat \<Rightarrow> 'a option) \<Rightarrow> nat \<Rightarrow> 'a run" where
  "load store a = (case store a of None \<Rightarrow> Undef | Some x \<Rightarrow> Ret x)"

text \<open>An operation with a result that works on a state, such as that of a thread or of the heap.\<close>

type_synonym ('a, 's) stateful = "'s \<Rightarrow> ('a \<times> 's) run"

definition ok :: "'a \<Rightarrow> ('a, 's) stateful" where
  "ok x w = Ret (x, w)"

definition and_with :: "('a, 's) stateful \<Rightarrow> ('a \<Rightarrow> ('b, 's) stateful) \<Rightarrow> ('b, 's) stateful" where
  "and_with f g w = run_bind (f w) (\<lambda>(x, w). g x w)"

lemma and_with_Ret: "f w = Ret (x, w') \<Longrightarrow> and_with f g w = g x w'"
  by (simp add: and_with_def)

definition lift :: "'a run \<Rightarrow> ('a, 's) stateful" where
  "lift r w = map_run (\<lambda>x. (x, w)) r"

definition reading :: "('s \<Rightarrow> 'a) \<Rightarrow> ('a, 's) stateful" where
  "reading f w = Ret (f w, w)"

definition demand :: "bool \<Rightarrow> (unit, 's) stateful" where
  "demand b w = (if b then Ret ((), w) else Abort)"

primrec each :: "('x \<Rightarrow> (unit, 's) stateful) \<Rightarrow> 'x list \<Rightarrow> (unit, 's) stateful" where
  "each f [] = ok ()"
| "each f (x # xs) = and_with (f x) (\<lambda>_. each f xs)"

section \<open>The error context\<close>

definition TEN_ERRNO_OK :: int where "TEN_ERRNO_OK = 0"
definition TEN_ERRNO_GENERIC :: int where "TEN_ERRNO_GENERIC = 1"
definition TEN_ERRNO_INVALID_ARGUMENT :: int where "TEN_ERRNO_INVALID_ARGUMENT = 3"

record ten_error =
  err_no :: int
  err_msg :: string

definition ten_error_init :: ten_error where
  "ten_error_init = \<lparr>err_no = TEN_ERRNO_OK, err_msg = []\<rparr>"

definition ten_error_set :: "ten_error \<Rightarrow> int \<Rightarrow> string \<Rightarrow> ten_error" where
  "ten_error_set err no msg = err\<lparr>err_no := no, err_msg := msg\<rparr>"

definition ten_error_reset :: "ten_error \<Rightarrow> ten_error" where
  "ten_error_reset err = err\<lparr>err_no := TEN_ERRNO_OK, err_msg := []\<rparr>"

definition ten_error_prepend_errmsg :: "ten_error \<Rightarrow> string \<Rightarrow> ten_error" where
  "ten_error_prepend_errmsg err s = err\<lparr>err_msg := s @ err_msg err\<rparr>"

definition ten_error_is_success :: "ten_error \<Rightarrow> bool" where
  "ten_error_is_success err \<longleftrightarrow> err_no err = TEN_ERRNO_OK"

lemma ten_error_set_fields [simp]:
  "err_no (ten_error_set err no msg) = no"
  "err_msg (ten_error_set err no msg) = msg"
  by (simp_all add: ten_error_set_def)

lemma ten_error_set_eq [simp]:
  fixes a b :: ten_error
  shows "ten_error_set a no msg = ten_error_set b no' msg' \<longleftrightarrow> no = no' \<and> msg = msg'"
  by (cases a; cases b) (auto simp: ten_error_set_def)

lemma ten_error_set_overwrites [simp]:
  fixes a b :: ten_error
  shows "ten_error_set (ten_error_set a no msg) no' msg' = ten_error_set b no' msg'"
  by (simp add: ten_error_set_def)

lemma ten_error_set_not_success [simp]:
  "\<not> ten_error_is_success (ten_error_set err TEN_ERRNO_GENERIC msg)"
  "\<not> ten_error_is_success (ten_error_set err TEN_ERRNO_INVALID_ARGUMENT msg)"
  by (simp_all add: ten_error_is_success_def TEN_ERRNO_OK_def TEN_ERRNO_GENERIC_def
      TEN_ERRNO_INVALID_ARGUMENT_def)

text \<open>A call that sets the error context and returns false, or returns a result.\<close>

type_synonym 'a fallible = "(ten_error + 'a) run"

abbreviation generic_error :: "string \<Rightarrow> ten_error" where
  "generic_error msg \<equiv> ten_error_set ten_error_init TEN_ERRNO_GENERIC msg"

lemma ten_error_init_success [simp]: "ten_error_is_success ten_error_init"
  by (simp add: ten_error_is_success_def ten_error_init_def)

section \<open>Formatting\<close>

text \<open>\<open>%d\<close> of a non-negative number.\<close>

fun show_nat :: "nat \<Rightarrow> string" where
  "show_nat n = (if n < 10 then [char_of (48 + n)] else show_nat (n div 10) @ [char_of (48 + n mod 10)])"

declare show_nat.simps [simp del]

text \<open>
  A format string used with no arguments. A percent sign that is not doubled makes
  \<open>vsnprintf\<close> read an argument that was never passed, which is undefined behaviour.
\<close>

fun format_no_args :: "string \<Rightarrow> string run" where
  "format_no_args [] = Ret []"
| "format_no_args [c] = (if c = CHR ''%'' then Undef else Ret [c])"
| "format_no_args (c # d # cs) =
     (if c = CHR ''%''
      then (if d = CHR ''%'' then map_run ((#) c) (format_no_args cs) else Undef)
      else map_run ((#) c) (format_no_args (d # cs)))"

text \<open>A NULL string for \<open>%s\<close> is undefined.\<close>

definition required_string :: "string option \<Rightarrow> string run" where
  "required_string s = (case s of None \<Rightarrow> Undef | Some s \<Rightarrow> Ret s)"

definition plain_key :: "string \<Rightarrow> bool" where
  "plain_key k \<longleftrightarrow> CHR ''%'' \<notin> set k"

lemma format_no_args_plain [simp, run_simps]: "plain_key k \<Longrightarrow> format_no_args k = Ret k"
  unfolding plain_key_def by (induction k rule: format_no_args.induct) auto

lemma format_no_args_identity:
  "format_no_args k = Ret k \<Longrightarrow> plain_key k"
proof -
  have len: "format_no_args k = Ret r \<Longrightarrow> length r \<le> length k" for k r
    by (induction k arbitrary: r rule: format_no_args.induct) (fastforce split: if_splits)+
  show "format_no_args k = Ret k \<Longrightarrow> plain_key k"
    unfolding plain_key_def
    by (induction k rule: format_no_args.induct) (auto split: if_splits dest: len)
qed

section \<open>Association lists in insertion order\<close>

text \<open>The first entry of a key, as a loop over the entries finds it.\<close>

fun find_entry :: "'k \<Rightarrow> ('k \<times> 'v) list \<Rightarrow> 'v option" where
  "find_entry k [] = None"
| "find_entry k ((k', v) # kvs) = (if k' = k then Some v else find_entry k kvs)"

lemma find_entry_map_of: "find_entry k kvs = map_of kvs k"
  by (induction kvs rule: find_entry.induct) auto

lemma find_entry_None_iff [simp]: "find_entry k kvs = None \<longleftrightarrow> k \<notin> fst ` set kvs"
  by (induction kvs rule: find_entry.induct) auto

lemma find_entry_SomeD: "find_entry k kvs = Some v \<Longrightarrow> (k, v) \<in> set kvs"
  by (simp add: find_entry_map_of map_of_SomeD)

lemma find_entry_key: "find_entry k kvs = Some v \<Longrightarrow> k \<in> fst ` set kvs"
  by (force dest: find_entry_SomeD)

lemma find_entry_append:
  "find_entry k (xs @ ys) = (case find_entry k xs of None \<Rightarrow> find_entry k ys | Some v \<Rightarrow> Some v)"
  by (induction xs rule: find_entry.induct) auto

lemma find_entry_distinct:
  "distinct (map fst kvs) \<Longrightarrow> (k, v) \<in> set kvs \<Longrightarrow> find_entry k kvs = Some v"
  by (simp add: find_entry_map_of)

lemma map_of_rev_distinct: "distinct (map fst kvs) \<Longrightarrow> (k, v) \<in> set kvs \<Longrightarrow> map_of (rev kvs) k = Some v"
  by (simp add: rev_map [symmetric])

text \<open>Overwrite the first entry of a key.\<close>

fun update_entry :: "'k \<Rightarrow> 'v \<Rightarrow> ('k \<times> 'v) list \<Rightarrow> ('k \<times> 'v) list" where
  "update_entry k v [] = []"
| "update_entry k v ((k', v') # kvs) =
     (if k' = k then (k', v) # kvs else (k', v') # update_entry k v kvs)"

lemma map_fst_update_entry [simp]: "map fst (update_entry k v kvs) = map fst kvs"
  by (induction kvs rule: update_entry.induct) auto

lemma length_update_entry [simp]: "length (update_entry k v kvs) = length kvs"
  by (induction kvs rule: update_entry.induct) auto

lemma walkable_update_entry [simp]: "walkable (update_entry k v kvs) = walkable kvs"
  by (simp add: walkable_def)

lemma find_entry_update_entry [simp]:
  "find_entry k' (update_entry k v kvs) =
     (if k' = k \<and> k \<in> fst ` set kvs then Some v else find_entry k' kvs)"
  by (induction k v kvs rule: update_entry.induct) (auto simp: image_iff, fastforce)

lemma find_entry_absent [simp]: "k \<notin> fst ` set kvs \<Longrightarrow> find_entry k kvs = None"
  by simp

lemma update_entry_absent [simp]: "k \<notin> fst ` set kvs \<Longrightarrow> update_entry k v kvs = kvs"
  by (induction kvs rule: update_entry.induct) auto

lemma set_update_entry: "set (update_entry k v kvs) \<subseteq> insert (k, v) (set kvs)"
  by (induction kvs rule: update_entry.induct) auto

end
