(* ===== verification/Contracts.thy ===== *)
theory Contracts
  imports Prelude
begin

text \<open>
  The interfaces between components, as locales: what a client may assume of a provider.

  \<^item> \<open>int_repr\<close>: a machine integer type read as a mathematical integer, with its range.
  \<^item> \<open>key_store\<close>: a store of values under string keys that has room for some more (objects).
  \<^item> \<open>compatibility\<close>: a source type or schema may be connected to a target; and
    \<open>sound_compatibility\<close>: what the source accepts, the target accepts.
\<close>

section \<open>Machine integers\<close>

locale int_repr =
  fixes val :: "'w \<Rightarrow> int"
    and mk :: "int \<Rightarrow> 'w"
    and lo :: int
    and hi :: int
  assumes val_range: "lo \<le> val w \<and> val w \<le> hi"
    and val_mk: "lo \<le> n \<Longrightarrow> n \<le> hi \<Longrightarrow> val (mk n) = n"
    and mk_val: "mk (val w) = w"
begin

definition fits :: "int \<Rightarrow> bool" where
  "fits n \<longleftrightarrow> lo \<le> n \<and> n \<le> hi"

lemma val_inject: "val w = val w' \<longleftrightarrow> w = w'"
  using mk_val by metis

lemma fits_val: "fits (val w)"
  using val_range by (simp add: fits_def)

lemma mk_inject: "fits m \<Longrightarrow> fits n \<Longrightarrow> mk m = mk n \<longleftrightarrow> m = n"
  unfolding fits_def using val_mk by metis

lemma fits_iff_val: "fits n \<longleftrightarrow> (\<exists>w. val w = n)"
  using val_mk val_range by (auto simp: fits_def)

lemma val_mk_fits: "fits n \<Longrightarrow> val (mk n) = n"
  by (simp add: fits_def val_mk)

end

section \<open>Stores of values under keys\<close>

locale key_store =
  fixes get :: "'s \<Rightarrow> string \<Rightarrow> 'v option"
    and put :: "string \<Rightarrow> 'v \<Rightarrow> 's \<Rightarrow> 's"
    and ok_key :: "string \<Rightarrow> bool"
    and room :: "nat \<Rightarrow> 's \<Rightarrow> bool"
  assumes get_put: "room (Suc n) s \<Longrightarrow> ok_key k \<Longrightarrow> get (put k v s) k' = (if k' = k then Some v else get s k')"
    and room_put: "room (Suc n) s \<Longrightarrow> ok_key k \<Longrightarrow> room n (put k v s)"
begin

fun put_all :: "(string \<times> 'v) list \<Rightarrow> 's \<Rightarrow> 's" where
  "put_all [] s = s"
| "put_all ((k, v) # kvs) s = put_all kvs (put k v s)"

lemma room_put_all: "room (length kvs + n) s \<Longrightarrow> \<forall>(k, v) \<in> set kvs. ok_key k \<Longrightarrow> room n (put_all kvs s)"
  by (induction kvs s rule: put_all.induct) (auto simp: room_put)

lemma get_put_all:
  assumes "room (length kvs + n) s" and "\<forall>(k, v) \<in> set kvs. ok_key k"
  shows "get (put_all kvs s) k = (case map_of (rev kvs) k of None \<Rightarrow> get s k | Some v \<Rightarrow> Some v)"
  using assms
proof (induction kvs s rule: put_all.induct)
  case (1 s)
  then show ?case by simp
next
  case (2 k' v kvs s)
  then show ?case
    by (simp add: room_put get_put map_of_append map_add_def split: option.splits)
qed

lemma put_twice: "room (Suc (Suc n)) s \<Longrightarrow> ok_key k \<Longrightarrow> get (put k v (put k w s)) = get (put k v s)"
  by (rule ext) (simp add: get_put [OF room_put] get_put)

lemma put_commute:
  "room (Suc (Suc n)) s \<Longrightarrow> ok_key k \<Longrightarrow> ok_key k' \<Longrightarrow> k \<noteq> k' \<Longrightarrow>
     get (put k v (put k' w s)) = get (put k' w (put k v s))"
  by (rule ext) (simp add: get_put [OF room_put] get_put)

end

section \<open>Compatibility of a source with a target\<close>

locale compatibility =
  fixes compat :: "'t \<Rightarrow> 't \<Rightarrow> bool"
    and valid :: "'t \<Rightarrow> bool"
  assumes compat_refl: "valid t \<Longrightarrow> compat t t"
    and compat_trans: "valid t \<Longrightarrow> compat s t \<Longrightarrow> compat t u \<Longrightarrow> compat s u"
begin

fun chain :: "'t \<Rightarrow> 't list \<Rightarrow> bool" where
  "chain s [] \<longleftrightarrow> True"
| "chain s (t # ts) \<longleftrightarrow> compat s t \<and> chain t ts"

lemma chain_compat:
  "valid s \<Longrightarrow> \<forall>t \<in> set ts. valid t \<Longrightarrow> chain s ts \<Longrightarrow> compat s (last (s # ts))"
proof (induction s ts rule: chain.induct)
  case (1 s)
  then show ?case by (simp add: compat_refl)
next
  case (2 s t ts)
  then have "compat t (last (t # ts))" by simp
  with 2 show ?case by (auto intro: compat_trans)
qed

end

locale sound_compatibility =
  fixes compat :: "'t \<Rightarrow> 't \<Rightarrow> bool"
    and admissible :: "'t \<Rightarrow> 't \<Rightarrow> bool"
    and accepts :: "'t \<Rightarrow> 'v \<Rightarrow> bool"
  assumes compat_sound: "admissible s t \<Longrightarrow> compat s t \<Longrightarrow> accepts s v \<Longrightarrow> accepts t v"
begin

fun links :: "'t \<Rightarrow> 't list \<Rightarrow> bool" where
  "links s [] \<longleftrightarrow> True"
| "links s (t # ts) \<longleftrightarrow> admissible s t \<and> compat s t \<and> links t ts"

lemma links_accept: "links s ts \<Longrightarrow> accepts s v \<Longrightarrow> t \<in> set (s # ts) \<Longrightarrow> accepts t v"
proof (induction s ts rule: links.induct)
  case (1 s)
  then show ?case by simp
next
  case (2 s u ts)
  from 2(2) have l: "admissible s u" "compat s u" "links u ts" by auto
  have "accepts u v" using l(1,2) 2(3) by (rule compat_sound)
  with 2 l show ?case by auto
qed

end

end
