(* ===== verification/Ten_Type.thy ===== *)
theory Ten_Type
  imports Contracts
begin

text \<open>
  The type tags of the value component: \<open>include/ten_utils/value/type.h\<close> (the enum),
  \<open>include_internal/ten_utils/value/type_info.h\<close> (the name table and the integer and float
  tests) and \<open>src/ten_utils/value/type.c\<close> (name conversions and the compatibility relation).
\<close>

section \<open>The enum and its names\<close>

datatype TEN_TYPE =
    TEN_TYPE_INVALID
  | TEN_TYPE_NULL
  | TEN_TYPE_BOOL
  | TEN_TYPE_INT8
  | TEN_TYPE_INT16
  | TEN_TYPE_INT32
  | TEN_TYPE_INT64
  | TEN_TYPE_UINT8
  | TEN_TYPE_UINT16
  | TEN_TYPE_UINT32
  | TEN_TYPE_UINT64
  | TEN_TYPE_FLOAT32
  | TEN_TYPE_FLOAT64
  | TEN_TYPE_STRING
  | TEN_TYPE_BUF
  | TEN_TYPE_ARRAY
  | TEN_TYPE_OBJECT
  | TEN_TYPE_PTR

text \<open>The enumerators in declaration order: the position is the C value.\<close>

definition ten_type_enum :: "TEN_TYPE list" where
  "ten_type_enum =
     [TEN_TYPE_INVALID, TEN_TYPE_NULL, TEN_TYPE_BOOL,
      TEN_TYPE_INT8, TEN_TYPE_INT16, TEN_TYPE_INT32, TEN_TYPE_INT64,
      TEN_TYPE_UINT8, TEN_TYPE_UINT16, TEN_TYPE_UINT32, TEN_TYPE_UINT64,
      TEN_TYPE_FLOAT32, TEN_TYPE_FLOAT64, TEN_TYPE_STRING, TEN_TYPE_BUF,
      TEN_TYPE_ARRAY, TEN_TYPE_OBJECT, TEN_TYPE_PTR]"

fun ten_type_value :: "TEN_TYPE \<Rightarrow> nat" where
  "ten_type_value TEN_TYPE_INVALID = 0"
| "ten_type_value TEN_TYPE_NULL = 1"
| "ten_type_value TEN_TYPE_BOOL = 2"
| "ten_type_value TEN_TYPE_INT8 = 3"
| "ten_type_value TEN_TYPE_INT16 = 4"
| "ten_type_value TEN_TYPE_INT32 = 5"
| "ten_type_value TEN_TYPE_INT64 = 6"
| "ten_type_value TEN_TYPE_UINT8 = 7"
| "ten_type_value TEN_TYPE_UINT16 = 8"
| "ten_type_value TEN_TYPE_UINT32 = 9"
| "ten_type_value TEN_TYPE_UINT64 = 10"
| "ten_type_value TEN_TYPE_FLOAT32 = 11"
| "ten_type_value TEN_TYPE_FLOAT64 = 12"
| "ten_type_value TEN_TYPE_STRING = 13"
| "ten_type_value TEN_TYPE_BUF = 14"
| "ten_type_value TEN_TYPE_ARRAY = 15"
| "ten_type_value TEN_TYPE_OBJECT = 16"
| "ten_type_value TEN_TYPE_PTR = 17"

lemma ten_type_value_inject [simp]: "ten_type_value s = ten_type_value t \<longleftrightarrow> s = t"
  by (cases s; cases t) simp_all

text \<open>C compares enumerators by value.\<close>

instantiation TEN_TYPE :: linorder
begin

definition less_eq_TEN_TYPE :: "TEN_TYPE \<Rightarrow> TEN_TYPE \<Rightarrow> bool" where
  "less_eq_TEN_TYPE s t \<longleftrightarrow> ten_type_value s \<le> ten_type_value t"

definition less_TEN_TYPE :: "TEN_TYPE \<Rightarrow> TEN_TYPE \<Rightarrow> bool" where
  "less_TEN_TYPE s t \<longleftrightarrow> ten_type_value s < ten_type_value t"

instance
proof
  fix x y z :: TEN_TYPE
  show "x < y \<longleftrightarrow> x \<le> y \<and> \<not> y \<le> x" by (auto simp: less_eq_TEN_TYPE_def less_TEN_TYPE_def)
  show "x \<le> x" by (simp add: less_eq_TEN_TYPE_def)
  show "x \<le> y \<Longrightarrow> y \<le> z \<Longrightarrow> x \<le> z" by (simp add: less_eq_TEN_TYPE_def)
  show "x \<le> y \<Longrightarrow> y \<le> x \<Longrightarrow> x = y" by (simp add: less_eq_TEN_TYPE_def)
  show "x \<le> y \<or> y \<le> x" by (auto simp: less_eq_TEN_TYPE_def)
qed

end

text \<open>\<open>ten_types_info\<close>: the name of each type, \<open>None\<close> for the \<open>NULL\<close> name of the invalid type.\<close>

fun ten_types_info :: "TEN_TYPE \<Rightarrow> string option" where
  "ten_types_info TEN_TYPE_INVALID = None"
| "ten_types_info TEN_TYPE_NULL = Some ''null''"
| "ten_types_info TEN_TYPE_BOOL = Some ''bool''"
| "ten_types_info TEN_TYPE_INT8 = Some ''int8''"
| "ten_types_info TEN_TYPE_INT16 = Some ''int16''"
| "ten_types_info TEN_TYPE_INT32 = Some ''int32''"
| "ten_types_info TEN_TYPE_INT64 = Some ''int64''"
| "ten_types_info TEN_TYPE_UINT8 = Some ''uint8''"
| "ten_types_info TEN_TYPE_UINT16 = Some ''uint16''"
| "ten_types_info TEN_TYPE_UINT32 = Some ''uint32''"
| "ten_types_info TEN_TYPE_UINT64 = Some ''uint64''"
| "ten_types_info TEN_TYPE_FLOAT32 = Some ''float32''"
| "ten_types_info TEN_TYPE_FLOAT64 = Some ''float64''"
| "ten_types_info TEN_TYPE_ARRAY = Some ''array''"
| "ten_types_info TEN_TYPE_OBJECT = Some ''object''"
| "ten_types_info TEN_TYPE_PTR = Some ''ptr''"
| "ten_types_info TEN_TYPE_STRING = Some ''string''"
| "ten_types_info TEN_TYPE_BUF = Some ''buf''"

text \<open>The loop of \<open>ten_type_from_string\<close> over the table, lowest index first.\<close>

fun ten_type_from_string_loop :: "TEN_TYPE list \<Rightarrow> string \<Rightarrow> TEN_TYPE" where
  "ten_type_from_string_loop [] type_str = TEN_TYPE_INVALID"
| "ten_type_from_string_loop (t # ts) type_str =
     (case ten_types_info t of
        Some name \<Rightarrow> if type_str = name then t else ten_type_from_string_loop ts type_str
      | None \<Rightarrow> ten_type_from_string_loop ts type_str)"

definition ten_type_from_string :: "string \<Rightarrow> TEN_TYPE" where
  "ten_type_from_string type_str = ten_type_from_string_loop ten_type_enum type_str"

definition ten_type_to_string :: "TEN_TYPE \<Rightarrow> string option" where
  "ten_type_to_string t = ten_types_info t"

text \<open>A \<open>NULL\<close> argument of \<open>%s\<close> prints as \<open>(null)\<close> in the C libraries the program builds with.\<close>

definition type_text :: "TEN_TYPE \<Rightarrow> string" where
  "type_text t = (case ten_type_to_string t of None \<Rightarrow> ''(null)'' | Some s \<Rightarrow> s)"

lemma type_text_simps [simp]:
  "type_text TEN_TYPE_INT8 = ''int8''" "type_text TEN_TYPE_INT16 = ''int16''"
  "type_text TEN_TYPE_INT32 = ''int32''" "type_text TEN_TYPE_INT64 = ''int64''"
  "type_text TEN_TYPE_UINT8 = ''uint8''" "type_text TEN_TYPE_UINT16 = ''uint16''"
  "type_text TEN_TYPE_UINT32 = ''uint32''" "type_text TEN_TYPE_UINT64 = ''uint64''"
  "type_text TEN_TYPE_FLOAT32 = ''float32''" "type_text TEN_TYPE_FLOAT64 = ''float64''"
  by (simp_all add: type_text_def ten_type_to_string_def)

section \<open>Compatibility\<close>

definition TEN_IS_INTEGER_TYPE :: "TEN_TYPE \<Rightarrow> bool" where
  "TEN_IS_INTEGER_TYPE t \<longleftrightarrow>
     t = TEN_TYPE_INT8 \<or> t = TEN_TYPE_UINT8 \<or> t = TEN_TYPE_INT16 \<or> t = TEN_TYPE_UINT16 \<or>
     t = TEN_TYPE_INT32 \<or> t = TEN_TYPE_UINT32 \<or> t = TEN_TYPE_INT64 \<or> t = TEN_TYPE_UINT64"

definition TEN_IS_FLOAT_TYPE :: "TEN_TYPE \<Rightarrow> bool" where
  "TEN_IS_FLOAT_TYPE t \<longleftrightarrow> t = TEN_TYPE_FLOAT32 \<or> t = TEN_TYPE_FLOAT64"

definition ten_type_is_compatible :: "TEN_TYPE \<Rightarrow> TEN_TYPE \<Rightarrow> bool" where
  "ten_type_is_compatible actual expected =
     (if actual = TEN_TYPE_INVALID \<or> expected = TEN_TYPE_INVALID then False
      else if actual = expected then True
      else if TEN_IS_INTEGER_TYPE expected then TEN_IS_INTEGER_TYPE actual
      else if TEN_IS_FLOAT_TYPE expected then TEN_IS_INTEGER_TYPE actual \<or> TEN_IS_FLOAT_TYPE actual
      else (case expected of
          TEN_TYPE_BOOL \<Rightarrow> actual = TEN_TYPE_BOOL
        | TEN_TYPE_PTR \<Rightarrow> actual = TEN_TYPE_PTR
        | TEN_TYPE_STRING \<Rightarrow> actual = TEN_TYPE_STRING
        | TEN_TYPE_ARRAY \<Rightarrow> actual = TEN_TYPE_ARRAY
        | TEN_TYPE_OBJECT \<Rightarrow> actual = TEN_TYPE_OBJECT
        | TEN_TYPE_BUF \<Rightarrow> actual = TEN_TYPE_BUF
        | TEN_TYPE_NULL \<Rightarrow> actual = TEN_TYPE_NULL
        | _ \<Rightarrow> False))"

text \<open>The relation in closed form: equal and valid, or numeric with no way back from floating
  point to integers.\<close>

lemma ten_type_is_compatible_iff [spec_simps]:
  "ten_type_is_compatible s t \<longleftrightarrow>
     s \<noteq> TEN_TYPE_INVALID \<and>
     (s = t \<or> TEN_IS_INTEGER_TYPE s \<and> (TEN_IS_INTEGER_TYPE t \<or> TEN_IS_FLOAT_TYPE t) \<or>
      TEN_IS_FLOAT_TYPE s \<and> TEN_IS_FLOAT_TYPE t)"
  by (cases s; cases t)
     (simp_all add: ten_type_is_compatible_def TEN_IS_INTEGER_TYPE_def TEN_IS_FLOAT_TYPE_def)

lemma integer_not_float [simp]: "TEN_IS_INTEGER_TYPE t \<Longrightarrow> \<not> TEN_IS_FLOAT_TYPE t"
  by (auto simp: TEN_IS_INTEGER_TYPE_def TEN_IS_FLOAT_TYPE_def)

interpretation type_compat: compatibility ten_type_is_compatible "\<lambda>t. t \<noteq> TEN_TYPE_INVALID"
  by unfold_locales (auto simp: ten_type_is_compatible_iff)

lemma ten_type_is_compatible_valid:
  "ten_type_is_compatible s t \<Longrightarrow> s \<noteq> TEN_TYPE_INVALID \<and> t \<noteq> TEN_TYPE_INVALID"
  by (auto simp: ten_type_is_compatible_iff TEN_IS_INTEGER_TYPE_def TEN_IS_FLOAT_TYPE_def)

section \<open>Names\<close>

lemma ten_type_from_string_loop_sound:
  "ten_type_from_string_loop ts s \<noteq> TEN_TYPE_INVALID \<Longrightarrow>
     ten_types_info (ten_type_from_string_loop ts s) = Some s"
  by (induction ts s rule: ten_type_from_string_loop.induct) (auto split: option.splits)

lemma ten_type_to_from_string:
  "ten_type_from_string s \<noteq> TEN_TYPE_INVALID \<Longrightarrow>
     ten_type_to_string (ten_type_from_string s) = Some s"
  by (simp add: ten_type_to_string_def ten_type_from_string_def ten_type_from_string_loop_sound)

lemma ten_type_from_string_type_text:
  "t \<noteq> TEN_TYPE_INVALID \<Longrightarrow> ten_type_from_string (type_text t) = t"
  by (cases t)
     (simp_all add: type_text_def ten_type_to_string_def ten_type_from_string_def ten_type_enum_def)

lemma ten_type_from_to_string:
  "ten_type_to_string t = Some s \<Longrightarrow> ten_type_from_string s = t"
  using ten_type_from_string_type_text [of t]
  by (cases "t = TEN_TYPE_INVALID") (auto simp: type_text_def ten_type_to_string_def)

section \<open>Correctness\<close>

text \<open>The names of the types and the types correspond one to one: a type prints as a name exactly
  when the name parses to it and it is not the invalid type, which every other string parses to.\<close>

theorem type_names_roundtrip:
  "ten_type_to_string t = Some s \<longleftrightarrow> ten_type_from_string s = t \<and> t \<noteq> TEN_TYPE_INVALID"
  using ten_type_to_from_string ten_type_from_to_string by (auto simp: ten_type_to_string_def)

text \<open>Compatibility of types is decided pairwise and may be chained: along a connection in which
  each type is compatible with the next one, the first type is compatible with the last, and if it
  starts with a floating point type it never ends with an integer type.\<close>

theorem type_compatibility_chains:
  assumes "t \<noteq> TEN_TYPE_INVALID" and "successively ten_type_is_compatible (t # ts)"
  shows "ten_type_is_compatible t (last (t # ts)) \<and>
    (TEN_IS_FLOAT_TYPE t \<longrightarrow> TEN_IS_FLOAT_TYPE (last (t # ts)))"
proof -
  have "type_compat.chain t ts \<and> (\<forall>u \<in> set ts. u \<noteq> TEN_TYPE_INVALID)" using assms(2)
    by (induction ts arbitrary: t) (auto dest: ten_type_is_compatible_valid)
  then have "ten_type_is_compatible t (last (t # ts))"
    using assms(1) type_compat.chain_compat by blast
  then show ?thesis by (auto simp: ten_type_is_compatible_iff)
qed

theorem type_compatibility_chains_witness:
  "successively ten_type_is_compatible [TEN_TYPE_INT32, TEN_TYPE_INT8, TEN_TYPE_FLOAT32] \<and>
   ten_type_is_compatible TEN_TYPE_INT32 TEN_TYPE_FLOAT32"
proof -
  have h: "successively ten_type_is_compatible [TEN_TYPE_INT32, TEN_TYPE_INT8, TEN_TYPE_FLOAT32]" by code_simp
  from type_compatibility_chains [OF _ h] h show ?thesis by simp
qed

end
