(* ===== verification/C_Float.thy ===== *)
theory C_Float
  imports Prelude
begin

text \<open>
  C's \<open>float\<close> and \<open>double\<close> (IEEE 754 binary32 and binary64) as far as the value component uses
  them: conversion from integers, between the two widths and back to integers, and comparison.
  A finite number is \<open>(-1)^s * m * 2^e\<close> with \<open>m\<close> odd or zero, so the representation is unique.
  Rounding is to nearest, ties to even.  A conversion to an integer type whose range does not
  contain the truncated value is undefined in C: its result is a parameter
  (\<open>machine\<close>, one function per integer type), and every theorem says what it needs of it.
\<close>

section \<open>Numbers\<close>

datatype cfloat =
    FFin (cf_neg: bool) (cf_sig: nat) (cf_exp: int)
  | FInf bool
  | FNaN

fun bitlen :: "nat \<Rightarrow> nat" where
  "bitlen n = (if n = 0 then 0 else Suc (bitlen (n div 2)))"

declare bitlen.simps [simp del]

lemma bitlen_0 [simp]: "bitlen 0 = 0"
  by (simp add: bitlen.simps)

lemma bitlen_le_iff: "bitlen n \<le> p \<longleftrightarrow> n < 2 ^ p"
proof (induction n arbitrary: p rule: bitlen.induct)
  case (1 n)
  show ?case
  proof (cases "n = 0")
    case True
    then show ?thesis by simp
  next
    case False
    note step = bitlen.simps [of n]
    show ?thesis
    proof (cases p)
      case 0
      with False step show ?thesis by simp
    next
      case (Suc q)
      from False 1 have "bitlen (n div 2) \<le> q \<longleftrightarrow> n div 2 < 2 ^ q" by blast
      moreover have "n div 2 < 2 ^ q \<longleftrightarrow> n < 2 ^ Suc q" by auto
      ultimately show ?thesis using False step Suc by simp
    qed
  qed
qed

text \<open>Divide by \<open>2^k\<close>, rounding to nearest, ties to even.\<close>

definition rne_shift :: "nat \<Rightarrow> nat \<Rightarrow> nat" where
  "rne_shift m k =
     (let q = m div 2 ^ k; r = m mod 2 ^ k
      in if 2 * r > 2 ^ k \<or> (2 * r = 2 ^ k \<and> odd q) then q + 1 else q)"

lemma rne_shift_0 [simp]: "rne_shift m 0 = m"
  by (simp add: rne_shift_def)

lemma rne_shift_le: "rne_shift m k \<le> m div 2 ^ k + 1"
  by (simp add: rne_shift_def Let_def)

lemma rne_shift_exact: "2 ^ k dvd m \<Longrightarrow> rne_shift m k = m div 2 ^ k"
  by (simp add: rne_shift_def Let_def dvd_eq_mod_eq_0)

text \<open>Move factors of two from the significand to the exponent.\<close>

fun strip2 :: "nat \<Rightarrow> int \<Rightarrow> nat \<times> int" where
  "strip2 m e = (if m = 0 then (0, 0) else if even m then strip2 (m div 2) (e + 1) else (m, e))"

declare strip2.simps [simp del]

lemma strip2_value:
  "0 \<le> e \<Longrightarrow> strip2 m e = (m', e') \<Longrightarrow> 0 \<le> e' \<and> m' * 2 ^ nat e' = m * 2 ^ nat e"
proof (induction m e rule: strip2.induct)
  case (1 m e)
  show ?case
  proof (cases "m = 0 \<or> odd m")
    case True
    with 1(2,3) show ?thesis by (auto simp: strip2.simps [of m e] split: if_splits)
  next
    case False
    then have "strip2 (m div 2) (e + 1) = (m', e')"
      using 1(3) by (simp add: strip2.simps [of m e])
    with 1(1) 1(2) False
    have "0 \<le> e'" and "m' * 2 ^ nat e' = (m div 2) * 2 ^ nat (e + 1)" by simp_all
    moreover have "m div 2 * 2 ^ nat (e + 1) = m * 2 ^ nat e"
      using False \<open>0 \<le> e\<close> by (simp add: nat_add_distrib)
    ultimately show ?thesis by simp
  qed
qed

text \<open>
  Round \<open>(-1)^neg * m * 2^e\<close> to a format with \<open>prec\<close> significant bits, least exponent \<open>emin\<close> (of
  the last bit of a subnormal number) and overflow threshold \<open>2^emax\<close>.
\<close>

definition ieee_round :: "nat \<Rightarrow> int \<Rightarrow> int \<Rightarrow> bool \<Rightarrow> nat \<Rightarrow> int \<Rightarrow> cfloat" where
  "ieee_round prec emin emax neg m e =
     (let k = max (int (bitlen m) - int prec) (emin - e);
          m1 = (if k > 0 then rne_shift m (nat k) else m);
          e1 = (if k > 0 then e + k else e);
          me2 = strip2 m1 e1
      in if int (bitlen (fst me2)) + snd me2 > emax then FInf neg else FFin neg (fst me2) (snd me2))"

definition round32 :: "bool \<Rightarrow> nat \<Rightarrow> int \<Rightarrow> cfloat" where
  "round32 = ieee_round 24 (- 149) 128"

definition round64 :: "bool \<Rightarrow> nat \<Rightarrow> int \<Rightarrow> cfloat" where
  "round64 = ieee_round 53 (- 1074) 1024"

section \<open>Conversions and comparisons\<close>

definition f32_of_int :: "int \<Rightarrow> cfloat" where
  "f32_of_int n = round32 (n < 0) (nat \<bar>n\<bar>) 0"

definition f64_of_int :: "int \<Rightarrow> cfloat" where
  "f64_of_int n = round64 (n < 0) (nat \<bar>n\<bar>) 0"

text \<open>\<open>(float)\<close> of a \<open>double\<close>; \<open>(double)\<close> of a \<open>float\<close> is exact, so it is the identity here.\<close>

fun f32_of_f64 :: "cfloat \<Rightarrow> cfloat" where
  "f32_of_f64 (FFin s m e) = round32 s m e"
| "f32_of_f64 f = f"

definition FLT_MAX :: cfloat where
  "FLT_MAX = FFin False (2 ^ 24 - 1) 104"

fun cf_minus :: "cfloat \<Rightarrow> cfloat" where
  "cf_minus (FFin s m e) = FFin (\<not> s) m e"
| "cf_minus (FInf s) = FInf (\<not> s)"
| "cf_minus FNaN = FNaN"

definition scaled :: "bool \<Rightarrow> nat \<Rightarrow> int \<Rightarrow> int \<Rightarrow> int" where
  "scaled s m e k = (if s then - int m else int m) * 2 ^ nat (e - k)"

fun cf_less :: "cfloat \<Rightarrow> cfloat \<Rightarrow> bool" where
  "cf_less (FFin s m e) (FFin s' m' e') \<longleftrightarrow> scaled s m e (min e e') < scaled s' m' e' (min e e')"
| "cf_less (FFin s m e) (FInf s') \<longleftrightarrow> \<not> s'"
| "cf_less (FInf s) (FFin s' m' e') \<longleftrightarrow> s"
| "cf_less (FInf s) (FInf s') \<longleftrightarrow> s \<and> \<not> s'"
| "cf_less _ _ \<longleftrightarrow> False"

fun cf_eq :: "cfloat \<Rightarrow> cfloat \<Rightarrow> bool" where
  "cf_eq (FFin s m e) (FFin s' m' e') \<longleftrightarrow> scaled s m e (min e e') = scaled s' m' e' (min e e')"
| "cf_eq (FInf s) (FInf s') \<longleftrightarrow> s = s'"
| "cf_eq _ _ \<longleftrightarrow> False"

definition cf_le :: "cfloat \<Rightarrow> cfloat \<Rightarrow> bool" where
  "cf_le a b \<longleftrightarrow> cf_less a b \<or> cf_eq a b"

lemma cf_eq_refl [simp]: "cf_eq f f \<longleftrightarrow> f \<noteq> FNaN"
  by (cases f) auto

lemma cf_eq_sym: "cf_eq a b \<longleftrightarrow> cf_eq b a"
  by (cases a; cases b) (auto simp: min.commute)

text \<open>Truncation towards zero, the value C converts to an integer type.\<close>

fun cf_trunc :: "cfloat \<Rightarrow> int option" where
  "cf_trunc (FFin s m e) =
     (let t = (if e \<ge> 0 then int m * 2 ^ nat e else int m div 2 ^ nat (- e))
      in Some (if s then - t else t))"
| "cf_trunc _ = None"

text \<open>The number itself, where it is an integer.\<close>

fun cf_int :: "cfloat \<Rightarrow> int option" where
  "cf_int (FFin s m e) =
     (if e \<ge> 0 then Some ((if s then -1 else 1) * (int m * 2 ^ nat e)) else None)"
| "cf_int _ = None"

lemma cf_int_trunc: "cf_int f = Some n \<Longrightarrow> cf_trunc f = Some n"
  by (cases f) (auto split: if_splits)

section \<open>Undefined conversions\<close>

text \<open>The result a machine gives for a float to integer conversion that is out of range.\<close>

record machine =
  ub_i32 :: "cfloat \<Rightarrow> 32 word"
  ub_i64 :: "cfloat \<Rightarrow> 64 word"
  ub_u32 :: "cfloat \<Rightarrow> 32 word"
  ub_u64 :: "cfloat \<Rightarrow> 64 word"

definition cast_i32 :: "machine \<Rightarrow> cfloat \<Rightarrow> 32 word" where
  "cast_i32 mach f = (case cf_trunc f of
      Some n \<Rightarrow> if - (2 ^ 31) \<le> n \<and> n < 2 ^ 31 then word_of_int n else ub_i32 mach f
    | None \<Rightarrow> ub_i32 mach f)"

definition cast_i64 :: "machine \<Rightarrow> cfloat \<Rightarrow> 64 word" where
  "cast_i64 mach f = (case cf_trunc f of
      Some n \<Rightarrow> if - (2 ^ 63) \<le> n \<and> n < 2 ^ 63 then word_of_int n else ub_i64 mach f
    | None \<Rightarrow> ub_i64 mach f)"

definition cast_u32 :: "machine \<Rightarrow> cfloat \<Rightarrow> 32 word" where
  "cast_u32 mach f = (case cf_trunc f of
      Some n \<Rightarrow> if - 1 < n \<and> n < 2 ^ 32 then word_of_int n else ub_u32 mach f
    | None \<Rightarrow> ub_u32 mach f)"

definition cast_u64 :: "machine \<Rightarrow> cfloat \<Rightarrow> 64 word" where
  "cast_u64 mach f = (case cf_trunc f of
      Some n \<Rightarrow> if - 1 < n \<and> n < 2 ^ 64 then word_of_int n else ub_u64 mach f
    | None \<Rightarrow> ub_u64 mach f)"

text \<open>Two common machines: one returns the ``integer indefinite'' value, the other saturates.\<close>

definition indefinite_machine :: machine where
  "indefinite_machine = \<lparr>
     ub_i32 = (\<lambda>_. 0x80000000), ub_i64 = (\<lambda>_. 0x8000000000000000),
     ub_u32 = (\<lambda>_. 0x80000000), ub_u64 = (\<lambda>_. 0x8000000000000000)\<rparr>"

fun cf_positive :: "cfloat \<Rightarrow> bool" where
  "cf_positive (FFin s m e) \<longleftrightarrow> \<not> s"
| "cf_positive (FInf s) \<longleftrightarrow> \<not> s"
| "cf_positive FNaN \<longleftrightarrow> False"

definition saturating_machine :: machine where
  "saturating_machine = \<lparr>
     ub_i32 = (\<lambda>f. if cf_positive f then 0x7FFFFFFF else if f = FNaN then 0 else 0x80000000),
     ub_i64 = (\<lambda>f. if cf_positive f then 0x7FFFFFFFFFFFFFFF
                   else if f = FNaN then 0 else 0x8000000000000000),
     ub_u32 = (\<lambda>f. if cf_positive f then 0xFFFFFFFF else 0),
     ub_u64 = (\<lambda>f. if cf_positive f then 0xFFFFFFFFFFFFFFFF else 0)\<rparr>"

section \<open>Integers in floating-point formats\<close>

lemma ieee_round_exact:
  assumes "bitlen m \<le> p" and "emin \<le> 0" and "int p \<le> emax"
  shows "\<exists>m' e'. strip2 m 0 = (m', e') \<and> 0 \<le> e' \<and> m' * 2 ^ nat e' = m \<and>
           ieee_round p emin emax s m 0 = FFin s m' e'"
proof -
  obtain m' e' where st: "strip2 m 0 = (m', e')" by force
  from strip2_value [OF _ st] have e: "0 \<le> e'" and v: "m' * 2 ^ nat e' = m" by simp_all
  from v assms(1) have "m' * 2 ^ nat e' < 2 ^ p" by (simp add: bitlen_le_iff)
  have "int (bitlen m') + e' \<le> emax"
  proof (cases "m' = 0")
    case True
    have "e' = 0" using st True v by (auto simp: strip2.simps [of m 0] split: if_splits)
    with True assms show ?thesis by simp
  next
    case False
    then have "2 ^ nat e' \<le> m' * 2 ^ nat e'" by simp
    with \<open>m' * 2 ^ nat e' < 2 ^ p\<close> have "(2::nat) ^ nat e' < 2 ^ p" by linarith
    then have le: "nat e' < p" by simp
    then have "m' * 2 ^ nat e' < 2 ^ (p - nat e') * 2 ^ nat e'"
      using \<open>m' * 2 ^ nat e' < 2 ^ p\<close> by (simp flip: power_add)
    then have "m' < 2 ^ (p - nat e')" by simp
    then have "bitlen m' \<le> p - nat e'" by (simp add: bitlen_le_iff)
    with le e assms(3) show ?thesis by linarith
  qed
  moreover have "\<not> 0 < max (int (bitlen m) - int p) (emin - 0)" using assms by simp
  ultimately show ?thesis using st e v by (simp add: ieee_round_def Let_def)
qed

text \<open>An integer rounds to an integer: no fraction bits appear.\<close>

lemma ieee_round_integer:
  assumes "emin \<le> 0"
  shows "ieee_round p emin emax s m 0 = FInf s \<or>
         (\<exists>m' e'. ieee_round p emin emax s m 0 = FFin s m' e' \<and> 0 \<le> e')"
proof -
  define k where "k = max (int (bitlen m) - int p) (emin - 0)"
  define m1 where "m1 = (if k > 0 then rne_shift m (nat k) else m)"
  define e1 where "e1 = (if k > 0 then 0 + k else (0::int))"
  obtain m' e' where st: "strip2 m1 e1 = (m', e')" by force
  have "0 \<le> e1" by (simp add: e1_def)
  with strip2_value [OF _ st] have "0 \<le> e'" by simp
  have "ieee_round p emin emax s m 0 = FInf s \<or> ieee_round p emin emax s m 0 = FFin s m' e'"
    unfolding ieee_round_def Let_def k_def [symmetric] m1_def [symmetric] e1_def [symmetric]
    using st by simp
  with \<open>0 \<le> e'\<close> show ?thesis by blast
qed

lemma cf_int_of_int_exact:
  assumes "\<bar>n\<bar> < 2 ^ p" and "emin \<le> 0" and "int p \<le> emax"
  shows "cf_int (ieee_round p emin emax (n < 0) (nat \<bar>n\<bar>) 0) = Some n"
proof -
  have "bitlen (nat \<bar>n\<bar>) \<le> p" using assms(1) by (simp add: bitlen_le_iff nat_less_iff)
  from ieee_round_exact [OF this assms(2,3)] obtain m' e' where "0 \<le> e'"
    and v: "m' * 2 ^ nat e' = nat \<bar>n\<bar>"
    and r: "ieee_round p emin emax (n < 0) (nat \<bar>n\<bar>) 0 = FFin (n < 0) m' e'" by blast
  have "int m' * 2 ^ nat e' = \<bar>n\<bar>"
  proof -
    have "int (m' * 2 ^ nat e') = int (nat \<bar>n\<bar>)" by (simp only: v)
    then show ?thesis by simp
  qed
  with r \<open>0 \<le> e'\<close> show ?thesis by simp
qed

lemma f32_of_int_exact: "\<bar>n\<bar> < 2 ^ 24 \<Longrightarrow> cf_int (f32_of_int n) = Some n"
  by (simp add: f32_of_int_def round32_def cf_int_of_int_exact)

lemma f64_of_int_exact: "\<bar>n\<bar> < 2 ^ 53 \<Longrightarrow> cf_int (f64_of_int n) = Some n"
  by (simp add: f64_of_int_def round64_def cf_int_of_int_exact)

text \<open>A conversion back that gives the same integer means that nothing was lost.\<close>

lemma f32_of_int_back:
  "cf_trunc (f32_of_int n) = Some k \<Longrightarrow> cf_int (f32_of_int n) = Some k"
  using ieee_round_integer [of "- 149" 24 128 "n < 0" "nat \<bar>n\<bar>"]
  by (auto simp: f32_of_int_def round32_def)

lemma f64_of_int_back:
  "cf_trunc (f64_of_int n) = Some k \<Longrightarrow> cf_int (f64_of_int n) = Some k"
  using ieee_round_integer [of "- 1074" 53 1024 "n < 0" "nat \<bar>n\<bar>"]
  by (auto simp: f64_of_int_def round64_def)

text \<open>Rounding an integer never passes a power of two.\<close>

lemma rne_shift_bound:
  assumes "m \<le> 2 ^ p" and "k \<le> p"
  shows "rne_shift m k * 2 ^ k \<le> 2 ^ p"
proof (cases "m = 2 ^ p")
  case True
  with assms have "2 ^ k dvd m" by (simp add: le_imp_power_dvd)
  with True show ?thesis by (simp add: rne_shift_exact)
next
  case False
  with assms have "m < 2 ^ (p - k) * 2 ^ k" by (simp flip: power_add)
  then have "m div 2 ^ k < 2 ^ (p - k)" by (simp add: less_mult_imp_div_less)
  with rne_shift_le [of m k] have "rne_shift m k \<le> 2 ^ (p - k)" by linarith
  then have "rne_shift m k * 2 ^ k \<le> 2 ^ (p - k) * 2 ^ k" by (rule mult_right_mono) simp
  with assms show ?thesis by (simp flip: power_add)
qed

lemma bitlen_scaled:
  assumes "m * 2 ^ e \<le> 2 ^ p" and "m \<noteq> 0"
  shows "bitlen m + e \<le> p + 1"
proof -
  from assms have "(2::nat) ^ e \<le> 2 ^ p" by (metis mult_le_mono1 nat_mult_1 le_trans less_one not_le)
  then have "e \<le> p" by simp
  with assms have "m * 2 ^ e < 2 ^ (p + 1 - e) * 2 ^ e" 
    by (simp flip: power_add add: le_less_trans)
  then have "m < 2 ^ (p + 1 - e)" by simp
  then have "bitlen m \<le> p + 1 - e" by (simp add: bitlen_le_iff)
  with \<open>e \<le> p\<close> show ?thesis by simp
qed

lemma ieee_round_bound:
  assumes m: "m \<le> 2 ^ p" and p: "int p + 1 \<le> emax" "emin \<le> 0" "0 < prec"
  shows "\<exists>m' e'. ieee_round prec emin emax s m 0 = FFin s m' e' \<and> 0 \<le> e' \<and> m' * 2 ^ nat e' \<le> 2 ^ p"
proof -
  define k where "k = max (int (bitlen m) - int prec) (emin - 0)"
  define m1 where "m1 = (if k > 0 then rne_shift m (nat k) else m)"
  define e1 where "e1 = (if k > 0 then 0 + k else (0::int))"
  obtain m' e' where st: "strip2 m1 e1 = (m', e')" by force
  have "0 \<le> e1" by (simp add: e1_def)
  with strip2_value [OF _ st] have e: "0 \<le> e'" and v: "m' * 2 ^ nat e' = m1 * 2 ^ nat e1" by simp_all
  have "m < 2 ^ (p + 1)" using m by (simp add: le_less_trans)
  then have "bitlen m \<le> p + 1" by (simp add: bitlen_le_iff)
  then have "k > 0 \<Longrightarrow> nat k \<le> p" using p by (simp add: k_def)
  then have "m1 * 2 ^ nat e1 \<le> 2 ^ p"
    using m rne_shift_bound [of m p "nat k"] by (simp add: m1_def e1_def)
  with v have le: "m' * 2 ^ nat e' \<le> 2 ^ p" by simp
  have "\<not> int (bitlen m') + e' > emax"
  proof (cases "m' = 0")
    case True
    then have "m1 = 0" using v by simp
    then have "e' = 0" using st by (simp add: strip2.simps)
    with True p show ?thesis by simp
  next
    case False
    from bitlen_scaled [OF le False] e p show ?thesis by linarith
  qed
  then have "ieee_round prec emin emax s m 0 = FFin s m' e'"
    unfolding ieee_round_def Let_def k_def [symmetric] m1_def [symmetric] e1_def [symmetric]
    using st by simp
  with e le show ?thesis by blast
qed

lemma f32_of_int_bound:
  assumes "\<bar>n\<bar> \<le> 2 ^ p" and "p \<le> 100"
  shows "\<exists>k. cf_int (f32_of_int n) = Some k \<and> \<bar>k\<bar> \<le> 2 ^ p \<and> (0 \<le> n \<longrightarrow> 0 \<le> k)"
proof -
  have "nat \<bar>n\<bar> \<le> 2 ^ p" using assms(1) by (simp add: nat_le_iff)
  from ieee_round_bound [OF this, of 128 "- 149" 24 "n < 0"] assms(2) obtain m' e' where
    r: "f32_of_int n = FFin (n < 0) m' e'" and e: "0 \<le> e'" and le: "m' * 2 ^ nat e' \<le> 2 ^ p"
    by (auto simp: f32_of_int_def round32_def)
  from le have "int (m' * 2 ^ nat e') \<le> int (2 ^ p)" by (simp only: of_nat_le_iff)
  then have "int m' * 2 ^ nat e' \<le> 2 ^ p" by simp
  with r e show ?thesis by (auto simp: abs_mult)
qed
lemma f32_of_int_16777217: "f32_of_int 16777217 = FFin False 1 24"
  by (simp add: f32_of_int_def round32_def ieee_round_def rne_shift_def bitlen.simps strip2.simps
      Let_def)

end
