(* ===== verification/Ten_Value.thy ===== *)
theory Ten_Value
  imports Ten_Type C_Float
begin

unbundle bit_operations_syntax

text \<open>
  The tagged union \<open>ten_value_t\<close> of \<open>include/ten_utils/value/value.h\<close>, its constructors,
  setters, clone and equality (\<open>src/ten_utils/value/value.c\<close>, \<open>value_set.c\<close>, \<open>value_is.c\<close>), and
  key-value pairs as far as cloning needs them (\<open>value_kv.c\<close>).

  A value is a constructor per type tag with the union member that the tag selects.  Arrays and
  objects hold their elements in list order; the lists are owned, so no two values share one.
  The debug name of a value, and the user-supplied construct, copy and destruct handlers of a
  pointer value, are left out: a pointer is an address that is copied as it is.
\<close>

section \<open>Buffers and values\<close>

record ten_buf =
  buf_signed :: bool          \<comment> \<open>the integrity signature is set\<close>
  buf_data :: "8 word list"   \<comment> \<open>the \<open>size\<close> bytes at \<open>data\<close>\<close>
  buf_content_size :: nat
  buf_owns_memory :: bool
  buf_is_fixed_size :: bool

datatype ten_value =
    VInvalid
  | VNull
  | VBool (content_boolean: bool)
  | VInt8 (content_int8: "8 word")
  | VInt16 (content_int16: "16 word")
  | VInt32 (content_int32: "32 word")
  | VInt64 (content_int64: "64 word")
  | VUint8 (content_uint8: "8 word")
  | VUint16 (content_uint16: "16 word")
  | VUint32 (content_uint32: "32 word")
  | VUint64 (content_uint64: "64 word")
  | VFloat32 (content_float32: cfloat)
  | VFloat64 (content_float64: cfloat)
  | VString (content_string: string)
  | VBuf (content_buf: ten_buf)
  | VArray (content_array: "ten_value list")
  | VObject (content_object: "(string \<times> ten_value) list")
  | VPtr (content_ptr: "64 word")

fun ten_value_get_type :: "ten_value \<Rightarrow> TEN_TYPE" where
  "ten_value_get_type VInvalid = TEN_TYPE_INVALID"
| "ten_value_get_type VNull = TEN_TYPE_NULL"
| "ten_value_get_type (VBool _) = TEN_TYPE_BOOL"
| "ten_value_get_type (VInt8 _) = TEN_TYPE_INT8"
| "ten_value_get_type (VInt16 _) = TEN_TYPE_INT16"
| "ten_value_get_type (VInt32 _) = TEN_TYPE_INT32"
| "ten_value_get_type (VInt64 _) = TEN_TYPE_INT64"
| "ten_value_get_type (VUint8 _) = TEN_TYPE_UINT8"
| "ten_value_get_type (VUint16 _) = TEN_TYPE_UINT16"
| "ten_value_get_type (VUint32 _) = TEN_TYPE_UINT32"
| "ten_value_get_type (VUint64 _) = TEN_TYPE_UINT64"
| "ten_value_get_type (VFloat32 _) = TEN_TYPE_FLOAT32"
| "ten_value_get_type (VFloat64 _) = TEN_TYPE_FLOAT64"
| "ten_value_get_type (VString _) = TEN_TYPE_STRING"
| "ten_value_get_type (VBuf _) = TEN_TYPE_BUF"
| "ten_value_get_type (VArray _) = TEN_TYPE_ARRAY"
| "ten_value_get_type (VObject _) = TEN_TYPE_OBJECT"
| "ten_value_get_type (VPtr _) = TEN_TYPE_PTR"

text \<open>Type tests of \<open>value_is.c\<close>.\<close>

definition ten_value_is_object :: "ten_value \<Rightarrow> bool" where
  "ten_value_is_object v \<longleftrightarrow> ten_value_get_type v = TEN_TYPE_OBJECT"

definition ten_value_is_array :: "ten_value \<Rightarrow> bool" where
  "ten_value_is_array v \<longleftrightarrow> ten_value_get_type v = TEN_TYPE_ARRAY"

definition ten_value_is_string :: "ten_value \<Rightarrow> bool" where
  "ten_value_is_string v \<longleftrightarrow> ten_value_get_type v = TEN_TYPE_STRING"

definition ten_value_is_invalid :: "ten_value \<Rightarrow> bool" where
  "ten_value_is_invalid v \<longleftrightarrow> ten_value_get_type v = TEN_TYPE_INVALID"

definition ten_value_is_valid :: "ten_value \<Rightarrow> bool" where
  "ten_value_is_valid v \<longleftrightarrow> (case ten_value_get_type v of TEN_TYPE_INVALID \<Rightarrow> False | _ \<Rightarrow> True)"

definition ten_value_is_number :: "ten_value \<Rightarrow> bool" where
  "ten_value_is_number v \<longleftrightarrow>
     ten_value_get_type v = TEN_TYPE_INT32 \<or> ten_value_get_type v = TEN_TYPE_INT64 \<or>
     ten_value_get_type v = TEN_TYPE_FLOAT32 \<or> ten_value_get_type v = TEN_TYPE_FLOAT64"

lemma ten_value_is_object_iff [simp]: "ten_value_is_object v \<longleftrightarrow> (\<exists>kvs. v = VObject kvs)"
  by (cases v) (simp_all add: ten_value_is_object_def)

lemma ten_value_is_array_iff [simp]: "ten_value_is_array v \<longleftrightarrow> (\<exists>vs. v = VArray vs)"
  by (cases v) (simp_all add: ten_value_is_array_def)

lemma ten_value_is_string_iff [simp]: "ten_value_is_string v \<longleftrightarrow> (\<exists>s. v = VString s)"
  by (cases v) (simp_all add: ten_value_is_string_def)

lemma ten_value_is_valid_iff [simp]: "ten_value_is_valid v \<longleftrightarrow> v \<noteq> VInvalid"
  by (cases v) (simp_all add: ten_value_is_valid_def)

section \<open>Constructors and setters\<close>

text \<open>
  \<open>ten_value_init_<type>\<close> clears the whole structure, sets the tag and stores one union member;
  \<open>ten_value_create_<type>\<close> allocates and initialises.
\<close>

definition ten_value_init_int8 :: "8 word \<Rightarrow> ten_value" where "ten_value_init_int8 w = VInt8 w"
definition ten_value_init_int16 :: "16 word \<Rightarrow> ten_value" where "ten_value_init_int16 w = VInt16 w"
definition ten_value_init_int32 :: "32 word \<Rightarrow> ten_value" where "ten_value_init_int32 w = VInt32 w"
definition ten_value_init_int64 :: "64 word \<Rightarrow> ten_value" where "ten_value_init_int64 w = VInt64 w"
definition ten_value_init_uint8 :: "8 word \<Rightarrow> ten_value" where "ten_value_init_uint8 w = VUint8 w"
definition ten_value_init_uint16 :: "16 word \<Rightarrow> ten_value" where "ten_value_init_uint16 w = VUint16 w"
definition ten_value_init_uint32 :: "32 word \<Rightarrow> ten_value" where "ten_value_init_uint32 w = VUint32 w"
definition ten_value_init_uint64 :: "64 word \<Rightarrow> ten_value" where "ten_value_init_uint64 w = VUint64 w"
definition ten_value_init_float32 :: "cfloat \<Rightarrow> ten_value" where "ten_value_init_float32 f = VFloat32 f"
definition ten_value_init_float64 :: "cfloat \<Rightarrow> ten_value" where "ten_value_init_float64 f = VFloat64 f"
definition ten_value_init_bool :: "bool \<Rightarrow> ten_value" where "ten_value_init_bool b = VBool b"

lemmas ten_value_init_defs [simp] =
  ten_value_init_int8_def ten_value_init_int16_def ten_value_init_int32_def ten_value_init_int64_def
  ten_value_init_uint8_def ten_value_init_uint16_def ten_value_init_uint32_def
  ten_value_init_uint64_def ten_value_init_float32_def ten_value_init_float64_def
  ten_value_init_bool_def

text \<open>\<open>"%.*s"\<close> copies at most \<open>len\<close> characters, up to the end of the string.\<close>

definition ten_value_init_string_with_size :: "string \<Rightarrow> nat \<Rightarrow> ten_value" where
  "ten_value_init_string_with_size str len = VString (take len str)"

definition ten_value_create_string :: "string \<Rightarrow> ten_value" where
  "ten_value_create_string str = ten_value_init_string_with_size str (length str)"

text \<open>A list that is passed is moved into the value; \<open>NULL\<close> gives an empty one.\<close>

definition ten_value_init_array_with_move :: "ten_value list option \<Rightarrow> ten_value" where
  "ten_value_init_array_with_move l = VArray (case l of None \<Rightarrow> [] | Some vs \<Rightarrow> vs)"

definition ten_value_init_object_with_move :: "(string \<times> ten_value) list option \<Rightarrow> ten_value" where
  "ten_value_init_object_with_move l = VObject (case l of None \<Rightarrow> [] | Some kvs \<Rightarrow> kvs)"

text \<open>The setters of \<open>value_set.c\<close> assert the tag and overwrite the union member.\<close>

definition ten_value_set_int64 :: "ten_value \<Rightarrow> 64 word \<Rightarrow> ten_value run" where
  "ten_value_set_int64 v w = (if ten_value_get_type v = TEN_TYPE_INT64 then Ret (VInt64 w) else Abort)"

definition ten_value_set_int32 :: "ten_value \<Rightarrow> 32 word \<Rightarrow> ten_value run" where
  "ten_value_set_int32 v w = (if ten_value_get_type v = TEN_TYPE_INT32 then Ret (VInt32 w) else Abort)"

definition ten_value_set_int16 :: "ten_value \<Rightarrow> 16 word \<Rightarrow> ten_value run" where
  "ten_value_set_int16 v w = (if ten_value_get_type v = TEN_TYPE_INT16 then Ret (VInt16 w) else Abort)"

definition ten_value_set_int8 :: "ten_value \<Rightarrow> 8 word \<Rightarrow> ten_value run" where
  "ten_value_set_int8 v w = (if ten_value_get_type v = TEN_TYPE_INT8 then Ret (VInt8 w) else Abort)"

definition ten_value_set_uint64 :: "ten_value \<Rightarrow> 64 word \<Rightarrow> ten_value run" where
  "ten_value_set_uint64 v w = (if ten_value_get_type v = TEN_TYPE_UINT64 then Ret (VUint64 w) else Abort)"

definition ten_value_set_uint32 :: "ten_value \<Rightarrow> 32 word \<Rightarrow> ten_value run" where
  "ten_value_set_uint32 v w = (if ten_value_get_type v = TEN_TYPE_UINT32 then Ret (VUint32 w) else Abort)"

definition ten_value_set_uint16 :: "ten_value \<Rightarrow> 16 word \<Rightarrow> ten_value run" where
  "ten_value_set_uint16 v w = (if ten_value_get_type v = TEN_TYPE_UINT16 then Ret (VUint16 w) else Abort)"

definition ten_value_set_uint8 :: "ten_value \<Rightarrow> 8 word \<Rightarrow> ten_value run" where
  "ten_value_set_uint8 v w = (if ten_value_get_type v = TEN_TYPE_UINT8 then Ret (VUint8 w) else Abort)"

definition ten_value_set_bool :: "ten_value \<Rightarrow> bool \<Rightarrow> ten_value run" where
  "ten_value_set_bool v b = (if ten_value_get_type v = TEN_TYPE_BOOL then Ret (VBool b) else Abort)"

definition ten_value_set_float32 :: "ten_value \<Rightarrow> cfloat \<Rightarrow> ten_value run" where
  "ten_value_set_float32 v f = (if ten_value_get_type v = TEN_TYPE_FLOAT32 then Ret (VFloat32 f) else Abort)"

definition ten_value_set_float64 :: "ten_value \<Rightarrow> cfloat \<Rightarrow> ten_value run" where
  "ten_value_set_float64 v f = (if ten_value_get_type v = TEN_TYPE_FLOAT64 then Ret (VFloat64 f) else Abort)"

definition ten_value_set_string_with_size :: "ten_value \<Rightarrow> string \<Rightarrow> nat \<Rightarrow> ten_value run" where
  "ten_value_set_string_with_size v str len =
     (if ten_value_is_string v then Ret (VString (take len str)) else Abort)"

definition ten_value_set_array_with_move :: "ten_value \<Rightarrow> ten_value list \<Rightarrow> ten_value run" where
  "ten_value_set_array_with_move v vs = (if ten_value_get_type v = TEN_TYPE_ARRAY then Ret (VArray vs) else Abort)"

definition ten_value_set_object_with_move :: "ten_value \<Rightarrow> (string \<times> ten_value) list \<Rightarrow> ten_value run" where
  "ten_value_set_object_with_move v kvs = (if ten_value_get_type v = TEN_TYPE_OBJECT then Ret (VObject kvs) else Abort)"

section \<open>The numeric reading of a value\<close>

text \<open>The mathematical integer in an integer value: the specification of the conversions.\<close>

fun int_value :: "ten_value \<Rightarrow> int option" where
  "int_value (VInt8 w) = Some (sint w)"
| "int_value (VInt16 w) = Some (sint w)"
| "int_value (VInt32 w) = Some (sint w)"
| "int_value (VInt64 w) = Some (sint w)"
| "int_value (VUint8 w) = Some (uint w)"
| "int_value (VUint16 w) = Some (uint w)"
| "int_value (VUint32 w) = Some (uint w)"
| "int_value (VUint64 w) = Some (uint w)"
| "int_value _ = None"

lemma int_value_type: "(\<exists>n. int_value v = Some n) \<longleftrightarrow> TEN_IS_INTEGER_TYPE (ten_value_get_type v)"
  by (cases v) (simp_all add: TEN_IS_INTEGER_TYPE_def)

text \<open>The least and greatest integer of an integer type.\<close>

fun type_min :: "TEN_TYPE \<Rightarrow> int" where
  "type_min TEN_TYPE_INT8 = - 128"
| "type_min TEN_TYPE_INT16 = - 32768"
| "type_min TEN_TYPE_INT32 = - 2147483648"
| "type_min TEN_TYPE_INT64 = - 9223372036854775808"
| "type_min _ = 0"

fun type_max :: "TEN_TYPE \<Rightarrow> int" where
  "type_max TEN_TYPE_INT8 = 127"
| "type_max TEN_TYPE_INT16 = 32767"
| "type_max TEN_TYPE_INT32 = 2147483647"
| "type_max TEN_TYPE_INT64 = 9223372036854775807"
| "type_max TEN_TYPE_UINT8 = 255"
| "type_max TEN_TYPE_UINT16 = 65535"
| "type_max TEN_TYPE_UINT32 = 4294967295"
| "type_max TEN_TYPE_UINT64 = 18446744073709551615"
| "type_max _ = 0"

text \<open>The value of an integer type that holds a given integer.\<close>

fun mk_int :: "TEN_TYPE \<Rightarrow> int \<Rightarrow> ten_value" where
  "mk_int TEN_TYPE_INT8 n = VInt8 (word_of_int n)"
| "mk_int TEN_TYPE_INT16 n = VInt16 (word_of_int n)"
| "mk_int TEN_TYPE_INT32 n = VInt32 (word_of_int n)"
| "mk_int TEN_TYPE_INT64 n = VInt64 (word_of_int n)"
| "mk_int TEN_TYPE_UINT8 n = VUint8 (word_of_int n)"
| "mk_int TEN_TYPE_UINT16 n = VUint16 (word_of_int n)"
| "mk_int TEN_TYPE_UINT32 n = VUint32 (word_of_int n)"
| "mk_int TEN_TYPE_UINT64 n = VUint64 (word_of_int n)"
| "mk_int _ n = VInvalid"

lemma sint_bounds:
  fixes w :: "'a::len word"
  shows "- (2 ^ (LENGTH('a) - 1)) \<le> sint w" and "sint w \<le> 2 ^ (LENGTH('a) - 1) - 1"
  using sint_ge [of w] sint_lt [of w] by simp_all

lemma uint_bounds:
  fixes w :: "'a::len word"
  shows "0 \<le> uint w" and "uint w \<le> 2 ^ LENGTH('a) - 1"
  using uint_lt2p [of w] by simp_all

lemma sint_of_int_range:
  assumes "- (2 ^ (LENGTH('a::len) - 1)) \<le> n" and "n \<le> 2 ^ (LENGTH('a) - 1) - 1"
  shows "sint (word_of_int n :: 'a word) = n"
proof -
  have "(2::int) ^ LENGTH('a) = 2 * 2 ^ (LENGTH('a) - 1)"
    by (metis One_nat_def len_gt_0 power_Suc Suc_pred)
  with assms have "(n + 2 ^ (LENGTH('a) - 1)) mod 2 ^ LENGTH('a) = n + 2 ^ (LENGTH('a) - 1)"
    by (intro mod_pos_pos_trivial) linarith+
  then show ?thesis by (simp add: int_word_sint)
qed

lemma uint_of_int_range:
  "0 \<le> n \<Longrightarrow> n \<le> 2 ^ LENGTH('a::len) - 1 \<Longrightarrow> uint (word_of_int n :: 'a word) = n"
  by (simp add: uint_word_of_int)

lemma int_repr_sint:
  "int_repr (sint :: 'a::len word \<Rightarrow> int) word_of_int
     (- (2 ^ (LENGTH('a) - 1))) (2 ^ (LENGTH('a) - 1) - 1)"
proof
  fix w :: "'a word"
  show "- (2 ^ (LENGTH('a) - 1)) \<le> sint w \<and> sint w \<le> 2 ^ (LENGTH('a) - 1) - 1"
    using sint_bounds [of w] by blast
qed (simp_all add: sint_of_int_range)

lemma int_repr_uint:
  "int_repr (uint :: 'a::len word \<Rightarrow> int) word_of_int 0 (2 ^ LENGTH('a) - 1)"
  by unfold_locales (simp_all add: uint_bounds uint_of_int_range)

text \<open>The eight integer types of the C code.\<close>

interpretation i8: int_repr "sint :: 8 word \<Rightarrow> int" word_of_int "- 128" 127
  using int_repr_sint [where 'a = 8] by simp

interpretation i16: int_repr "sint :: 16 word \<Rightarrow> int" word_of_int "- 32768" 32767
  using int_repr_sint [where 'a = 16] by simp

interpretation i32: int_repr "sint :: 32 word \<Rightarrow> int" word_of_int "- 2147483648" 2147483647
  using int_repr_sint [where 'a = 32] by simp

interpretation i64: int_repr "sint :: 64 word \<Rightarrow> int" word_of_int
    "- 9223372036854775808" 9223372036854775807
  using int_repr_sint [where 'a = 64] by simp

interpretation u8: int_repr "uint :: 8 word \<Rightarrow> int" word_of_int 0 255
  using int_repr_uint [where 'a = 8] by simp

interpretation u16: int_repr "uint :: 16 word \<Rightarrow> int" word_of_int 0 65535
  using int_repr_uint [where 'a = 16] by simp

interpretation u32: int_repr "uint :: 32 word \<Rightarrow> int" word_of_int 0 4294967295
  using int_repr_uint [where 'a = 32] by simp

interpretation u64: int_repr "uint :: 64 word \<Rightarrow> int" word_of_int 0 18446744073709551615
  using int_repr_uint [where 'a = 64] by simp

lemmas val_mk_all =
  i8.val_mk i16.val_mk i32.val_mk i64.val_mk u8.val_mk u16.val_mk u32.val_mk u64.val_mk

lemmas val_range_all =
  i8.val_range i16.val_range i32.val_range i64.val_range
  u8.val_range u16.val_range u32.val_range u64.val_range

lemma bounds_8 [word_bounds]:
  fixes w :: "8 word"
  shows "127 \<le> c \<Longrightarrow> sint w \<le> c" and "127 \<le> c \<Longrightarrow> \<not> c < sint w"
    and "c \<le> - 128 \<Longrightarrow> c \<le> sint w" and "c \<le> - 128 \<Longrightarrow> \<not> sint w < c"
    and "255 \<le> c \<Longrightarrow> uint w \<le> c" and "255 \<le> c \<Longrightarrow> \<not> c < uint w"
    and "c \<le> 0 \<Longrightarrow> c \<le> uint w" and "c < - 128 \<Longrightarrow> sint w \<noteq> c"
  using i8.val_range [of w] u8.val_range [of w] by linarith+

lemma bounds_16 [word_bounds]:
  fixes w :: "16 word"
  shows "32767 \<le> c \<Longrightarrow> sint w \<le> c" and "32767 \<le> c \<Longrightarrow> \<not> c < sint w"
    and "c \<le> - 32768 \<Longrightarrow> c \<le> sint w" and "c \<le> - 32768 \<Longrightarrow> \<not> sint w < c"
    and "65535 \<le> c \<Longrightarrow> uint w \<le> c" and "65535 \<le> c \<Longrightarrow> \<not> c < uint w"
    and "c \<le> 0 \<Longrightarrow> c \<le> uint w" and "c < - 32768 \<Longrightarrow> sint w \<noteq> c"
  using i16.val_range [of w] u16.val_range [of w] by linarith+

lemma bounds_32 [word_bounds]:
  fixes w :: "32 word"
  shows "2147483647 \<le> c \<Longrightarrow> sint w \<le> c" and "2147483647 \<le> c \<Longrightarrow> \<not> c < sint w"
    and "c \<le> - 2147483648 \<Longrightarrow> c \<le> sint w" and "c \<le> - 2147483648 \<Longrightarrow> \<not> sint w < c"
    and "4294967295 \<le> c \<Longrightarrow> uint w \<le> c" and "4294967295 \<le> c \<Longrightarrow> \<not> c < uint w"
    and "c \<le> 0 \<Longrightarrow> c \<le> uint w" and "c < - 2147483648 \<Longrightarrow> sint w \<noteq> c"
  using i32.val_range [of w] u32.val_range [of w] by linarith+

lemma bounds_64 [word_bounds]:
  fixes w :: "64 word"
  shows "9223372036854775807 \<le> c \<Longrightarrow> sint w \<le> c" and "9223372036854775807 \<le> c \<Longrightarrow> \<not> c < sint w"
    and "c \<le> - 9223372036854775808 \<Longrightarrow> c \<le> sint w" and "c \<le> - 9223372036854775808 \<Longrightarrow> \<not> sint w < c"
    and "18446744073709551615 \<le> c \<Longrightarrow> uint w \<le> c" and "18446744073709551615 \<le> c \<Longrightarrow> \<not> c < uint w"
    and "c \<le> 0 \<Longrightarrow> c \<le> uint w" and "c < - 9223372036854775808 \<Longrightarrow> sint w \<noteq> c"
  using i64.val_range [of w] u64.val_range [of w] by linarith+

text \<open>A cast keeps a number that the new type can hold.\<close>

lemma cast_8 [cast_simps]:
  shows "- 128 \<le> sint w \<Longrightarrow> sint w \<le> 127 \<Longrightarrow> sint (scast w :: 8 word) = sint w"
    and "uint v \<le> 127 \<Longrightarrow> sint (ucast v :: 8 word) = uint v"
    and "0 \<le> sint w \<Longrightarrow> sint w \<le> 255 \<Longrightarrow> uint (scast w :: 8 word) = sint w"
    and "uint v \<le> 255 \<Longrightarrow> uint (ucast v :: 8 word) = uint v"
  using i8.val_mk [of "sint w"] i8.val_mk [of "uint v"] u8.val_mk [of "sint w"]
    u8.val_mk [of "uint v"] order_trans [of "- 128" 0 "uint v"]
  by (simp_all add: scast_eq ucast_eq del: of_int_sint of_int_uint)

lemma sign_8 [cast_simps]:
  fixes w :: "8 word"
  shows "uint w \<le> 127 \<Longrightarrow> sint w = uint w"
    and "0 \<le> sint w \<longleftrightarrow> uint w \<le> 127"
proof -
  show *: "uint w \<le> 127 \<Longrightarrow> sint w = uint w" for w :: "8 word"
    by (metis cast_8(2) ucast_id)
  have "0 \<le> sint w \<Longrightarrow> uint w = sint w"
    using cast_8(3) [of w] bounds_8(1) [of 255 w] by simp
  then show "0 \<le> sint w \<longleftrightarrow> uint w \<le> 127"
    using * [of w] i8.val_range [of w] uint_ge_0 [of w] by linarith
qed

lemma cast_16 [cast_simps]:
  shows "- 32768 \<le> sint w \<Longrightarrow> sint w \<le> 32767 \<Longrightarrow> sint (scast w :: 16 word) = sint w"
    and "uint v \<le> 32767 \<Longrightarrow> sint (ucast v :: 16 word) = uint v"
    and "0 \<le> sint w \<Longrightarrow> sint w \<le> 65535 \<Longrightarrow> uint (scast w :: 16 word) = sint w"
    and "uint v \<le> 65535 \<Longrightarrow> uint (ucast v :: 16 word) = uint v"
  using i16.val_mk [of "sint w"] i16.val_mk [of "uint v"] u16.val_mk [of "sint w"]
    u16.val_mk [of "uint v"] order_trans [of "- 32768" 0 "uint v"]
  by (simp_all add: scast_eq ucast_eq del: of_int_sint of_int_uint)

lemma sign_16 [cast_simps]:
  fixes w :: "16 word"
  shows "uint w \<le> 32767 \<Longrightarrow> sint w = uint w"
    and "0 \<le> sint w \<longleftrightarrow> uint w \<le> 32767"
proof -
  show *: "uint w \<le> 32767 \<Longrightarrow> sint w = uint w" for w :: "16 word"
    by (metis cast_16(2) ucast_id)
  have "0 \<le> sint w \<Longrightarrow> uint w = sint w"
    using cast_16(3) [of w] bounds_16(1) [of 65535 w] by simp
  then show "0 \<le> sint w \<longleftrightarrow> uint w \<le> 32767"
    using * [of w] i16.val_range [of w] uint_ge_0 [of w] by linarith
qed

lemma cast_32 [cast_simps]:
  shows "- 2147483648 \<le> sint w \<Longrightarrow> sint w \<le> 2147483647 \<Longrightarrow> sint (scast w :: 32 word) = sint w"
    and "uint v \<le> 2147483647 \<Longrightarrow> sint (ucast v :: 32 word) = uint v"
    and "0 \<le> sint w \<Longrightarrow> sint w \<le> 4294967295 \<Longrightarrow> uint (scast w :: 32 word) = sint w"
    and "uint v \<le> 4294967295 \<Longrightarrow> uint (ucast v :: 32 word) = uint v"
  using i32.val_mk [of "sint w"] i32.val_mk [of "uint v"] u32.val_mk [of "sint w"]
    u32.val_mk [of "uint v"] order_trans [of "- 2147483648" 0 "uint v"]
  by (simp_all add: scast_eq ucast_eq del: of_int_sint of_int_uint)

lemma sign_32 [cast_simps]:
  fixes w :: "32 word"
  shows "uint w \<le> 2147483647 \<Longrightarrow> sint w = uint w"
    and "0 \<le> sint w \<longleftrightarrow> uint w \<le> 2147483647"
proof -
  show *: "uint w \<le> 2147483647 \<Longrightarrow> sint w = uint w" for w :: "32 word"
    by (metis cast_32(2) ucast_id)
  have "0 \<le> sint w \<Longrightarrow> uint w = sint w"
    using cast_32(3) [of w] bounds_32(1) [of 4294967295 w] by simp
  then show "0 \<le> sint w \<longleftrightarrow> uint w \<le> 2147483647"
    using * [of w] i32.val_range [of w] uint_ge_0 [of w] by linarith
qed

lemma cast_64 [cast_simps]:
  shows "- 9223372036854775808 \<le> sint w \<Longrightarrow> sint w \<le> 9223372036854775807 \<Longrightarrow> sint (scast w :: 64 word) = sint w"
    and "uint v \<le> 9223372036854775807 \<Longrightarrow> sint (ucast v :: 64 word) = uint v"
    and "0 \<le> sint w \<Longrightarrow> sint w \<le> 18446744073709551615 \<Longrightarrow> uint (scast w :: 64 word) = sint w"
    and "uint v \<le> 18446744073709551615 \<Longrightarrow> uint (ucast v :: 64 word) = uint v"
  using i64.val_mk [of "sint w"] i64.val_mk [of "uint v"] u64.val_mk [of "sint w"]
    u64.val_mk [of "uint v"] order_trans [of "- 9223372036854775808" 0 "uint v"]
  by (simp_all add: scast_eq ucast_eq del: of_int_sint of_int_uint)

lemma sign_64 [cast_simps]:
  fixes w :: "64 word"
  shows "uint w \<le> 9223372036854775807 \<Longrightarrow> sint w = uint w"
    and "0 \<le> sint w \<longleftrightarrow> uint w \<le> 9223372036854775807"
proof -
  show *: "uint w \<le> 9223372036854775807 \<Longrightarrow> sint w = uint w" for w :: "64 word"
    by (metis cast_64(2) ucast_id)
  have "0 \<le> sint w \<Longrightarrow> uint w = sint w"
    using cast_64(3) [of w] bounds_64(1) [of 18446744073709551615 w] by simp
  then show "0 \<le> sint w \<longleftrightarrow> uint w \<le> 9223372036854775807"
    using * [of w] i64.val_range [of w] uint_ge_0 [of w] by linarith
qed

text \<open>\<open>mk_int\<close> is a section of \<open>int_value\<close> on the range of the type.\<close>

definition in_range :: "TEN_TYPE \<Rightarrow> int \<Rightarrow> bool" where
  "in_range t n \<longleftrightarrow> type_min t \<le> n \<and> n \<le> type_max t"

lemma int_value_mk_int:
  "TEN_IS_INTEGER_TYPE t \<Longrightarrow> in_range t n \<Longrightarrow> int_value (mk_int t n) = Some n"
  unfolding TEN_IS_INTEGER_TYPE_def in_range_def
  by (elim disjE) (simp_all add: val_mk_all)

lemma type_mk_int [simp]: "TEN_IS_INTEGER_TYPE t \<Longrightarrow> ten_value_get_type (mk_int t n) = t"
  by (auto simp: TEN_IS_INTEGER_TYPE_def)

lemma mk_int_int_value:
  "int_value v = Some n \<Longrightarrow> mk_int (ten_value_get_type v) n = v"
  by (cases v) auto

lemma int_value_in_range: "int_value v = Some n \<Longrightarrow> in_range (ten_value_get_type v) n"
  using val_range_all by (cases v) (auto simp: in_range_def)

section \<open>Cloning\<close>

text \<open>
  The copy handler of a buffer value: an owned buffer is copied byte by byte when it has any; with
  no bytes nothing is written, and the copy stays all zero.  A buffer that is not owned is shared.
\<close>

definition zeroed_buf :: ten_buf where
  "zeroed_buf = \<lparr>buf_signed = False, buf_data = [], buf_content_size = 0, buf_owns_memory = False,
                 buf_is_fixed_size = False\<rparr>"

definition ten_buf_init_with_copying_data :: "8 word list \<Rightarrow> ten_buf" where
  "ten_buf_init_with_copying_data bytes =
     \<lparr>buf_signed = True, buf_data = bytes, buf_content_size = length bytes, buf_owns_memory = True,
      buf_is_fixed_size = False\<rparr>"

definition ten_value_copy_buf :: "ten_buf \<Rightarrow> ten_buf" where
  "ten_value_copy_buf src =
     (if buf_owns_memory src
      then (if length (buf_data src) \<noteq> 0 then ten_buf_init_with_copying_data (buf_data src)
            else zeroed_buf)
      else src)"

text \<open>
  \<open>ten_value_kv_create_empty\<close> passes the name on as the format string of
  \<open>ten_value_kv_create_vempty\<close>, so the key is the name after format expansion.
\<close>

definition ten_value_kv_create_empty :: "string \<Rightarrow> string run" where
  "ten_value_kv_create_empty name = format_no_args name"

definition ten_value_kv_create :: "string \<Rightarrow> ten_value \<Rightarrow> (string \<times> ten_value) run" where
  "ten_value_kv_create name value = run_bind (ten_value_kv_create_empty name) (\<lambda>k. Ret (k, value))"

text \<open>\<open>ten_value_clone\<close> dispatches on the copy handler of the source, \<open>ten_value_kv_clone\<close> is the
  body of the loop over an object.\<close>

fun ten_value_clone :: "ten_value \<Rightarrow> ten_value run" where
  "ten_value_clone VInvalid = Ret VInvalid"
| "ten_value_clone VNull = Ret VNull"
| "ten_value_clone (VBool b) = Ret (VBool b)"
| "ten_value_clone (VInt8 w) = Ret (VInt8 w)"
| "ten_value_clone (VInt16 w) = Ret (VInt16 w)"
| "ten_value_clone (VInt32 w) = Ret (VInt32 w)"
| "ten_value_clone (VInt64 w) = Ret (VInt64 w)"
| "ten_value_clone (VUint8 w) = Ret (VUint8 w)"
| "ten_value_clone (VUint16 w) = Ret (VUint16 w)"
| "ten_value_clone (VUint32 w) = Ret (VUint32 w)"
| "ten_value_clone (VUint64 w) = Ret (VUint64 w)"
| "ten_value_clone (VFloat32 f) = Ret (VFloat32 f)"
| "ten_value_clone (VFloat64 f) = Ret (VFloat64 f)"
| "ten_value_clone (VString s) = Ret (VString s)"
| "ten_value_clone (VBuf b) = Ret (VBuf (ten_value_copy_buf b))"
| "ten_value_clone (VArray vs) = map_run VArray (ten_list_foreach_of vs (run_map ten_value_clone vs))"
| "ten_value_clone (VObject kvs) =
     map_run VObject (ten_list_foreach_of kvs (run_map (\<lambda>(k, v).
       run_bind (ten_value_kv_create_empty k) (\<lambda>k'. map_run (Pair k') (ten_value_clone v))) kvs))"
| "ten_value_clone (VPtr p) = Ret (VPtr p)"

definition ten_value_kv_clone :: "string \<times> ten_value \<Rightarrow> (string \<times> ten_value) run" where
  "ten_value_kv_clone kv =
     run_bind (ten_value_kv_create_empty (fst kv)) (\<lambda>k'. map_run (Pair k') (ten_value_clone (snd kv)))"

section \<open>Equality\<close>

text \<open>The first value of a key in an object, as \<open>ten_value_object_peek\<close> finds it.\<close>

definition ten_value_object_peek :: "ten_value \<Rightarrow> string \<Rightarrow> ten_value option run" where
  "ten_value_object_peek self key =
     (if \<not> ten_value_is_object self then Abort
      else ten_list_foreach_of (content_object self) (Ret (find_entry key (content_object self))))"

text \<open>
  The loop over two arrays takes the list nodes themselves for the elements
  (\<open>(ten_value_t * )ten_list_iterator_to_listnode(iter)\<close>); a node does not carry the signature of a
  value, so the integrity assertion at the head of the recursive call fires on the first element.
\<close>

fun ten_value_is_equal :: "ten_value \<Rightarrow> ten_value \<Rightarrow> bool run" where
  "ten_value_is_equal (VBool b) t =
     (if ten_value_get_type t \<noteq> TEN_TYPE_BOOL then Ret False else Ret (b = content_boolean t))"
| "ten_value_is_equal VNull t =
     (if ten_value_get_type t \<noteq> TEN_TYPE_NULL then Ret False else Ret True)"
| "ten_value_is_equal (VString s) t =
     (if ten_value_get_type t \<noteq> TEN_TYPE_STRING then Ret False else Ret (s = content_string t))"
| "ten_value_is_equal (VObject kvs) t =
     (if ten_value_get_type t \<noteq> TEN_TYPE_OBJECT then Ret False
      else if length kvs \<noteq> length (content_object t) then Ret False
      else ten_list_foreach_of kvs (run_all (\<lambda>(k, v). case find_entry k (content_object t) of
               None \<Rightarrow> Ret False
             | Some v' \<Rightarrow> ten_value_is_equal v v') kvs))"
| "ten_value_is_equal (VArray vs) t =
     (if ten_value_get_type t \<noteq> TEN_TYPE_ARRAY then Ret False
      else if length vs \<noteq> length (content_array t) then Ret False
      else if vs = [] then Ret True else Abort)"
| "ten_value_is_equal (VInt8 w) t =
     (if ten_value_get_type t \<noteq> TEN_TYPE_INT8 then Ret False else Ret (w = content_int8 t))"
| "ten_value_is_equal (VInt16 w) t =
     (if ten_value_get_type t \<noteq> TEN_TYPE_INT16 then Ret False else Ret (w = content_int16 t))"
| "ten_value_is_equal (VInt32 w) t =
     (if ten_value_get_type t \<noteq> TEN_TYPE_INT32 then Ret False else Ret (w = content_int32 t))"
| "ten_value_is_equal (VInt64 w) t =
     (if ten_value_get_type t \<noteq> TEN_TYPE_INT64 then Ret False else Ret (w = content_int64 t))"
| "ten_value_is_equal (VUint8 w) t =
     (if ten_value_get_type t \<noteq> TEN_TYPE_UINT8 then Ret False else Ret (w = content_uint8 t))"
| "ten_value_is_equal (VUint16 w) t =
     (if ten_value_get_type t \<noteq> TEN_TYPE_UINT16 then Ret False else Ret (w = content_uint16 t))"
| "ten_value_is_equal (VUint32 w) t =
     (if ten_value_get_type t \<noteq> TEN_TYPE_UINT32 then Ret False else Ret (w = content_uint32 t))"
| "ten_value_is_equal (VUint64 w) t =
     (if ten_value_get_type t \<noteq> TEN_TYPE_UINT64 then Ret False else Ret (w = content_uint64 t))"
| "ten_value_is_equal (VFloat32 f) t =
     (if ten_value_get_type t \<noteq> TEN_TYPE_FLOAT32 then Ret False else Ret (cf_eq f (content_float32 t)))"
| "ten_value_is_equal (VFloat64 f) t =
     (if ten_value_get_type t \<noteq> TEN_TYPE_FLOAT64 then Ret False else Ret (cf_eq f (content_float64 t)))"
| "ten_value_is_equal VInvalid t =
     (if ten_value_get_type t \<noteq> TEN_TYPE_INVALID then Ret False else Abort)"
| "ten_value_is_equal (VBuf b) t =
     (if ten_value_get_type t \<noteq> TEN_TYPE_BUF then Ret False else Abort)"
| "ten_value_is_equal (VPtr p) t =
     (if ten_value_get_type t \<noteq> TEN_TYPE_PTR then Ret False else Abort)"

end
