(* ===== verification/Value_Convert.thy ===== *)
theory Value_Convert
  imports Ten_Value
begin

text \<open>
  Conversion of a value in place (\<open>src/ten_utils/value/value_convert.c\<close>) and the range tests it uses
  (\<open>value_can_convert.c\<close>).  A conversion either replaces the value or sets the error and leaves the
  value alone, so it is a function to an error or the new value.  The default branches of the
  switches assert that they are not reached: they are \<open>Abort\<close>.

  C compares an 8-, 16- or 32-bit operand with a constant after promotion to a common type that
  holds both, so the comparisons are those of the mathematical integers.  A cast between integer
  types is \<open>scast\<close> or \<open>ucast\<close>.
\<close>

section \<open>Range tests\<close>

subsection \<open>Integers to integers\<close>

definition can_convert_int16_to_int8 :: "16 word \<Rightarrow> bool" where
  "can_convert_int16_to_int8 value \<longleftrightarrow> \<not> (sint value < - 128 \<or> sint value > 127)"

definition can_convert_int32_to_int8 :: "32 word \<Rightarrow> bool" where
  "can_convert_int32_to_int8 value \<longleftrightarrow> \<not> (sint value < - 128 \<or> sint value > 127)"

definition can_convert_int64_to_int8 :: "64 word \<Rightarrow> bool" where
  "can_convert_int64_to_int8 value \<longleftrightarrow> \<not> (sint value < - 128 \<or> sint value > 127)"

definition can_convert_uint8_to_int8 :: "8 word \<Rightarrow> bool" where
  "can_convert_uint8_to_int8 value \<longleftrightarrow> \<not> uint value > 127"

definition can_convert_uint16_to_int8 :: "16 word \<Rightarrow> bool" where
  "can_convert_uint16_to_int8 value \<longleftrightarrow> \<not> uint value > 127"

definition can_convert_uint32_to_int8 :: "32 word \<Rightarrow> bool" where
  "can_convert_uint32_to_int8 value \<longleftrightarrow> \<not> uint value > 127"

definition can_convert_uint64_to_int8 :: "64 word \<Rightarrow> bool" where
  "can_convert_uint64_to_int8 value \<longleftrightarrow> \<not> uint value > 127"

definition can_convert_int32_to_int16 :: "32 word \<Rightarrow> bool" where
  "can_convert_int32_to_int16 value \<longleftrightarrow> \<not> (sint value < - 32768 \<or> sint value > 32767)"

definition can_convert_int64_to_int16 :: "64 word \<Rightarrow> bool" where
  "can_convert_int64_to_int16 value \<longleftrightarrow> \<not> (sint value < - 32768 \<or> sint value > 32767)"

definition can_convert_uint16_to_int16 :: "16 word \<Rightarrow> bool" where
  "can_convert_uint16_to_int16 value \<longleftrightarrow> \<not> uint value > 32767"

definition can_convert_uint32_to_int16 :: "32 word \<Rightarrow> bool" where
  "can_convert_uint32_to_int16 value \<longleftrightarrow> \<not> uint value > 32767"

definition can_convert_uint64_to_int16 :: "64 word \<Rightarrow> bool" where
  "can_convert_uint64_to_int16 value \<longleftrightarrow> \<not> uint value > 32767"

definition can_convert_int64_to_int32 :: "64 word \<Rightarrow> bool" where
  "can_convert_int64_to_int32 value \<longleftrightarrow> \<not> (sint value < - 2147483648 \<or> sint value > 2147483647)"

definition can_convert_uint32_to_int32 :: "32 word \<Rightarrow> bool" where
  "can_convert_uint32_to_int32 value \<longleftrightarrow> \<not> uint value > 2147483647"

definition can_convert_uint64_to_int32 :: "64 word \<Rightarrow> bool" where
  "can_convert_uint64_to_int32 value \<longleftrightarrow> \<not> uint value > 2147483647"

definition can_convert_uint64_to_int64 :: "64 word \<Rightarrow> bool" where
  "can_convert_uint64_to_int64 value \<longleftrightarrow> \<not> uint value > 9223372036854775807"

definition can_convert_int8_to_uint8 :: "8 word \<Rightarrow> bool" where
  "can_convert_int8_to_uint8 value \<longleftrightarrow> \<not> sint value < 0"

definition can_convert_int16_to_uint8 :: "16 word \<Rightarrow> bool" where
  "can_convert_int16_to_uint8 value \<longleftrightarrow> \<not> (sint value < 0 \<or> sint value > 255)"

definition can_convert_int32_to_uint8 :: "32 word \<Rightarrow> bool" where
  "can_convert_int32_to_uint8 value \<longleftrightarrow> \<not> (sint value < 0 \<or> sint value > 255)"

definition can_convert_int64_to_uint8 :: "64 word \<Rightarrow> bool" where
  "can_convert_int64_to_uint8 value \<longleftrightarrow> \<not> (sint value < 0 \<or> sint value > 255)"

definition can_convert_uint16_to_uint8 :: "16 word \<Rightarrow> bool" where
  "can_convert_uint16_to_uint8 value \<longleftrightarrow> \<not> uint value > 255"

definition can_convert_uint32_to_uint8 :: "32 word \<Rightarrow> bool" where
  "can_convert_uint32_to_uint8 value \<longleftrightarrow> \<not> uint value > 255"

definition can_convert_uint64_to_uint8 :: "64 word \<Rightarrow> bool" where
  "can_convert_uint64_to_uint8 value \<longleftrightarrow> \<not> uint value > 255"

definition can_convert_int8_to_uint16 :: "8 word \<Rightarrow> bool" where
  "can_convert_int8_to_uint16 value \<longleftrightarrow> \<not> sint value < 0"

definition can_convert_int16_to_uint16 :: "16 word \<Rightarrow> bool" where
  "can_convert_int16_to_uint16 value \<longleftrightarrow> \<not> sint value < 0"

definition can_convert_int32_to_uint16 :: "32 word \<Rightarrow> bool" where
  "can_convert_int32_to_uint16 value \<longleftrightarrow> \<not> (sint value < 0 \<or> sint value > 65535)"

definition can_convert_int64_to_uint16 :: "64 word \<Rightarrow> bool" where
  "can_convert_int64_to_uint16 value \<longleftrightarrow> \<not> (sint value < 0 \<or> sint value > 65535)"

definition can_convert_uint32_to_uint16 :: "32 word \<Rightarrow> bool" where
  "can_convert_uint32_to_uint16 value \<longleftrightarrow> \<not> uint value > 65535"

definition can_convert_uint64_to_uint16 :: "64 word \<Rightarrow> bool" where
  "can_convert_uint64_to_uint16 value \<longleftrightarrow> \<not> uint value > 65535"

definition can_convert_int8_to_uint32 :: "8 word \<Rightarrow> bool" where
  "can_convert_int8_to_uint32 value \<longleftrightarrow> \<not> sint value < 0"

definition can_convert_int16_to_uint32 :: "16 word \<Rightarrow> bool" where
  "can_convert_int16_to_uint32 value \<longleftrightarrow> \<not> sint value < 0"

definition can_convert_int32_to_uint32 :: "32 word \<Rightarrow> bool" where
  "can_convert_int32_to_uint32 value \<longleftrightarrow> \<not> sint value < 0"

definition can_convert_int64_to_uint32 :: "64 word \<Rightarrow> bool" where
  "can_convert_int64_to_uint32 value \<longleftrightarrow> \<not> (sint value < 0 \<or> sint value > 4294967295)"

definition can_convert_uint64_to_uint32 :: "64 word \<Rightarrow> bool" where
  "can_convert_uint64_to_uint32 value \<longleftrightarrow> \<not> uint value > 4294967295"

definition can_convert_int8_to_uint64 :: "8 word \<Rightarrow> bool" where
  "can_convert_int8_to_uint64 value \<longleftrightarrow> \<not> sint value < 0"

definition can_convert_int16_to_uint64 :: "16 word \<Rightarrow> bool" where
  "can_convert_int16_to_uint64 value \<longleftrightarrow> \<not> sint value < 0"

definition can_convert_int32_to_uint64 :: "32 word \<Rightarrow> bool" where
  "can_convert_int32_to_uint64 value \<longleftrightarrow> \<not> sint value < 0"

definition can_convert_int64_to_uint64 :: "64 word \<Rightarrow> bool" where
  "can_convert_int64_to_uint64 value \<longleftrightarrow> \<not> sint value < 0"

lemmas can_convert_int_defs =
  can_convert_int16_to_int8_def can_convert_int32_to_int8_def can_convert_int64_to_int8_def
  can_convert_uint8_to_int8_def can_convert_uint16_to_int8_def can_convert_uint32_to_int8_def
  can_convert_uint64_to_int8_def can_convert_int32_to_int16_def can_convert_int64_to_int16_def
  can_convert_uint16_to_int16_def can_convert_uint32_to_int16_def can_convert_uint64_to_int16_def
  can_convert_int64_to_int32_def can_convert_uint32_to_int32_def can_convert_uint64_to_int32_def
  can_convert_uint64_to_int64_def can_convert_int8_to_uint8_def can_convert_int16_to_uint8_def
  can_convert_int32_to_uint8_def can_convert_int64_to_uint8_def can_convert_uint16_to_uint8_def
  can_convert_uint32_to_uint8_def can_convert_uint64_to_uint8_def can_convert_int8_to_uint16_def
  can_convert_int16_to_uint16_def can_convert_int32_to_uint16_def can_convert_int64_to_uint16_def
  can_convert_uint32_to_uint16_def can_convert_uint64_to_uint16_def
  can_convert_int8_to_uint32_def can_convert_int16_to_uint32_def can_convert_int32_to_uint32_def
  can_convert_int64_to_uint32_def can_convert_uint64_to_uint32_def can_convert_int8_to_uint64_def
  can_convert_int16_to_uint64_def can_convert_int32_to_uint64_def can_convert_int64_to_uint64_def

subsection \<open>Floating point\<close>

text \<open>\<open>ldexp(1.0, k)\<close>.\<close>

definition ldexp1 :: "nat \<Rightarrow> cfloat" where
  "ldexp1 k = FFin False 1 (int k)"

definition can_convert_float64_to_int8 :: "cfloat \<Rightarrow> bool" where
  "can_convert_float64_to_int8 a \<longleftrightarrow> cf_le (cf_minus (ldexp1 7)) a \<and> cf_less a (ldexp1 7)"

definition can_convert_float64_to_int16 :: "cfloat \<Rightarrow> bool" where
  "can_convert_float64_to_int16 a \<longleftrightarrow> cf_le (cf_minus (ldexp1 15)) a \<and> cf_less a (ldexp1 15)"

definition can_convert_float64_to_int32 :: "cfloat \<Rightarrow> bool" where
  "can_convert_float64_to_int32 a \<longleftrightarrow> cf_le (cf_minus (ldexp1 31)) a \<and> cf_less a (ldexp1 31)"

definition can_convert_float64_to_int64 :: "cfloat \<Rightarrow> bool" where
  "can_convert_float64_to_int64 a \<longleftrightarrow> cf_le (cf_minus (ldexp1 63)) a \<and> cf_less a (ldexp1 63)"

definition can_convert_float64_to_uint8 :: "cfloat \<Rightarrow> bool" where
  "can_convert_float64_to_uint8 a \<longleftrightarrow> cf_le (FFin False 0 0) a \<and> cf_less a (ldexp1 8)"

definition can_convert_float64_to_uint16 :: "cfloat \<Rightarrow> bool" where
  "can_convert_float64_to_uint16 a \<longleftrightarrow> cf_le (FFin False 0 0) a \<and> cf_less a (ldexp1 16)"

definition can_convert_float64_to_uint32 :: "cfloat \<Rightarrow> bool" where
  "can_convert_float64_to_uint32 a \<longleftrightarrow> cf_le (FFin False 0 0) a \<and> cf_less a (ldexp1 32)"

definition can_convert_float64_to_uint64 :: "cfloat \<Rightarrow> bool" where
  "can_convert_float64_to_uint64 a \<longleftrightarrow> cf_le (FFin False 0 0) a \<and> cf_less a (ldexp1 64)"

text \<open>\<open>FLT_MAX\<close> is out of range of every integer type, so its conversion is undefined; \<open>mach\<close> says
  what it gives, and its negation wraps.\<close>

definition can_convert_int32_to_float32 :: "machine \<Rightarrow> 32 word \<Rightarrow> bool" where
  "can_convert_int32_to_float32 mach value \<longleftrightarrow>
     (if sint value > sint (cast_i32 mach FLT_MAX) \<or> sint value < sint (- cast_i32 mach FLT_MAX)
      then False
      else (let float_value = f32_of_int (sint value);
                converted_back = cast_i32 mach float_value
            in value = converted_back))"

definition can_convert_int64_to_float32 :: "machine \<Rightarrow> 64 word \<Rightarrow> bool" where
  "can_convert_int64_to_float32 mach value \<longleftrightarrow>
     (if sint value > sint (cast_i64 mach FLT_MAX) \<or> sint value < sint (- cast_i64 mach FLT_MAX)
      then False
      else (let float_value = f32_of_int (sint value);
                converted_back = cast_i64 mach float_value
            in value = converted_back))"

definition can_convert_uint32_to_float32 :: "machine \<Rightarrow> 32 word \<Rightarrow> bool" where
  "can_convert_uint32_to_float32 mach value \<longleftrightarrow>
     (if uint value > uint (cast_u32 mach FLT_MAX)
      then False
      else (let float_value = f32_of_int (uint value);
                converted_back = cast_u32 mach float_value
            in value = converted_back))"

definition can_convert_uint64_to_float32 :: "machine \<Rightarrow> 64 word \<Rightarrow> bool" where
  "can_convert_uint64_to_float32 mach value \<longleftrightarrow>
     (if uint value > uint (cast_u64 mach FLT_MAX)
      then False
      else (let float_value = f32_of_int (uint value);
                converted_back = cast_u64 mach float_value
            in value = converted_back))"

definition can_convert_int32_to_float64 :: "machine \<Rightarrow> 32 word \<Rightarrow> bool" where
  "can_convert_int32_to_float64 mach value \<longleftrightarrow> value = cast_i32 mach (f64_of_int (sint value))"

definition can_convert_int64_to_float64 :: "machine \<Rightarrow> 64 word \<Rightarrow> bool" where
  "can_convert_int64_to_float64 mach value \<longleftrightarrow> value = cast_i64 mach (f64_of_int (sint value))"

definition can_convert_uint32_to_float64 :: "machine \<Rightarrow> 32 word \<Rightarrow> bool" where
  "can_convert_uint32_to_float64 mach value \<longleftrightarrow> value = cast_u32 mach (f64_of_int (uint value))"

definition can_convert_uint64_to_float64 :: "machine \<Rightarrow> 64 word \<Rightarrow> bool" where
  "can_convert_uint64_to_float64 mach value \<longleftrightarrow> value = cast_u64 mach (f64_of_int (uint value))"

definition can_convert_float64_to_float32 :: "cfloat \<Rightarrow> bool" where
  "can_convert_float64_to_float32 value \<longleftrightarrow>
     \<not> (cf_less value (cf_minus FLT_MAX) \<or> cf_less FLT_MAX value)"

section \<open>Conversions\<close>

definition unsupported_conversion :: "ten_value \<Rightarrow> string \<Rightarrow> ten_error" where
  "unsupported_conversion self target =
     generic_error (''unsupported conversion from `'' @ type_text (ten_value_get_type self) @
                    ''` to `'' @ target @ ''`'')"

definition out_of_range :: "string \<Rightarrow> ten_error" where
  "out_of_range target = generic_error (''out of range of '' @ target)"

subsection \<open>To integers\<close>

definition ten_value_convert_to_int8 :: "ten_value \<Rightarrow> ten_value fallible" where
  "ten_value_convert_to_int8 self =
     (if \<not> ten_type_is_compatible (ten_value_get_type self) TEN_TYPE_INT8
      then Ret (Inl (unsupported_conversion self ''int8''))
      else (case self of
          VInt8 content \<Rightarrow> Ret (Inr self)
        | VInt16 content \<Rightarrow>
            if can_convert_int16_to_int8 content
            then Ret (Inr (ten_value_init_int8 (scast content)))
            else Ret (Inl (out_of_range ''int8''))
        | VInt32 content \<Rightarrow>
            if can_convert_int32_to_int8 content
            then Ret (Inr (ten_value_init_int8 (scast content)))
            else Ret (Inl (out_of_range ''int8''))
        | VInt64 content \<Rightarrow>
            if can_convert_int64_to_int8 content
            then Ret (Inr (ten_value_init_int8 (scast content)))
            else Ret (Inl (out_of_range ''int8''))
        | VUint8 content \<Rightarrow>
            if can_convert_uint8_to_int8 content
            then Ret (Inr (ten_value_init_int8 (ucast content)))
            else Ret (Inl (out_of_range ''int8''))
        | VUint16 content \<Rightarrow>
            if can_convert_uint16_to_int8 content
            then Ret (Inr (ten_value_init_int8 (ucast content)))
            else Ret (Inl (out_of_range ''int8''))
        | VUint32 content \<Rightarrow>
            if can_convert_uint32_to_int8 content
            then Ret (Inr (ten_value_init_int8 (ucast content)))
            else Ret (Inl (out_of_range ''int8''))
        | VUint64 content \<Rightarrow>
            if can_convert_uint64_to_int8 content
            then Ret (Inr (ten_value_init_int8 (ucast content)))
            else Ret (Inl (out_of_range ''int8''))
        | _ \<Rightarrow> Abort))"

definition ten_value_convert_to_int16 :: "ten_value \<Rightarrow> ten_value fallible" where
  "ten_value_convert_to_int16 self =
     (if \<not> ten_type_is_compatible (ten_value_get_type self) TEN_TYPE_INT16
      then Ret (Inl (unsupported_conversion self ''int16''))
      else (case self of
          VInt8 content \<Rightarrow> Ret (Inr (ten_value_init_int16 (scast content)))
        | VInt16 content \<Rightarrow> Ret (Inr self)
        | VInt32 content \<Rightarrow>
            if can_convert_int32_to_int16 content
            then Ret (Inr (ten_value_init_int16 (scast content)))
            else Ret (Inl (out_of_range ''int16''))
        | VInt64 content \<Rightarrow>
            if can_convert_int64_to_int16 content
            then Ret (Inr (ten_value_init_int16 (scast content)))
            else Ret (Inl (out_of_range ''int16''))
        | VUint8 content \<Rightarrow> Ret (Inr (ten_value_init_int16 (ucast content)))
        | VUint16 content \<Rightarrow>
            if can_convert_uint16_to_int16 content
            then Ret (Inr (ten_value_init_int16 (ucast content)))
            else Ret (Inl (out_of_range ''int16''))
        | VUint32 content \<Rightarrow>
            if can_convert_uint32_to_int16 content
            then Ret (Inr (ten_value_init_int16 (ucast content)))
            else Ret (Inl (out_of_range ''int16''))
        | VUint64 content \<Rightarrow>
            if can_convert_uint64_to_int16 content
            then Ret (Inr (ten_value_init_int16 (ucast content)))
            else Ret (Inl (out_of_range ''int16''))
        | _ \<Rightarrow> Abort))"

definition ten_value_convert_to_int32 :: "ten_value \<Rightarrow> ten_value fallible" where
  "ten_value_convert_to_int32 self =
     (if \<not> ten_type_is_compatible (ten_value_get_type self) TEN_TYPE_INT32
      then Ret (Inl (unsupported_conversion self ''int32''))
      else (case self of
          VInt8 content \<Rightarrow> Ret (Inr (ten_value_init_int32 (scast content)))
        | VInt16 content \<Rightarrow> Ret (Inr (ten_value_init_int32 (scast content)))
        | VInt32 content \<Rightarrow> Ret (Inr self)
        | VInt64 content \<Rightarrow>
            if can_convert_int64_to_int32 content
            then Ret (Inr (ten_value_init_int32 (scast content)))
            else Ret (Inl (out_of_range ''int32''))
        | VUint8 content \<Rightarrow> Ret (Inr (ten_value_init_int32 (ucast content)))
        | VUint16 content \<Rightarrow> Ret (Inr (ten_value_init_int32 (ucast content)))
        | VUint32 content \<Rightarrow>
            if can_convert_uint32_to_int32 content
            then Ret (Inr (ten_value_init_int32 (ucast content)))
            else Ret (Inl (out_of_range ''int32''))
        | VUint64 content \<Rightarrow>
            if can_convert_uint64_to_int32 content
            then Ret (Inr (ten_value_init_int32 (ucast content)))
            else Ret (Inl (out_of_range ''int32''))
        | _ \<Rightarrow> Abort))"

definition ten_value_convert_to_int64 :: "ten_value \<Rightarrow> ten_value fallible" where
  "ten_value_convert_to_int64 self =
     (if \<not> ten_type_is_compatible (ten_value_get_type self) TEN_TYPE_INT64
      then Ret (Inl (unsupported_conversion self ''int64''))
      else (case self of
          VInt8 content \<Rightarrow> Ret (Inr (ten_value_init_int64 (scast content)))
        | VInt16 content \<Rightarrow> Ret (Inr (ten_value_init_int64 (scast content)))
        | VInt32 content \<Rightarrow> Ret (Inr (ten_value_init_int64 (scast content)))
        | VInt64 content \<Rightarrow> Ret (Inr self)
        | VUint8 content \<Rightarrow> Ret (Inr (ten_value_init_int64 (ucast content)))
        | VUint16 content \<Rightarrow> Ret (Inr (ten_value_init_int64 (ucast content)))
        | VUint32 content \<Rightarrow> Ret (Inr (ten_value_init_int64 (ucast content)))
        | VUint64 content \<Rightarrow>
            if can_convert_uint64_to_int64 content
            then Ret (Inr (ten_value_init_int64 (ucast content)))
            else Ret (Inl (out_of_range ''int64''))
        | _ \<Rightarrow> Abort))"

definition ten_value_convert_to_uint8 :: "ten_value \<Rightarrow> ten_value fallible" where
  "ten_value_convert_to_uint8 self =
     (if \<not> ten_type_is_compatible (ten_value_get_type self) TEN_TYPE_UINT8
      then Ret (Inl (unsupported_conversion self ''uint8''))
      else (case self of
          VInt8 content \<Rightarrow>
            if can_convert_int8_to_uint8 content
            then Ret (Inr (ten_value_init_uint8 (scast content)))
            else Ret (Inl (out_of_range ''uint8''))
        | VInt16 content \<Rightarrow>
            if can_convert_int16_to_uint8 content
            then Ret (Inr (ten_value_init_uint8 (scast content)))
            else Ret (Inl (out_of_range ''uint8''))
        | VInt32 content \<Rightarrow>
            if can_convert_int32_to_uint8 content
            then Ret (Inr (ten_value_init_uint8 (scast content)))
            else Ret (Inl (out_of_range ''uint8''))
        | VInt64 content \<Rightarrow>
            if can_convert_int64_to_uint8 content
            then Ret (Inr (ten_value_init_uint8 (scast content)))
            else Ret (Inl (out_of_range ''uint8''))
        | VUint8 content \<Rightarrow> Ret (Inr self)
        | VUint16 content \<Rightarrow>
            if can_convert_uint16_to_uint8 content
            then Ret (Inr (ten_value_init_uint8 (ucast content)))
            else Ret (Inl (out_of_range ''uint8''))
        | VUint32 content \<Rightarrow>
            if can_convert_uint32_to_uint8 content
            then Ret (Inr (ten_value_init_uint8 (ucast content)))
            else Ret (Inl (out_of_range ''uint8''))
        | VUint64 content \<Rightarrow>
            if can_convert_uint64_to_uint8 content
            then Ret (Inr (ten_value_init_uint8 (ucast content)))
            else Ret (Inl (out_of_range ''uint8''))
        | _ \<Rightarrow> Abort))"

definition ten_value_convert_to_uint16 :: "ten_value \<Rightarrow> ten_value fallible" where
  "ten_value_convert_to_uint16 self =
     (if \<not> ten_type_is_compatible (ten_value_get_type self) TEN_TYPE_UINT16
      then Ret (Inl (unsupported_conversion self ''uint16''))
      else (case self of
          VInt8 content \<Rightarrow>
            if can_convert_int8_to_uint16 content
            then Ret (Inr (ten_value_init_uint16 (scast content)))
            else Ret (Inl (out_of_range ''uint16''))
        | VInt16 content \<Rightarrow>
            if can_convert_int16_to_uint16 content
            then Ret (Inr (ten_value_init_uint16 (scast content)))
            else Ret (Inl (out_of_range ''uint16''))
        | VInt32 content \<Rightarrow>
            if can_convert_int32_to_uint16 content
            then Ret (Inr (ten_value_init_uint16 (scast content)))
            else Ret (Inl (out_of_range ''uint16''))
        | VInt64 content \<Rightarrow>
            if can_convert_int64_to_uint16 content
            then Ret (Inr (ten_value_init_uint16 (scast content)))
            else Ret (Inl (out_of_range ''uint16''))
        | VUint8 content \<Rightarrow> Ret (Inr (ten_value_init_uint16 (ucast content)))
        | VUint16 content \<Rightarrow> Ret (Inr self)
        | VUint32 content \<Rightarrow>
            if can_convert_uint32_to_uint16 content
            then Ret (Inr (ten_value_init_uint16 (ucast content)))
            else Ret (Inl (out_of_range ''uint16''))
        | VUint64 content \<Rightarrow>
            if can_convert_uint64_to_uint16 content
            then Ret (Inr (ten_value_init_uint16 (ucast content)))
            else Ret (Inl (out_of_range ''uint16''))
        | _ \<Rightarrow> Abort))"

definition ten_value_convert_to_uint32 :: "ten_value \<Rightarrow> ten_value fallible" where
  "ten_value_convert_to_uint32 self =
     (if \<not> ten_type_is_compatible (ten_value_get_type self) TEN_TYPE_UINT32
      then Ret (Inl (unsupported_conversion self ''uint32''))
      else (case self of
          VInt8 content \<Rightarrow>
            if can_convert_int8_to_uint32 content
            then Ret (Inr (ten_value_init_uint32 (scast content)))
            else Ret (Inl (out_of_range ''uint32''))
        | VInt16 content \<Rightarrow>
            if can_convert_int16_to_uint32 content
            then Ret (Inr (ten_value_init_uint32 (scast content)))
            else Ret (Inl (out_of_range ''uint32''))
        | VInt32 content \<Rightarrow>
            if can_convert_int32_to_uint32 content
            then Ret (Inr (ten_value_init_uint32 (scast content)))
            else Ret (Inl (out_of_range ''uint32''))
        | VInt64 content \<Rightarrow>
            if can_convert_int64_to_uint32 content
            then Ret (Inr (ten_value_init_uint32 (scast content)))
            else Ret (Inl (out_of_range ''uint32''))
        | VUint8 content \<Rightarrow> Ret (Inr (ten_value_init_uint32 (ucast content)))
        | VUint16 content \<Rightarrow> Ret (Inr (ten_value_init_uint32 (ucast content)))
        | VUint32 content \<Rightarrow> Ret (Inr self)
        | VUint64 content \<Rightarrow>
            if can_convert_uint64_to_uint32 content
            then Ret (Inr (ten_value_init_uint32 (ucast content)))
            else Ret (Inl (out_of_range ''uint32''))
        | _ \<Rightarrow> Abort))"

definition ten_value_convert_to_uint64 :: "ten_value \<Rightarrow> ten_value fallible" where
  "ten_value_convert_to_uint64 self =
     (if \<not> ten_type_is_compatible (ten_value_get_type self) TEN_TYPE_UINT64
      then Ret (Inl (unsupported_conversion self ''uint64''))
      else (case self of
          VInt8 content \<Rightarrow>
            if can_convert_int8_to_uint64 content
            then Ret (Inr (ten_value_init_uint64 (scast content)))
            else Ret (Inl (out_of_range ''uint64''))
        | VInt16 content \<Rightarrow>
            if can_convert_int16_to_uint64 content
            then Ret (Inr (ten_value_init_uint64 (scast content)))
            else Ret (Inl (out_of_range ''uint64''))
        | VInt32 content \<Rightarrow>
            if can_convert_int32_to_uint64 content
            then Ret (Inr (ten_value_init_uint64 (scast content)))
            else Ret (Inl (out_of_range ''uint64''))
        | VInt64 content \<Rightarrow>
            if can_convert_int64_to_uint64 content
            then Ret (Inr (ten_value_init_uint64 (scast content)))
            else Ret (Inl (out_of_range ''uint64''))
        | VUint8 content \<Rightarrow> Ret (Inr (ten_value_init_uint64 (ucast content)))
        | VUint16 content \<Rightarrow> Ret (Inr (ten_value_init_uint64 (ucast content)))
        | VUint32 content \<Rightarrow> Ret (Inr (ten_value_init_uint64 (ucast content)))
        | VUint64 content \<Rightarrow> Ret (Inr self)
        | _ \<Rightarrow> Abort))"

subsection \<open>To floating point\<close>

definition ten_value_convert_to_float32 :: "machine \<Rightarrow> ten_value \<Rightarrow> ten_value fallible" where
  "ten_value_convert_to_float32 mach self =
     (if \<not> ten_type_is_compatible (ten_value_get_type self) TEN_TYPE_FLOAT32
      then Ret (Inl (unsupported_conversion self ''float32''))
      else (case self of
          VInt8 content \<Rightarrow> Ret (Inr (ten_value_init_float32 (f32_of_int (sint content))))
        | VInt16 content \<Rightarrow> Ret (Inr (ten_value_init_float32 (f32_of_int (sint content))))
        | VInt32 content \<Rightarrow>
            if can_convert_int32_to_float32 mach content
            then Ret (Inr (ten_value_init_float32 (f32_of_int (sint content))))
            else Ret (Inl (out_of_range ''float32''))
        | VInt64 content \<Rightarrow>
            if can_convert_int64_to_float32 mach content
            then Ret (Inr (ten_value_init_float32 (f32_of_int (sint content))))
            else Ret (Inl (out_of_range ''float32''))
        | VUint8 content \<Rightarrow> Ret (Inr (ten_value_init_float32 (f32_of_int (uint content))))
        | VUint16 content \<Rightarrow> Ret (Inr (ten_value_init_float32 (f32_of_int (uint content))))
        | VUint32 content \<Rightarrow>
            if can_convert_uint32_to_float32 mach content
            then Ret (Inr (ten_value_init_float32 (f32_of_int (uint content))))
            else Ret (Inl (out_of_range ''float32''))
        | VUint64 content \<Rightarrow>
            if can_convert_uint64_to_float32 mach content
            then Ret (Inr (ten_value_init_float32 (f32_of_int (uint content))))
            else Ret (Inl (out_of_range ''float32''))
        | VFloat32 content \<Rightarrow> Ret (Inr self)
        | VFloat64 content \<Rightarrow>
            if can_convert_float64_to_float32 content
            then Ret (Inr (ten_value_init_float32 (f32_of_f64 content)))
            else Ret (Inl (out_of_range ''float32''))
        | _ \<Rightarrow> Abort))"

text \<open>Every integer goes through \<open>(float)\<close> on its way to a \<open>double\<close>.\<close>

definition ten_value_convert_to_float64 :: "machine \<Rightarrow> ten_value \<Rightarrow> ten_value fallible" where
  "ten_value_convert_to_float64 mach self =
     (if \<not> ten_type_is_compatible (ten_value_get_type self) TEN_TYPE_FLOAT64
      then Ret (Inl (unsupported_conversion self ''float64''))
      else (case self of
          VInt8 content \<Rightarrow> Ret (Inr (ten_value_init_float64 (f32_of_int (sint content))))
        | VInt16 content \<Rightarrow> Ret (Inr (ten_value_init_float64 (f32_of_int (sint content))))
        | VInt32 content \<Rightarrow> Ret (Inr (ten_value_init_float64 (f32_of_int (sint content))))
        | VInt64 content \<Rightarrow>
            if can_convert_int64_to_float64 mach content
            then Ret (Inr (ten_value_init_float64 (f32_of_int (sint content))))
            else Ret (Inl (out_of_range ''float64''))
        | VUint8 content \<Rightarrow> Ret (Inr (ten_value_init_float64 (f32_of_int (uint content))))
        | VUint16 content \<Rightarrow> Ret (Inr (ten_value_init_float64 (f32_of_int (uint content))))
        | VUint32 content \<Rightarrow> Ret (Inr (ten_value_init_float64 (f32_of_int (uint content))))
        | VUint64 content \<Rightarrow>
            if can_convert_uint64_to_float64 mach content
            then Ret (Inr (ten_value_init_float64 (f32_of_int (uint content))))
            else Ret (Inl (out_of_range ''float64''))
        | VFloat32 content \<Rightarrow> Ret (Inr (ten_value_init_float64 content))
        | VFloat64 content \<Rightarrow> Ret (Inr self)
        | _ \<Rightarrow> Abort))"

section \<open>What the integer conversions compute\<close>

text \<open>The specification: an integer in range is kept, everything else is refused.\<close>

definition converted :: "TEN_TYPE \<Rightarrow> ten_value \<Rightarrow> ten_error + ten_value" where
  "converted t v = (case int_value v of
      None \<Rightarrow> Inl (unsupported_conversion v (type_text t))
    | Some n \<Rightarrow> if in_range t n then Inr (mk_int t n) else Inl (out_of_range (type_text t)))"

definition convert_to_int :: "TEN_TYPE \<Rightarrow> ten_value \<Rightarrow> ten_value fallible" where
  "convert_to_int t v = (case t of
      TEN_TYPE_INT8 \<Rightarrow> ten_value_convert_to_int8 v
    | TEN_TYPE_INT16 \<Rightarrow> ten_value_convert_to_int16 v
    | TEN_TYPE_INT32 \<Rightarrow> ten_value_convert_to_int32 v
    | TEN_TYPE_INT64 \<Rightarrow> ten_value_convert_to_int64 v
    | TEN_TYPE_UINT8 \<Rightarrow> ten_value_convert_to_uint8 v
    | TEN_TYPE_UINT16 \<Rightarrow> ten_value_convert_to_uint16 v
    | TEN_TYPE_UINT32 \<Rightarrow> ten_value_convert_to_uint32 v
    | TEN_TYPE_UINT64 \<Rightarrow> ten_value_convert_to_uint64 v
    | _ \<Rightarrow> Abort)"

lemmas convert_simps =
  ten_type_is_compatible_iff TEN_IS_INTEGER_TYPE_def TEN_IS_FLOAT_TYPE_def converted_def in_range_def
  can_convert_int_defs word_bounds not_less

lemma convert_to_int8_eq [spec_simps]: "ten_value_convert_to_int8 v = Ret (converted TEN_TYPE_INT8 v)"
  by (cases v) (simp_all add: ten_value_convert_to_int8_def convert_simps)

lemma convert_to_int16_eq [spec_simps]: "ten_value_convert_to_int16 v = Ret (converted TEN_TYPE_INT16 v)"
  by (cases v) (simp_all add: ten_value_convert_to_int16_def convert_simps)

lemma convert_to_int32_eq [spec_simps]: "ten_value_convert_to_int32 v = Ret (converted TEN_TYPE_INT32 v)"
  by (cases v) (simp_all add: ten_value_convert_to_int32_def convert_simps)

lemma convert_to_int64_eq [spec_simps]: "ten_value_convert_to_int64 v = Ret (converted TEN_TYPE_INT64 v)"
  by (cases v) (simp_all add: ten_value_convert_to_int64_def convert_simps)

lemma convert_to_uint8_eq [spec_simps]: "ten_value_convert_to_uint8 v = Ret (converted TEN_TYPE_UINT8 v)"
  by (cases v) (simp_all add: ten_value_convert_to_uint8_def convert_simps)

lemma convert_to_uint16_eq [spec_simps]: "ten_value_convert_to_uint16 v = Ret (converted TEN_TYPE_UINT16 v)"
  by (cases v) (simp_all add: ten_value_convert_to_uint16_def convert_simps)

lemma convert_to_uint32_eq [spec_simps]: "ten_value_convert_to_uint32 v = Ret (converted TEN_TYPE_UINT32 v)"
  by (cases v) (simp_all add: ten_value_convert_to_uint32_def convert_simps)

lemma convert_to_uint64_eq [spec_simps]: "ten_value_convert_to_uint64 v = Ret (converted TEN_TYPE_UINT64 v)"
  by (cases v) (simp_all add: ten_value_convert_to_uint64_def convert_simps)

lemma convert_to_int_eq [spec_simps]:
  "TEN_IS_INTEGER_TYPE t \<Longrightarrow> convert_to_int t v = Ret (converted t v)"
  unfolding TEN_IS_INTEGER_TYPE_def by (elim disjE) (simp_all add: convert_to_int_def spec_simps)

section \<open>What the floating-point conversions compute\<close>

lemma cast_exact:
  "cf_trunc f = Some k \<Longrightarrow> - 2147483648 \<le> k \<Longrightarrow> k \<le> 2147483647 \<Longrightarrow> sint (cast_i32 mach f) = k"
  "cf_trunc f = Some k \<Longrightarrow> - 9223372036854775808 \<le> k \<Longrightarrow> k \<le> 9223372036854775807 \<Longrightarrow>
     sint (cast_i64 mach f) = k"
  "cf_trunc f = Some k \<Longrightarrow> 0 \<le> k \<Longrightarrow> k \<le> 4294967295 \<Longrightarrow> uint (cast_u32 mach f) = k"
  "cf_trunc f = Some k \<Longrightarrow> 0 \<le> k \<Longrightarrow> k \<le> 18446744073709551615 \<Longrightarrow> uint (cast_u64 mach f) = k"
  by (simp_all add: cast_i32_def cast_i64_def cast_u32_def cast_u64_def val_mk_all)

text \<open>A number that comes back from its float unchanged is exact, unless it was rounded up to the
  first number out of range.\<close>

definition kept :: "int \<Rightarrow> int \<Rightarrow> bool" where
  "kept hi n \<longleftrightarrow> cf_int (f32_of_int n) = Some n \<or> cf_int (f32_of_int n) = Some (hi + 1)"

lemma can_convert_float32_kept:
  "can_convert_int32_to_float32 mach i \<Longrightarrow> kept 2147483647 (sint i)"
  "can_convert_int64_to_float32 mach j \<Longrightarrow> kept 9223372036854775807 (sint j)"
  "can_convert_uint32_to_float32 mach u \<Longrightarrow> kept 4294967295 (uint u)"
  "can_convert_uint64_to_float32 mach w \<Longrightarrow> kept 18446744073709551615 (uint w)"
proof -
  show "kept 2147483647 (sint i)" if c: "can_convert_int32_to_float32 mach i"
  proof -
    have "\<bar>sint i\<bar> \<le> 2 ^ 31" using i32.val_range [of i] by auto
    from f32_of_int_bound [OF this] obtain k where k: "cf_int (f32_of_int (sint i)) = Some k"
      "\<bar>k\<bar> \<le> 2 ^ 31" by auto
    from c have "sint i = sint (cast_i32 mach (f32_of_int (sint i)))"
      by (simp add: can_convert_int32_to_float32_def Let_def split: if_splits)
    then show ?thesis
      using k cast_exact(1) [OF cf_int_trunc [OF k(1)]] by (fastforce simp: kept_def)
  qed
  show "kept 9223372036854775807 (sint j)" if c: "can_convert_int64_to_float32 mach j"
  proof -
    have "\<bar>sint j\<bar> \<le> 2 ^ 63" using i64.val_range [of j] by auto
    from f32_of_int_bound [OF this] obtain k where k: "cf_int (f32_of_int (sint j)) = Some k"
      "\<bar>k\<bar> \<le> 2 ^ 63" by auto
    from c have "sint j = sint (cast_i64 mach (f32_of_int (sint j)))"
      by (simp add: can_convert_int64_to_float32_def Let_def split: if_splits)
    then show ?thesis
      using k cast_exact(2) [OF cf_int_trunc [OF k(1)]] by (fastforce simp: kept_def)
  qed
  show "kept 4294967295 (uint u)" if c: "can_convert_uint32_to_float32 mach u"
  proof -
    have "\<bar>uint u\<bar> \<le> 2 ^ 32" using u32.val_range [of u] by auto
    from f32_of_int_bound [OF this] obtain k where k: "cf_int (f32_of_int (uint u)) = Some k"
      "\<bar>k\<bar> \<le> 2 ^ 32" "0 \<le> k" by auto
    from c have "uint u = uint (cast_u32 mach (f32_of_int (uint u)))"
      by (simp add: can_convert_uint32_to_float32_def Let_def split: if_splits)
    then show ?thesis
      using k cast_exact(3) [OF cf_int_trunc [OF k(1)]] by (fastforce simp: kept_def)
  qed
  show "kept 18446744073709551615 (uint w)" if c: "can_convert_uint64_to_float32 mach w"
  proof -
    have "\<bar>uint w\<bar> \<le> 2 ^ 64" using u64.val_range [of w] by auto
    from f32_of_int_bound [OF this] obtain k where k: "cf_int (f32_of_int (uint w)) = Some k"
      "\<bar>k\<bar> \<le> 2 ^ 64" "0 \<le> k" by auto
    from c have "uint w = uint (cast_u64 mach (f32_of_int (uint w)))"
      by (simp add: can_convert_uint64_to_float32_def Let_def split: if_splits)
    then show ?thesis
      using k cast_exact(4) [OF cf_int_trunc [OF k(1)]] by (fastforce simp: kept_def)
  qed
qed

lemma f32_of_int_small:
  "cf_int (f32_of_int (sint (a :: 8 word))) = Some (sint a)"
  "cf_int (f32_of_int (sint (b :: 16 word))) = Some (sint b)"
  "cf_int (f32_of_int (uint (c :: 8 word))) = Some (uint c)"
  "cf_int (f32_of_int (uint (d :: 16 word))) = Some (uint d)"
  using i8.val_range [of a] i16.val_range [of b] u8.val_range [of c] u16.val_range [of d]
  by (auto intro!: f32_of_int_exact)

lemma can_convert_int64_float64_small:
  "\<bar>sint j\<bar> < 2 ^ 53 \<Longrightarrow> can_convert_int64_to_float64 mach j"
  using cast_exact(2) [OF cf_int_trunc [OF f64_of_int_exact], of "sint j"]
  by (simp add: can_convert_int64_to_float64_def word_bounds flip: i64.val_inject)

lemma can_convert_uint64_float64_small:
  "\<bar>uint w\<bar> < 2 ^ 53 \<Longrightarrow> can_convert_uint64_to_float64 mach w"
  using cast_exact(4) [OF cf_int_trunc [OF f64_of_int_exact], of "uint w"]
  by (simp add: can_convert_uint64_to_float64_def word_bounds flip: u64.val_inject)

lemmas can_convert_float64_small =
  can_convert_int64_float64_small can_convert_uint64_float64_small

lemma convert_to_float32_type:
  "ten_value_convert_to_float32 mach v = Ret (Inr v') \<Longrightarrow> ten_value_get_type v' = TEN_TYPE_FLOAT32"
  by (cases v) (auto simp: ten_value_convert_to_float32_def split: if_splits)

lemma convert_to_float64_type:
  "ten_value_convert_to_float64 mach v = Ret (Inr v') \<Longrightarrow> ten_value_get_type v' = TEN_TYPE_FLOAT64"
  by (cases v) (auto simp: ten_value_convert_to_float64_def split: if_splits)

section \<open>Properties\<close>

text \<open>C9: Every conversion to an integer type returns.  When it succeeds, the new value has the
  target type and holds the same mathematical integer; when it sets an error, the value was not an
  integer, or its integer is outside the range of the target type.\<close>

theorem convert_to_int_correct:
  assumes "TEN_IS_INTEGER_TYPE t"
  shows "\<exists>r. convert_to_int t v = Ret r \<and>
    (case r of
       Inr v' \<Rightarrow> ten_value_get_type v' = t \<and> int_value v' = int_value v \<and> int_value v \<noteq> None
     | Inl err \<Rightarrow> \<not> ten_error_is_success err \<and>
                  (\<forall>n. int_value v = Some n \<longrightarrow> \<not> in_range t n))"
  using assms int_value_mk_int [OF assms]
  by (auto simp: convert_to_int_eq converted_def unsupported_conversion_def out_of_range_def
      split: option.splits)

theorem convert_to_int_correct_witness:
  "TEN_IS_INTEGER_TYPE TEN_TYPE_INT8 \<and>
   (\<exists>v'. convert_to_int TEN_TYPE_INT8 (VInt32 (- 128)) = Ret (Inr v') \<and>
      ten_value_get_type v' = TEN_TYPE_INT8 \<and> int_value v' = Some (- 128))"
proof -
  have t: "TEN_IS_INTEGER_TYPE TEN_TYPE_INT8" by (simp add: TEN_IS_INTEGER_TYPE_def)
  have n: "int_value (VInt32 (- 128)) = Some (- 128)" "in_range TEN_TYPE_INT8 (- 128)"
    by (simp_all add: in_range_def)
  from convert_to_int_correct [OF t, of "VInt32 (- 128)"] obtain r where
    r: "convert_to_int TEN_TYPE_INT8 (VInt32 (- 128)) = Ret r" and
    c: "case r of
       Inr v' \<Rightarrow> ten_value_get_type v' = TEN_TYPE_INT8 \<and> int_value v' = int_value (VInt32 (- 128)) \<and>
                 int_value (VInt32 (- 128)) \<noteq> None
     | Inl err \<Rightarrow> \<not> ten_error_is_success err \<and>
                  (\<forall>n. int_value (VInt32 (- 128)) = Some n \<longrightarrow> \<not> in_range TEN_TYPE_INT8 n)" by blast
  with t n show ?thesis by (cases r) (simp_all only: sum.case, fastforce+)
qed

text \<open>C28: An integer that is converted to \<open>float32\<close> successfully is represented exactly, on any
  machine, with one exception: the greatest integers of a 32- or 64-bit type may become the float
  just above the range of their type, because the check converts that float back, which is
  undefined in C.\<close>

theorem convert_to_float32_exact:
  assumes "int_value v = Some n" and "ten_value_convert_to_float32 mach v = Ret (Inr r)"
  shows "\<exists>f. r = VFloat32 f \<and>
    (cf_int f = Some n \<or> cf_int f = Some (type_max (ten_value_get_type v) + 1))"
  using assms can_convert_float32_kept
  by (cases v)
     (auto simp: ten_value_convert_to_float32_def f32_of_int_small kept_def split: if_splits)

text \<open>A saturating machine does take the exception, and stores 2147483648.\<close>

lemma convert_to_float32_int32_max:
  "ten_value_convert_to_float32 saturating_machine (VInt32 2147483647) =
     Ret (Inr (VFloat32 (FFin False 1 31)))"
proof -
  have "f32_of_int 2147483647 = FFin False 1 31"
    by (simp add: f32_of_int_def round32_def ieee_round_def rne_shift_def bitlen.simps strip2.simps
        Let_def)
  then show ?thesis
    by (simp add: ten_value_convert_to_float32_def ten_type_is_compatible_iff
        TEN_IS_INTEGER_TYPE_def TEN_IS_FLOAT_TYPE_def can_convert_int32_to_float32_def cast_i32_def
        FLT_MAX_def saturating_machine_def Let_def)
qed

theorem convert_to_float32_exact_witness:
  "int_value (VInt32 2147483647) = Some 2147483647 \<and>
   ten_value_convert_to_float32 saturating_machine (VInt32 2147483647) =
     Ret (Inr (VFloat32 (FFin False 1 31))) \<and>
   (\<exists>f. VFloat32 (FFin False 1 31) = VFloat32 f \<and>
     (cf_int f = Some 2147483647 \<or>
      cf_int f = Some (type_max (ten_value_get_type (VInt32 2147483647)) + 1)))"
proof (intro conjI)
  show n: "int_value (VInt32 2147483647) = Some 2147483647" by simp
  show c: "ten_value_convert_to_float32 saturating_machine (VInt32 2147483647) =
    Ret (Inr (VFloat32 (FFin False 1 31)))" by (rule convert_to_float32_int32_max)
  show "\<exists>f. VFloat32 (FFin False 1 31) = VFloat32 f \<and>
     (cf_int f = Some 2147483647 \<or>
      cf_int f = Some (type_max (ten_value_get_type (VInt32 2147483647)) + 1))"
    by (rule convert_to_float32_exact [OF n c])
qed

text \<open>C29: Every integer below \<open>2^24\<close> in absolute value, of any type, converts to \<open>float64\<close>
  exactly; the bound is sharp although a \<open>double\<close> holds every 32-bit integer: \<open>2^24 + 1\<close> is
  converted without an error and becomes \<open>2^24\<close>, since the code casts to \<open>float\<close>.\<close>

theorem convert_to_float64_exact_below_2_24:
  "(int_value v = Some n \<and> \<bar>n\<bar> < 2 ^ 24 \<longrightarrow>
      (\<exists>f. ten_value_convert_to_float64 mach v = Ret (Inr (VFloat64 f)) \<and> cf_int f = Some n)) \<and>
   (\<exists>f. ten_value_convert_to_float64 mach (VInt32 16777217) = Ret (Inr (VFloat64 f)) \<and>
        cf_int f = Some 16777216)"
proof (intro conjI impI; (elim conjE)?)
  assume v: "int_value v = Some n" and n: "\<bar>n\<bar> < 2 ^ 24"
  show "\<exists>f. ten_value_convert_to_float64 mach v = Ret (Inr (VFloat64 f)) \<and> cf_int f = Some n"
    using v n f32_of_int_exact [OF n]
    by (cases v) (auto simp: ten_value_convert_to_float64_def ten_type_is_compatible_iff
        TEN_IS_INTEGER_TYPE_def TEN_IS_FLOAT_TYPE_def can_convert_float64_small)
next
  show "\<exists>f. ten_value_convert_to_float64 mach (VInt32 16777217) = Ret (Inr (VFloat64 f)) \<and>
        cf_int f = Some 16777216"
    by (simp add: ten_value_convert_to_float64_def ten_type_is_compatible_iff
        TEN_IS_INTEGER_TYPE_def TEN_IS_FLOAT_TYPE_def f32_of_int_16777217)
qed

theorem convert_to_float64_exact_below_2_24_witness:
  "int_value (VUint8 200) = Some 200 \<and> \<bar>200 :: int\<bar> < 2 ^ 24 \<and>
   (\<exists>f. ten_value_convert_to_float64 indefinite_machine (VUint8 200) = Ret (Inr (VFloat64 f)) \<and>
        cf_int f = Some 200)"
  using convert_to_float64_exact_below_2_24 [of "VUint8 200" 200 indefinite_machine] by simp

end
