(* ===== verification/Value_Get.thy ===== *)
theory Value_Get
  imports Value_Convert
begin

text \<open>
  Reading a value (\<open>src/ten_utils/value/value_get.c\<close>).  A getter returns a number and, when it
  refuses, the error it puts into the error context (if the caller passed one).
\<close>

section \<open>Integers\<close>

definition invalid_value_type :: ten_error where
  "invalid_value_type = generic_error ''Invalid value type.''"

definition unfit :: "ten_value \<Rightarrow> string \<Rightarrow> ten_error" where
  "unfit self target =
     generic_error (''The conversion from '' @ type_text (ten_value_get_type self) @ '' to '' @ target @
                    '' is unfit.'')"

text \<open>
  Some guards of the unsigned getters read the member \<open>uint64\<close> (or \<open>int64\<close>) of the union where a
  narrower member is set.  Every constructor zeroes the whole union first, so on a little-endian
  machine that reads the narrower member zero-extended.
\<close>

fun union_uint64 :: "ten_value \<Rightarrow> 64 word" where
  "union_uint64 (VInt8 w) = word_of_int (uint w)"
| "union_uint64 (VInt16 w) = word_of_int (uint w)"
| "union_uint64 (VInt32 w) = word_of_int (uint w)"
| "union_uint64 (VInt64 w) = word_of_int (uint w)"
| "union_uint64 (VUint8 w) = word_of_int (uint w)"
| "union_uint64 (VUint16 w) = word_of_int (uint w)"
| "union_uint64 (VUint32 w) = word_of_int (uint w)"
| "union_uint64 (VUint64 w) = w"
| "union_uint64 _ = 0"

definition ten_value_get_int8 :: "ten_value \<Rightarrow> 8 word \<times> ten_error option" where
  "ten_value_get_int8 self =
     (if \<not> ten_value_is_valid self then (0, Some invalid_value_type)
      else (case self of
          VInt8 content \<Rightarrow> (content, None)
        | VInt16 content \<Rightarrow>
            if sint content \<ge> - 127 \<and> sint content \<le> 127
            then (scast content, None) else (0, Some (unfit self ''uint32''))
        | VInt32 content \<Rightarrow>
            if sint content \<ge> - 127 \<and> sint content \<le> 127
            then (scast content, None) else (0, Some (unfit self ''uint32''))
        | VInt64 content \<Rightarrow>
            if sint content \<ge> - 127 \<and> sint content \<le> 127
            then (scast content, None) else (0, Some (unfit self ''uint32''))
        | VUint8 content \<Rightarrow>
            if uint content \<le> 127
            then (ucast content, None) else (0, Some (unfit self ''uint32''))
        | VUint16 content \<Rightarrow>
            if uint content \<le> 127
            then (ucast content, None) else (0, Some (unfit self ''uint32''))
        | VUint32 content \<Rightarrow>
            if uint content \<le> 127
            then (ucast content, None) else (0, Some (unfit self ''uint32''))
        | VUint64 content \<Rightarrow>
            if uint content \<le> 127
            then (ucast content, None) else (0, Some (unfit self ''uint32''))
        | _ \<Rightarrow> (0, Some (unfit self ''uint32''))))"

definition ten_value_get_int16 :: "ten_value \<Rightarrow> 16 word \<times> ten_error option" where
  "ten_value_get_int16 self =
     (if \<not> ten_value_is_valid self then (0, Some invalid_value_type)
      else (case self of
          VInt8 content \<Rightarrow> (scast content, None)
        | VInt16 content \<Rightarrow> (content, None)
        | VInt32 content \<Rightarrow>
            if sint content \<ge> - 32767 \<and> sint content \<le> 32767
            then (scast content, None) else (0, Some (unfit self ''uint32''))
        | VInt64 content \<Rightarrow>
            if sint content \<ge> - 32767 \<and> sint content \<le> 32767
            then (scast content, None) else (0, Some (unfit self ''uint32''))
        | VUint8 content \<Rightarrow> (ucast content, None)
        | VUint16 content \<Rightarrow>
            if uint content \<le> 32767
            then (ucast content, None) else (0, Some (unfit self ''uint32''))
        | VUint32 content \<Rightarrow>
            if uint content \<le> 32767
            then (ucast content, None) else (0, Some (unfit self ''uint32''))
        | VUint64 content \<Rightarrow>
            if uint content \<le> 32767
            then (ucast content, None) else (0, Some (unfit self ''uint32''))
        | _ \<Rightarrow> (0, Some (unfit self ''uint32''))))"

definition ten_value_get_int32 :: "ten_value \<Rightarrow> 32 word \<times> ten_error option" where
  "ten_value_get_int32 self =
     (if \<not> ten_value_is_valid self then (0, Some invalid_value_type)
      else (case self of
          VInt8 content \<Rightarrow> (scast content, None)
        | VInt16 content \<Rightarrow> (scast content, None)
        | VInt32 content \<Rightarrow> (content, None)
        | VInt64 content \<Rightarrow>
            if sint content \<ge> - 2147483647 \<and> sint content \<le> 2147483647
            then (scast content, None) else (0, Some (unfit self ''uint32''))
        | VUint8 content \<Rightarrow> (ucast content, None)
        | VUint16 content \<Rightarrow> (ucast content, None)
        | VUint32 content \<Rightarrow>
            if uint content \<le> 2147483647
            then (ucast content, None) else (0, Some (unfit self ''uint32''))
        | VUint64 content \<Rightarrow>
            if uint content \<le> 2147483647
            then (ucast content, None) else (0, Some (unfit self ''uint32''))
        | _ \<Rightarrow> (0, Some (unfit self ''uint32''))))"

definition ten_value_get_int64 :: "ten_value \<Rightarrow> 64 word \<times> ten_error option" where
  "ten_value_get_int64 self =
     (if \<not> ten_value_is_valid self then (0, Some invalid_value_type)
      else (case self of
          VInt8 content \<Rightarrow> (scast content, None)
        | VInt16 content \<Rightarrow> (scast content, None)
        | VInt32 content \<Rightarrow> (scast content, None)
        | VInt64 content \<Rightarrow> (content, None)
        | VUint8 content \<Rightarrow> (ucast content, None)
        | VUint16 content \<Rightarrow> (ucast content, None)
        | VUint32 content \<Rightarrow> (ucast content, None)
        | VUint64 content \<Rightarrow>
            if uint content \<le> 9223372036854775807
            then (ucast content, None) else (0, Some (unfit self ''uint32''))
        | _ \<Rightarrow> (0, Some (unfit self ''uint32''))))"

definition ten_value_get_uint8 :: "ten_value \<Rightarrow> 8 word \<times> ten_error option" where
  "ten_value_get_uint8 self =
     (if \<not> ten_value_is_valid self then (0, Some invalid_value_type)
      else (case self of
          VUint8 content \<Rightarrow> (content, None)
        | VUint16 content \<Rightarrow>
            if uint (union_uint64 self) \<le> 255
            then (ucast content, None) else (0, Some (unfit self ''uint32''))
        | VUint32 content \<Rightarrow>
            if uint (union_uint64 self) \<le> 255
            then (ucast content, None) else (0, Some (unfit self ''uint32''))
        | VUint64 content \<Rightarrow>
            if uint (union_uint64 self) \<le> 255
            then (ucast content, None) else (0, Some (unfit self ''uint32''))
        | VInt8 content \<Rightarrow>
            if sint content \<ge> 0
            then (scast content, None) else (0, Some (unfit self ''uint32''))
        | VInt16 content \<Rightarrow>
            if sint content \<ge> 0 \<and> sint content \<le> 255
            then (scast content, None) else (0, Some (unfit self ''uint32''))
        | VInt32 content \<Rightarrow>
            if sint content \<ge> 0 \<and> sint content \<le> 255
            then (scast content, None) else (0, Some (unfit self ''uint32''))
        | VInt64 content \<Rightarrow>
            if sint content \<ge> 0 \<and> sint content \<le> 255
            then (scast content, None) else (0, Some (unfit self ''uint32''))
        | _ \<Rightarrow> (0, Some (unfit self ''uint32''))))"

definition ten_value_get_uint16 :: "ten_value \<Rightarrow> 16 word \<times> ten_error option" where
  "ten_value_get_uint16 self =
     (if \<not> ten_value_is_valid self then (0, Some invalid_value_type)
      else (case self of
          VUint8 content \<Rightarrow> (ucast content, None)
        | VUint16 content \<Rightarrow> (content, None)
        | VUint32 content \<Rightarrow>
            if uint (union_uint64 self) \<le> 65535
            then (ucast content, None) else (0, Some (unfit self ''uint32''))
        | VUint64 content \<Rightarrow>
            if uint (union_uint64 self) \<le> 65535
            then (ucast content, None) else (0, Some (unfit self ''uint32''))
        | VInt8 content \<Rightarrow>
            if sint content \<ge> 0
            then (scast content, None) else (0, Some (unfit self ''uint32''))
        | VInt16 content \<Rightarrow>
            if sint content \<ge> 0
            then (scast content, None) else (0, Some (unfit self ''uint32''))
        | VInt32 content \<Rightarrow>
            if sint content \<ge> 0 \<and> sint (union_uint64 self) \<le> 65535
            then (scast content, None) else (0, Some (unfit self ''uint32''))
        | VInt64 content \<Rightarrow>
            if sint content \<ge> 0 \<and> sint content \<le> 65535
            then (scast content, None) else (0, Some (unfit self ''uint32''))
        | _ \<Rightarrow> (0, Some (unfit self ''uint32''))))"

definition ten_value_get_uint32 :: "ten_value \<Rightarrow> 32 word \<times> ten_error option" where
  "ten_value_get_uint32 self =
     (if \<not> ten_value_is_valid self then (0, Some invalid_value_type)
      else (case self of
          VUint8 content \<Rightarrow> (ucast content, None)
        | VUint16 content \<Rightarrow> (ucast content, None)
        | VUint32 content \<Rightarrow> (content, None)
        | VUint64 content \<Rightarrow>
            if uint content \<le> 4294967295
            then (ucast content, None) else (0, Some (unfit self ''uint32''))
        | VInt8 content \<Rightarrow>
            if sint content \<ge> 0
            then (scast content, None) else (0, Some (unfit self ''uint32''))
        | VInt16 content \<Rightarrow>
            if sint content \<ge> 0
            then (scast content, None) else (0, Some (unfit self ''uint32''))
        | VInt32 content \<Rightarrow>
            if sint content \<ge> 0
            then (scast content, None) else (0, Some (unfit self ''uint32''))
        | VInt64 content \<Rightarrow>
            if sint content \<ge> 0 \<and> sint content \<le> 4294967295
            then (scast content, None) else (0, Some (unfit self ''uint32''))
        | _ \<Rightarrow> (0, Some (unfit self ''uint32''))))"

definition ten_value_get_uint64 :: "ten_value \<Rightarrow> 64 word \<times> ten_error option" where
  "ten_value_get_uint64 self =
     (if \<not> ten_value_is_valid self then (0, Some invalid_value_type)
      else (case self of
          VUint8 content \<Rightarrow> (ucast content, None)
        | VUint16 content \<Rightarrow> (ucast content, None)
        | VUint32 content \<Rightarrow> (ucast content, None)
        | VUint64 content \<Rightarrow> (content, None)
        | VInt8 content \<Rightarrow>
            if sint content \<ge> 0
            then (scast content, None) else (0, Some (unfit self ''uint32''))
        | VInt16 content \<Rightarrow>
            if sint content \<ge> 0
            then (scast content, None) else (0, Some (unfit self ''uint32''))
        | VInt32 content \<Rightarrow>
            if sint content \<ge> 0
            then (scast content, None) else (0, Some (unfit self ''uint32''))
        | VInt64 content \<Rightarrow>
            if sint content \<ge> 0
            then (scast content, None) else (0, Some (unfit self ''uint32''))
        | _ \<Rightarrow> (0, Some (unfit self ''uint32''))))"

section \<open>Other types\<close>

definition ten_value_get_float32 :: "ten_value \<Rightarrow> cfloat \<times> ten_error option" where
  "ten_value_get_float32 self =
     (if \<not> ten_value_is_valid self then (FFin False 0 0, Some invalid_value_type)
      else (case self of
          VFloat32 content \<Rightarrow> (content, None)
        | VFloat64 content \<Rightarrow>
            if cf_le (cf_minus FLT_MAX) content \<and> cf_le content FLT_MAX
            then (f32_of_f64 content, None) else (FFin False 0 0, Some (unfit self ''float32''))
        | _ \<Rightarrow> (FFin False 0 0, None)))"

definition ten_value_get_float64 :: "ten_value \<Rightarrow> cfloat \<times> ten_error option" where
  "ten_value_get_float64 self =
     (if \<not> ten_value_is_valid self then (FFin False 0 0, Some invalid_value_type)
      else (case self of
          VFloat32 content \<Rightarrow> (content, None)
        | VFloat64 content \<Rightarrow> (content, None)
        | _ \<Rightarrow> (FFin False 0 0, Some (unfit self ''float32''))))"

definition ten_value_get_bool :: "ten_value \<Rightarrow> bool \<times> ten_error option" where
  "ten_value_get_bool self =
     (if \<not> ten_value_is_valid self then (False, Some invalid_value_type)
      else (case self of
          VBool content \<Rightarrow> (content, None)
        | _ \<Rightarrow> (False, Some (unfit self ''uint32''))))"

definition ten_value_get_ptr :: "ten_value \<Rightarrow> 64 word \<times> ten_error option" where
  "ten_value_get_ptr self = (case self of
      VPtr p \<Rightarrow> (p, None)
    | _ \<Rightarrow> (0, Some (generic_error (''Not pointer value, actual type: '' @
                                    type_text (ten_value_get_type self)))))"

text \<open>The peek functions return the owned part, or \<open>NULL\<close> on another type.\<close>

definition ten_value_peek_buf :: "ten_value \<Rightarrow> ten_buf option" where
  "ten_value_peek_buf self = (case self of VBuf b \<Rightarrow> Some b | _ \<Rightarrow> None)"

definition ten_value_peek_array :: "ten_value \<Rightarrow> ten_value list option" where
  "ten_value_peek_array self = (case self of VArray vs \<Rightarrow> Some vs | _ \<Rightarrow> None)"

definition ten_value_peek_object :: "ten_value \<Rightarrow> (string \<times> ten_value) list option" where
  "ten_value_peek_object self = (case self of VObject kvs \<Rightarrow> Some kvs | _ \<Rightarrow> None)"

definition ten_value_peek_string :: "ten_value \<Rightarrow> string option" where
  "ten_value_peek_string self = (case self of VString s \<Rightarrow> Some s | _ \<Rightarrow> None)"

definition ten_value_peek_raw_str :: "ten_value \<Rightarrow> string option" where
  "ten_value_peek_raw_str self = (case self of VString s \<Rightarrow> Some s | _ \<Rightarrow> None)"

text \<open>An index out of range gives \<open>NULL\<close> and no error.\<close>

definition ten_value_array_peek :: "ten_value \<Rightarrow> nat \<Rightarrow> ten_value option \<times> ten_error option" where
  "ten_value_array_peek self index = (case self of
      VArray vs \<Rightarrow> (if index \<ge> length vs then None else Some (vs ! index), None)
    | _ \<Rightarrow> (None, Some (unfit self ''array'')))"

section \<open>What the integer getters return\<close>

text \<open>The getter of each integer type, its result read as an integer.\<close>

definition get_as_int :: "TEN_TYPE \<Rightarrow> ten_value \<Rightarrow> int \<times> ten_error option" where
  "get_as_int t v = (case t of
      TEN_TYPE_INT8 \<Rightarrow> map_prod sint id (ten_value_get_int8 v)
    | TEN_TYPE_INT16 \<Rightarrow> map_prod sint id (ten_value_get_int16 v)
    | TEN_TYPE_INT32 \<Rightarrow> map_prod sint id (ten_value_get_int32 v)
    | TEN_TYPE_INT64 \<Rightarrow> map_prod sint id (ten_value_get_int64 v)
    | TEN_TYPE_UINT8 \<Rightarrow> map_prod uint id (ten_value_get_uint8 v)
    | TEN_TYPE_UINT16 \<Rightarrow> map_prod uint id (ten_value_get_uint16 v)
    | TEN_TYPE_UINT32 \<Rightarrow> map_prod uint id (ten_value_get_uint32 v)
    | TEN_TYPE_UINT64 \<Rightarrow> map_prod uint id (ten_value_get_uint64 v)
    | _ \<Rightarrow> (0, None))"

text \<open>
  The specification: a signed getter takes a wider or unsigned number only from the interval that is
  symmetric around zero.
\<close>

definition gettable :: "TEN_TYPE \<Rightarrow> ten_value \<Rightarrow> int \<Rightarrow> bool" where
  "gettable t v n \<longleftrightarrow> in_range t n \<and> \<not> (ten_value_get_type v \<noteq> t \<and> n = type_min t \<and> n < 0)"

definition got :: "TEN_TYPE \<Rightarrow> ten_value \<Rightarrow> int \<times> ten_error option" where
  "got t v = (case int_value v of
      None \<Rightarrow> (0, Some (if ten_value_is_valid v then unfit v ''uint32'' else invalid_value_type))
    | Some n \<Rightarrow> if gettable t v n then (n, None) else (0, Some (unfit v ''uint32'')))"

lemmas get_simps = gettable_def got_def in_range_def cast_simps word_bounds

lemma get_int8_eq [spec_simps]:
  "map_prod sint id (ten_value_get_int8 v) = got TEN_TYPE_INT8 v"
  by (cases v) (auto simp: ten_value_get_int8_def get_simps)

lemma get_int16_eq [spec_simps]:
  "map_prod sint id (ten_value_get_int16 v) = got TEN_TYPE_INT16 v"
  by (cases v) (auto simp: ten_value_get_int16_def get_simps)

lemma get_int32_eq [spec_simps]:
  "map_prod sint id (ten_value_get_int32 v) = got TEN_TYPE_INT32 v"
  by (cases v) (auto simp: ten_value_get_int32_def get_simps)

lemma get_int64_eq [spec_simps]:
  "map_prod sint id (ten_value_get_int64 v) = got TEN_TYPE_INT64 v"
  by (cases v) (auto simp: ten_value_get_int64_def get_simps)

lemma get_uint8_eq [spec_simps]:
  "map_prod uint id (ten_value_get_uint8 v) = got TEN_TYPE_UINT8 v"
  by (cases v) (auto simp: ten_value_get_uint8_def get_simps)

lemma get_uint16_eq [spec_simps]:
  "map_prod uint id (ten_value_get_uint16 v) = got TEN_TYPE_UINT16 v"
  by (cases v) (auto simp: ten_value_get_uint16_def get_simps)

lemma get_uint32_eq [spec_simps]:
  "map_prod uint id (ten_value_get_uint32 v) = got TEN_TYPE_UINT32 v"
  by (cases v) (auto simp: ten_value_get_uint32_def get_simps)

lemma get_uint64_eq [spec_simps]:
  "map_prod uint id (ten_value_get_uint64 v) = got TEN_TYPE_UINT64 v"
  by (cases v) (auto simp: ten_value_get_uint64_def get_simps)

lemma get_as_int_eq [spec_simps]: "TEN_IS_INTEGER_TYPE t \<Longrightarrow> get_as_int t v = got t v"
  unfolding TEN_IS_INTEGER_TYPE_def by (elim disjE) (simp_all add: get_as_int_def spec_simps)

section \<open>Properties\<close>

text \<open>C27: The getter of an integer type and the conversion to it agree on every value, except for one
  number: the least number of a signed type, held by a value of another type, is converted but the
  getter refuses it with an error.\<close>

theorem getter_agrees_with_conversion:
  assumes "TEN_IS_INTEGER_TYPE t" and "int_value v = Some n"
  shows "(snd (get_as_int t v) = None \<longrightarrow> fst (get_as_int t v) = n) \<and>
    (snd (get_as_int t v) = None \<longleftrightarrow>
       (\<exists>v'. convert_to_int t v = Ret (Inr v')) \<and>
       \<not> (ten_value_get_type v \<noteq> t \<and> n = type_min t \<and> n < 0))"
  using assms by (simp add: get_as_int_eq convert_to_int_eq got_def gettable_def converted_def)

theorem getter_agrees_with_conversion_witness:
  "snd (get_as_int TEN_TYPE_INT8 (VInt16 100)) = None \<and> fst (get_as_int TEN_TYPE_INT8 (VInt16 100)) = 100 \<and>
   snd (get_as_int TEN_TYPE_INT8 (VInt16 (- 128))) \<noteq> None \<and>
   (\<exists>v'. convert_to_int TEN_TYPE_INT8 (VInt16 (- 128)) = Ret (Inr v'))"
proof -
  have t: "TEN_IS_INTEGER_TYPE TEN_TYPE_INT8" by (simp add: TEN_IS_INTEGER_TYPE_def)
  have n: "int_value (VInt16 100) = Some 100" "int_value (VInt16 (- 128)) = Some (- 128)" by simp_all
  have c: "\<exists>v'. convert_to_int TEN_TYPE_INT8 (VInt16 100) = Ret (Inr v')"
    "\<exists>v'. convert_to_int TEN_TYPE_INT8 (VInt16 (- 128)) = Ret (Inr v')"
    by (simp_all add: convert_to_int_eq t converted_def in_range_def)
  have "snd (get_as_int TEN_TYPE_INT8 (VInt16 100)) = None"
    using getter_agrees_with_conversion [OF t n(1)] c(1) by simp
  moreover have "snd (get_as_int TEN_TYPE_INT8 (VInt16 (- 128))) \<noteq> None"
    using getter_agrees_with_conversion [OF t n(2)] by simp
  ultimately show ?thesis using getter_agrees_with_conversion [OF t n(1)] c(2) by blast
qed

end
