(* ===== verification/Value_Tree.thy ===== *)
theory Value_Tree
  imports Ten_Value
begin

text \<open>
  Facts about whole value trees: when a clone is faithful, and what \<open>ten_value_is_equal\<close> decides.
\<close>

section \<open>Well-formed trees\<close>

text \<open>No key holds a percent sign, so creating a key copies it, and no array or object is too long for the
  loop over it.\<close>

fun keys_plain :: "ten_value \<Rightarrow> bool" where
  "keys_plain (VArray vs) \<longleftrightarrow> walkable vs \<and> (\<forall>v \<in> set vs. keys_plain v)"
| "keys_plain (VObject kvs) \<longleftrightarrow> walkable kvs \<and> (\<forall>(k, v) \<in> set kvs. plain_key k \<and> keys_plain v)"
| "keys_plain _ \<longleftrightarrow> True"

text \<open>The keys of every object are distinct.\<close>

fun keys_distinct :: "ten_value \<Rightarrow> bool" where
  "keys_distinct (VArray vs) \<longleftrightarrow> (\<forall>v \<in> set vs. keys_distinct v)"
| "keys_distinct (VObject kvs) \<longleftrightarrow> distinct (map fst kvs) \<and> (\<forall>(k, v) \<in> set kvs. keys_distinct v)"
| "keys_distinct _ \<longleftrightarrow> True"

text \<open>A buffer that its copy handler reproduces: not owned, or owned with some bytes, all of them
  content.\<close>

definition buf_exact :: "ten_buf \<Rightarrow> bool" where
  "buf_exact b \<longleftrightarrow> buf_owns_memory b \<longrightarrow>
     buf_data b \<noteq> [] \<and> buf_signed b \<and> buf_content_size b = length (buf_data b) \<and>
     \<not> buf_is_fixed_size b"

fun bufs_exact :: "ten_value \<Rightarrow> bool" where
  "bufs_exact (VBuf b) \<longleftrightarrow> buf_exact b"
| "bufs_exact (VArray vs) \<longleftrightarrow> (\<forall>v \<in> set vs. bufs_exact v)"
| "bufs_exact (VObject kvs) \<longleftrightarrow> (\<forall>(k, v) \<in> set kvs. bufs_exact v)"
| "bufs_exact _ \<longleftrightarrow> True"

text \<open>Values \<open>ten_value_is_equal\<close> can compare: no valueless, buffer or pointer leaf, no element in
  an array, no NaN, and no object too long for the loop over it.\<close>

fun comparable :: "ten_value \<Rightarrow> bool" where
  "comparable VInvalid \<longleftrightarrow> False"
| "comparable (VBuf b) \<longleftrightarrow> False"
| "comparable (VPtr p) \<longleftrightarrow> False"
| "comparable (VFloat32 f) \<longleftrightarrow> f \<noteq> FNaN"
| "comparable (VFloat64 f) \<longleftrightarrow> f \<noteq> FNaN"
| "comparable (VArray vs) \<longleftrightarrow> vs = []"
| "comparable (VObject kvs) \<longleftrightarrow> walkable kvs \<and> (\<forall>(k, v) \<in> set kvs. comparable v)"
| "comparable _ \<longleftrightarrow> True"

lemma entry_size: "(k, v) \<in> set kvs \<Longrightarrow> size v < size (VObject kvs)"
proof -
  assume "(k, v) \<in> set kvs"
  then have "size_prod (\<lambda>_. 0) size (k, v) \<le> size_list (size_prod (\<lambda>_. 0) size) kvs"
    by (intro size_list_estimation') auto
  then show ?thesis by simp
qed

section \<open>Cloning\<close>

lemma ten_value_copy_buf_exact: "ten_value_copy_buf b = b \<longleftrightarrow> buf_exact b"
  by (cases b) (auto simp: ten_value_copy_buf_def zeroed_buf_def ten_buf_init_with_copying_data_def
      buf_exact_def)

lemma run_map_identity: "run_map f xs = Ret xs \<longleftrightarrow> (\<forall>x \<in> set xs. f x = Ret x)"
  by (induction xs) auto

lemma ten_value_clone_identity:
  "ten_value_clone v = Ret v \<longleftrightarrow> keys_plain v \<and> bufs_exact v"
proof (induction v rule: ten_value_clone.induct)
  case (16 vs)
  then show ?case by (auto simp: run_map_identity)
next
  case (17 kvs)
  have "(case kv of (k, v) \<Rightarrow>
          run_bind (ten_value_kv_create_empty k) (\<lambda>k'. map_run (Pair k') (ten_value_clone v))) = Ret kv
        \<longleftrightarrow> plain_key (fst kv) \<and> keys_plain (snd kv) \<and> bufs_exact (snd kv)"
    if "walkable kvs" "kv \<in> set kvs" for kv
    using 17 [OF that] by (cases kv)
      (auto simp: ten_value_kv_create_empty_def dest: format_no_args_identity)
  then show ?case by (cases "walkable kvs") (auto simp: run_map_identity split_beta)
qed (auto simp: ten_value_copy_buf_exact)

lemma ten_value_clone_plain [simp]:
  "keys_plain v \<Longrightarrow> bufs_exact v \<Longrightarrow> ten_value_clone v = Ret v"
  by (simp add: ten_value_clone_identity)

lemma ten_value_kv_clone_plain [simp]:
  "plain_key k \<Longrightarrow> keys_plain v \<Longrightarrow> bufs_exact v \<Longrightarrow> ten_value_kv_clone (k, v) = Ret (k, v)"
  by (simp add: ten_value_kv_clone_def ten_value_kv_create_empty_def)

section \<open>Equality\<close>

lemma ten_value_is_equal_type:
  "ten_value_is_equal v t = Ret True \<Longrightarrow> ten_value_get_type v = ten_value_get_type t"
  by (cases v) (auto split: if_splits)

lemma is_equal_object [simp]:
  "ten_value_is_equal (VObject kvs) (VObject kvs') = Ret True \<longleftrightarrow>
     length kvs = length kvs' \<and> walkable kvs \<and>
     (\<forall>(k, v) \<in> set kvs. \<exists>v'. find_entry k kvs' = Some v' \<and> ten_value_is_equal v v' = Ret True)"
  by (auto simp: run_all_Ret_True split: option.splits)

declare ten_value_is_equal.simps(4) [simp del]

lemma is_equal_object_left:
  "ten_value_is_equal (VObject kvs) t = Ret True \<Longrightarrow> \<exists>kvs'. t = VObject kvs'"
  by (drule ten_value_is_equal_type) (cases t; simp)

lemma ten_value_is_equal_refl:
  "comparable v \<Longrightarrow> keys_distinct v \<Longrightarrow> ten_value_is_equal v v = Ret True"
proof (induction v rule: comparable.induct)
  case (7 kvs)
  have "\<exists>v'. find_entry k kvs = Some v' \<and> ten_value_is_equal v v' = Ret True"
    if "(k, v) \<in> set kvs" for k v
  proof -
    have "find_entry k kvs = Some v" using 7(3) that by (simp add: find_entry_distinct)
    moreover have "ten_value_is_equal v v = Ret True"
      using 7(1) [OF that refl] 7(2,3) that by auto
    ultimately show ?thesis by blast
  qed
  then show ?case using 7(2) by auto
qed auto

text \<open>Objects of equal size whose first has only keys of the second have the same keys.\<close>

lemma same_keys:
  assumes "distinct (map fst kvs)" and "distinct (map fst kvs')" and "length kvs = length kvs'"
    and "fst ` set kvs \<subseteq> fst ` set kvs'"
  shows "fst ` set kvs = fst ` set kvs'"
proof (rule card_subset_eq)
  show "card (fst ` set kvs) = card (fst ` set kvs')"
    using assms(1,2,3) distinct_card [of "map fst kvs"] distinct_card [of "map fst kvs'"] by simp
qed (use assms(4) in auto)

lemma ten_value_is_equal_sym:
  "keys_distinct v \<Longrightarrow> keys_distinct t \<Longrightarrow> comparable v \<Longrightarrow>
     ten_value_is_equal v t = Ret True \<Longrightarrow> ten_value_is_equal t v = Ret True"
proof (induction v arbitrary: t rule: comparable.induct)
  case (7 kvs)
  from is_equal_object_left [OF 7(5)] obtain kvs' where t: "t = VObject kvs'" by blast
  from 7(5) t have len: "length kvs = length kvs'" and walk: "walkable kvs'" "walkable kvs"
    and all: "\<And>k v. (k, v) \<in> set kvs \<Longrightarrow>
      \<exists>v'. find_entry k kvs' = Some v' \<and> ten_value_is_equal v v' = Ret True" by (auto simp: walkable_def)
  have sub: "fst ` set kvs \<subseteq> fst ` set kvs'"
    using all by (force dest: find_entry_SomeD)
  from 7(2,3) t len sub have keys: "fst ` set kvs = fst ` set kvs'" by (intro same_keys) auto
  have "\<exists>v. find_entry k kvs = Some v \<and> ten_value_is_equal v' v = Ret True"
    if kv': "(k, v') \<in> set kvs'" for k v'
  proof -
    from kv' keys obtain v where kv: "(k, v) \<in> set kvs" by force
    from all [OF kv] have "ten_value_is_equal v v' = Ret True"
      using 7(3) t kv' by (auto simp: find_entry_distinct)
    moreover have "keys_distinct v" "keys_distinct v'" "comparable v"
      using 7(2,3,4) t kv kv' by auto
    ultimately have "ten_value_is_equal v' v = Ret True" using 7(1) [OF kv refl] by blast
    moreover have "find_entry k kvs = Some v" using 7(2) kv by (simp add: find_entry_distinct)
    ultimately show ?thesis by blast
  qed
  with t len walk show ?case by auto
next
  case (4 f)
  then show ?case by (cases t) (auto simp: cf_eq_sym)
next
  case (5 f)
  then show ?case by (cases t) (auto simp: cf_eq_sym)
qed (case_tac t; auto split: if_splits)+

text \<open>An array with elements cannot be compared, not even with itself.\<close>

lemma ten_value_is_equal_array_aborts:
  "vs \<noteq> [] \<Longrightarrow> length vs = length vs' \<Longrightarrow> ten_value_is_equal (VArray vs) (VArray vs') = Abort"
  by simp

section \<open>Properties\<close>

text \<open>C30: A clone is identical to its source exactly when no key of an object in it holds a percent
  sign (keys pass through \<open>printf\<close>), no array or object in it has more than 100000 entries, and every
  buffer it owns has bytes, all of them content.\<close>

theorem clone_faithful: "ten_value_clone v = Ret v \<longleftrightarrow> keys_plain v \<and> bufs_exact v"
  by (rule ten_value_clone_identity)

text \<open>C31: On trees without valueless, buffer, pointer and NaN leaves, without array elements,
  with at most 100000 entries in an object and with distinct keys, \<open>ten_value_is_equal\<close> is reflexive and symmetric (objects compare independently
  of the order of their entries); two equally long arrays with elements make it abort.\<close>

theorem is_equal_reflexive_symmetric:
  assumes "comparable v" and "keys_distinct v" and "keys_distinct t"
  shows "ten_value_is_equal v v = Ret True \<and>
    (ten_value_is_equal v t = Ret True \<longrightarrow> ten_value_is_equal t v = Ret True) \<and>
    (vs \<noteq> [] \<and> length vs = length vs' \<longrightarrow> ten_value_is_equal (VArray vs) (VArray vs') = Abort)"
  using assms ten_value_is_equal_refl ten_value_is_equal_sym by simp

theorem is_equal_reflexive_symmetric_witness:
  "let v = VObject [(''a'', VInt8 1), (''b'', VNull)]; t = VObject [(''b'', VNull), (''a'', VInt8 1)]
   in comparable v \<and> keys_distinct v \<and> keys_distinct t \<and>
      ten_value_is_equal v t = Ret True \<and> ten_value_is_equal t v = Ret True \<and>
      ten_value_is_equal (VArray [VNull]) (VArray [VNull]) = Abort"
proof -
  let ?v = "VObject [(''a'', VInt8 1), (''b'', VNull)]"
  let ?t = "VObject [(''b'', VNull), (''a'', VInt8 1)]"
  have h: "comparable ?v" "keys_distinct ?v" "keys_distinct ?t" by (simp_all add: walkable_numeral)
  have "ten_value_is_equal ?v ?t = Ret True" by (simp add: walkable_numeral)
  with h is_equal_reflexive_symmetric [OF h, of "[VNull]" "[VNull]"] show ?thesis by simp
qed

end
