(* ===== verification/Value_Object.thy ===== *)
theory Value_Object
  imports Value_Tree Value_Get
begin

text \<open>
  Objects: lookup and replacement of one key (\<open>src/ten_utils/value/value_object.c\<close>), key-value pairs
  (\<open>value_kv.c\<close>) and the merge of two objects by moving or cloning (\<open>value_merge.c\<close>).  The merges
  are proved equal to the reference definition \<open>merge_tree\<close>, the properties are those of it.
\<close>

section \<open>One key\<close>

definition ten_value_kv_reset_to_value ::
    "string \<times> ten_value \<Rightarrow> ten_value \<Rightarrow> string \<times> ten_value" where
  "ten_value_kv_reset_to_value kv value = (fst kv, value)"

text \<open>\<open>err\<close> is the error context that the caller passes, or \<open>None\<close> for \<open>NULL\<close>;
  \<open>ten_error_is_success\<close> asserts that it is there.\<close>

definition ten_value_object_get_bool ::
    "ten_value \<Rightarrow> string \<Rightarrow> ten_error option \<Rightarrow> (bool \<times> ten_error option) run" where
  "ten_value_object_get_bool self key err =
     run_bind (ten_value_object_peek self key) (\<lambda>v. case v of
         None \<Rightarrow> Ret (False, map_option (\<lambda>e. ten_error_set e TEN_ERRNO_GENERIC (key @ '' does not exist.'')) err)
       | Some v \<Rightarrow>
           let result = fst (ten_value_get_bool v);
               err1 = (case (err, snd (ten_value_get_bool v)) of (Some e, Some e') \<Rightarrow> Some e' | (e, _) \<Rightarrow> e)
           in case err1 of
                None \<Rightarrow> Abort
              | Some e \<Rightarrow>
                  if ten_error_is_success e then Ret (result, Some e)
                  else Ret (False, Some (ten_error_set e TEN_ERRNO_GENERIC
                                           (''Failed to get boolean value from '' @ key))))"

definition ten_value_object_peek_string :: "ten_value \<Rightarrow> string \<Rightarrow> string option run" where
  "ten_value_object_peek_string self key =
     run_bind (ten_value_object_peek self key) (\<lambda>v. case v of
         None \<Rightarrow> Ret None
       | Some v \<Rightarrow> if \<not> ten_value_is_string v then Ret None else Ret (ten_value_peek_raw_str v))"

definition ten_value_object_peek_array :: "ten_value \<Rightarrow> string \<Rightarrow> ten_value list option run" where
  "ten_value_object_peek_array self key =
     run_bind (ten_value_object_peek self key) (\<lambda>v. case v of
         None \<Rightarrow> Ret None
       | Some v \<Rightarrow> if \<not> ten_value_is_array v then Ret None else Ret (ten_value_peek_array v))"

text \<open>The loop of \<open>ten_value_object_move\<close> does not stop at the first entry of the key.\<close>

fun move_loop :: "string \<Rightarrow> ten_value \<Rightarrow> (string \<times> ten_value) list \<Rightarrow> (string \<times> ten_value) list \<times> bool" where
  "move_loop key value [] = ([], False)"
| "move_loop key value ((k, v) # kvs) =
     (case move_loop key value kvs of (kvs', found) \<Rightarrow>
        if k = key then ((k, value) # kvs', True) else ((k, v) # kvs', found))"

definition ten_value_object_move :: "ten_value \<Rightarrow> string \<Rightarrow> ten_value \<Rightarrow> ten_value run" where
  "ten_value_object_move self key value =
     (if \<not> ten_value_is_object self then Abort
      else ten_list_foreach_of (content_object self)
        (case move_loop key value (content_object self) of (kvs, found) \<Rightarrow>
           if found then Ret (VObject kvs)
           else run_bind (ten_value_kv_create key value) (\<lambda>kv. Ret (VObject (kvs @ [kv])))))"

lemma move_loop_distinct:
  "distinct (map fst kvs) \<Longrightarrow> move_loop k v kvs = (update_entry k v kvs, k \<in> fst ` set kvs)"
  by (induction k v kvs rule: move_loop.induct) (auto split: prod.splits)

lemma fst_set_update_entry [simp]: "fst ` set (update_entry k v kvs) = fst ` set kvs"
  by (metis list.set_map map_fst_update_entry)

lemma object_move_eq [spec_simps]:
  assumes "distinct (map fst kvs)" and "walkable kvs" and "plain_key k"
  shows "ten_value_object_move (VObject kvs) k v =
    Ret (VObject (if k \<in> fst ` set kvs then update_entry k v kvs else kvs @ [(k, v)]))"
  using assms
  by (auto simp: ten_value_object_move_def move_loop_distinct ten_value_kv_create_def
      ten_value_kv_create_empty_def)

text \<open>An object value is a store of values under its keys.\<close>

definition object_put :: "string \<Rightarrow> ten_value \<Rightarrow> ten_value \<Rightarrow> ten_value" where
  "object_put k v self = run_val (ten_value_object_move self k v)"

definition object_get :: "ten_value \<Rightarrow> string \<Rightarrow> ten_value option" where
  "object_get self k = run_val (ten_value_object_peek self k)"

definition object_room :: "nat \<Rightarrow> ten_value \<Rightarrow> bool" where
  "object_room n self \<longleftrightarrow> (\<exists>kvs. self = VObject kvs \<and> distinct (map fst kvs) \<and>
     length kvs + n \<le> TEN_LIST_LOOP_MAX_ALLOWABLE_CNT)"

interpretation object_store: key_store object_get object_put plain_key object_room
  by unfold_locales
     (auto simp: object_room_def object_get_def object_put_def object_move_eq ten_value_object_peek_def walkable_def
        find_entry_append split: option.splits)

section \<open>Merging\<close>

text \<open>
  One entry of the source is moved into the destination. The loop visits every entry of the
  destination; \<open>src\<close> is what is left of the source value: \<open>None\<close> once it was moved, an object without
  entries once its entries were merged.  \<open>merge\<close> merges the whole source value.
\<close>

fun move_entry :: "(ten_value \<Rightarrow> ten_value run) \<Rightarrow> string \<Rightarrow> ten_value option \<Rightarrow>
    (string \<times> ten_value) list \<Rightarrow> ((string \<times> ten_value) list \<times> bool) run" where
  "move_entry merge key src [] = Ret ([], False)"
| "move_entry merge key src ((k, dv) # d) =
     (if key = k
      then (case src of
          None \<Rightarrow> Abort
        | Some sv \<Rightarrow>
            if ten_value_is_object sv \<and> ten_value_is_object dv
            then run_bind (if content_object sv = [] then Ret dv else merge dv) (\<lambda>dv'.
                 map_run (\<lambda>(d', found). ((k, dv') # d', True))
                   (move_entry merge key (Some (VObject [])) d))
            else map_run (\<lambda>(d', found). (ten_value_kv_reset_to_value (k, dv) sv # d', True))
                   (move_entry merge key None d))
      else map_run (\<lambda>(d', found). ((k, dv) # d', found)) (move_entry merge key src d))"

fun ten_value_object_merge_with_move :: "ten_value \<Rightarrow> ten_value \<Rightarrow> ten_value run" where
  "ten_value_object_merge_with_move dest (VObject skvs) =
     (if \<not> ten_value_is_object dest then Abort
      else map_run VObject (run_fold (\<lambda>(k, sv) d.
             run_bind (move_entry (\<lambda>dv. ten_value_object_merge_with_move dv sv) k (Some sv) d)
               (\<lambda>(d', found). Ret (if found then d' else d' @ [(k, sv)]))) skvs (content_object dest)))"
| "ten_value_object_merge_with_move dest _ = Abort"

fun ten_value_object_merge_with_clone :: "ten_value \<Rightarrow> ten_value \<Rightarrow> ten_value run" where
  "ten_value_object_merge_with_clone dest (VObject skvs) =
     (if \<not> ten_value_is_object dest then Abort
      else map_run VObject (run_fold (\<lambda>(k, sv) d.
             case find_entry k d of
               Some dv \<Rightarrow>
                 if ten_value_is_object sv \<and> ten_value_is_object dv
                 then map_run (\<lambda>dv'. update_entry k dv' d) (ten_value_object_merge_with_clone dv sv)
                 else map_run (\<lambda>new_src. update_entry k new_src d) (ten_value_clone sv)
             | None \<Rightarrow> map_run (\<lambda>new_src. d @ [new_src]) (ten_value_kv_clone (k, sv)))
             skvs (content_object dest)))"
| "ten_value_object_merge_with_clone dest _ = Abort"

section \<open>The reference merge\<close>

text \<open>Entries of the source are put into the destination one by one; an object is merged into an
  object, anything else replaces what was there.\<close>

fun merge_tree :: "ten_value \<Rightarrow> ten_value \<Rightarrow> ten_value" where
  "merge_tree (VObject dkvs) (VObject skvs) =
     VObject (fold (\<lambda>(k, sv) d. case find_entry k d of
         None \<Rightarrow> d @ [(k, sv)]
       | Some dv \<Rightarrow> update_entry k (merge_tree dv sv) d) skvs dkvs)"
| "merge_tree dest src = src"

definition put_merged :: "string \<times> ten_value \<Rightarrow> (string \<times> ten_value) list \<Rightarrow> (string \<times> ten_value) list" where
  "put_merged kv d = (case find_entry (fst kv) d of
       None \<Rightarrow> d @ [kv]
     | Some dv \<Rightarrow> update_entry (fst kv) (merge_tree dv (snd kv)) d)"

lemma merge_tree_objects [simp]:
  "merge_tree (VObject dkvs) (VObject skvs) = VObject (fold put_merged skvs dkvs)"
proof -
  have "(\<lambda>(k, sv) d. case find_entry k d of None \<Rightarrow> d @ [(k, sv)]
      | Some dv \<Rightarrow> update_entry k (merge_tree dv sv) d) = put_merged"
    by (rule ext) (auto simp: put_merged_def fun_eq_iff split: option.splits)
  then show ?thesis by simp
qed

declare merge_tree.simps(1) [simp del]

lemma merge_tree_replaces [simp]:
  "\<not> (ten_value_is_object d \<and> ten_value_is_object s) \<Longrightarrow> merge_tree d s = s"
  by (cases "(d, s)" rule: merge_tree.cases) auto

subsection \<open>Keys\<close>

lemma find_put_merged:
  "find_entry k (put_merged (k', sv) d) =
     (if k = k' then (case find_entry k d of None \<Rightarrow> Some sv | Some dv \<Rightarrow> Some (merge_tree dv sv))
      else find_entry k d)"
  by (auto simp: put_merged_def find_entry_append split: option.splits dest: find_entry_SomeD)

lemma distinct_put_merged:
  "distinct (map fst d) \<Longrightarrow> distinct (map fst (put_merged kv d))"
  by (auto simp: put_merged_def split: option.splits)

lemma distinct_fold_put_merged:
  "distinct (map fst d) \<Longrightarrow> distinct (map fst (fold put_merged skvs d))"
  by (induction skvs arbitrary: d) (simp_all add: distinct_put_merged)

lemma find_fold_put_merged:
  assumes "distinct (map fst skvs)"
  shows "find_entry k (fold put_merged skvs d) =
    (case find_entry k skvs of
       None \<Rightarrow> find_entry k d
     | Some sv \<Rightarrow> (case find_entry k d of None \<Rightarrow> Some sv | Some dv \<Rightarrow> Some (merge_tree dv sv)))"
  using assms
proof (induction skvs arbitrary: d)
  case Nil
  then show ?case by simp
next
  case (Cons kv skvs)
  obtain k' sv where "kv = (k', sv)" by force
  with Cons show ?case
    by (auto simp: find_put_merged dest: find_entry_SomeD split: option.splits)
qed

lemma set_put_merged:
  "(k, v) \<in> set (put_merged (k', sv) d) \<Longrightarrow>
     (k, v) \<in> set d \<or> v = sv \<or> (\<exists>dv. (k', dv) \<in> set d \<and> v = merge_tree dv sv)"
  using set_update_entry [of k'] by (fastforce simp: put_merged_def split: option.splits dest: find_entry_SomeD)

text \<open>Objects whose keys are distinct, here and in every value.\<close>

definition entries_distinct :: "(string \<times> ten_value) list \<Rightarrow> bool" where
  "entries_distinct e \<longleftrightarrow> distinct (map fst e) \<and> (\<forall>(k, v) \<in> set e. keys_distinct v)"

lemma keys_distinct_object [simp]: "keys_distinct (VObject kvs) \<longleftrightarrow> entries_distinct kvs"
  by (simp add: entries_distinct_def)

declare keys_distinct.simps(2) [simp del]

lemma entries_distinct_put_merged:
  assumes "entries_distinct e" and "keys_distinct sv"
    and "\<And>dv. keys_distinct dv \<Longrightarrow> keys_distinct (merge_tree dv sv)"
  shows "entries_distinct (put_merged (k, sv) e)"
  using assms distinct_put_merged [of e "(k, sv)"]
  by (fastforce simp: entries_distinct_def dest!: set_put_merged)

lemma entries_distinct_fold:
  assumes "entries_distinct e"
    and "\<And>k sv dv. (k, sv) \<in> set skvs \<Longrightarrow> keys_distinct dv \<Longrightarrow> keys_distinct (merge_tree dv sv)"
    and "\<forall>(k, sv) \<in> set skvs. keys_distinct sv"
  shows "entries_distinct (fold put_merged skvs e)"
  using assms
proof (induction skvs arbitrary: e)
  case (Cons kv skvs)
  obtain k sv where "kv = (k, sv)" by force
  with Cons entries_distinct_put_merged [of e sv k] show ?case by auto
qed simp

lemma keys_distinct_merge_tree:
  "keys_distinct d \<Longrightarrow> keys_distinct s \<Longrightarrow> keys_distinct (merge_tree d s)"
proof (induction s arbitrary: d)
  case (VObject skvs)
  show ?case
  proof (cases d)
    case d: (VObject dkvs)
    have "keys_distinct (merge_tree dv sv)" if "(k, sv) \<in> set skvs" "keys_distinct dv" for k sv dv
      using VObject.IH [OF that(1), of sv dv] VObject.prems(2) that
      by (auto simp: entries_distinct_def)
    with VObject.prems d show ?thesis
      by (auto intro!: entries_distinct_fold simp: entries_distinct_def [of skvs])
  qed (use VObject.prems in simp_all)
qed simp_all

section \<open>Both merges compute the reference merge\<close>

lemma move_entry_absent [simp]: "k \<notin> fst ` set d \<Longrightarrow> move_entry m k src d = Ret (d, False)"
  by (induction m k src d rule: move_entry.induct) auto

lemma move_entry_distinct:
  assumes "distinct (map fst d)"
    and "\<And>dv. (k, dv) \<in> set d \<Longrightarrow> ten_value_is_object sv \<Longrightarrow> ten_value_is_object dv \<Longrightarrow>
           m dv = Ret (merge_tree dv sv)"
  shows "run_bind (move_entry m k (Some sv) d) (\<lambda>(d', found). Ret (if found then d' else d' @ [(k, sv)]))
    = Ret (put_merged (k, sv) d)"
proof (cases "find_entry k d")
  case None
  then show ?thesis by (simp add: put_merged_def)
next
  case (Some dv)
  have "move_entry m k (Some sv) d = Ret (update_entry k (merge_tree dv sv) d, True)"
    using assms Some
  proof (induction d)
    case (Cons kv d)
    obtain k' v where kv: "kv = (k', v)" by force
    show ?case
    proof (cases "k' = k")
      case True
      with Cons.prems(3) kv have v: "v = dv" by simp
      have k: "k \<notin> fst ` set d" using Cons.prems(1) kv True by auto
      show ?thesis
      proof (cases "ten_value_is_object sv \<and> ten_value_is_object dv")
        case True
        with Cons.prems(2) [of dv] kv v \<open>k' = k\<close> k show ?thesis
          by (auto simp del: merge_tree_replaces)
      next
        case False
        with kv v \<open>k' = k\<close> k show ?thesis
          by (auto simp: ten_value_kv_reset_to_value_def)
      qed
    next
      case False
      with Cons kv show ?thesis by auto
    qed
  qed simp
  with Some show ?thesis by (simp add: put_merged_def)
qed

lemma merge_with_move_eq:
  "keys_distinct d \<Longrightarrow> keys_distinct s \<Longrightarrow> ten_value_is_object d \<Longrightarrow> ten_value_is_object s \<Longrightarrow>
     ten_value_object_merge_with_move d s = Ret (merge_tree d s)"
proof (induction s arbitrary: d)
  case (VObject skvs)
  from VObject.prems obtain dkvs where d: "d = VObject dkvs" and e: "entries_distinct dkvs" by auto
  let ?f = "\<lambda>(k, sv) d. run_bind (move_entry (\<lambda>dv. ten_value_object_merge_with_move dv sv) k (Some sv) d)
               (\<lambda>(d', found). Ret (if found then d' else d' @ [(k, sv)]))"
  have "run_fold ?f skvs dkvs = Ret (fold put_merged skvs dkvs) \<and>
        entries_distinct (fold put_merged skvs dkvs)"
  proof (rule run_fold_Ret [where I = entries_distinct, OF e])
    fix kv e assume kv: "kv \<in> set skvs" and e: "entries_distinct e"
    obtain k sv where ks: "kv = (k, sv)" by force
    with kv VObject.prems(2) have sv: "keys_distinct sv" by (auto simp: entries_distinct_def)
    have "?f kv e = Ret (put_merged kv e)"
      unfolding ks prod.case using e sv VObject.IH [OF kv [unfolded ks], of sv]
      by (intro move_entry_distinct) (auto simp: entries_distinct_def)
    moreover have "entries_distinct (put_merged kv e)"
      unfolding ks using e sv by (intro entries_distinct_put_merged keys_distinct_merge_tree)
    ultimately show "?f kv e = Ret (put_merged kv e) \<and> entries_distinct (put_merged kv e)" ..
  qed
  with d show ?case by simp
qed simp_all

lemma merge_with_clone_eq:
  "keys_plain s \<Longrightarrow> bufs_exact s \<Longrightarrow> ten_value_is_object d \<Longrightarrow> ten_value_is_object s \<Longrightarrow>
     ten_value_object_merge_with_clone d s = Ret (merge_tree d s)"
proof (induction s arbitrary: d)
  case (VObject skvs)
  from VObject.prems obtain dkvs where d: "d = VObject dkvs" by auto
  let ?f = "\<lambda>(k, sv) d. case find_entry k d of
      Some dv \<Rightarrow> if ten_value_is_object sv \<and> ten_value_is_object dv
                 then map_run (\<lambda>dv'. update_entry k dv' d) (ten_value_object_merge_with_clone dv sv)
                 else map_run (\<lambda>new_src. update_entry k new_src d) (ten_value_clone sv)
    | None \<Rightarrow> map_run (\<lambda>new_src. d @ [new_src]) (ten_value_kv_clone (k, sv))"
  have "run_fold ?f skvs dkvs = Ret (fold put_merged skvs dkvs) \<and> True"
  proof (rule run_fold_Ret [where I = "\<lambda>_. True"])
    fix kv e assume kv: "kv \<in> set skvs"
    obtain k sv where ks: "kv = (k, sv)" by force
    with kv VObject.prems(1,2) have sv: "plain_key k" "keys_plain sv" "bufs_exact sv" by auto
    with VObject.IH [OF kv [unfolded ks], of sv]
    show "?f kv e = Ret (put_merged kv e) \<and> True"
      unfolding ks prod.case by (auto simp: put_merged_def split: option.splits)
  qed simp
  with d show ?case by simp
qed simp_all

section \<open>Moving several values into an object\<close>

definition move_all :: "(string \<times> ten_value) list \<Rightarrow> ten_value \<Rightarrow> ten_value run" where
  "move_all kvs self = run_fold (\<lambda>(k, v) o'. ten_value_object_move o' k v) kvs self"

lemma object_put_eq:
  "object_room n self \<Longrightarrow> plain_key k \<Longrightarrow> ten_value_object_move self k v = Ret (object_put k v self)"
  by (auto simp: object_room_def object_put_def object_move_eq walkable_def)

lemma object_get_eq:
  "object_room n self \<Longrightarrow> ten_value_object_peek self k = Ret (object_get self k)"
  by (auto simp: object_room_def object_get_def ten_value_object_peek_def walkable_def)

lemma move_all_eq:
  "object_room (length kvs) self \<Longrightarrow> \<forall>(k, v) \<in> set kvs. plain_key k \<Longrightarrow>
     move_all kvs self = Ret (object_store.put_all kvs self)"
  unfolding move_all_def
  by (induction kvs self rule: object_store.put_all.induct)
     (auto simp: object_put_eq object_store.room_put)

section \<open>Values along a path of keys\<close>

fun value_at :: "string list \<Rightarrow> ten_value \<Rightarrow> ten_value option" where
  "value_at [] v = Some v"
| "value_at (k # ks) (VObject kvs) =
     (case find_entry k kvs of None \<Rightarrow> None | Some v \<Rightarrow> value_at ks v)"
| "value_at (k # ks) _ = None"

lemma value_at_merge_tree_source:
  "keys_distinct s \<Longrightarrow> value_at ks s = Some v \<Longrightarrow> \<not> ten_value_is_object v \<Longrightarrow>
     value_at ks (merge_tree d s) = Some v"
proof (induction ks s arbitrary: d rule: value_at.induct)
  case (2 k ks skvs)
  then obtain sv where sv: "find_entry k skvs = Some sv" and at: "value_at ks sv = Some v"
    by (auto split: option.splits)
  have sd: "keys_distinct sv" and dk: "distinct (map fst skvs)"
    using 2(2) find_entry_SomeD [OF sv] by (auto simp: entries_distinct_def)
  show ?case
  proof (cases d)
    case (VObject dkvs)
    with sv dk 2(1) [OF sv sd at 2(4)] at show ?thesis
      by (auto simp: find_fold_put_merged split: option.splits)
  qed (use 2(3) in auto)
qed auto

lemma value_at_merge_tree_dest:
  "keys_distinct s \<Longrightarrow> ten_value_is_object d \<Longrightarrow> ten_value_is_object s \<Longrightarrow>
     value_at [k] s = None \<Longrightarrow> value_at (k # ks) (merge_tree d s) = value_at (k # ks) d"
  by (auto simp: find_fold_put_merged entries_distinct_def split: option.splits)

section \<open>Properties\<close>

text \<open>Moving a list of key-value pairs into an object, one by one, succeeds as long as the object does not
  get too long for a loop, and afterwards every
  key of the list reads as the last value moved under it, every other key as before, and the keys are
  still distinct.\<close>

theorem move_all_lookup:
  assumes "distinct (map fst kvs0)" and "length kvs0 + length kvs \<le> TEN_LIST_LOOP_MAX_ALLOWABLE_CNT"
    and "\<forall>(k, v) \<in> set kvs. plain_key k"
  shows "\<exists>kvs'. move_all kvs (VObject kvs0) = Ret (VObject kvs') \<and> distinct (map fst kvs') \<and>
    (\<forall>k. ten_value_object_peek (VObject kvs') k =
           Ret (case map_of (rev kvs) k of None \<Rightarrow> find_entry k kvs0 | Some v \<Rightarrow> Some v))"
proof -
  let ?o = "VObject kvs0"
  let ?r = "object_store.put_all kvs ?o"
  have ok: "object_room (length kvs + 0) ?o" using assms(1,2) by (simp add: object_room_def)
  have r: "object_room 0 ?r" using object_store.room_put_all [OF ok assms(3)] .
  then obtain kvs' where kvs': "?r = VObject kvs'" "distinct (map fst kvs')"
    by (auto simp: object_room_def)
  have "object_get ?o k = find_entry k kvs0" for k
    using assms(2) by (simp add: object_get_def ten_value_object_peek_def walkable_def)
  then have "ten_value_object_peek ?r k =
      Ret (case map_of (rev kvs) k of None \<Rightarrow> find_entry k kvs0 | Some v \<Rightarrow> Some v)" for k
    using object_get_eq [OF r] object_store.get_put_all [OF ok assms(3)]
    by (simp cong: option.case_cong)
  with kvs' move_all_eq [of kvs ?o, OF _ assms(3)] ok show ?thesis by auto
qed

theorem move_all_lookup_witness:
  "distinct (map fst [(''a'', VNull)]) \<and> plain_key ''a'' \<and> plain_key ''b'' \<and>
   (\<exists>kvs'. move_all [(''b'', VInt8 1), (''a'', VInt8 2)] (VObject [(''a'', VNull)]) = Ret (VObject kvs') \<and>
     distinct (map fst kvs') \<and>
     ten_value_object_peek (VObject kvs') ''a'' = Ret (Some (VInt8 2)) \<and>
     ten_value_object_peek (VObject kvs') ''b'' = Ret (Some (VInt8 1)))"
proof -
  have d: "distinct (map fst [(''a'', VNull)])" by simp
  have p: "plain_key ''a''" "plain_key ''b''" by (simp_all add: plain_key_def)
  then have "\<forall>(k, v) \<in> set [(''b'', VInt8 1), (''a'', VInt8 2)]. plain_key k" by simp
  moreover have "length [(''a'', VNull)] + length [(''b'', VInt8 1), (''a'', VInt8 2)] \<le> TEN_LIST_LOOP_MAX_ALLOWABLE_CNT"
    by (simp add: TEN_LIST_LOOP_MAX_ALLOWABLE_CNT_def)
  ultimately show ?thesis using move_all_lookup [OF d, of "[(''b'', VInt8 1), (''a'', VInt8 2)]"] d p by auto
qed

text \<open>C25: Merging an object into another by moving succeeds and keeps all keys distinct.  Every
  non-object value of the source is in the result at the same path of keys; a key the source does not
  have keeps its whole subtree; and two objects under the same key are merged in turn.\<close>

theorem merge_with_move_correct:
  assumes "keys_distinct (VObject d)" and "keys_distinct (VObject s)"
  shows "\<exists>m. ten_value_object_merge_with_move (VObject d) (VObject s) = Ret m \<and> keys_distinct m \<and>
    (\<forall>ks v. value_at ks (VObject s) = Some v \<and> \<not> ten_value_is_object v \<longrightarrow> value_at ks m = Some v) \<and>
    (\<forall>k ks. k \<notin> fst ` set s \<longrightarrow> value_at (k # ks) m = value_at (k # ks) (VObject d)) \<and>
    (\<forall>k a b. find_entry k d = Some (VObject a) \<and> find_entry k s = Some (VObject b) \<longrightarrow>
       ten_value_object_merge_with_move (VObject a) (VObject b) = Ret (the (value_at [k] m)))"
proof (intro exI conjI allI impI; (elim conjE)?)
  let ?m = "merge_tree (VObject d) (VObject s)"
  show "ten_value_object_merge_with_move (VObject d) (VObject s) = Ret ?m"
    by (rule merge_with_move_eq [OF assms]) simp_all
  show "keys_distinct ?m" by (rule keys_distinct_merge_tree [OF assms])
  show "value_at ks ?m = Some v" if "value_at ks (VObject s) = Some v" "\<not> ten_value_is_object v" for ks v
    by (rule value_at_merge_tree_source [OF assms(2) that])
  show "value_at (k # ks) ?m = value_at (k # ks) (VObject d)" if "k \<notin> fst ` set s" for k ks
    by (rule value_at_merge_tree_dest [OF assms(2)]) (use that in simp_all)
  show "ten_value_object_merge_with_move (VObject a) (VObject b) = Ret (the (value_at [k] ?m))"
    if a: "find_entry k d = Some (VObject a)" and b: "find_entry k s = Some (VObject b)" for k a b
  proof -
    have "keys_distinct (VObject a)" "keys_distinct (VObject b)" "distinct (map fst s)"
      using assms find_entry_SomeD [OF a] find_entry_SomeD [OF b]
      by (fastforce simp: entries_distinct_def simp del: keys_distinct_object
          simp: keys_distinct_object [of d] keys_distinct_object [of s])+
    then show ?thesis using a b
      by (simp add: merge_with_move_eq find_fold_put_merged del: ten_value_object_merge_with_move.simps)
  qed
qed

theorem merge_with_move_correct_witness:
  "let d = [(''a'', VInt8 1), (''b'', VObject [(''x'', VNull)])]; s = [(''b'', VObject [(''y'', VBool True)])]
   in keys_distinct (VObject d) \<and> keys_distinct (VObject s) \<and>
      (\<exists>m. ten_value_object_merge_with_move (VObject d) (VObject s) = Ret m \<and>
           value_at [''b'', ''y''] m = Some (VBool True) \<and> value_at [''a''] m = Some (VInt8 1))"
proof -
  let ?d = "[(''a'', VInt8 1), (''b'', VObject [(''x'', VNull)])]"
  let ?s = "[(''b'', VObject [(''y'', VBool True)])]"
  have h: "keys_distinct (VObject ?d)" "keys_distinct (VObject ?s)"
    by (simp_all add: entries_distinct_def)
  from merge_with_move_correct [OF h] obtain m where
    m: "ten_value_object_merge_with_move (VObject ?d) (VObject ?s) = Ret m"
    and s: "\<And>ks v. value_at ks (VObject ?s) = Some v \<and> \<not> ten_value_is_object v \<Longrightarrow> value_at ks m = Some v"
    and d: "\<And>k ks. k \<notin> fst ` set ?s \<Longrightarrow> value_at (k # ks) m = value_at (k # ks) (VObject ?d)"
    by blast
  have "value_at [''b'', ''y''] m = Some (VBool True)" by (rule s) simp
  moreover have "value_at [''a''] m = Some (VInt8 1)" using d [of "''a''" "[]"] by simp
  ultimately show ?thesis using h m unfolding Let_def by blast
qed

text \<open>C26: If no key of the source holds a percent sign and its owned buffers are full, merging by
  cloning gives the same result as merging by moving.\<close>

theorem merges_agree:
  assumes "keys_distinct (VObject d)" and "keys_distinct (VObject s)"
    and "keys_plain (VObject s)" and "bufs_exact (VObject s)"
  shows "ten_value_object_merge_with_clone (VObject d) (VObject s) =
         ten_value_object_merge_with_move (VObject d) (VObject s)"
  using merge_with_move_eq [OF assms(1,2)] merge_with_clone_eq [OF assms(3,4)]
  by (simp del: ten_value_object_merge_with_clone.simps ten_value_object_merge_with_move.simps)

theorem merges_agree_witness:
  "let d = VObject [(''a'', VInt8 1)]; s = VObject [(''a'', VInt8 2), (''b'', VNull)]
   in keys_distinct d \<and> keys_distinct s \<and> keys_plain s \<and> bufs_exact s \<and>
      ten_value_object_merge_with_clone d s = ten_value_object_merge_with_move d s"
proof -
  let ?d = "[(''a'', VInt8 1)]" and ?s = "[(''a'', VInt8 2), (''b'', VNull)]"
  have h: "keys_distinct (VObject ?d)" "keys_distinct (VObject ?s)" "keys_plain (VObject ?s)"
    "bufs_exact (VObject ?s)" by (simp_all add: entries_distinct_def plain_key_def walkable_numeral)
  from h merges_agree [OF h] show ?thesis unfolding Let_def by blast
qed

end
