(* ===== verification/Value_Path.thy ===== *)
theory Value_Path
  imports Value_Object
begin

text \<open>
  Paths into a value, such as \<open>a.b[2].c\<close> (\<open>src/ten_utils/value/value_path.c\<close>), and the string
  operations the parser relies on (\<open>lib/sys/general/string.c\<close>).  Paths are C strings: no character
  of them is the terminating zero.
\<close>

section \<open>Strings\<close>

text \<open>
  A \<open>ten_string_t\<close>: the bytes of the buffer up to and including the terminator that was written
  last, and the index of the first unused byte, which \<open>ten_string_len\<close> returns.
\<close>

record ten_string =
  str_buf :: string
  first_unused_idx :: nat

definition ten_string_from :: "string \<Rightarrow> ten_string" where
  "ten_string_from s = \<lparr>str_buf = s @ [CHR 0x00], first_unused_idx = length s\<rparr>"

text \<open>The C string that starts at an offset of the buffer.\<close>

definition c_str_at :: "ten_string \<Rightarrow> nat \<Rightarrow> string" where
  "c_str_at s i = takeWhile (\<lambda>c. c \<noteq> CHR 0x00) (drop i (str_buf s))"

definition ten_string_len :: "ten_string \<Rightarrow> nat" where
  "ten_string_len s = first_unused_idx s"

text \<open>Only the terminator moves, \<open>first_unused_idx\<close> stays.\<close>

definition ten_string_erase_back :: "ten_string \<Rightarrow> nat \<Rightarrow> ten_string" where
  "ten_string_erase_back s count =
     (let len = length (c_str_at s 0)
      in s\<lparr>str_buf := (str_buf s)[len - min count len := CHR 0x00]\<rparr>)"

text \<open>\<open>strtok_r\<close> with one delimiter: the non-empty runs of other characters.\<close>

fun split_loop :: "char \<Rightarrow> string \<Rightarrow> string \<Rightarrow> string list" where
  "split_loop d token [] = (if token = [] then [] else [token])"
| "split_loop d token (c # cs) =
     (if c = d then (if token = [] then [] else [token]) @ split_loop d [] cs
      else split_loop d (token @ [c]) cs)"

definition ten_c_string_split :: "string \<Rightarrow> char \<Rightarrow> string list" where
  "ten_c_string_split src delimiter = split_loop delimiter [] src"

text \<open>\<open>strtol(s, NULL, 10)\<close>: white space, a sign, digits, clamped to the range of \<open>long\<close>.\<close>

fun digits_value :: "nat \<Rightarrow> string \<Rightarrow> nat" where
  "digits_value acc [] = acc"
| "digits_value acc (c # cs) =
     (if 48 \<le> (of_char c :: nat) \<and> (of_char c :: nat) \<le> 57
      then digits_value (10 * acc + (of_char c - 48)) cs else acc)"

definition is_space :: "char \<Rightarrow> bool" where
  "is_space c \<longleftrightarrow> c = CHR '' '' \<or> (9 \<le> (of_char c :: nat) \<and> (of_char c :: nat) \<le> 13)"

definition strtol10 :: "string \<Rightarrow> int" where
  "strtol10 s = (case dropWhile is_space s of
      [] \<Rightarrow> 0
    | c # cs \<Rightarrow>
        let n = (if c = CHR ''-'' then - int (digits_value 0 cs)
                 else if c = CHR ''+'' then int (digits_value 0 cs)
                 else int (digits_value 0 (c # cs)))
        in max (- (2 ^ 63)) (min (2 ^ 63 - 1) n))"

section \<open>Parsing\<close>

datatype ten_value_path_item =
    ItemInvalid
  | ObjectItem (obj_item_str: string)
  | ArrayItem (arr_idx: nat)

definition ten_value_path_parse_between_bracket :: "string \<Rightarrow> bool \<Rightarrow> ten_value_path_item option" where
  "ten_value_path_parse_between_bracket str is_first =
     (let content = ten_string_from str
      in if is_first then Some (ObjectItem (c_str_at content 0))
         else if c_str_at content (ten_string_len content - 1) \<noteq> '']'' then None
         else let content = ten_string_erase_back content 1
              in if c_str_at content (ten_string_len content - 1) = '']'' then None
                 else Some (ArrayItem (unat (word_of_int (strtol10 (c_str_at content 0)) :: 64 word))))"

text \<open>The items are appended to the list of the caller, also those that come before one that does not
  parse.\<close>

fun parse_bracket_loop ::
    "bool \<Rightarrow> string list \<Rightarrow> ten_value_path_item list \<Rightarrow> bool \<times> ten_value_path_item list" where
  "parse_bracket_loop is_first [] result = (True, result)"
| "parse_bracket_loop is_first (c # cs) result =
     (case ten_value_path_parse_between_bracket c is_first of
        None \<Rightarrow> (False, result)
      | Some item \<Rightarrow> parse_bracket_loop False cs (result @ [item]))"

definition ten_value_path_parse_between_colon ::
    "string \<Rightarrow> ten_value_path_item list \<Rightarrow> (bool \<times> ten_value_path_item list) run" where
  "ten_value_path_parse_between_colon path result =
     (let split_by_bracket = ten_c_string_split path (CHR ''['')
      in ten_list_foreach_of split_by_bracket (Ret (parse_bracket_loop True split_by_bracket result)))"

text \<open>A failure clears the list, which is another loop over it.\<close>

fun parse_colon_loop ::
    "string list \<Rightarrow> ten_value_path_item list \<Rightarrow> (bool \<times> ten_value_path_item list) run" where
  "parse_colon_loop [] result = Ret (True, result)"
| "parse_colon_loop (c # cs) result =
     run_bind (ten_value_path_parse_between_colon c result) (\<lambda>(rc, result).
       if \<not> rc then ten_list_foreach_of result (Ret (False, [])) else parse_colon_loop cs result)"

text \<open>\<open>None\<close> is failure; the second component is the error that is set, if any.\<close>

definition ten_value_path_parse :: "string \<Rightarrow> (ten_value_path_item list option \<times> ten_error option) run" where
  "ten_value_path_parse path =
     (if path = []
      then Ret (None, Some (ten_error_set ten_error_init TEN_ERRNO_INVALID_ARGUMENT ''path should not be empty.''))
      else let split_by_colon = ten_c_string_split path (CHR ''.'')
           in ten_list_foreach_of split_by_colon
                (map_run (\<lambda>(rc, items). (if rc then Some items else None, None)) (parse_colon_loop split_by_colon [])))"

section \<open>Reading\<close>

text \<open>The loop over the items.  Where a key or an index is missing, \<open>base\<close> keeps its value and the
  loop goes on with the next item.\<close>

fun peek_loop :: "ten_value \<Rightarrow> ten_value_path_item list \<Rightarrow> ten_value option run" where
  "peek_loop base [] = Ret None"
| "peek_loop base (ItemInvalid # items) = Abort"
| "peek_loop base (ObjectItem k # items) =
     (if \<not> ten_value_is_object base then Ret None
      else ten_list_foreach_of (content_object base) (case find_entry k (content_object base) of
          Some v \<Rightarrow> if items \<noteq> [] then peek_loop v items else Ret (Some v)
        | None \<Rightarrow> peek_loop base items))"
| "peek_loop base (ArrayItem i # items) =
     (if \<not> ten_value_is_array base then Ret None
      else ten_list_foreach_of (content_array base)
             (if i < length (content_array base)
              then (if items \<noteq> [] then peek_loop (content_array base ! i) items
                    else Ret (Some (content_array base ! i)))
              else peek_loop base items))"

definition ten_value_peek_from_path :: "ten_value \<Rightarrow> string \<Rightarrow> ten_value fallible" where
  "ten_value_peek_from_path base path =
     (let not_found = Inl (generic_error (''Failed to find property: '' @ path))
      in run_bind (ten_value_path_parse path) (\<lambda>(items, _). case items of
           None \<Rightarrow> Ret not_found
         | Some items \<Rightarrow> map_run (\<lambda>r. case r of None \<Rightarrow> not_found | Some v \<Rightarrow> Inr v)
                            (ten_list_foreach_of items (peek_loop base items))))"

section \<open>Writing\<close>

text \<open>Destroying a value clears its lists, which walks over them (\<open>ten_value_deinit\<close> and the destructors of
  arrays and objects in \<open>value.c\<close>, \<open>ten_list_clear\<close>).\<close>

fun ten_value_destroy :: "ten_value \<Rightarrow> unit run" where
  "ten_value_destroy (VArray vs) = ten_list_foreach_of vs (map_run (\<lambda>_. ()) (run_map ten_value_destroy vs))"
| "ten_value_destroy (VObject kvs) =
     ten_list_foreach_of kvs (map_run (\<lambda>_. ()) (run_map (\<lambda>kv. ten_value_destroy (snd kv)) kvs))"
| "ten_value_destroy _ = Ret ()"

text \<open>The container that the next item needs: an existing one, or a new empty one.\<close>

definition new_container :: "ten_value_path_item \<Rightarrow> ten_value run" where
  "new_container next_item = (case next_item of
      ObjectItem _ \<Rightarrow> Ret (VObject [])
    | ArrayItem _ \<Rightarrow> Ret (VArray [])
    | ItemInvalid \<Rightarrow> Abort)"

definition keep_container :: "ten_value_path_item \<Rightarrow> ten_value \<Rightarrow> ten_value run" where
  "keep_container next_item v = (case next_item of
      ObjectItem _ \<Rightarrow> if ten_value_is_object v then Ret v else run_bind (ten_value_destroy v) (\<lambda>_. Ret (VObject []))
    | ArrayItem _ \<Rightarrow> if ten_value_is_array v then Ret v else run_bind (ten_value_destroy v) (\<lambda>_. Ret (VArray []))
    | ItemInvalid \<Rightarrow> Abort)"

text \<open>The loop over the items.  The new base comes with the result; on failure the base is what the steps
  so far made of it.\<close>

fun set_path_loop ::
    "ten_value \<Rightarrow> ten_value_path_item list \<Rightarrow> ten_value \<Rightarrow> (bool \<times> ten_value) run" where
  "set_path_loop base [] value = Ret (True, base)"
| "set_path_loop base (ItemInvalid # items) value = Ret (False, base)"
| "set_path_loop base (ObjectItem k # items) value =
     (if \<not> ten_value_is_object base then Ret (False, base)
      else ten_list_foreach_of (content_object base) (case find_entry k (content_object base) of
          Some v \<Rightarrow>
            run_bind (case items of [] \<Rightarrow> run_bind (ten_value_destroy v) (\<lambda>_. Ret value)
                      | next_item # _ \<Rightarrow> keep_container next_item v) (\<lambda>base'.
            run_bind (set_path_loop base' items value) (\<lambda>(result, base'').
              Ret (result, VObject (update_entry k base'' (content_object base)))))
        | None \<Rightarrow>
            run_bind (case items of [] \<Rightarrow> Ret value | next_item # _ \<Rightarrow> new_container next_item) (\<lambda>base'.
            run_bind (ten_value_kv_create k base') (\<lambda>kv.
            run_bind (set_path_loop base' items value) (\<lambda>(result, base'').
              Ret (result, VObject (content_object base @ [(fst kv, base'')])))))))"
| "set_path_loop base (ArrayItem i # items) value =
     (if \<not> ten_value_is_array base then Ret (False, base)
      else ten_list_foreach_of (content_array base) (if i < length (content_array base)
      then run_bind (case items of [] \<Rightarrow> run_bind (ten_value_destroy (content_array base ! i)) (\<lambda>_. Ret value)
                      | next_item # _ \<Rightarrow> keep_container next_item (content_array base ! i)) (\<lambda>base'.
           run_bind (set_path_loop base' items value) (\<lambda>(result, base'').
             Ret (result, VArray ((content_array base)[i := base'']))))
      else run_bind (case items of [] \<Rightarrow> Ret value | next_item # _ \<Rightarrow> new_container next_item) (\<lambda>base'.
           run_bind (set_path_loop base' items value) (\<lambda>(result, base'').
             Ret (result, VArray (content_array base @
                                  replicate (i - length (content_array base)) VInvalid @ [base'']))))))"

definition ten_value_set_from_path_list_with_move ::
    "ten_value \<Rightarrow> ten_value_path_item list \<Rightarrow> ten_value \<Rightarrow> (bool \<times> ten_value) run" where
  "ten_value_set_from_path_list_with_move base paths value = ten_list_foreach_of paths (set_path_loop base paths value)"

text \<open>The result of the list version and a parse error are dropped: the string version is always
  true.\<close>

definition ten_value_set_from_path_str_with_move ::
    "ten_value \<Rightarrow> string \<Rightarrow> ten_value \<Rightarrow> (bool \<times> ten_value \<times> ten_error option) run" where
  "ten_value_set_from_path_str_with_move base path value =
     run_bind (ten_value_path_parse path) (\<lambda>(paths, err). case paths of
        None \<Rightarrow> Ret (True, base, err)
      | Some paths \<Rightarrow>
          map_run (\<lambda>(_, base'). (True, base', err)) (ten_value_set_from_path_list_with_move base paths value))"

section \<open>Rendered paths parse back\<close>

subsection \<open>Numbers\<close>

definition is_digit :: "char \<Rightarrow> bool" where
  "is_digit c \<longleftrightarrow> 48 \<le> (of_char c :: nat) \<and> (of_char c :: nat) \<le> 57"

lemma of_char_digit: "d < 10 \<Longrightarrow> of_char (char_of (48 + d) :: char) = (48 + d :: nat)"
  by (simp add: of_char_of)

lemma show_nat_digits: "\<forall>c \<in> set (show_nat n). is_digit c"
proof (induction n rule: show_nat.induct)
  case (1 n)
  then show ?case
    by (subst show_nat.simps) (auto simp: is_digit_def of_char_digit)
qed

lemma show_nat_not_Nil: "show_nat n \<noteq> []"
  by (subst show_nat.simps) simp

lemma digits_value_append:
  "\<forall>c \<in> set xs. is_digit c \<Longrightarrow> digits_value acc (xs @ ys) = digits_value (digits_value acc xs) ys"
  by (induction acc xs rule: digits_value.induct) (auto simp: is_digit_def)

lemma digits_value_show_nat: "digits_value 0 (show_nat n) = n"
proof (induction n rule: show_nat.induct)
  case (1 n)
  show ?case
  proof (cases "n < 10")
    case True
    then show ?thesis by (subst show_nat.simps) (simp add: of_char_digit)
  next
    case False
    with 1 show ?thesis
      by (subst show_nat.simps) (simp add: of_char_digit digits_value_append show_nat_digits)
  qed
qed

lemma is_digit_facts:
  "is_digit c \<Longrightarrow> \<not> is_space c \<and> c \<noteq> CHR ''-'' \<and> c \<noteq> CHR ''+'' \<and> c \<noteq> CHR ''['' \<and> c \<noteq> CHR ''.'' \<and> c \<noteq> CHR '']'' \<and> c \<noteq> CHR 0x00"
  by (auto simp: is_digit_def is_space_def)

lemma strtol10_show_nat:
  assumes "n < 2 ^ 63"
  shows "strtol10 (show_nat n) = int n"
proof -
  obtain c cs where s: "show_nat n = c # cs" using show_nat_not_Nil [of n] by (cases "show_nat n") auto
  then have "is_digit c" using show_nat_digits [of n] by simp
  with is_digit_facts [OF this] s digits_value_show_nat [of n] assms show ?thesis
    by (simp add: strtol10_def Let_def)
qed

lemma c_str_at_from: "CHR 0x00 \<notin> set s \<Longrightarrow> i \<le> length s \<Longrightarrow> c_str_at (ten_string_from s) i = drop i s"
  by (auto simp: c_str_at_def ten_string_from_def takeWhile_append dest: in_set_dropD)

lemma parse_first: "CHR 0x00 \<notin> set s \<Longrightarrow> ten_value_path_parse_between_bracket s True = Some (ObjectItem s)"
  by (simp add: ten_value_path_parse_between_bracket_def c_str_at_from)

lemma parse_index:
  assumes "i < 2 ^ 63"
  shows "ten_value_path_parse_between_bracket (show_nat i @ '']'') False = Some (ArrayItem i)"
proof -
  let ?s = "show_nat i @ '']''"
  have nz: "CHR 0x00 \<notin> set (show_nat i)" using show_nat_digits [of i] is_digit_facts by blast
  then have zs: "CHR 0x00 \<notin> set ?s" by simp
  have last: "c_str_at (ten_string_from ?s) (ten_string_len (ten_string_from ?s) - 1) = '']''"
    by (simp add: c_str_at_def ten_string_len_def ten_string_from_def)
  have len: "length (c_str_at (ten_string_from ?s) 0) = length (show_nat i) + 1"
    using zs by (simp add: c_str_at_from)
  have er: "ten_string_erase_back (ten_string_from ?s) 1 =
      \<lparr>str_buf = show_nat i @ [CHR 0x00, CHR 0x00], first_unused_idx = length (show_nat i) + 1\<rparr>"
    unfolding ten_string_erase_back_def Let_def len by (simp add: ten_string_from_def list_update_append)
  have tw: "takeWhile (\<lambda>c. c \<noteq> CHR 0x00) (show_nat i @ [CHR 0x00, CHR 0x00]) = show_nat i"
    using nz by (subst takeWhile_append2) auto
  have "unat (word_of_int (int i) :: 64 word) = i"
    using assms by (simp add: unat_of_nat)
  with last er nz tw assms show ?thesis
    by (simp add: ten_value_path_parse_between_bracket_def Let_def c_str_at_def ten_string_len_def strtol10_show_nat)
qed

subsection \<open>Segments\<close>

lemma split_loop_skip:
  "d \<notin> set xs \<Longrightarrow> split_loop d tok (xs @ ys) = split_loop d (tok @ xs) ys"
  by (induction xs arbitrary: tok) auto

lemma split_token: "d \<notin> set xs \<Longrightarrow> xs \<noteq> [] \<Longrightarrow> ten_c_string_split xs d = [xs]"
  using split_loop_skip [of d xs "[]" "[]"] by (simp add: ten_c_string_split_def)

lemma split_token_cons:
  "d \<notin> set xs \<Longrightarrow> xs \<noteq> [] \<Longrightarrow> ten_c_string_split (xs @ d # ys) d = xs # ten_c_string_split ys d"
  by (simp add: ten_c_string_split_def split_loop_skip)

text \<open>A path as segments: a key and the indexes after it.\<close>

fun render_indexes :: "nat list \<Rightarrow> string" where
  "render_indexes [] = []"
| "render_indexes (i # is) = CHR ''['' # show_nat i @ CHR '']'' # render_indexes is"

definition render_segment :: "string \<times> nat list \<Rightarrow> string" where
  "render_segment seg = fst seg @ render_indexes (snd seg)"

fun render_path :: "(string \<times> nat list) list \<Rightarrow> string" where
  "render_path [] = []"
| "render_path [seg] = render_segment seg"
| "render_path (seg # segs) = render_segment seg @ CHR ''.'' # render_path segs"

definition segment_items :: "string \<times> nat list \<Rightarrow> ten_value_path_item list" where
  "segment_items seg = ObjectItem (fst seg) # map ArrayItem (snd seg)"

definition path_items :: "(string \<times> nat list) list \<Rightarrow> ten_value_path_item list" where
  "path_items segs = concat (map segment_items segs)"

definition segment_ok :: "string \<times> nat list \<Rightarrow> bool" where
  "segment_ok seg \<longleftrightarrow> fst seg \<noteq> [] \<and> CHR ''.'' \<notin> set (fst seg) \<and> CHR ''['' \<notin> set (fst seg) \<and>
     CHR 0x00 \<notin> set (fst seg) \<and> (\<forall>i \<in> set (snd seg). i < 2 ^ 63) \<and> walkable (segment_items seg)"

lemma digits_notin: "\<not> is_digit c \<Longrightarrow> c \<notin> set (show_nat n)"
  using show_nat_digits by blast

lemma split_indexes:
  "xs \<noteq> [] \<Longrightarrow> CHR ''['' \<notin> set xs \<Longrightarrow>
   ten_c_string_split (xs @ render_indexes is) (CHR ''['') = xs # map (\<lambda>i. show_nat i @ '']'') is"
proof (induction "is" arbitrary: xs)
  case Nil
  then show ?case by (simp add: split_token)
next
  case (Cons i "is")
  have "CHR ''['' \<notin> set (show_nat i @ '']'')" by (simp add: digits_notin is_digit_def)
  with Cons.IH [of "show_nat i @ '']''"] Cons.prems show ?case by (simp add: split_token_cons)
qed

lemma parse_indexes:
  "\<forall>i \<in> set is. i < 2 ^ 63 \<Longrightarrow>
   parse_bracket_loop False (map (\<lambda>i. show_nat i @ '']'') is) result = (True, result @ map ArrayItem is)"
  by (induction "is" arbitrary: result) (simp_all add: parse_index)

lemma parse_segment:
  "segment_ok seg \<Longrightarrow> ten_value_path_parse_between_colon (render_segment seg) result =
     Ret (True, result @ segment_items seg)"
  by (simp add: ten_value_path_parse_between_colon_def render_segment_def segment_ok_def split_indexes
      parse_first parse_indexes segment_items_def walkable_def)

lemma render_segment_no_dot: "segment_ok seg \<Longrightarrow> CHR ''.'' \<notin> set (render_segment seg) \<and> render_segment seg \<noteq> []"
proof -
  have "CHR ''.'' \<notin> set (render_indexes is)" for "is"
    by (induction "is") (simp_all add: digits_notin is_digit_def)
  then show "segment_ok seg \<Longrightarrow> ?thesis" by (auto simp: render_segment_def segment_ok_def)
qed

lemma parse_segments:
  "\<forall>seg \<in> set segs. segment_ok seg \<Longrightarrow>
   parse_colon_loop (ten_c_string_split (render_path segs) (CHR ''.'')) result = Ret (True, result @ path_items segs) \<and>
   length (ten_c_string_split (render_path segs) (CHR ''.'')) = length segs"
proof (induction segs arbitrary: result rule: render_path.induct)
  case 1
  then show ?case by (simp add: ten_c_string_split_def path_items_def)
next
  case (2 seg)
  with render_segment_no_dot [of seg] show ?case by (simp add: split_token parse_segment path_items_def)
next
  case (3 seg s segs)
  with render_segment_no_dot [of seg] show ?case by (simp add: split_token_cons parse_segment path_items_def)
qed

lemma parse_render_path:
  assumes "segs \<noteq> []" and "walkable segs" and "\<forall>seg \<in> set segs. segment_ok seg"
  shows "ten_value_path_parse (render_path segs) = Ret (Some (path_items segs), None)"
proof -
  have "render_path segs \<noteq> []"
    using assms render_segment_no_dot by (cases segs rule: render_path.cases) auto
  then show ?thesis
    using parse_segments [OF assms(3)] assms(2) by (simp add: ten_value_path_parse_def walkable_def Let_def)
qed

section \<open>The place a path denotes\<close>

text \<open>The reference reading of a path: every item has to be there.\<close>

fun at_path :: "ten_value_path_item list \<Rightarrow> ten_value \<Rightarrow> ten_value option" where
  "at_path [] v = Some v"
| "at_path (ObjectItem k # items) (VObject kvs) =
     (case find_entry k kvs of None \<Rightarrow> None | Some v \<Rightarrow> at_path items v)"
| "at_path (ArrayItem i # items) (VArray vs) = (if i < length vs then at_path items (vs ! i) else None)"
| "at_path _ _ = None"

text \<open>The lists along the path are not too long for the loops over them, also not once the place is written:
  where nothing is there yet, a new container will be.\<close>

definition entries_of :: "ten_value \<Rightarrow> (string \<times> ten_value) list" where
  "entries_of v = (if ten_value_is_object v then content_object v else [])"

definition elements_of :: "ten_value \<Rightarrow> ten_value list" where
  "elements_of v = (if ten_value_is_array v then content_array v else [])"

lemma parts_of [simp]:
  "entries_of (VObject kvs) = kvs" "elements_of (VArray vs) = vs"
  "\<not> ten_value_is_object v \<Longrightarrow> entries_of v = []" "\<not> ten_value_is_array v \<Longrightarrow> elements_of v = []"
  by (simp_all add: entries_of_def elements_of_def)

text \<open>The first item fits the base.\<close>

fun fits_item :: "ten_value_path_item list \<Rightarrow> ten_value \<Rightarrow> bool" where
  "fits_item (ObjectItem _ # _) v \<longleftrightarrow> ten_value_is_object v"
| "fits_item (ArrayItem _ # _) v \<longleftrightarrow> ten_value_is_array v"
| "fits_item (ItemInvalid # _) v \<longleftrightarrow> False"
| "fits_item [] v \<longleftrightarrow> True"

text \<open>What is there at the place for the next items stays, or can be destroyed.\<close>

definition replaceable :: "ten_value_path_item list \<Rightarrow> ten_value \<Rightarrow> bool" where
  "replaceable items v \<longleftrightarrow> (items \<noteq> [] \<and> fits_item items v) \<or> ten_value_destroy v = Ret ()"

fun has_room :: "ten_value_path_item list \<Rightarrow> ten_value \<Rightarrow> bool" where
  "has_room [] v \<longleftrightarrow> True"
| "has_room (ObjectItem k # items) v \<longleftrightarrow> (case find_entry k (entries_of v) of
      Some v' \<Rightarrow> walkable (entries_of v) \<and> replaceable items v' \<and> has_room items v'
    | None \<Rightarrow> length (entries_of v) < TEN_LIST_LOOP_MAX_ALLOWABLE_CNT \<and> has_room items VNull)"
| "has_room (ArrayItem i # items) v \<longleftrightarrow>
     (if i < length (elements_of v)
      then walkable (elements_of v) \<and> replaceable items (elements_of v ! i) \<and> has_room items (elements_of v ! i)
      else i < TEN_LIST_LOOP_MAX_ALLOWABLE_CNT \<and> has_room items VNull)"
| "has_room (ItemInvalid # items) v \<longleftrightarrow> True"

lemma destroy_returns: "ten_value_destroy v = Ret () \<or> ten_value_destroy v = Abort"
proof -
  have all: "run_map f xs = Abort \<or> (\<exists>ys. run_map f xs = Ret ys)"
    if "\<And>x. x \<in> set xs \<Longrightarrow> f x = Ret () \<or> f x = Abort" for f :: "'x \<Rightarrow> unit run" and xs
    using that
  proof (induction xs)
    case (Cons x xs)
    then have "f x = Ret () \<or> f x = Abort" and "run_map f xs = Abort \<or> (\<exists>ys. run_map f xs = Ret ys)" by simp_all
    then show ?case by auto
  qed simp
  show ?thesis
  proof (induction v rule: ten_value_destroy.induct)
    case (1 vs)
    with all [of vs ten_value_destroy] show ?case by (auto simp: ten_list_foreach_of_def)
  next
    case (2 kvs)
    with all [of kvs "\<lambda>kv. ten_value_destroy (snd kv)"] show ?case by (auto simp: ten_list_foreach_of_def)
  qed simp_all
qed

definition items_ok :: "ten_value_path_item list \<Rightarrow> bool" where
  "items_ok items \<longleftrightarrow> ItemInvalid \<notin> set items \<and> (\<forall>k. ObjectItem k \<in> set items \<longrightarrow> plain_key k)"

lemma items_ok_Cons [simp]:
  "items_ok (ObjectItem k # items) \<longleftrightarrow> plain_key k \<and> items_ok items"
  "items_ok (ArrayItem i # items) \<longleftrightarrow> items_ok items"
  "\<not> items_ok (ItemInvalid # items)"
  by (auto simp: items_ok_def)

lemma room_of_new:
  "has_room (ObjectItem k # items) v = has_room (ObjectItem k # items) (VObject [])" if "\<not> ten_value_is_object v"
  using that by simp

lemma room_of_new_array:
  "has_room (ArrayItem i # items) v = has_room (ArrayItem i # items) (VArray [])" if "\<not> ten_value_is_array v"
  using that by simp

lemma next_base:
  assumes "items_ok items"
  shows "(\<exists>b. (case items of [] \<Rightarrow> run_bind (ten_value_destroy v) (\<lambda>_. Ret w)
                | next_item # _ \<Rightarrow> keep_container next_item v) = Ret b \<and>
             fits_item items b \<and> (items = [] \<longrightarrow> b = w) \<and> has_room items b = has_room items v \<and> replaceable items v) \<or>
         (case items of [] \<Rightarrow> run_bind (ten_value_destroy v) (\<lambda>_. Ret w)
                | next_item # _ \<Rightarrow> keep_container next_item v) = Abort \<and> \<not> replaceable items v"
proof (cases items)
  case Nil
  then show ?thesis using destroy_returns [of v] by (auto simp: replaceable_def)
next
  case (Cons item rest)
  show ?thesis
  proof (cases item)
    case (ObjectItem k)
    show ?thesis
    proof (cases "ten_value_is_object v")
      case False
      with ObjectItem Cons destroy_returns [of v] room_of_new [OF False, of k rest] show ?thesis
        by (auto simp: replaceable_def keep_container_def simp del: has_room.simps)
    qed (use ObjectItem Cons in \<open>simp add: replaceable_def keep_container_def\<close>)
  next
    case (ArrayItem i)
    show ?thesis
    proof (cases "ten_value_is_array v")
      case False
      with ArrayItem Cons destroy_returns [of v] room_of_new_array [OF False, of i rest] show ?thesis
        by (auto simp: replaceable_def keep_container_def simp del: has_room.simps)
    qed (use ArrayItem Cons in \<open>simp add: replaceable_def keep_container_def\<close>)
  qed (use assms Cons in simp)
qed

lemma next_new_base:
  assumes "items_ok items"
  shows "\<exists>b. (case items of [] \<Rightarrow> Ret w | next_item # _ \<Rightarrow> new_container next_item) = Ret b \<and>
             fits_item items b \<and> (items = [] \<longrightarrow> b = w) \<and> has_room items b = has_room items VNull"
proof (cases items)
  case (Cons item rest)
  with assms show ?thesis
    by (cases item) (simp_all add: new_container_def room_of_new [of VNull] room_of_new_array [of VNull]
        del: has_room.simps)
qed simp

text \<open>What a write and then a read at the same place lead to.\<close>

definition written :: "ten_value_path_item list \<Rightarrow> ten_value \<Rightarrow> ten_value \<Rightarrow> bool" where
  "written items base w \<longleftrightarrow> (case set_path_loop base items w of
      Ret (r, b) \<Rightarrow> r \<and> (if items = [] then b = base
        else peek_loop b items = (if has_room items base then Ret (Some w) else Abort))
    | Abort \<Rightarrow> \<not> has_room items base
    | Undef \<Rightarrow> False)"

lemma writtenD:
  assumes "written items c w" and "items = [] \<longrightarrow> c = w"
  obtains (wrote) b where "set_path_loop c items w = Ret (True, b)" "items = [] \<Longrightarrow> b = w"
      "items \<noteq> [] \<Longrightarrow> peek_loop b items = (if has_room items c then Ret (Some w) else Abort)"
  | (aborted) "set_path_loop c items w = Abort" "\<not> has_room items c"
  using assms by (cases "items = []") (auto simp: written_def split: run.splits)

text \<open>The rest of a path below one place of the base: \<open>put\<close> puts its result there, and \<open>fit\<close> says
  whether the lists of the base are still short enough for the read.\<close>

lemma written_below:
  assumes w: "written items c w" "items = [] \<longrightarrow> c = w"
    and set: "set_path_loop base (item # items) w =
       run_bind (set_path_loop c items w) (\<lambda>(r, b). Ret (r, put b))"
    and peek: "\<And>b. peek_loop (put b) (item # items) =
       (if fit then if items \<noteq> [] then peek_loop b items else Ret (Some b) else Abort)"
    and room: "has_room (item # items) base = (fit \<and> has_room items c)"
  shows "written (item # items) base w"
  using w
proof (cases rule: writtenD)
  case (wrote b)
  then have s: "set_path_loop base (item # items) w = Ret (True, put b)" by (simp add: set)
  show ?thesis unfolding written_def [of "item # items"] s room run.case prod.case peek
    using wrote(2,3) by (cases "items = []") simp_all
next
  case aborted
  then show ?thesis by (simp add: written_def set room del: has_room.simps)
qed

lemma not_written: "set_path_loop base items w = Abort \<Longrightarrow> \<not> has_room items base \<Longrightarrow> written items base w"
  by (simp add: written_def)

lemma walkable_snoc: "walkable (xs @ [x]) \<longleftrightarrow> length xs < TEN_LIST_LOOP_MAX_ALLOWABLE_CNT"
  by (auto simp: walkable_def)

lemma walkable_padded:
  "\<not> i < length xs \<Longrightarrow> walkable (xs @ replicate (i - length xs) a @ [b]) \<longleftrightarrow> i < TEN_LIST_LOOP_MAX_ALLOWABLE_CNT"
  by (auto simp: walkable_def)

lemma set_loop_written: "items_ok items \<Longrightarrow> fits_item items base \<Longrightarrow> written items base w"
proof (induction items arbitrary: base)
  case Nil
  then show ?case by (simp add: written_def)
next
  case (Cons item items)
  from Cons.prems(1) have ok: "items_ok items" by (cases item) simp_all
  note ih = Cons.IH [OF ok]
  show ?case
  proof (cases item)
    case ItemInvalid
    with Cons.prems(1) show ?thesis by simp
  next
    case (ObjectItem k)
    with Cons.prems obtain kvs where base: "base = VObject kvs" and k: "plain_key k" by auto
    show ?thesis
    proof (cases "walkable kvs")
      case False
      then show ?thesis unfolding ObjectItem base
        by (intro not_written) (auto simp: ten_list_foreach_of_def walkable_def split: option.split)
    next
      case kvs: True
      show ?thesis
      proof (cases "find_entry k kvs")
        case (Some v)
        note set = set_path_loop.simps(3) [of "VObject kvs" k items w]
        from next_base [OF ok, of v w] show ?thesis
        proof (elim disjE exE conjE)
          fix c assume c: "(case items of [] \<Rightarrow> run_bind (ten_value_destroy v) (\<lambda>_. Ret w)
              | n # _ \<Rightarrow> keep_container n v) = Ret c" "fits_item items c" "items = [] \<longrightarrow> c = w"
            "has_room items c = has_room items v" "replaceable items v"
          show ?thesis unfolding ObjectItem base
            by (rule written_below [OF ih [OF c(2)] c(3), where put = "\<lambda>b. VObject (update_entry k b kvs)" and fit = True])
              (use Some kvs c(1,4,5) find_entry_key [OF Some] in \<open>simp_all cong: list.case_cong\<close>)
        next
          assume "(case items of [] \<Rightarrow> run_bind (ten_value_destroy v) (\<lambda>_. Ret w)
              | n # _ \<Rightarrow> keep_container n v) = Abort" "\<not> replaceable items v"
          with Some kvs show ?thesis unfolding ObjectItem base
            by (intro not_written) (simp_all cong: list.case_cong)
        qed
      next
        case None
        from next_new_base [OF ok, of w] obtain c where c:
          "(case items of [] \<Rightarrow> Ret w | n # _ \<Rightarrow> new_container n) = Ret c" "fits_item items c"
          "items = [] \<longrightarrow> c = w" "has_room items c = has_room items VNull" by blast
        have kv: "ten_value_kv_create k c = Ret (k, c)"
          using k by (simp add: ten_value_kv_create_def ten_value_kv_create_empty_def)
        show ?thesis unfolding ObjectItem base
          by (rule written_below [OF ih [OF c(2)] c(3), where put = "\<lambda>b. VObject (kvs @ [(k, b)])"
                and fit = "length kvs < TEN_LIST_LOOP_MAX_ALLOWABLE_CNT"])
            (use None kvs c(1,4) kv in \<open>simp_all add: ten_list_foreach_of_def walkable_snoc find_entry_append cong: list.case_cong\<close>)
      qed
    qed
  next
    case (ArrayItem i)
    with Cons.prems obtain vs where base: "base = VArray vs" by auto
    show ?thesis
    proof (cases "walkable vs")
      case False
      then show ?thesis unfolding ArrayItem base
        by (intro not_written) (auto simp: ten_list_foreach_of_def walkable_def)
    next
      case vs: True
      show ?thesis
      proof (cases "i < length vs")
        case True
        from next_base [OF ok, of "vs ! i" w] show ?thesis
        proof (elim disjE exE conjE)
          fix c assume c: "(case items of [] \<Rightarrow> run_bind (ten_value_destroy (vs ! i)) (\<lambda>_. Ret w)
              | n # _ \<Rightarrow> keep_container n (vs ! i)) = Ret c" "fits_item items c" "items = [] \<longrightarrow> c = w"
            "has_room items c = has_room items (vs ! i)" "replaceable items (vs ! i)"
          show ?thesis unfolding ArrayItem base
            by (rule written_below [OF ih [OF c(2)] c(3), where put = "\<lambda>b. VArray (vs[i := b])" and fit = True])
              (use True vs c(1,4,5) in \<open>simp_all add: walkable_def cong: list.case_cong\<close>)
        next
          assume "(case items of [] \<Rightarrow> run_bind (ten_value_destroy (vs ! i)) (\<lambda>_. Ret w)
              | n # _ \<Rightarrow> keep_container n (vs ! i)) = Abort" "\<not> replaceable items (vs ! i)"
          with True vs show ?thesis unfolding ArrayItem base
            by (intro not_written) (simp_all cong: list.case_cong)
        qed
      next
        case False
        from next_new_base [OF ok, of w] obtain c where c:
          "(case items of [] \<Rightarrow> Ret w | n # _ \<Rightarrow> new_container n) = Ret c" "fits_item items c"
          "items = [] \<longrightarrow> c = w" "has_room items c = has_room items VNull" by blast
        show ?thesis unfolding ArrayItem base
          by (rule written_below [OF ih [OF c(2)] c(3),
                where put = "\<lambda>b. VArray (vs @ replicate (i - length vs) VInvalid @ [b])"
                  and fit = "i < TEN_LIST_LOOP_MAX_ALLOWABLE_CNT"])
            (use False vs c(1,4) walkable_padded [OF False] in
              \<open>simp_all add: ten_list_foreach_of_def nth_append cong: list.case_cong\<close>)
      qed
    qed
  qed
qed

text \<open>A write under one key of an object leaves everything under the other keys alone.\<close>

lemma at_path_other_key:
  assumes "k \<noteq> k'"
  shows "set_path_loop base (ps @ ObjectItem k # items) w = Ret (r, b) \<Longrightarrow>
     items_ok (ps @ ObjectItem k # items) \<Longrightarrow>
     at_path (ps @ ObjectItem k' # qs) b = at_path (ps @ ObjectItem k' # qs) base"
proof (induction ps arbitrary: base r b)
  case Nil
  then show ?case using assms
    by (cases base) (auto split: option.splits prod.splits simp: find_entry_append
        ten_value_kv_create_def ten_value_kv_create_empty_def)
next
  case (Cons p ps)
  have kc: "at_path (ps @ ObjectItem k' # qs) c = at_path (ps @ ObjectItem k' # qs) v"
    if "(case ps @ ObjectItem k # items of [] \<Rightarrow> run_bind (ten_value_destroy v) (\<lambda>_. Ret w)
        | n # _ \<Rightarrow> keep_container n v) = Ret c" for c v
    using that by (cases ps; cases "hd ps"; cases v) (auto simp: keep_container_def split: if_splits)
  have nc: "at_path (ps @ ObjectItem k' # qs) c = None"
    if "(case ps @ ObjectItem k # items of [] \<Rightarrow> Ret w | n # _ \<Rightarrow> new_container n) = Ret c" for c
    using that by (cases ps; cases "hd ps") (auto simp: new_container_def)
  show ?case
  proof (cases p)
    case ItemInvalid
    with Cons.prems(2) show ?thesis by simp
  next
    case (ObjectItem j)
    with Cons.prems(2) have ok: "items_ok (ps @ ObjectItem k # items)" "plain_key j" by simp_all
    show ?thesis
    proof (cases base)
      case (VObject kvs)
      show ?thesis
      proof (cases "find_entry j kvs")
        case (Some v)
        with Cons.prems(1) ObjectItem VObject obtain c b' where
          c: "(case ps @ ObjectItem k # items of [] \<Rightarrow> run_bind (ten_value_destroy v) (\<lambda>_. Ret w) | n # _ \<Rightarrow> keep_container n v) = Ret c"
          and s: "set_path_loop c (ps @ ObjectItem k # items) w = Ret (r, b')"
          and b: "b = VObject (update_entry j b' kvs)" by auto
        from Cons.IH [OF s ok(1)] kc [OF c] b Some find_entry_key [OF Some] ObjectItem VObject
        show ?thesis by simp
      next
        case None
        with Cons.prems(1) ObjectItem VObject ok(2) obtain c b' where
          c: "(case ps @ ObjectItem k # items of [] \<Rightarrow> Ret w | n # _ \<Rightarrow> new_container n) = Ret c"
          and s: "set_path_loop c (ps @ ObjectItem k # items) w = Ret (r, b')"
          and b: "b = VObject (kvs @ [(j, b')])"
          by (auto simp: ten_value_kv_create_def ten_value_kv_create_empty_def)
        from Cons.IH [OF s ok(1)] nc [OF c] b None ObjectItem VObject
        show ?thesis by (simp add: find_entry_append)
      qed
    qed (use Cons.prems(1) ObjectItem in auto)
  next
    case (ArrayItem j)
    with Cons.prems(2) have ok: "items_ok (ps @ ObjectItem k # items)" by simp
    show ?thesis
    proof (cases base)
      case (VArray vs)
      with Cons.prems(1) ArrayItem show ?thesis
        by (auto split: if_splits prod.splits simp: nth_append Cons.IH [OF _ ok] kc nc)
    qed (use Cons.prems(1) ArrayItem in auto)
  qed
qed
section \<open>Properties\<close>

text \<open>C24: A path that is rendered from keys and indexes parses back to them: a key may hold any
  character but a dot, an opening bracket and zero, an index is below \<open>2^63\<close>, and there are at most
  100000 keys, each with less than 100000 indexes.\<close>

theorem parse_rendered_path:
  assumes "segs \<noteq> []" and "walkable segs" and "\<forall>seg \<in> set segs. segment_ok seg"
  shows "ten_value_path_parse (render_path segs) = Ret (Some (path_items segs), None)"
  by (rule parse_render_path [OF assms])

theorem parse_rendered_path_witness:
  "[(''a'', [2, 10]), (''b'', [])] \<noteq> [] \<and> segment_ok (''a'', [2, 10]) \<and> segment_ok (''b'', []) \<and>
   ten_value_path_parse (render_path [(''a'', [2, 10]), (''b'', [])]) =
     Ret (Some [ObjectItem ''a'', ArrayItem 2, ArrayItem 10, ObjectItem ''b''], None)"
proof -
  have ok: "segment_ok (''a'', [2, 10])" "segment_ok (''b'', [])"
    by (simp_all add: segment_ok_def segment_items_def walkable_numeral)
  have n: "[(''a'', [2, 10]), (''b'', [])] \<noteq> []" by simp
  have w: "walkable [(''a'', [2, 10]), (''b'', [] :: nat list)]" by (simp add: walkable_numeral)
  have k: "\<forall>seg \<in> set [(''a'', [2, 10]), (''b'', [])]. segment_ok seg" using ok by simp
  from parse_rendered_path [OF n w k] ok show ?thesis by (simp add: path_items_def segment_items_def)
qed

lemma set_then_at_path:
  assumes "segs \<noteq> []" and "walkable (path_items segs)" and "\<forall>seg \<in> set segs. segment_ok seg \<and> plain_key (fst seg)"
  shows "\<exists>r. ten_value_path_parse (render_path segs) = Ret (Some (path_items segs), None) \<and>
    ten_value_set_from_path_list_with_move (VObject kvs) (path_items segs) v = r \<and>
    (case r of Ret (res, b) \<Rightarrow> res \<and> ten_value_peek_from_path b (render_path segs) =
         (if has_room (path_items segs) (VObject kvs) then Ret (Inr v) else Abort)
     | Abort \<Rightarrow> \<not> has_room (path_items segs) (VObject kvs) | Undef \<Rightarrow> False)"
proof -
  let ?items = "path_items segs"
  have "length segs \<le> length ?items" by (induction segs) (simp_all add: path_items_def segment_items_def)
  then have "walkable segs" using assms(2) walkable_length by blast
  then have parse: "ten_value_path_parse (render_path segs) = Ret (Some ?items, None)"
    using assms by (intro parse_render_path) auto
  have ok: "items_ok ?items"
    using assms(3) by (auto simp: items_ok_def path_items_def segment_items_def)
  have ne: "?items \<noteq> []" and fit: "fits_item ?items (VObject kvs)"
    using assms(1) by (cases segs; simp add: path_items_def segment_items_def)+
  from set_loop_written [OF ok fit, of v] ne assms(2) parse show ?thesis
    by (auto simp: written_def ten_value_set_from_path_list_with_move_def ten_value_peek_from_path_def
        split: run.splits)
qed

text \<open>C22: Writing a value into an object at a rendered path (of at most 100000 items, with no percent sign
  in its keys) and then reading the same path.  As long as there is room, that is no list on the way
  has or gets more than 100000 entries and no value that is replaced holds such a list, the write
  succeeds, creating and replacing containers on the way as needed, and the read returns the value.
  Otherwise the process aborts, in the write or in the read: an assertion of \<open>ten_list_foreach\<close> fails.\<close>

theorem set_then_peek:
  assumes "segs \<noteq> []" and "walkable (path_items segs)" and "\<forall>seg \<in> set segs. segment_ok seg \<and> plain_key (fst seg)"
  shows "(has_room (path_items segs) (VObject kvs) \<longrightarrow>
      (\<exists>b. ten_value_set_from_path_str_with_move (VObject kvs) (render_path segs) v = Ret (True, b, None) \<and>
        ten_value_peek_from_path b (render_path segs) = Ret (Inr v))) \<and>
    (\<not> has_room (path_items segs) (VObject kvs) \<longrightarrow>
      run_bind (ten_value_set_from_path_str_with_move (VObject kvs) (render_path segs) v)
        (\<lambda>(_, b, _). ten_value_peek_from_path b (render_path segs)) = Abort)"
  using set_then_at_path [OF assms, of kvs v]
  by (auto simp: ten_value_set_from_path_str_with_move_def split: run.splits)

theorem set_then_peek_witness:
  "segment_ok (''a'', [1]) \<and> segment_ok (''b'', []) \<and> plain_key ''a'' \<and> plain_key ''b'' \<and>
   has_room (path_items [(''a'', [1]), (''b'', [])]) (VObject [(''a'', VNull)]) \<and>
   (\<exists>b. ten_value_set_from_path_str_with_move (VObject [(''a'', VNull)])
          (render_path [(''a'', [1]), (''b'', [])]) (VBool True) = Ret (True, b, None) \<and>
        ten_value_peek_from_path b (render_path [(''a'', [1]), (''b'', [])]) = Ret (Inr (VBool True))) \<and>
   run_bind (ten_value_set_from_path_str_with_move (VObject []) (render_path [(''a'', [100000])]) VNull)
     (\<lambda>(_, b, _). ten_value_peek_from_path b (render_path [(''a'', [100000])])) = Abort"
proof -
  have ok: "segment_ok (''a'', [1])" "segment_ok (''b'', [])" "plain_key ''a''" "plain_key ''b''"
      "segment_ok (''a'', [100000])"
    by (simp_all add: segment_ok_def plain_key_def segment_items_def walkable_numeral)
  have n: "[(''a'', [1]), (''b'', [])] \<noteq> []" "[(''a'', [100000 :: nat])] \<noteq> []" by simp_all
  have l: "walkable (path_items [(''a'', [1]), (''b'', [])])" "walkable (path_items [(''a'', [100000])])"
    by (simp_all add: path_items_def segment_items_def walkable_numeral)
  have k: "\<forall>seg \<in> set [(''a'', [1]), (''b'', [])]. segment_ok seg \<and> plain_key (fst seg)"
      "\<forall>seg \<in> set [(''a'', [100000])]. segment_ok seg \<and> plain_key (fst seg)"
    using ok by simp_all
  have r: "has_room (path_items [(''a'', [1]), (''b'', [])]) (VObject [(''a'', VNull)])"
      "\<not> has_room (path_items [(''a'', [100000])]) (VObject [])"
    by (simp_all add: path_items_def segment_items_def walkable_numeral replaceable_def entries_of_def elements_of_def)
  from set_then_peek [OF n(1) l(1) k(1), of "[(''a'', VNull)]" "VBool True"]
    set_then_peek [OF n(2) l(2) k(2), of "[]" VNull] ok r show ?thesis by blast
qed

text \<open>C23: Writing at a path leaves every place alone that is reached through the same containers and
  then a different key: whatever was there, or was missing, still is.\<close>

theorem set_leaves_other_keys:
  assumes "k \<noteq> k'" and "items_ok (ps @ ObjectItem k # items)"
    and "ten_value_set_from_path_list_with_move base (ps @ ObjectItem k # items) v = Ret (r, b)"
  shows "at_path (ps @ ObjectItem k' # qs) b = at_path (ps @ ObjectItem k' # qs) base"
  proof (rule at_path_other_key [OF assms(1) _ assms(2)])
  show "set_path_loop base (ps @ ObjectItem k # items) v = Ret (r, b)"
    using assms(3) by (simp add: ten_value_set_from_path_list_with_move_def)
qed

theorem set_leaves_other_keys_witness:
  "''x'' \<noteq> ''y'' \<and> items_ok ([ArrayItem 0] @ ObjectItem ''x'' # []) \<and>
   ten_value_set_from_path_list_with_move (VArray [VObject [(''y'', VNull)]])
     ([ArrayItem 0] @ ObjectItem ''x'' # []) (VBool True) =
     Ret (True, VArray [VObject [(''y'', VNull), (''x'', VBool True)]]) \<and>
   at_path ([ArrayItem 0] @ ObjectItem ''y'' # []) (VArray [VObject [(''y'', VNull), (''x'', VBool True)]]) =
   at_path ([ArrayItem 0] @ ObjectItem ''y'' # []) (VArray [VObject [(''y'', VNull)]])"
proof (intro conjI)
  show n: "''x'' \<noteq> ''y''" by simp
  show i: "items_ok ([ArrayItem 0] @ ObjectItem ''x'' # [])" by (simp add: items_ok_def plain_key_def)
  show s: "ten_value_set_from_path_list_with_move (VArray [VObject [(''y'', VNull)]])
     ([ArrayItem 0] @ ObjectItem ''x'' # []) (VBool True) =
     Ret (True, VArray [VObject [(''y'', VNull), (''x'', VBool True)]])"
    by (simp add: ten_value_set_from_path_list_with_move_def walkable_numeral keep_container_def
        ten_value_kv_create_def ten_value_kv_create_empty_def plain_key_def)
  show "at_path ([ArrayItem 0] @ ObjectItem ''y'' # []) (VArray [VObject [(''y'', VNull), (''x'', VBool True)]]) =
    at_path ([ArrayItem 0] @ ObjectItem ''y'' # []) (VArray [VObject [(''y'', VNull)]])"
    by (rule set_leaves_other_keys [OF n i s])
qed

text \<open>C33: Failures that the path operations do not report: in an object with at most 100000 entries, a key that is missing in the middle of a
  path is skipped, so \<open>a.b\<close> finds \<open>b\<close> of the object itself; a second closing bracket is accepted;
  and writing to a value of the wrong type, or at a malformed path, returns true and changes
  nothing.\<close>

theorem path_failures_not_reported:
  assumes "walkable kvs" and "find_entry ''a'' kvs = None" and "find_entry ''b'' kvs = Some v"
  shows "ten_value_peek_from_path (VObject kvs) ''a.b'' = Ret (Inr v) \<and>
    ten_value_path_parse ''a[3]]'' = ten_value_path_parse ''a[3]'' \<and>
    ten_value_set_from_path_str_with_move (VArray vs) ''a'' w = Ret (True, VArray vs, None) \<and>
    ten_value_set_from_path_str_with_move base ''a[3'' w = Ret (True, base, None)"
proof (intro conjI)
  note parse_defs = ten_value_path_parse_def ten_c_string_split_def ten_value_path_parse_between_colon_def
    ten_value_path_parse_between_bracket_def ten_string_from_def c_str_at_def ten_string_len_def
    ten_string_erase_back_def Let_def walkable_numeral
  have "ten_value_path_parse ''a.b'' = Ret (Some [ObjectItem ''a'', ObjectItem ''b''], None)"
    by (simp add: parse_defs)
  with assms show "ten_value_peek_from_path (VObject kvs) ''a.b'' = Ret (Inr v)"
    by (simp add: ten_value_peek_from_path_def find_entry_key walkable_numeral)
  show "ten_value_path_parse ''a[3]]'' = ten_value_path_parse ''a[3]''"
    by (simp add: parse_defs strtol10_def is_space_def)
  show "ten_value_set_from_path_str_with_move (VArray vs) ''a'' w = Ret (True, VArray vs, None)"
    by (simp add: ten_value_set_from_path_str_with_move_def ten_value_set_from_path_list_with_move_def parse_defs)
  show "ten_value_set_from_path_str_with_move base ''a[3'' w = Ret (True, base, None)"
    by (simp add: ten_value_set_from_path_str_with_move_def ten_value_set_from_path_list_with_move_def parse_defs)
qed

theorem path_failures_not_reported_witness:
  "walkable [(''b'', VBool True)] \<and> find_entry ''a'' [(''b'', VBool True)] = None \<and> find_entry ''b'' [(''b'', VBool True)] = Some (VBool True) \<and>
   ten_value_peek_from_path (VObject [(''b'', VBool True)]) ''a.b'' = Ret (Inr (VBool True))"
proof (intro conjI)
  show l: "walkable [(''b'', VBool True)]" by (simp add: walkable_numeral)
  show a: "find_entry ''a'' [(''b'', VBool True)] = None" by simp
  show b: "find_entry ''b'' [(''b'', VBool True)] = Some (VBool True)" by simp
  show "ten_value_peek_from_path (VObject [(''b'', VBool True)]) ''a.b'' = Ret (Inr (VBool True))"
    using path_failures_not_reported [OF l a b] by blast
qed

end
