(* ===== verification/Schema.thy ===== *)
theory Schema
  imports Value_Object
begin

text \<open>
  Schemas: creation from a value, validation and adjustment of a value
  (\<open>src/ten_utils/schema/schema.c\<close>, \<open>keywords/*.c\<close>).  A schema holds its keywords in the order they
  were added, which is the order a hash table is walked in; a lookup in a hash table finds the entry
  added last.  The JSON front end (\<open>ten_schema_create_from_json\<close>) is left out.
\<close>

section \<open>Schemas and schema errors\<close>

datatype ten_schema = Schema (schema_keywords: "ten_schema_keyword list")
  and ten_schema_keyword =
    KType (kw_type: TEN_TYPE)
  | KProperties (kw_properties: "(string \<times> ten_schema) list")
  | KItems (kw_item_schema: ten_schema)
  | KRequired (kw_required: "string list")

datatype TEN_SCHEMA_KEYWORD =
    TEN_SCHEMA_KEYWORD_TYPE
  | TEN_SCHEMA_KEYWORD_PROPERTIES
  | TEN_SCHEMA_KEYWORD_ITEMS
  | TEN_SCHEMA_KEYWORD_REQUIRED

fun keyword_kind :: "ten_schema_keyword \<Rightarrow> TEN_SCHEMA_KEYWORD" where
  "keyword_kind (KType _) = TEN_SCHEMA_KEYWORD_TYPE"
| "keyword_kind (KProperties _) = TEN_SCHEMA_KEYWORD_PROPERTIES"
| "keyword_kind (KItems _) = TEN_SCHEMA_KEYWORD_ITEMS"
| "keyword_kind (KRequired _) = TEN_SCHEMA_KEYWORD_REQUIRED"

record ten_schema_error =
  se_path :: string
  se_err :: ten_error

definition schema_error :: "string \<Rightarrow> ten_schema_error" where
  "schema_error msg = \<lparr>se_path = [], se_err = generic_error msg\<rparr>"

definition prepend_path :: "string \<Rightarrow> ten_schema_error \<Rightarrow> ten_schema_error" where
  "prepend_path s e = e\<lparr>se_path := s @ se_path e\<rparr>"

lemma prepend_path_err [simp]: "se_err (prepend_path s e) = se_err e"
  by (simp add: prepend_path_def)

lemma schema_error_err [simp]: "se_err (schema_error msg) = generic_error msg"
  by (simp add: schema_error_def)

definition ten_schema_keyword_properties_peek_property_schema ::
    "(string \<times> ten_schema) list \<Rightarrow> string \<Rightarrow> ten_schema option run" where
  "ten_schema_keyword_properties_peek_property_schema properties prop_name =
     (if prop_name = [] then Abort else Ret (map_of (rev properties) prop_name))"

lemma map_of_rev_size [termination_simp]:
  "map_of (rev props) k = Some s \<Longrightarrow> size s < size (KProperties props)"
proof -
  assume "map_of (rev props) k = Some s"
  then have "(k, s) \<in> set props" by (metis map_of_SomeD set_rev)
  then have "size_prod (\<lambda>_. 0) size (k, s) \<le> size_list (size_prod (\<lambda>_. 0) size) props"
    by (intro size_list_estimation') auto
  then show ?thesis by simp
qed

section \<open>Loops\<close>

lemma snd_in_enumerate: "x \<in> set (enumerate n xs) \<Longrightarrow> snd x \<in> set xs"
  by (metis image_eqI list.set_map map_snd_enumerate)

text \<open>A loop of checks that ends at the first error.\<close>

fun run_first :: "('a \<Rightarrow> 'e option run) \<Rightarrow> 'a list \<Rightarrow> 'e option run" where
  "run_first f [] = Ret None"
| "run_first f (x # xs) = run_bind (f x) (\<lambda>e. case e of None \<Rightarrow> run_first f xs | Some _ \<Rightarrow> Ret e)"

lemma run_first_cong [fundef_cong]:
  assumes "xs = ys" and "\<And>x. x \<in> set ys \<Longrightarrow> f x = g x"
  shows "run_first f xs = run_first g ys"
proof -
  have "(\<And>x. x \<in> set ys \<Longrightarrow> f x = g x) \<Longrightarrow> run_first f ys = run_first g ys"
    by (induction ys) (auto intro!: run_bind_cong split: option.splits)
  with assms show ?thesis by simp
qed

lemma run_first_None [run_simps]:
  "run_first f xs = Ret None \<longleftrightarrow> (\<forall>x \<in> set xs. f x = Ret None)"
  by (induction xs) (auto split: option.splits)

text \<open>A loop that updates every element of a list in place and ends at the first error, leaving the
  rest as it is.\<close>

fun adjust_each :: "('a \<Rightarrow> ('e option \<times> 'a) run) \<Rightarrow> 'a list \<Rightarrow> ('e option \<times> 'a list) run" where
  "adjust_each f [] = Ret (None, [])"
| "adjust_each f (x # xs) = run_bind (f x) (\<lambda>(e, x'). case e of
      None \<Rightarrow> map_run (\<lambda>(e', xs'). (e', x' # xs')) (adjust_each f xs)
    | Some _ \<Rightarrow> Ret (e, x' # xs))"

lemma adjust_each_cong [fundef_cong]:
  assumes "xs = ys" and "\<And>x. x \<in> set ys \<Longrightarrow> f x = g x"
  shows "adjust_each f xs = adjust_each g ys"
proof -
  have "(\<And>x. x \<in> set ys \<Longrightarrow> f x = g x) \<Longrightarrow> adjust_each f ys = adjust_each g ys"
    by (induction ys) (auto intro!: run_bind_cong split: option.splits)
  with assms show ?thesis by simp
qed

text \<open>A loop of steps on one value that ends at the first error.\<close>

fun adjust_steps :: "('k \<Rightarrow> 'v \<Rightarrow> ('e option \<times> 'v) run) \<Rightarrow> 'k list \<Rightarrow> 'v \<Rightarrow> ('e option \<times> 'v) run" where
  "adjust_steps f [] v = Ret (None, v)"
| "adjust_steps f (k # ks) v = run_bind (f k v) (\<lambda>(e, v'). case e of
      None \<Rightarrow> adjust_steps f ks v'
    | Some _ \<Rightarrow> Ret (e, v'))"

lemma adjust_steps_cong [fundef_cong]:
  assumes "ks = ls" and "v = w" and "\<And>k v. k \<in> set ls \<Longrightarrow> f k v = g k v"
  shows "adjust_steps f ks v = adjust_steps g ls w"
proof -
  have "(\<And>k v. k \<in> set ls \<Longrightarrow> f k v = g k v) \<Longrightarrow> adjust_steps f ls w = adjust_steps g ls w"
    by (induction ls arbitrary: w) (auto intro!: run_bind_cong split: option.splits)
  with assms show ?thesis by simp
qed

section \<open>Creation\<close>

text \<open>The concrete schema type that \<open>ten_schema_create_by_type\<close> allocates; its signature is what the
  keywords that need an object or an array check.\<close>

datatype schema_class = SchemaObject | SchemaArray | SchemaPrimitive

definition ten_schema_create_by_type :: "string \<Rightarrow> schema_class run" where
  "ten_schema_create_by_type type_str =
     (if type_str = [] then Abort
      else (case ten_type_from_string type_str of
          TEN_TYPE_OBJECT \<Rightarrow> Ret SchemaObject
        | TEN_TYPE_ARRAY \<Rightarrow> Ret SchemaArray
        | TEN_TYPE_INVALID \<Rightarrow> Abort
        | TEN_TYPE_NULL \<Rightarrow> Abort
        | _ \<Rightarrow> Ret SchemaPrimitive))"

definition ten_schema_keyword_type_create_from_value :: "ten_value \<Rightarrow> ten_schema_keyword run" where
  "ten_schema_keyword_type_create_from_value v = (case ten_value_peek_raw_str v of
      None \<Rightarrow> Abort
    | Some s \<Rightarrow> let t = ten_type_from_string s in if t = TEN_TYPE_INVALID then Abort else Ret (KType t))"

definition ten_schema_keyword_required_create_from_value ::
    "schema_class \<Rightarrow> ten_value \<Rightarrow> ten_schema_keyword run" where
  "ten_schema_keyword_required_create_from_value owner v =
     (if \<not> ten_value_is_array v \<or> owner \<noteq> SchemaObject then Abort
      else run_bind (ten_list_foreach_of (content_array v)
                       (run_map (\<lambda>item. case ten_value_peek_raw_str item of None \<Rightarrow> Abort | Some s \<Rightarrow> Ret s)
                         (content_array v))) (\<lambda>rs.
        if rs = [] then Abort else Ret (KRequired rs)))"

definition str_type :: string where "str_type = ''type''"
definition str_properties :: string where "str_properties = ''properties''"
definition str_items :: string where "str_items = ''items''"
definition str_required :: string where "str_required = ''required''"

definition ten_schema_keyword_info_get_by_name :: "string \<Rightarrow> TEN_SCHEMA_KEYWORD option" where
  "ten_schema_keyword_info_get_by_name name =
     (if name = str_type then Some TEN_SCHEMA_KEYWORD_TYPE
      else if name = str_properties then Some TEN_SCHEMA_KEYWORD_PROPERTIES
      else if name = str_items then Some TEN_SCHEMA_KEYWORD_ITEMS
      else if name = str_required then Some TEN_SCHEMA_KEYWORD_REQUIRED
      else None)"

text \<open>The two keyword constructors that call \<open>ten_schema_create_from_value\<close> back (\<open>create\<close>): a property
  is created by \<open>ten_schema_object_property_create\<close>, the items by \<open>ten_schema_keyword_items_create\<close>.\<close>

definition ten_schema_keyword_properties_create_from_value ::
    "(ten_value \<Rightarrow> ten_schema run) \<Rightarrow> schema_class \<Rightarrow> ten_value \<Rightarrow> ten_schema_keyword run" where
  "ten_schema_keyword_properties_create_from_value create owner v =
     (if \<not> ten_value_is_object v \<or> owner \<noteq> SchemaObject then Abort
      else map_run KProperties (ten_list_foreach_of (content_object v)
             (run_map (\<lambda>(name, v). map_run (Pair name) (create v)) (content_object v))))"

definition ten_schema_keyword_items_create_from_value ::
    "(ten_value \<Rightarrow> ten_schema run) \<Rightarrow> schema_class \<Rightarrow> ten_value \<Rightarrow> ten_schema_keyword run" where
  "ten_schema_keyword_items_create_from_value create owner v =
     (if \<not> ten_value_is_object v \<or> owner \<noteq> SchemaArray then Abort
      else map_run KItems (create v))"

text \<open>The \<open>from_value\<close> function of a keyword.\<close>

definition keyword_from_value :: "(ten_value \<Rightarrow> ten_schema run) \<Rightarrow> schema_class \<Rightarrow> TEN_SCHEMA_KEYWORD \<Rightarrow>
    ten_value \<Rightarrow> ten_schema_keyword run" where
  "keyword_from_value create owner kind v = (case kind of
      TEN_SCHEMA_KEYWORD_TYPE \<Rightarrow> ten_schema_keyword_type_create_from_value v
    | TEN_SCHEMA_KEYWORD_PROPERTIES \<Rightarrow> ten_schema_keyword_properties_create_from_value create owner v
    | TEN_SCHEMA_KEYWORD_ITEMS \<Rightarrow> ten_schema_keyword_items_create_from_value create owner v
    | TEN_SCHEMA_KEYWORD_REQUIRED \<Rightarrow> ten_schema_keyword_required_create_from_value owner v)"

lemma keyword_from_value_cong [fundef_cong]:
  assumes "owner = owner'" and "kind = kind'" and "v = v'"
    and "\<And>w. size w \<le> size v' \<Longrightarrow> create w = create' w"
  shows "keyword_from_value create owner kind v = keyword_from_value create' owner' kind' v'"
proof -
  have "create w = create' w" if "v = VObject kvs" "(k, w) \<in> set kvs" for k w kvs
    using entry_size [OF that(2)] assms(3) that(1) by (intro assms(4)) auto
  then have "ten_schema_keyword_properties_create_from_value create owner v =
      ten_schema_keyword_properties_create_from_value create' owner v"
    by (cases v) (auto simp: ten_schema_keyword_properties_create_from_value_def
      intro!: arg_cong [where f = "map_run KProperties"] foreach_of_cong run_map_cong)
  with assms show ?thesis
    by (cases kind) (simp_all add: keyword_from_value_def ten_schema_keyword_items_create_from_value_def)
qed

function ten_schema_create_from_value :: "ten_value \<Rightarrow> ten_schema run" where
  "ten_schema_create_from_value (VObject kvs) =
     run_bind (ten_value_object_peek_string (VObject kvs) str_type) (\<lambda>schema_type.
       case schema_type of
         None \<Rightarrow> Abort
       | Some type_str \<Rightarrow>
           run_bind (ten_schema_create_by_type type_str) (\<lambda>self.
           map_run Schema (ten_list_foreach_of kvs (run_map (\<lambda>(field_key, field_value).
             case ten_schema_keyword_info_get_by_name field_key of
               None \<Rightarrow> Abort
             | Some kind \<Rightarrow> keyword_from_value ten_schema_create_from_value self kind field_value) kvs))))"
| "\<not> ten_value_is_object v \<Longrightarrow> ten_schema_create_from_value v = Abort"
proof -
  fix P x assume kvs: "\<And>kvs. x = VObject kvs \<Longrightarrow> P" and other: "\<And>v. \<not> ten_value_is_object v \<Longrightarrow> x = v \<Longrightarrow> P"
  show P by (cases x) (use kvs other in auto)
qed auto
termination
  by (relation "measure size") (auto dest!: entry_size)

lemmas create_defs = keyword_from_value_def ten_schema_keyword_properties_create_from_value_def
  ten_schema_keyword_items_create_from_value_def ten_schema_keyword_type_create_from_value_def
  ten_schema_keyword_required_create_from_value_def

section \<open>Validation\<close>

definition object_expected :: "ten_value \<Rightarrow> ten_schema_error" where
  "object_expected v = schema_error (''the value should be an object, but is: '' @ type_text (ten_value_get_type v))"

definition array_expected :: "ten_value \<Rightarrow> ten_schema_error" where
  "array_expected v = schema_error (''the value should be an array, but is: '' @ type_text (ten_value_get_type v))"

definition ten_schema_keyword_type_validate_value :: "TEN_TYPE \<Rightarrow> ten_value \<Rightarrow> ten_schema_error option" where
  "ten_schema_keyword_type_validate_value t v =
     (if \<not> ten_type_is_compatible (ten_value_get_type v) t
      then Some (schema_error (''the value type does not match the schema type, given: '' @
                   type_text (ten_value_get_type v) @ '', expected: '' @ type_text t))
      else None)"

text \<open>The loop over the required keys looks each up in the object by another loop, so both lists must not
  be too long.  The absent keys, each in quotes; the separator is left out after the last required key only.\<close>

fun absent_keys :: "ten_value \<Rightarrow> string list \<Rightarrow> string" where
  "absent_keys v [] = []"
| "absent_keys v (r # rs) =
     (case find_entry r (content_object v) of
        None \<Rightarrow> (if rs = [] then [CHR 0x27] @ r @ [CHR 0x27] else [CHR 0x27] @ r @ [CHR 0x27] @ '', '')
      | Some _ \<Rightarrow> []) @ absent_keys v rs"

definition ten_schema_keyword_required_validate_value ::
    "string list \<Rightarrow> ten_value \<Rightarrow> ten_schema_error option run" where
  "ten_schema_keyword_required_validate_value required v =
     (if \<not> ten_value_is_object v then Ret (Some (schema_error ''the value should be an object''))
      else if required = [] \<or> \<not> walkable required \<or> \<not> walkable (content_object v) then Abort
      else if length (absent_keys v required) > 0
      then Ret (Some (schema_error (''the required properties are absent: '' @ absent_keys v required)))
      else Ret None)"

text \<open>The two handlers that check parts of the value by their own schemas (\<open>validate\<close>); \<open>None\<close> is
  success.\<close>

definition ten_schema_keyword_properties_validate_value ::
    "(ten_schema \<Rightarrow> ten_value \<Rightarrow> ten_schema_error option run) \<Rightarrow> (string \<times> ten_schema) list \<Rightarrow> ten_value \<Rightarrow>
     ten_schema_error option run" where
  "ten_schema_keyword_properties_validate_value validate properties v =
     (if \<not> ten_value_is_object v then Ret (Some (object_expected v))
      else ten_list_foreach_of (content_object v) (run_first (\<lambda>(field_key, field_value).
             run_bind (ten_schema_keyword_properties_peek_property_schema properties field_key) (\<lambda>prop_schema.
               case prop_schema of
                 None \<Rightarrow> Ret None
               | Some prop_schema \<Rightarrow>
                   map_run (map_option (prepend_path (''.'' @ field_key))) (validate prop_schema field_value)))
             (content_object v)))"

definition ten_schema_keyword_items_validate_value ::
    "(ten_value \<Rightarrow> ten_schema_error option run) \<Rightarrow> ten_value \<Rightarrow> ten_schema_error option run" where
  "ten_schema_keyword_items_validate_value validate v =
     (if \<not> ten_value_is_array v then Ret (Some (array_expected v))
      else ten_list_foreach_of (content_array v) (run_first (\<lambda>(i, field).
             map_run (map_option (prepend_path (''['' @ show_nat i @ '']''))) (validate field))
             (enumerate 0 (content_array v))))"

lemma properties_validate_cong [fundef_cong]:
  assumes "properties = properties'" and "v = v'"
    and "\<And>name s x. ten_value_is_object v' \<Longrightarrow> (name, x) \<in> set (content_object v') \<Longrightarrow>
      map_of (rev properties') name = Some s \<Longrightarrow> validate s x = validate' s x"
  shows "ten_schema_keyword_properties_validate_value validate properties v =
    ten_schema_keyword_properties_validate_value validate' properties' v'"
  using assms
  by (auto simp: ten_schema_keyword_properties_validate_value_def
      ten_schema_keyword_properties_peek_property_schema_def intro!: foreach_of_cong run_first_cong split: option.splits)

lemma items_validate_cong [fundef_cong]:
  assumes "v = v'" and "\<And>x. ten_value_is_array v' \<Longrightarrow> x \<in> set (content_array v') \<Longrightarrow> validate x = validate' x"
  shows "ten_schema_keyword_items_validate_value validate v = ten_schema_keyword_items_validate_value validate' v'"
  using assms
  by (auto simp: ten_schema_keyword_items_validate_value_def intro!: foreach_of_cong run_first_cong dest: snd_in_enumerate)

function ten_schema_validate_value_with_schema_error ::
      "ten_schema \<Rightarrow> ten_value \<Rightarrow> ten_schema_error option run"
  and ten_schema_keyword_validate_value ::
      "ten_schema_keyword \<Rightarrow> ten_value \<Rightarrow> ten_schema_error option run" where
  "ten_schema_validate_value_with_schema_error (Schema keywords) v =
     run_first (\<lambda>keyword. ten_schema_keyword_validate_value keyword v) keywords"
| "ten_schema_keyword_validate_value (KType t) v = Ret (ten_schema_keyword_type_validate_value t v)"
| "ten_schema_keyword_validate_value (KProperties properties) v =
     ten_schema_keyword_properties_validate_value ten_schema_validate_value_with_schema_error properties v"
| "ten_schema_keyword_validate_value (KItems item_schema) v =
     ten_schema_keyword_items_validate_value (ten_schema_validate_value_with_schema_error item_schema) v"
| "ten_schema_keyword_validate_value (KRequired required) v =
     ten_schema_keyword_required_validate_value required v"
  by pat_completeness auto
termination
  by (relation "measure (\<lambda>x. case x of Inl (s, _) \<Rightarrow> size s | Inr (k, _) \<Rightarrow> size k)")
     (auto simp: less_Suc_eq_le dest!: map_of_rev_size intro: size_list_estimation')

lemmas validate_defs = ten_schema_keyword_type_validate_value_def ten_schema_keyword_properties_validate_value_def
  ten_schema_keyword_items_validate_value_def ten_schema_keyword_required_validate_value_def

definition ten_schema_validate_value :: "ten_schema \<Rightarrow> ten_value option \<Rightarrow> unit fallible" where
  "ten_schema_validate_value self v = (case v of
      None \<Rightarrow> Ret (Inl (generic_error ''Value is required.''))
    | Some v \<Rightarrow> map_run (\<lambda>e. case e of
          None \<Rightarrow> Inr ()
        | Some e \<Rightarrow> Inl (if se_path e \<noteq> [] then ten_error_prepend_errmsg (se_err e) (se_path e @ '': '')
                        else se_err e))
        (ten_schema_validate_value_with_schema_error self v))"

section \<open>Adjustment\<close>

text \<open>Types that are equal need no conversion; the error of a conversion goes into the schema error.\<close>

definition convert_by_type :: "machine \<Rightarrow> TEN_TYPE \<Rightarrow> ten_value \<Rightarrow> ten_value fallible" where
  "convert_by_type mach schema_type v = (case schema_type of
      TEN_TYPE_INT8 \<Rightarrow> ten_value_convert_to_int8 v
    | TEN_TYPE_INT16 \<Rightarrow> ten_value_convert_to_int16 v
    | TEN_TYPE_INT32 \<Rightarrow> ten_value_convert_to_int32 v
    | TEN_TYPE_INT64 \<Rightarrow> ten_value_convert_to_int64 v
    | TEN_TYPE_UINT8 \<Rightarrow> ten_value_convert_to_uint8 v
    | TEN_TYPE_UINT16 \<Rightarrow> ten_value_convert_to_uint16 v
    | TEN_TYPE_UINT32 \<Rightarrow> ten_value_convert_to_uint32 v
    | TEN_TYPE_UINT64 \<Rightarrow> ten_value_convert_to_uint64 v
    | TEN_TYPE_FLOAT32 \<Rightarrow> ten_value_convert_to_float32 mach v
    | TEN_TYPE_FLOAT64 \<Rightarrow> ten_value_convert_to_float64 mach v
    | _ \<Rightarrow> Ret (Inl (unsupported_conversion v (type_text schema_type))))"

definition ten_schema_keyword_type_adjust_value ::
    "machine \<Rightarrow> TEN_TYPE \<Rightarrow> ten_value \<Rightarrow> (ten_schema_error option \<times> ten_value) run" where
  "ten_schema_keyword_type_adjust_value mach schema_type v =
     (if ten_value_get_type v = schema_type then Ret (None, v)
      else map_run (\<lambda>r. case r of
               Inl err \<Rightarrow> (Some \<lparr>se_path = [], se_err = err\<rparr>, v)
             | Inr v' \<Rightarrow> (None, v')) (convert_by_type mach schema_type v))"

lemma convert_by_type_int:
  "TEN_IS_INTEGER_TYPE t \<Longrightarrow> convert_by_type mach t v = Ret (converted t v)"
  unfolding TEN_IS_INTEGER_TYPE_def by (elim disjE) (simp_all add: convert_by_type_def spec_simps)

lemma convert_by_type_type:
  assumes "convert_by_type mach t v = Ret (Inr v')"
  shows "ten_value_get_type v' = t"
proof (cases "TEN_IS_INTEGER_TYPE t")
  case True
  with assms show ?thesis
    by (auto simp: convert_by_type_int converted_def split: option.splits if_splits)
next
  case False
  with assms show ?thesis
    by (cases t) (auto simp: convert_by_type_def TEN_IS_INTEGER_TYPE_def
        dest: convert_to_float32_type convert_to_float64_type)
qed

lemma type_adjust_type:
  assumes "ten_schema_keyword_type_adjust_value mach t v = Ret (None, v')"
  shows "ten_value_get_type v' = t"
proof (cases "ten_value_get_type v = t")
  case False
  with assms obtain r where r: "convert_by_type mach t v = Ret r"
    "(None, v') = (case r of Inl err \<Rightarrow> (Some \<lparr>se_path = [], se_err = err\<rparr>, v) | Inr v' \<Rightarrow> (None, v'))"
    by (auto simp: ten_schema_keyword_type_adjust_value_def)
  then show ?thesis by (cases r) (auto dest: convert_by_type_type)
qed (use assms in \<open>simp add: ten_schema_keyword_type_adjust_value_def\<close>)

text \<open>The handlers that adjust parts of the value in place by their own schemas (\<open>adjust\<close>); the value
  comes back as far as it was adjusted.\<close>

definition adjust_property ::
    "(ten_schema \<Rightarrow> ten_value \<Rightarrow> (ten_schema_error option \<times> ten_value) run) \<Rightarrow> (string \<times> ten_schema) list \<Rightarrow>
     string \<times> ten_value \<Rightarrow> (ten_schema_error option \<times> string \<times> ten_value) run" where
  "adjust_property adjust properties = (\<lambda>(field_key, field_value).
     run_bind (ten_schema_keyword_properties_peek_property_schema properties field_key) (\<lambda>prop_schema.
       case prop_schema of
         None \<Rightarrow> Ret (None, (field_key, field_value))
       | Some prop_schema \<Rightarrow>
           map_run (map_prod (map_option (prepend_path (''.'' @ field_key))) (Pair field_key))
             (adjust prop_schema field_value)))"

definition ten_schema_keyword_properties_adjust_value ::
    "(ten_schema \<Rightarrow> ten_value \<Rightarrow> (ten_schema_error option \<times> ten_value) run) \<Rightarrow> (string \<times> ten_schema) list \<Rightarrow>
     ten_value \<Rightarrow> (ten_schema_error option \<times> ten_value) run" where
  "ten_schema_keyword_properties_adjust_value adjust properties v =
     (if \<not> ten_value_is_object v then Ret (Some (object_expected v), v)
      else map_run (map_prod id VObject)
             (ten_list_foreach_of (content_object v) (adjust_each (adjust_property adjust properties) (content_object v))))"

definition adjust_item ::
    "(ten_value \<Rightarrow> (ten_schema_error option \<times> ten_value) run) \<Rightarrow> nat \<times> ten_value \<Rightarrow>
     (ten_schema_error option \<times> nat \<times> ten_value) run" where
  "adjust_item adjust = (\<lambda>(i, field).
     map_run (map_prod (map_option (prepend_path (''['' @ show_nat i @ '']''))) (Pair i)) (adjust field))"

definition ten_schema_keyword_items_adjust_value ::
    "(ten_value \<Rightarrow> (ten_schema_error option \<times> ten_value) run) \<Rightarrow> ten_value \<Rightarrow>
     (ten_schema_error option \<times> ten_value) run" where
  "ten_schema_keyword_items_adjust_value adjust v =
     (if \<not> ten_value_is_array v then Ret (Some (array_expected v), v)
      else map_run (map_prod id (\<lambda>fs. VArray (map snd fs)))
             (ten_list_foreach_of (content_array v) (adjust_each (adjust_item adjust) (enumerate 0 (content_array v)))))"

definition ten_schema_keyword_required_adjust_value ::
    "string list \<Rightarrow> ten_value \<Rightarrow> ten_schema_error option \<times> ten_value" where
  "ten_schema_keyword_required_adjust_value required v = (None, v)"

lemma properties_adjust_cong [fundef_cong]:
  assumes "properties = properties'" and "v = v'"
    and "\<And>name s x. ten_value_is_object v' \<Longrightarrow> (name, x) \<in> set (content_object v') \<Longrightarrow>
      map_of (rev properties') name = Some s \<Longrightarrow> adjust s x = adjust' s x"
  shows "ten_schema_keyword_properties_adjust_value adjust properties v =
    ten_schema_keyword_properties_adjust_value adjust' properties' v'"
  using assms
  by (auto simp: ten_schema_keyword_properties_adjust_value_def adjust_property_def
      ten_schema_keyword_properties_peek_property_schema_def
      intro!: arg_cong [where f = "map_run (map_prod id VObject)"] foreach_of_cong adjust_each_cong split: option.splits)

lemma items_adjust_cong [fundef_cong]:
  assumes "v = v'" and "\<And>x. ten_value_is_array v' \<Longrightarrow> x \<in> set (content_array v') \<Longrightarrow> adjust x = adjust' x"
  shows "ten_schema_keyword_items_adjust_value adjust v = ten_schema_keyword_items_adjust_value adjust' v'"
  using assms
  by (auto simp: ten_schema_keyword_items_adjust_value_def adjust_item_def
      intro!: arg_cong [where f = "map_run (map_prod id (\<lambda>fs. VArray (map snd fs)))"] foreach_of_cong adjust_each_cong
      dest: snd_in_enumerate)

function ten_schema_adjust_value_type_with_schema_error ::
      "machine \<Rightarrow> ten_schema \<Rightarrow> ten_value \<Rightarrow> (ten_schema_error option \<times> ten_value) run"
  and ten_schema_keyword_adjust_value ::
      "machine \<Rightarrow> ten_schema_keyword \<Rightarrow> ten_value \<Rightarrow> (ten_schema_error option \<times> ten_value) run" where
  "ten_schema_adjust_value_type_with_schema_error mach (Schema keywords) v =
     adjust_steps (\<lambda>keyword. ten_schema_keyword_adjust_value mach keyword) keywords v"
| "ten_schema_keyword_adjust_value mach (KType t) v = ten_schema_keyword_type_adjust_value mach t v"
| "ten_schema_keyword_adjust_value mach (KProperties properties) v =
     ten_schema_keyword_properties_adjust_value (ten_schema_adjust_value_type_with_schema_error mach) properties v"
| "ten_schema_keyword_adjust_value mach (KItems item_schema) v =
     ten_schema_keyword_items_adjust_value (ten_schema_adjust_value_type_with_schema_error mach item_schema) v"
| "ten_schema_keyword_adjust_value mach (KRequired required) v =
     Ret (ten_schema_keyword_required_adjust_value required v)"
  by pat_completeness auto
termination
  by (relation "measure (\<lambda>x. case x of Inl (_, s, _) \<Rightarrow> size s | Inr (_, k, _) \<Rightarrow> size k)")
     (auto simp: less_Suc_eq_le dest!: map_of_rev_size intro: size_list_estimation')

lemmas adjust_defs = ten_schema_keyword_properties_adjust_value_def ten_schema_keyword_items_adjust_value_def
  ten_schema_keyword_required_adjust_value_def

definition ten_schema_adjust_value_type ::
    "machine \<Rightarrow> ten_schema \<Rightarrow> ten_value option \<Rightarrow> (ten_error option \<times> ten_value option) run" where
  "ten_schema_adjust_value_type mach self v = (case v of
      None \<Rightarrow> Ret (Some (generic_error ''Value is required.''), None)
    | Some v \<Rightarrow> map_run (map_prod (map_option (\<lambda>e.
          if se_path e \<noteq> [] then ten_error_prepend_errmsg (se_err e) (se_path e @ '': '') else se_err e)) Some)
        (ten_schema_adjust_value_type_with_schema_error mach self v))"

section \<open>What validation decides\<close>

function accepts :: "ten_schema \<Rightarrow> ten_value \<Rightarrow> bool"
  and keyword_accepts :: "ten_schema_keyword \<Rightarrow> ten_value \<Rightarrow> bool" where
  "accepts (Schema ks) v \<longleftrightarrow> (\<forall>k \<in> set ks. keyword_accepts k v)"
| "keyword_accepts (KType t) v \<longleftrightarrow> ten_type_is_compatible (ten_value_get_type v) t"
| "keyword_accepts (KProperties props) v \<longleftrightarrow> ten_value_is_object v \<and> walkable (content_object v) \<and>
     (\<forall>(name, x) \<in> set (content_object v). name \<noteq> [] \<and>
        (case map_of (rev props) name of None \<Rightarrow> True | Some s \<Rightarrow> accepts s x))"
| "keyword_accepts (KItems s) v \<longleftrightarrow> ten_value_is_array v \<and> walkable (content_array v) \<and>
     (\<forall>x \<in> set (content_array v). accepts s x)"
| "keyword_accepts (KRequired rs) v \<longleftrightarrow> ten_value_is_object v \<and> rs \<noteq> [] \<and> walkable rs \<and> walkable (content_object v) \<and>
     set rs \<subseteq> fst ` set (content_object v)"
  by pat_completeness auto
termination
  by (relation "measure (\<lambda>x. case x of Inl (s, _) \<Rightarrow> size s | Inr (k, _) \<Rightarrow> size k)")
     (auto simp: less_Suc_eq_le dest!: map_of_rev_size intro: size_list_estimation')

lemma absent_keys_empty: "absent_keys v rs = [] \<longleftrightarrow> set rs \<subseteq> fst ` set (content_object v)"
  by (induction rs) (auto dest: find_entry_key split: option.splits)

lemma ball_enumerate: "(\<forall>x \<in> set (enumerate n xs). P (snd x)) \<longleftrightarrow> (\<forall>y \<in> set xs. P y)"
proof -
  have "set xs = snd ` set (enumerate n xs)" by (metis list.set_map map_snd_enumerate)
  then show ?thesis by simp
qed

lemma validate_None:
  "ten_schema_validate_value_with_schema_error s v = Ret None \<longleftrightarrow> accepts s v"
  "ten_schema_keyword_validate_value k v = Ret None \<longleftrightarrow> keyword_accepts k v"
proof (induction s v and k v rule: accepts_keyword_accepts.induct)
  case (1 ks v)
  then show ?case by (simp add: run_first_None)
next
  case (2 t v)
  then show ?case by (simp add: ten_schema_keyword_type_validate_value_def)
next
  case (3 props v)
  then show ?case
    by (fastforce simp: run_first_None ten_schema_keyword_properties_validate_value_def
        ten_schema_keyword_properties_peek_property_schema_def
        split: option.splits if_splits)
next
  case (4 s v)
  show ?case
  proof (cases v)
    case (VArray vs)
    with 4 ball_enumerate [of 0 vs "\<lambda>x. ten_schema_validate_value_with_schema_error s x = Ret None"]
    show ?thesis by (simp add: ten_schema_keyword_items_validate_value_def run_first_None split_beta)
  qed (simp_all add: ten_schema_keyword_items_validate_value_def)
next
  case (5 rs v)
  then show ?case
    by (auto simp: ten_schema_keyword_required_validate_value_def absent_keys_empty)
qed

text \<open>The keys of all objects that a schema looks at are non-empty and the required lists are too; no list
  that is looped over is too long.\<close>

function checkable :: "ten_schema \<Rightarrow> ten_value \<Rightarrow> bool"
  and keyword_checkable :: "ten_schema_keyword \<Rightarrow> ten_value \<Rightarrow> bool" where
  "checkable (Schema ks) v \<longleftrightarrow> (\<forall>k \<in> set ks. keyword_checkable k v)"
| "keyword_checkable (KType t) v \<longleftrightarrow> True"
| "keyword_checkable (KProperties props) v \<longleftrightarrow> (ten_value_is_object v \<longrightarrow> walkable (content_object v) \<and>
     (\<forall>(name, x) \<in> set (content_object v). name \<noteq> [] \<and>
        (case map_of (rev props) name of None \<Rightarrow> True | Some s \<Rightarrow> checkable s x)))"
| "keyword_checkable (KItems s) v \<longleftrightarrow>
     (ten_value_is_array v \<longrightarrow> walkable (content_array v) \<and> (\<forall>x \<in> set (content_array v). checkable s x))"
| "keyword_checkable (KRequired rs) v \<longleftrightarrow>
     rs \<noteq> [] \<and> walkable rs \<and> (ten_value_is_object v \<longrightarrow> walkable (content_object v))"
  by pat_completeness auto
termination
  by (relation "measure (\<lambda>x. case x of Inl (s, _) \<Rightarrow> size s | Inr (k, _) \<Rightarrow> size k)")
     (auto simp: less_Suc_eq_le dest!: map_of_rev_size intro: size_list_estimation')

lemma run_first_returns:
  assumes "\<And>x. x \<in> set xs \<Longrightarrow> \<exists>e. f x = Ret e \<and> (\<forall>e'. e = Some e' \<longrightarrow> P e')"
  shows "\<exists>e. run_first f xs = Ret e \<and> (\<forall>e'. e = Some e' \<longrightarrow> P e')"
  using assms
proof (induction xs)
  case (Cons x xs)
  from Cons.prems [of x] obtain e where "f x = Ret e" "\<forall>e'. e = Some e' \<longrightarrow> P e'" by auto
  with Cons.IH Cons.prems show ?case by (cases e) auto
qed simp

lemma validate_returns:
  "checkable s v \<Longrightarrow> \<exists>e. ten_schema_validate_value_with_schema_error s v = Ret e \<and>
     (\<forall>e'. e = Some e' \<longrightarrow> err_no (se_err e') = TEN_ERRNO_GENERIC)"
  "keyword_checkable k v \<Longrightarrow> \<exists>e. ten_schema_keyword_validate_value k v = Ret e \<and>
     (\<forall>e'. e = Some e' \<longrightarrow> err_no (se_err e') = TEN_ERRNO_GENERIC)"
proof (induction s v and k v rule: checkable_keyword_checkable.induct)
  case (1 ks v)
  then show ?case
    unfolding ten_schema_validate_value_with_schema_error.simps
    by (intro run_first_returns) simp
next
  case (2 t v)
  then show ?case by (simp add: ten_schema_keyword_type_validate_value_def)
next
  case (3 props v)
  show ?case
  proof (cases "ten_value_is_object v")
    case True
    have "\<exists>e. run_first (\<lambda>(field_key, field_value).
             run_bind (ten_schema_keyword_properties_peek_property_schema props field_key) (\<lambda>prop_schema.
               case prop_schema of
                 None \<Rightarrow> Ret None
               | Some prop_schema \<Rightarrow>
                   map_run (map_option (prepend_path (''.'' @ field_key)))
                     (ten_schema_validate_value_with_schema_error prop_schema field_value)))
             (content_object v) = Ret e \<and> (\<forall>e'. e = Some e' \<longrightarrow> err_no (se_err e') = TEN_ERRNO_GENERIC)"
      using 3 True
      by (intro run_first_returns)
         (fastforce simp: ten_schema_keyword_properties_peek_property_schema_def split: option.splits)
    moreover have "walkable (content_object v)" using 3(2) True by simp
    ultimately show ?thesis using True
      by (simp only: ten_schema_keyword_validate_value.simps validate_defs not_True_eq_False if_False foreach_of_walkable)
  next
    case False
    then show ?thesis by (simp add: validate_defs object_expected_def)
  qed
next
  case (4 s v)
  show ?case
  proof (cases "ten_value_is_array v")
    case True
    have "\<exists>e. run_first (\<lambda>(i, field).
             map_run (map_option (prepend_path (''['' @ show_nat i @ '']'')))
               (ten_schema_validate_value_with_schema_error s field))
             (enumerate 0 (content_array v)) = Ret e \<and>
          (\<forall>e'. e = Some e' \<longrightarrow> err_no (se_err e') = TEN_ERRNO_GENERIC)"
    proof (rule run_first_returns)
      fix x assume "x \<in> set (enumerate 0 (content_array v))"
      from snd_in_enumerate [OF this] obtain i y where x: "x = (i, y)" and y: "y \<in> set (content_array v)"
        by (cases x) simp
      from 4(2) True y have "checkable s y" by auto
      from 4(1) [OF True y this] obtain e where "ten_schema_validate_value_with_schema_error s y = Ret e"
        "\<forall>e'. e = Some e' \<longrightarrow> err_no (se_err e') = TEN_ERRNO_GENERIC" by blast
      with x show "\<exists>e. (case x of (i, field) \<Rightarrow>
             map_run (map_option (prepend_path (''['' @ show_nat i @ '']'')))
               (ten_schema_validate_value_with_schema_error s field)) = Ret e \<and>
          (\<forall>e'. e = Some e' \<longrightarrow> err_no (se_err e') = TEN_ERRNO_GENERIC)" by auto
    qed
    moreover have "walkable (content_array v)" using 4(2) True by simp
    ultimately show ?thesis using True
      by (simp only: ten_schema_keyword_validate_value.simps validate_defs not_True_eq_False if_False foreach_of_walkable)
  next
    case False
    then show ?thesis by (simp add: validate_defs array_expected_def)
  qed
next
  case (5 rs v)
  then show ?case by (simp add: ten_schema_keyword_required_validate_value_def)
qed

section \<open>Well-formed schemas\<close>

text \<open>What creation from a value with distinct keys guarantees: at most one keyword of each kind, the
  keywords that belong to the type, and named properties without a name twice.\<close>

definition keywords_fit :: "ten_schema_keyword list \<Rightarrow> bool" where
  "keywords_fit ks \<longleftrightarrow> distinct (map keyword_kind ks) \<and>
     (\<exists>t. KType t \<in> set ks \<and> t \<noteq> TEN_TYPE_INVALID \<and>
        (\<forall>k \<in> set ks. case k of
            KType _ \<Rightarrow> True
          | KProperties _ \<Rightarrow> t = TEN_TYPE_OBJECT
          | KRequired rs \<Rightarrow> t = TEN_TYPE_OBJECT \<and> rs \<noteq> [] \<and> walkable rs
          | KItems _ \<Rightarrow> t = TEN_TYPE_ARRAY))"

primrec wf_schema :: "ten_schema \<Rightarrow> bool" and wf_keyword :: "ten_schema_keyword \<Rightarrow> bool" where
  "wf_schema (Schema ks) \<longleftrightarrow> keywords_fit ks \<and> (\<forall>k \<in> set (map wf_keyword ks). k)"
| "wf_keyword (KType t) \<longleftrightarrow> True"
| "wf_keyword (KProperties props) \<longleftrightarrow> distinct (map fst props) \<and>
     (\<forall>b \<in> snd ` set (map (map_prod id wf_schema) props). b)"
| "wf_keyword (KItems s) \<longleftrightarrow> wf_schema s"
| "wf_keyword (KRequired rs) \<longleftrightarrow> True"

lemma wf_simps [simp]:
  "wf_schema (Schema ks) \<longleftrightarrow> keywords_fit ks \<and> (\<forall>k \<in> set ks. wf_keyword k)"
  "wf_keyword (KProperties props) \<longleftrightarrow> distinct (map fst props) \<and>
     (\<forall>(name, s) \<in> set props. wf_schema s)"
  by (auto simp: image_iff)

declare wf_schema.simps(1) wf_keyword.simps(2) [simp del]


text \<open>No property has the empty name.\<close>

primrec named_schema :: "ten_schema \<Rightarrow> bool" and named_keyword :: "ten_schema_keyword \<Rightarrow> bool" where
  "named_schema (Schema ks) \<longleftrightarrow> (\<forall>b \<in> set (map named_keyword ks). b)"
| "named_keyword (KType t) \<longleftrightarrow> True"
| "named_keyword (KProperties props) \<longleftrightarrow> [] \<notin> fst ` set props \<and>
     (\<forall>b \<in> snd ` set (map (map_prod id named_schema) props). b)"
| "named_keyword (KItems s) \<longleftrightarrow> named_schema s"
| "named_keyword (KRequired rs) \<longleftrightarrow> True"

lemma named_simps [simp]:
  "named_schema (Schema ks) \<longleftrightarrow> (\<forall>k \<in> set ks. named_keyword k)"
  "named_keyword (KProperties props) \<longleftrightarrow> [] \<notin> fst ` set props \<and> (\<forall>(name, s) \<in> set props. named_schema s)"
  by (auto simp: image_iff)

declare named_schema.simps(1) named_keyword.simps(2) [simp del]

section \<open>Creation gives well-formed schemas\<close>

lemma keyword_info_inj:
  "ten_schema_keyword_info_get_by_name a = Some kind \<Longrightarrow>
   ten_schema_keyword_info_get_by_name b = Some kind \<Longrightarrow> a = b"
  by (auto simp: ten_schema_keyword_info_get_by_name_def split: if_splits)

definition create_keyword :: "schema_class \<Rightarrow> string \<times> ten_value \<Rightarrow> ten_schema_keyword run" where
  "create_keyword self = (\<lambda>(field_key, field_value).
     case ten_schema_keyword_info_get_by_name field_key of
       None \<Rightarrow> Abort
     | Some kind \<Rightarrow> keyword_from_value ten_schema_create_from_value self kind field_value)"

lemma create_from_object:
  assumes "ten_schema_create_from_value (VObject kvs) = Ret s"
  obtains type_str self ks where "find_entry str_type kvs = Some (VString type_str)"
    and "ten_schema_create_by_type type_str = Ret self"
    and "list_all2 (\<lambda>kv k. create_keyword self kv = Ret k) kvs ks" and "s = Schema ks"
proof -
  from assms obtain type_str self ks where
    t: "ten_value_object_peek_string (VObject kvs) str_type = Ret (Some type_str)"
    and c: "ten_schema_create_by_type type_str = Ret self"
    and m: "run_map (create_keyword self) kvs = Ret ks" and s: "s = Schema ks"
    by (auto simp: create_keyword_def split: option.splits)
  from t have "find_entry str_type kvs = Some (VString type_str)"
    by (auto simp: ten_value_object_peek_string_def ten_value_object_peek_def ten_value_peek_raw_str_def
        split: option.splits if_splits)
  with c run_map_eq_RetD [OF m] s that show ?thesis by blast
qed

lemma create_keyword_kind:
  "create_keyword self (key, v) = Ret k \<Longrightarrow> ten_schema_keyword_info_get_by_name key = Some (keyword_kind k)"
  by (auto simp: create_keyword_def create_defs Let_def
      split: option.splits TEN_SCHEMA_KEYWORD.splits ten_value.splits if_splits)

lemma create_keyword_class:
  "create_keyword self (key, v) = Ret k \<Longrightarrow> case k of
      KType _ \<Rightarrow> True
    | KProperties _ \<Rightarrow> self = SchemaObject
    | KRequired rs \<Rightarrow> self = SchemaObject \<and> rs \<noteq> [] \<and> walkable rs
    | KItems _ \<Rightarrow> self = SchemaArray"
  by (auto simp: create_keyword_def create_defs Let_def
      dest: run_map_walkable split: option.splits TEN_SCHEMA_KEYWORD.splits ten_value.splits if_splits)

lemma create_by_type_class:
  assumes "ten_schema_create_by_type type_str = Ret self"
  shows "(self = SchemaObject \<longrightarrow> ten_type_from_string type_str = TEN_TYPE_OBJECT) \<and>
    (self = SchemaArray \<longrightarrow> ten_type_from_string type_str = TEN_TYPE_ARRAY)"
  using assms by (auto simp: ten_schema_create_by_type_def split: if_splits TEN_TYPE.splits)

lemma create_keywords_fit:
  assumes d: "distinct (map fst kvs)" and t: "find_entry str_type kvs = Some (VString type_str)"
    and c: "ten_schema_create_by_type type_str = Ret self"
    and all: "list_all2 (\<lambda>kv k. create_keyword self kv = Ret k) kvs ks"
  shows "keywords_fit ks"
proof -
  have kinds: "map (Some \<circ> keyword_kind) ks = map (ten_schema_keyword_info_get_by_name \<circ> fst) kvs"
    using all by (induction rule: list_all2_induct) (auto dest: create_keyword_kind)
  have "distinct (map (Some \<circ> keyword_kind) ks)"
    unfolding kinds
  proof -
    have "inj_on (ten_schema_keyword_info_get_by_name) (fst ` set kvs)"
    proof (rule inj_onI)
      fix a b assume a: "a \<in> fst ` set kvs"
        and e: "ten_schema_keyword_info_get_by_name a = ten_schema_keyword_info_get_by_name b"
      from a have "ten_schema_keyword_info_get_by_name a \<in> set (map (Some \<circ> keyword_kind) ks)"
        unfolding kinds by auto
      then obtain kind where "ten_schema_keyword_info_get_by_name a = Some kind" by auto
      with e keyword_info_inj show "a = b" by metis
    qed
    with d show "distinct (map (ten_schema_keyword_info_get_by_name \<circ> fst) kvs)"
      by (simp add: distinct_map comp_inj_on)
  qed
  then have "distinct (map keyword_kind ks)" by (auto simp: distinct_map inj_on_def)
  moreover obtain k where k: "k \<in> set ks" "create_keyword self (str_type, VString type_str) = Ret k"
  proof -
    from find_entry_SomeD [OF t] obtain i where "i < length kvs" "kvs ! i = (str_type, VString type_str)"
      by (auto simp: in_set_conv_nth)
    with list_all2_nthD [OF all] list_all2_lengthD [OF all] have "create_keyword self (str_type, VString type_str) = Ret (ks ! i)"
      "ks ! i \<in> set ks" by fastforce+
    with that show ?thesis by blast
  qed
  from k(2) have kt: "k = KType (ten_type_from_string type_str)" "ten_type_from_string type_str \<noteq> TEN_TYPE_INVALID"
    by (auto simp: create_keyword_def ten_schema_keyword_info_get_by_name_def create_defs
        ten_value_peek_raw_str_def Let_def split: if_splits)
  have "case k of KType _ \<Rightarrow> True | KProperties _ \<Rightarrow> ten_type_from_string type_str = TEN_TYPE_OBJECT
      | KRequired rs \<Rightarrow> ten_type_from_string type_str = TEN_TYPE_OBJECT \<and> rs \<noteq> [] \<and> walkable rs
      | KItems _ \<Rightarrow> ten_type_from_string type_str = TEN_TYPE_ARRAY" if "k \<in> set ks" for k
  proof -
    from that obtain i where i: "i < length ks" "ks ! i = k" by (auto simp: in_set_conv_nth)
    obtain key v where "kvs ! i = (key, v)" by force
    with list_all2_nthD2 [OF all i(1)] i(2) have "create_keyword self (key, v) = Ret k" by simp
    from create_keyword_class [OF this] create_by_type_class [OF c] show ?thesis by (cases k) auto
  qed
  ultimately show ?thesis using k(1) kt unfolding keywords_fit_def by blast
qed

lemma create_wf: "keys_distinct v \<Longrightarrow> ten_schema_create_from_value v = Ret s \<Longrightarrow> wf_schema s"
proof (induction v arbitrary: s rule: measure_induct_rule [where f = size])
  case (less v)
  from less.prems(2) obtain kvs where v: "v = VObject kvs" by (cases v) auto
  from less.prems(1) v have d: "distinct (map fst kvs)" and kd: "\<forall>(k, x) \<in> set kvs. keys_distinct x"
    by (simp_all add: entries_distinct_def)
  from create_from_object [OF less.prems(2) [unfolded v]] obtain type_str self ks where
    t: "find_entry str_type kvs = Some (VString type_str)" and c: "ten_schema_create_by_type type_str = Ret self"
    and all: "list_all2 (\<lambda>kv k. create_keyword self kv = Ret k) kvs ks" and s: "s = Schema ks" .
  have small: "size x < size v" if "(key, x) \<in> set kvs" for key x
    using that unfolding v by (rule entry_size)
  have "wf_keyword k" if k: "k \<in> set ks" for k
  proof -
    from k obtain i where i: "i < length ks" "ks ! i = k" by (auto simp: in_set_conv_nth)
    obtain key x where kx: "kvs ! i = (key, x)" by force
    with i list_all2_lengthD [OF all] have x: "(key, x) \<in> set kvs" by (metis nth_mem)
    from list_all2_nthD2 [OF all i(1)] i(2) kx have ck: "create_keyword self (key, x) = Ret k" by simp
    show ?thesis
    proof (cases k)
      case (KItems u)
      with ck have "ten_schema_create_from_value x = Ret u"
        by (auto simp: create_keyword_def create_defs Let_def
            split: option.splits TEN_SCHEMA_KEYWORD.splits ten_value.splits if_splits)
      with less.IH [OF small [OF x]] kd x KItems show ?thesis by auto
    next
      case (KProperties props)
      with ck obtain ps where ps: "x = VObject ps"
        and m: "run_map (\<lambda>(name, v). map_run (Pair name) (ten_schema_create_from_value v)) ps = Ret props"
        by (auto simp: create_keyword_def create_defs Let_def
            split: option.splits TEN_SCHEMA_KEYWORD.splits ten_value.splits if_splits)
      from run_map_eq_RetD [OF m] have each: "list_all2 (\<lambda>p q. fst q = fst p \<and>
          ten_schema_create_from_value (snd p) = Ret (snd q)) ps props"
        by (rule list_all2_mono) auto
      then have "map fst props = map fst ps" by (induction rule: list_all2_induct) auto
      moreover from kd x ps have psd: "keys_distinct (VObject ps)" by blast
      then have pd: "\<forall>(n, y) \<in> set ps. keys_distinct y" by (simp add: entries_distinct_def)
      moreover from psd have "distinct (map fst ps)" by (simp add: entries_distinct_def)
      moreover have "wf_schema u" if "(name, u) \<in> set props" for name u
      proof -
        from that obtain j where j: "j < length props" "props ! j = (name, u)" by (auto simp: in_set_conv_nth)
        obtain y where y: "ps ! j = (name, y)" and cy: "ten_schema_create_from_value y = Ret u"
          using list_all2_nthD2 [OF each j(1)] j(2) by (cases "ps ! j") auto
        have yp: "(name, y) \<in> set ps" using y j list_all2_lengthD [OF each] by (metis nth_mem)
        then have "size y < size x" unfolding ps by (rule entry_size)
        then have "size y < size v" using small [OF x] by simp
        from less.IH [OF this _ cy] pd yp show ?thesis by auto
      qed
      ultimately show ?thesis using KProperties by auto
    qed simp_all
  qed
  with s create_keywords_fit [OF d t c all] show ?case by simp
qed

section \<open>Correctness of validation\<close>

text \<open>No object in the value has the empty key, on which the lookup of a property aborts, and no array and
  no object has more entries than a loop may walk.\<close>

fun traversable :: "ten_value \<Rightarrow> bool" where
  "traversable (VArray vs) \<longleftrightarrow> walkable vs \<and> (\<forall>v \<in> set vs. traversable v)"
| "traversable (VObject kvs) \<longleftrightarrow> walkable kvs \<and> (\<forall>(k, v) \<in> set kvs. k \<noteq> [] \<and> traversable v)"
| "traversable _ \<longleftrightarrow> True"

lemma wf_checkable:
  "wf_schema s \<Longrightarrow> traversable v \<Longrightarrow> checkable s v"
  "wf_keyword k \<Longrightarrow> (\<forall>rs. k = KRequired rs \<longrightarrow> rs \<noteq> [] \<and> walkable rs) \<Longrightarrow> traversable v \<Longrightarrow> keyword_checkable k v"
proof (induction s v and k v rule: checkable_keyword_checkable.induct)
  case (1 ks v)
  have "\<forall>rs. k = KRequired rs \<longrightarrow> rs \<noteq> [] \<and> walkable rs" if "k \<in> set ks" for k
    using 1(2) that by (auto simp: keywords_fit_def)
  with 1 show ?case by simp
next
  case (3 props v)
  have "checkable s x" if x: "(name, x) \<in> set (content_object v)" and o: "ten_value_is_object v"
      and s: "map_of (rev props) name = Some s" for name x s
  proof -
    from s have "(name, s) \<in> set props" by (metis map_of_SomeD set_rev)
    with 3(2) have "wf_schema s" by auto
    moreover from o x 3(4) have "name \<noteq> []" "traversable x" by (cases v; fastforce)+
    ultimately show ?thesis using 3(1) [OF o x refl s] by simp
  qed
  moreover have "name \<noteq> []" if "(name, x) \<in> set (content_object v)" "ten_value_is_object v" for name x
    using that 3(4) by (cases v) fastforce+
  moreover have "walkable (content_object v)" if "ten_value_is_object v" using that 3(4) by (cases v) simp_all
  ultimately show ?case by (fastforce split: option.splits)
next
  case (4 s v)
  then show ?case by (cases v) auto
next
  case (5 rs v)
  then show ?case by (cases v) auto
qed simp_all

lemma validate_value_decides:
  assumes "checkable s v"
  shows "\<exists>r. ten_schema_validate_value s (Some v) = Ret r \<and> (r = Inr () \<longleftrightarrow> accepts s v) \<and>
    (\<forall>e. r = Inl e \<longrightarrow> err_no e = TEN_ERRNO_GENERIC)"
proof -
  from validate_returns(1) [OF assms] obtain e where
    e: "ten_schema_validate_value_with_schema_error s v = Ret e" and
    g: "\<forall>e'. e = Some e' \<longrightarrow> err_no (se_err e') = TEN_ERRNO_GENERIC" by blast
  with validate_None(1) [of s v] show ?thesis
    by (cases e) (simp_all add: ten_schema_validate_value_def ten_error_prepend_errmsg_def)
qed

lemma validate_value_ok: "ten_schema_validate_value s (Some v) = Ret (Inr ()) \<longleftrightarrow> accepts s v"
proof -
  have "ten_schema_validate_value s (Some v) = Ret (Inr ()) \<longleftrightarrow>
      ten_schema_validate_value_with_schema_error s v = Ret None"
    by (cases "ten_schema_validate_value_with_schema_error s v")
       (auto simp: ten_schema_validate_value_def split: option.splits)
  then show ?thesis by (simp add: validate_None)
qed

text \<open>C5: A schema created from any document without duplicate keys (so one that a JSON parser can
  deliver) is well formed, and validation against it terminates on every value whose keys are
  non-empty and whose arrays and objects have at most 100000 entries each, the most that
  \<open>ten_list_foreach\<close> walks over: it never aborts, it succeeds exactly when every keyword on the way accepts its part of
  the value (the type is compatible, every declared property and item is accepted by its own schema,
  every required key is there), and every failure carries the generic error code.\<close>

theorem created_schema_decides:
  assumes "keys_distinct doc" and "ten_schema_create_from_value doc = Ret s" and "traversable v"
  shows "wf_schema s \<and> (\<exists>r. ten_schema_validate_value s (Some v) = Ret r \<and>
    (r = Inr () \<longleftrightarrow> accepts s v) \<and> (\<forall>e. r = Inl e \<longrightarrow> err_no e = TEN_ERRNO_GENERIC))"
  using create_wf [OF assms(1,2)] wf_checkable(1) [OF _ assms(3)] validate_value_decides by blast

theorem created_schema_decides_witness:
  "let doc = VObject [(''type'', VString ''object''),
         (''properties'', VObject [(''n'', VObject [(''type'', VString ''int32'')])]),
         (''required'', VArray [VString ''n''])];
       s = Schema [KType TEN_TYPE_OBJECT, KProperties [(''n'', Schema [KType TEN_TYPE_INT32])], KRequired [''n'']];
       v = VObject [(''n'', VInt64 7)]
   in keys_distinct doc \<and> ten_schema_create_from_value doc = Ret s \<and> traversable v \<and> wf_schema s \<and>
      accepts s v \<and> ten_schema_validate_value s (Some v) = Ret (Inr ())"
proof -
  let ?doc = "VObject [(''type'', VString ''object''),
         (''properties'', VObject [(''n'', VObject [(''type'', VString ''int32'')])]),
         (''required'', VArray [VString ''n''])]"
  let ?s = "Schema [KType TEN_TYPE_OBJECT, KProperties [(''n'', Schema [KType TEN_TYPE_INT32])], KRequired [''n'']]"
  let ?v = "VObject [(''n'', VInt64 7)]"
  have h: "keys_distinct ?doc" "traversable ?v" by (simp_all add: entries_distinct_def walkable_numeral)
  have c: "ten_schema_create_from_value ?doc = Ret ?s" by code_simp
  have a: "accepts ?s ?v" by (simp add: ten_type_is_compatible_iff TEN_IS_INTEGER_TYPE_def walkable_numeral)
  from created_schema_decides [OF h(1) c h(2)] a h c show ?thesis by (auto simp: Let_def)
qed

end
