(* ===== verification/Schema_Compat.thy ===== *)
theory Schema_Compat
  imports Schema
begin

text \<open>
  Compatibility of a source schema with a target schema (\<open>ten_schema_is_compatible\<close> of
  \<open>src/ten_utils/schema/schema.c\<close> and the \<open>is_compatible\<close> handlers of \<open>keywords/*.c\<close>).  The schema
  error is passed through as a state, since the properties handler resets it after every property.
\<close>

section \<open>Keywords\<close>

definition schema_error_set :: "ten_schema_error \<Rightarrow> string \<Rightarrow> ten_schema_error" where
  "schema_error_set st msg = st\<lparr>se_err := ten_error_set (se_err st) TEN_ERRNO_GENERIC msg\<rparr>"

definition ten_schema_error_reset :: "ten_schema_error \<Rightarrow> ten_schema_error" where
  "ten_schema_error_reset st = st\<lparr>se_path := [], se_err := ten_error_reset (se_err st)\<rparr>"

definition ten_schema_peek_keyword_by_type ::
    "ten_schema_keyword list \<Rightarrow> TEN_SCHEMA_KEYWORD \<Rightarrow> ten_schema_keyword option" where
  "ten_schema_peek_keyword_by_type keywords kind = find (\<lambda>k. keyword_kind k = kind) (rev keywords)"

definition ten_schema_keyword_type_is_compatible ::
    "TEN_TYPE \<Rightarrow> TEN_TYPE \<Rightarrow> ten_schema_error \<Rightarrow> bool \<times> ten_schema_error" where
  "ten_schema_keyword_type_is_compatible self target st =
     (if ten_type_is_compatible self target then (True, st)
      else (False, schema_error_set st (''type is incompatible, source is ['' @ type_text self @
                     ''], but target is ['' @ type_text target @ '']'')))"

definition missing_keys :: "string list \<Rightarrow> string list \<Rightarrow> string" where
  "missing_keys self target =
     concat (map (\<lambda>r. if r \<in> set self then [] else [CHR 0x27] @ r @ [CHR 0x27] @ '', '') target)"

text \<open>Each key of the target is looked up in the list of the source, by a loop of its own.\<close>

definition ten_schema_keyword_required_is_compatible ::
    "string list option \<Rightarrow> string list option \<Rightarrow> ten_schema_error \<Rightarrow> (bool \<times> ten_schema_error) run" where
  "ten_schema_keyword_required_is_compatible source_kw target_kw st = (case source_kw of
      None \<Rightarrow> Ret (False, schema_error_set st ''the `required` in the source schema is undefined'')
    | Some self \<Rightarrow> (case target_kw of
        None \<Rightarrow> Ret (True, st)
      | Some target \<Rightarrow>
          if length self < length target
          then Ret (False, schema_error_set st
                      ''required is incompatible, the size of the source can not be less than the target.'')
          else ten_list_foreach_of target
            (if target \<noteq> [] \<and> \<not> walkable self then Abort
             else if missing_keys self target = [] then Ret (True, st)
             else Ret (False, schema_error_set st
                        (''required is incompatible, the properties ['' @ missing_keys self target @
                         ''] are defined in the source but not in the target'')))))"

text \<open>A handler called with \<open>NULL\<close> for the source keyword.\<close>

definition is_compatible_without_source ::
    "ten_schema_keyword \<Rightarrow> ten_schema_error \<Rightarrow> (bool \<times> ten_schema_error) run" where
  "is_compatible_without_source target st = (case target of
      KRequired rs \<Rightarrow> ten_schema_keyword_required_is_compatible None (Some rs) st
    | _ \<Rightarrow> Abort)"

section \<open>Schemas\<close>

fun compat_loop :: "('k \<Rightarrow> 's \<Rightarrow> (bool \<times> 's) run) \<Rightarrow> 'k list \<Rightarrow> 's \<Rightarrow> (bool \<times> 's) run" where
  "compat_loop f [] st = Ret (True, st)"
| "compat_loop f (k # ks) st =
     run_bind (f k st) (\<lambda>(result, st'). if result then compat_loop f ks st' else Ret (False, st'))"

lemma compat_loop_cong [fundef_cong]:
  assumes "ks = ls" and "s = t" and "\<And>k st. k \<in> set ls \<Longrightarrow> f k st = g k st"
  shows "compat_loop f ks s = compat_loop g ls t"
proof -
  have "(\<And>k st. k \<in> set ls \<Longrightarrow> f k st = g k st) \<Longrightarrow> compat_loop f ls t = compat_loop g ls t"
    by (induction ls arbitrary: t) (auto intro!: run_bind_cong)
  with assms show ?thesis by simp
qed

definition keyword_kinds :: "TEN_SCHEMA_KEYWORD list" where
  "keyword_kinds = [TEN_SCHEMA_KEYWORD_TYPE, TEN_SCHEMA_KEYWORD_PROPERTIES, TEN_SCHEMA_KEYWORD_ITEMS,
                    TEN_SCHEMA_KEYWORD_REQUIRED]"

lemma peek_keyword_in: "ten_schema_peek_keyword_by_type ks kind = Some k \<Longrightarrow> k \<in> set ks \<and> keyword_kind k = kind"
  by (auto simp: ten_schema_peek_keyword_by_type_def find_Some_iff rev_nth)

text \<open>One round of the loop over the source properties: \<open>check\<close> compares two property schemas; the
  error is reset after every property that both schemas have.\<close>

definition property_step :: "(ten_schema \<Rightarrow> ten_schema \<Rightarrow> ten_schema_error \<Rightarrow> (bool \<times> ten_schema_error) run) \<Rightarrow>
    (string \<times> ten_schema) list \<Rightarrow> string \<times> ten_schema \<Rightarrow>
    ten_schema_error \<times> string \<Rightarrow> (ten_schema_error \<times> string) run" where
  "property_step check target = (\<lambda>(name, schema) (st, incompatible_fields).
      run_bind (ten_schema_keyword_properties_peek_property_schema target name) (\<lambda>target_prop_schema.
        case target_prop_schema of
          None \<Rightarrow> Ret (st, incompatible_fields)
        | Some target_prop_schema \<Rightarrow>
            run_bind (check schema target_prop_schema st)
              (\<lambda>(result, st'). Ret (ten_schema_error_reset st',
                if result then incompatible_fields
                else incompatible_fields @ (if incompatible_fields = [] then [] else ''; '') @ ''.'' @ name @
                     se_path st' @ '': '' @ err_msg (se_err st')))))"

definition ten_schema_keyword_properties_is_compatible ::
    "(ten_schema \<Rightarrow> ten_schema \<Rightarrow> ten_schema_error \<Rightarrow> (bool \<times> ten_schema_error) run) \<Rightarrow>
     (string \<times> ten_schema) list \<Rightarrow> (string \<times> ten_schema) list \<Rightarrow> ten_schema_error \<Rightarrow>
     (bool \<times> ten_schema_error) run" where
  "ten_schema_keyword_properties_is_compatible check self target st =
     run_bind (run_fold (property_step check target) self (st, [])) (\<lambda>(st', incompatible_fields).
       if incompatible_fields = [] then Ret (True, st')
       else Ret (False, schema_error_set st' (''{ '' @ incompatible_fields @ '' }'')))"

definition ten_schema_keyword_items_is_compatible ::
    "(ten_schema_error \<Rightarrow> (bool \<times> ten_schema_error) run) \<Rightarrow> ten_schema_error \<Rightarrow>
     (bool \<times> ten_schema_error) run" where
  "ten_schema_keyword_items_is_compatible check st =
     map_run (\<lambda>(success, st'). (success, if success then st' else prepend_path ''[]'' st')) (check st)"

lemma properties_is_compatible_cong [fundef_cong]:
  assumes "self = self'" and "target = target'" and "st = st'"
    and "\<And>name s t st. (name, s) \<in> set self' \<Longrightarrow> check s t st = check' s t st"
  shows "ten_schema_keyword_properties_is_compatible check self target st =
    ten_schema_keyword_properties_is_compatible check' self' target' st'"
proof -
  have "run_fold (property_step check target) self (st, []) = run_fold (property_step check' target) self (st, [])"
    using assms by (intro run_fold_cong refl) (auto simp: property_step_def cong: option.case_cong)
  with assms(1-3) show ?thesis by (simp add: ten_schema_keyword_properties_is_compatible_def)
qed

lemma items_is_compatible_cong [fundef_cong]:
  "st = st' \<Longrightarrow> check st' = check' st' \<Longrightarrow>
     ten_schema_keyword_items_is_compatible check st = ten_schema_keyword_items_is_compatible check' st'"
  by (simp add: ten_schema_keyword_items_is_compatible_def)

lemma property_size [termination_simp]:
  "(name, s) \<in> set props \<Longrightarrow> size s < size (KProperties props)"
proof -
  assume "(name, s) \<in> set props"
  then have "size_prod (\<lambda>_. 0) size (name, s) \<le> size_list (size_prod (\<lambda>_. 0) size) props"
    by (intro size_list_estimation') auto
  then show ?thesis by simp
qed

lemma keyword_size [termination_simp]:
  "k \<in> set ks \<Longrightarrow> size k < size (Schema ks)"
  by (simp add: less_Suc_eq_le size_list_estimation')

function ten_schema_is_compatible_with_schema_error ::
      "ten_schema \<Rightarrow> ten_schema \<Rightarrow> ten_schema_error \<Rightarrow> (bool \<times> ten_schema_error) run"
  and ten_schema_keyword_is_compatible ::
      "ten_schema_keyword \<Rightarrow> ten_schema_keyword option \<Rightarrow> ten_schema_error \<Rightarrow> (bool \<times> ten_schema_error) run" where
  "ten_schema_is_compatible_with_schema_error (Schema keywords) target st =
     compat_loop (\<lambda>kind st.
       let target_keyword = ten_schema_peek_keyword_by_type (schema_keywords target) kind
       in case ten_schema_peek_keyword_by_type keywords kind of
            Some source_keyword \<Rightarrow> ten_schema_keyword_is_compatible source_keyword target_keyword st
          | None \<Rightarrow> (case target_keyword of
                Some tk \<Rightarrow> is_compatible_without_source tk st
              | None \<Rightarrow> Ret (True, st))) keyword_kinds st"
| "ten_schema_keyword_is_compatible (KType self) target_kw st = (case target_kw of
      Some (KType target) \<Rightarrow> Ret (ten_schema_keyword_type_is_compatible self target st)
    | _ \<Rightarrow> Abort)"
| "ten_schema_keyword_is_compatible (KProperties self) target_kw st = (case target_kw of
      Some (KProperties target) \<Rightarrow>
        ten_schema_keyword_properties_is_compatible ten_schema_is_compatible_with_schema_error self target st
    | _ \<Rightarrow> Abort)"
| "ten_schema_keyword_is_compatible (KItems item_schema) target_kw st = (case target_kw of
      Some (KItems target_item) \<Rightarrow>
        ten_schema_keyword_items_is_compatible
          (ten_schema_is_compatible_with_schema_error item_schema target_item) st
    | _ \<Rightarrow> Abort)"
| "ten_schema_keyword_is_compatible (KRequired self) target_kw st = (case target_kw of
      None \<Rightarrow> ten_schema_keyword_required_is_compatible (Some self) None st
    | Some (KRequired target) \<Rightarrow> ten_schema_keyword_required_is_compatible (Some self) (Some target) st
    | _ \<Rightarrow> Abort)"
  by pat_completeness auto

termination
  by (relation "measure (\<lambda>x. case x of Inl (s, _) \<Rightarrow> size s | Inr (k, _) \<Rightarrow> size k)")
     (auto dest!: peek_keyword_in keyword_size property_size)

definition ten_schema_is_compatible :: "ten_schema \<Rightarrow> ten_schema \<Rightarrow> ten_error \<Rightarrow> (bool \<times> ten_error) run" where
  "ten_schema_is_compatible self target err =
     map_run (\<lambda>(result, e). (result,
         if \<not> result \<and> se_path e \<noteq> [] then ten_error_prepend_errmsg (se_err e) (se_path e @ '': '')
         else se_err e))
       (ten_schema_is_compatible_with_schema_error self target \<lparr>se_path = [], se_err = err\<rparr>)"

section \<open>Soundness\<close>

text \<open>What the target checks, the source declares.\<close>

function covers :: "ten_schema \<Rightarrow> ten_schema \<Rightarrow> bool"
  and keyword_covers :: "ten_schema_keyword \<Rightarrow> ten_schema_keyword \<Rightarrow> bool" where
  "covers (Schema ks) t \<longleftrightarrow> distinct (map keyword_kind (schema_keywords t)) \<and>
     (\<forall>tk \<in> set (schema_keywords t).
        case ten_schema_peek_keyword_by_type ks (keyword_kind tk) of
          None \<Rightarrow> True | Some k \<Rightarrow> keyword_covers k tk)"
| "keyword_covers (KType a) tk \<longleftrightarrow> True"
| "keyword_covers (KProperties props) tk \<longleftrightarrow> (\<forall>(name, ts) \<in> set (kw_properties tk).
     case map_of (rev props) name of None \<Rightarrow> False | Some s \<Rightarrow> covers s ts)"
| "keyword_covers (KItems s) tk \<longleftrightarrow> covers s (kw_item_schema tk)"
| "keyword_covers (KRequired rs) tk \<longleftrightarrow> kw_required tk \<noteq> []"
  by pat_completeness auto
termination
  by (relation "measure (\<lambda>x. case x of Inl (s, _) \<Rightarrow> size s | Inr (k, _) \<Rightarrow> size k)")
     (auto dest!: peek_keyword_in keyword_size map_of_rev_size)

lemma peek_keyword_distinct:
  assumes "distinct (map keyword_kind ks)" and "k \<in> set ks"
  shows "ten_schema_peek_keyword_by_type ks (keyword_kind k) = Some k"
proof (cases "ten_schema_peek_keyword_by_type ks (keyword_kind k)")
  case None
  with assms(2) show ?thesis by (auto simp: ten_schema_peek_keyword_by_type_def find_None_iff)
next
  case (Some k')
  with peek_keyword_in [OF Some] assms show ?thesis
    by (auto simp: distinct_map dest: inj_onD)
qed

lemma compat_loop_True:
  "compat_loop f ks st = Ret (True, st') \<Longrightarrow> k \<in> set ks \<Longrightarrow> \<exists>st1 st2. f k st1 = Ret (True, st2)"
  by (induction f ks st rule: compat_loop.induct) (auto split: if_splits)

definition compatible :: "ten_schema \<Rightarrow> ten_schema \<Rightarrow> bool" where
  "compatible s t \<longleftrightarrow> (\<exists>st st'. ten_schema_is_compatible_with_schema_error s t st = Ret (True, st'))"

definition keyword_compatible :: "ten_schema_keyword \<Rightarrow> ten_schema_keyword \<Rightarrow> bool" where
  "keyword_compatible k tk \<longleftrightarrow> (\<exists>st st'. ten_schema_keyword_is_compatible k (Some tk) st = Ret (True, st'))"

lemma compatibleI: "ten_schema_is_compatible_with_schema_error s t st = Ret (True, st') \<Longrightarrow> compatible s t"
  by (auto simp: compatible_def)

lemma keyword_compatibleI:
  "ten_schema_keyword_is_compatible k (Some tk) st = Ret (True, st') \<Longrightarrow> keyword_compatible k tk"
  by (auto simp: keyword_compatible_def)

lemma in_keyword_kinds: "kind \<in> set keyword_kinds"
  by (cases kind) (simp_all add: keyword_kinds_def)

lemma compatible_keyword:
  assumes "compatible (Schema ks) t" and "distinct (map keyword_kind (schema_keywords t))"
    and "tk \<in> set (schema_keywords t)"
  shows "\<exists>k. ten_schema_peek_keyword_by_type ks (keyword_kind tk) = Some k \<and> keyword_compatible k tk"
proof -
  from assms(1) obtain st st' where
    "ten_schema_is_compatible_with_schema_error (Schema ks) t st = Ret (True, st')"
    by (auto simp: compatible_def)
  from compat_loop_True [OF this [unfolded ten_schema_is_compatible_with_schema_error.simps]
      in_keyword_kinds [of "keyword_kind tk"]]
  show ?thesis
    using peek_keyword_distinct [OF assms(2,3)]
    by (cases tk) (auto simp: Let_def is_compatible_without_source_def
        ten_schema_keyword_required_is_compatible_def split: option.splits intro: keyword_compatibleI)
qed

text \<open>The loop over the properties ends without an incompatible field only if every property that the
  target has too is compatible.\<close>

lemma property_step_sound:
  assumes "property_step ten_schema_is_compatible_with_schema_error target (name, s) (st, acc) = Ret (st', acc')"
  shows "(acc' = [] \<longrightarrow> acc = []) \<and>
    (acc' = [] \<and> map_of (rev target) name = Some t \<longrightarrow> compatible s t)"
  using assms
  by (auto simp: property_step_def ten_schema_keyword_properties_peek_property_schema_def
      split: option.splits if_splits intro: compatibleI)

lemma property_fold_sound:
  assumes "run_fold (property_step ten_schema_is_compatible_with_schema_error target) props (st, acc) = Ret (st', [])"
  shows "acc = [] \<and> (\<forall>(name, s) \<in> set props. \<forall>t. map_of (rev target) name = Some t \<longrightarrow> compatible s t)"
  using assms
proof (induction props arbitrary: st acc)
  case (Cons p props)
  obtain name s where p: "p = (name, s)" by force
  from Cons.prems obtain st1 acc1 where
    step: "property_step ten_schema_is_compatible_with_schema_error target (name, s) (st, acc) = Ret (st1, acc1)"
    and rest: "run_fold (property_step ten_schema_is_compatible_with_schema_error target) props (st1, acc1) = Ret (st', [])"
    by (auto simp: p)
  from Cons.IH [OF rest] property_step_sound [OF step] p show ?case by auto
qed simp

lemma keyword_compatible_properties:
  assumes "keyword_compatible (KProperties props) (KProperties target)"
  shows "\<forall>(name, s) \<in> set props. \<forall>t. map_of (rev target) name = Some t \<longrightarrow> compatible s t"
proof -
  from assms obtain st st1 where "run_fold (property_step ten_schema_is_compatible_with_schema_error target) props (st, []) = Ret (st1, [])"
    unfolding keyword_compatible_def ten_schema_keyword_is_compatible.simps option.case ten_schema_keyword.case
      ten_schema_keyword_properties_is_compatible_def by (auto split: if_splits)
  from property_fold_sound [OF this] show ?thesis by simp
qed

lemma keyword_compatible_items:
  "keyword_compatible (KItems s) tk \<Longrightarrow> \<exists>t. tk = KItems t \<and> compatible s t"
  by (cases tk) (auto simp: keyword_compatible_def ten_schema_keyword_items_is_compatible_def intro: compatibleI)

lemma missing_keys_empty: "missing_keys self target = [] \<longleftrightarrow> set target \<subseteq> set self"
  by (auto simp: missing_keys_def)

lemma compatible_sound:
  "covers s t \<Longrightarrow> compatible s t \<Longrightarrow> accepts s v \<Longrightarrow> accepts t v"
  "keyword_covers k tk \<Longrightarrow> keyword_compatible k tk \<Longrightarrow> keyword_accepts k v \<Longrightarrow> keyword_accepts tk v"
proof (induction s t and k tk arbitrary: v and v rule: covers_keyword_covers.induct)
  case (1 ks t)
  obtain tks where t: "t = Schema tks" by (cases t)
  have "keyword_accepts tk v" if tk: "tk \<in> set tks" for tk
  proof -
    from 1(2) t have d: "distinct (map keyword_kind (schema_keywords t))" by simp
    from compatible_keyword [OF 1(3) d] tk t obtain k where
      k: "ten_schema_peek_keyword_by_type ks (keyword_kind tk) = Some k" "keyword_compatible k tk" by auto
    have "keyword_covers k tk" using 1(2) k(1) tk t by auto
    moreover have "keyword_accepts k v" using 1(4) peek_keyword_in [OF k(1)] by simp
    ultimately show ?thesis using 1(1) [OF _ k(1)] tk t k(2) by simp
  qed
  with t show ?case by simp
next
  case (2 a tk)
  then show ?case
    by (cases tk) (auto simp: keyword_compatible_def ten_schema_keyword_type_is_compatible_def
        split: if_splits intro: type_compat.compat_trans dest: ten_type_is_compatible_valid)
next
  case (3 props tk)
  show ?case
  proof (cases tk)
    case (KProperties target)
    have "case map_of (rev target) name of None \<Rightarrow> True | Some ts \<Rightarrow> accepts ts x"
      if x: "(name, x) \<in> set (content_object v)" for name x
    proof (cases "map_of (rev target) name")
      case (Some ts)
      then have ts: "(name, ts) \<in> set target" by (metis map_of_SomeD set_rev)
      with 3(2) KProperties obtain s where s: "map_of (rev props) name = Some s" "covers s ts"
        by (auto split: option.splits)
      then have "(name, s) \<in> set props" by (metis map_of_SomeD set_rev)
      with keyword_compatible_properties 3(3) KProperties Some have "compatible s ts" by fastforce
      moreover have "accepts s x" using 3(4) x s(1) by auto
      ultimately show ?thesis using 3(1) [of "(name, ts)" name ts s x] ts s KProperties Some by simp
    qed simp
    with 3(4) KProperties show ?thesis by auto
  qed (use 3(3) in \<open>simp_all add: keyword_compatible_def\<close>)
next
  case (4 s tk)
  from keyword_compatible_items [OF 4(3)] obtain t where "tk = KItems t" "compatible s t" by blast
  with 4 show ?case by auto
next
  case (5 rs tk)
  then show ?case
    by (cases tk) (auto simp: keyword_compatible_def ten_schema_keyword_required_is_compatible_def
        missing_keys_empty split: if_splits)
qed

interpretation schema_compat: sound_compatibility compatible covers accepts
  by unfold_locales (rule compatible_sound(1))

section \<open>Reflexivity\<close>

lemma type_compat_refl_eq:
  "t \<noteq> TEN_TYPE_INVALID \<Longrightarrow> ten_schema_keyword_type_is_compatible t t st = (True, st)"
  by (simp add: ten_schema_keyword_type_is_compatible_def type_compat.compat_refl)

lemma compat_loop_all:
  "(\<And>k st. k \<in> set ks \<Longrightarrow> \<exists>st'. f k st = Ret (True, st')) \<Longrightarrow> \<exists>st'. compat_loop f ks st = Ret (True, st')"
proof (induction ks arbitrary: st)
  case (Cons k ks)
  from Cons.prems [of k st] obtain st1 where "f k st = Ret (True, st1)" by auto
  with Cons show ?case by simp
qed simp

lemma property_fold_all:
  assumes "\<And>name s st. (name, s) \<in> set props \<Longrightarrow>
    name \<noteq> [] \<and> (\<exists>st'. \<forall>t. map_of (rev target) name = Some t \<longrightarrow>
      ten_schema_is_compatible_with_schema_error s t st = Ret (True, st'))"
  shows "\<exists>st'. run_fold (property_step ten_schema_is_compatible_with_schema_error target) props (st, []) = Ret (st', [])"
  using assms
proof (induction props arbitrary: st)
  case (Cons p props)
  obtain name s where p: "p = (name, s)" by force
  from Cons.prems [of name s st] p obtain st1 where "name \<noteq> []"
    "\<forall>t. map_of (rev target) name = Some t \<longrightarrow>
      ten_schema_is_compatible_with_schema_error s t st = Ret (True, st1)" by auto
  then obtain st2 where st2: "property_step ten_schema_is_compatible_with_schema_error target p (st, []) = Ret (st2, [])"
    by (cases "map_of (rev target) name")
       (auto simp: p property_step_def ten_schema_keyword_properties_peek_property_schema_def)
  have "\<exists>st'. run_fold (property_step ten_schema_is_compatible_with_schema_error target) props (st2, []) = Ret (st', [])"
    by (rule Cons.IH) (rule Cons.prems, simp)
  with st2 show ?case by simp
qed simp

lemma compatible_refl:
  "wf_schema s \<Longrightarrow> named_schema s \<Longrightarrow> \<exists>st'. ten_schema_is_compatible_with_schema_error s s st = Ret (True, st')"
  "wf_keyword k \<Longrightarrow> named_keyword k \<Longrightarrow> (\<forall>t. k = KType t \<longrightarrow> t \<noteq> TEN_TYPE_INVALID) \<Longrightarrow>
     (\<forall>rs. k = KRequired rs \<longrightarrow> walkable rs) \<Longrightarrow> \<exists>st'. ten_schema_keyword_is_compatible k (Some k) st = Ret (True, st')"
proof (induction s and k arbitrary: st and st rule: ten_schema.induct ten_schema_keyword.induct)
  case (Schema ks)
  then have fit: "distinct (map keyword_kind ks)" by (simp add: keywords_fit_def)
  have t: "t \<noteq> TEN_TYPE_INVALID" if "KType t \<in> set ks" for t
  proof -
    from Schema(2) obtain u where u: "KType u \<in> set ks" "u \<noteq> TEN_TYPE_INVALID"
      by (auto simp: keywords_fit_def)
    from fit have "inj_on keyword_kind (set ks)" by (simp add: distinct_map)
    from inj_onD [OF this _ that u(1)] u(2) show ?thesis by simp
  qed
  show ?case
    unfolding ten_schema_is_compatible_with_schema_error.simps
  proof (rule compat_loop_all)
    fix kind st
    show "\<exists>st'. (let target_keyword = ten_schema_peek_keyword_by_type (schema_keywords (Schema ks)) kind
        in case ten_schema_peek_keyword_by_type ks kind of
             Some source_keyword \<Rightarrow> ten_schema_keyword_is_compatible source_keyword target_keyword st
           | None \<Rightarrow> (case target_keyword of
                 Some tk \<Rightarrow> is_compatible_without_source tk st
               | None \<Rightarrow> Ret (True, st))) = Ret (True, st')"
    proof (cases "ten_schema_peek_keyword_by_type ks kind")
      case (Some k)
      with peek_keyword_in [OF Some] have k: "k \<in> set ks" by simp
      then have "wf_keyword k" "named_keyword k" "\<forall>t. k = KType t \<longrightarrow> t \<noteq> TEN_TYPE_INVALID"
        "\<forall>rs. k = KRequired rs \<longrightarrow> walkable rs"
        using Schema(2,3) t by (auto simp: keywords_fit_def)
      from Schema(1) [OF k this] Some show ?thesis by simp
    qed simp
  qed
next
  case (KType t)
  then show ?case by (simp add: type_compat_refl_eq)
next
  case (KProperties props)
  have "\<exists>st'. run_fold (property_step ten_schema_is_compatible_with_schema_error props) props (st, []) = Ret (st', [])"
  proof (rule property_fold_all)
    fix name s st assume p: "(name, s) \<in> set props"
    with KProperties(2,3) have "name \<noteq> []" "wf_schema s" "named_schema s" "map_of (rev props) name = Some s"
      by (auto simp: image_iff map_of_rev_distinct)
    with KProperties(1) [OF p] show "name \<noteq> [] \<and> (\<exists>st'. \<forall>t. map_of (rev props) name = Some t \<longrightarrow>
      ten_schema_is_compatible_with_schema_error s t st = Ret (True, st'))" by auto
  qed
  then show ?case unfolding ten_schema_keyword_is_compatible.simps option.case ten_schema_keyword.case
      ten_schema_keyword_properties_is_compatible_def by auto
next
  case (KItems s)
  then obtain st' where "ten_schema_is_compatible_with_schema_error s s st = Ret (True, st')" by auto
  then show ?case by (simp add: ten_schema_keyword_items_is_compatible_def)
next
  case (KRequired rs)
  then show ?case by (simp add: ten_schema_keyword_required_is_compatible_def missing_keys_empty)
qed

section \<open>Correctness of the compatibility check\<close>

lemma is_compatible_sub:
  "ten_schema_is_compatible s t err = Ret (True, err') \<Longrightarrow> compatible s t"
  by (auto simp: ten_schema_is_compatible_def intro: compatibleI)

lemma links_of_successive:
  "successively (\<lambda>s t. covers s t \<and> compatible s t) (s # ts) \<longleftrightarrow> schema_compat.links s ts"
  by (induction ts arbitrary: s) auto

text \<open>C6: The compatibility check is sound along a connection of any length: if each schema of a
  chain passes the check against the next one, and declares itself whatever the next one checks, then
  every value that is valid for the first schema is valid for all of them.\<close>

theorem compatibility_sound:
  assumes "successively (\<lambda>s t. covers s t \<and>
      (\<exists>err err'. ten_schema_is_compatible s t err = Ret (True, err'))) (s # ts)"
    and "ten_schema_validate_value s (Some v) = Ret (Inr ())"
  shows "\<forall>t \<in> set ts. ten_schema_validate_value t (Some v) = Ret (Inr ())"
proof -
  have "successively (\<lambda>s t. covers s t \<and> compatible s t) (s # ts)"
    by (rule successively_mono [OF assms(1)]) (auto dest: is_compatible_sub)
  then show ?thesis
    using assms(2) schema_compat.links_accept by (simp add: links_of_successive validate_value_ok)
qed

theorem compatibility_sound_witness:
  "let s1 = Schema [KType TEN_TYPE_OBJECT, KProperties [(''a'', Schema [KType TEN_TYPE_INT8])], KRequired [''a'']];
       s2 = Schema [KType TEN_TYPE_OBJECT, KProperties [(''a'', Schema [KType TEN_TYPE_INT64])], KRequired [''a'']];
       s3 = Schema [KType TEN_TYPE_OBJECT, KProperties [(''a'', Schema [KType TEN_TYPE_FLOAT64])]];
       v = VObject [(''a'', VInt8 5)]
   in ten_schema_validate_value s1 (Some v) = Ret (Inr ()) \<and>
      ten_schema_validate_value s2 (Some v) = Ret (Inr ()) \<and> ten_schema_validate_value s3 (Some v) = Ret (Inr ())"
proof -
  let ?s1 = "Schema [KType TEN_TYPE_OBJECT, KProperties [(''a'', Schema [KType TEN_TYPE_INT8])], KRequired [''a'']]"
  let ?s2 = "Schema [KType TEN_TYPE_OBJECT, KProperties [(''a'', Schema [KType TEN_TYPE_INT64])], KRequired [''a'']]"
  let ?s3 = "Schema [KType TEN_TYPE_OBJECT, KProperties [(''a'', Schema [KType TEN_TYPE_FLOAT64])]]"
  let ?v = "VObject [(''a'', VInt8 5)]"
  have c: "\<exists>err'. ten_schema_is_compatible ?s1 ?s2 (generic_error ''x'') = Ret (True, err')"
    "\<exists>err'. ten_schema_is_compatible ?s2 ?s3 (generic_error ''x'') = Ret (True, err')" by (rule exI, code_simp)+
  have k: "covers ?s1 ?s2" "covers ?s2 ?s3" by code_simp+
  have v: "ten_schema_validate_value ?s1 (Some ?v) = Ret (Inr ())" by code_simp
  have "successively (\<lambda>s t. covers s t \<and>
      (\<exists>err err'. ten_schema_is_compatible s t err = Ret (True, err'))) [?s1, ?s2, ?s3]"
    using c k by (simp only: successively.simps) blast
  from compatibility_sound [OF this v] v show ?thesis by (simp add: Let_def)
qed

text \<open>C32: Every well-formed schema whose properties have non-empty names is compatible with itself: the
  check terminates, does not abort and succeeds, whatever error is passed in.\<close>

theorem compatibility_reflexive:
  assumes "wf_schema s" and "named_schema s"
  shows "\<exists>err'. ten_schema_is_compatible s s err = Ret (True, err')"
proof -
  from compatible_refl(1) [OF assms] obtain st' where
    "ten_schema_is_compatible_with_schema_error s s \<lparr>se_path = [], se_err = err\<rparr> = Ret (True, st')" by blast
  then show ?thesis by (simp add: ten_schema_is_compatible_def)
qed

theorem compatibility_reflexive_witness:
  "let s = Schema [KType TEN_TYPE_OBJECT, KProperties [(''a'', Schema [KType TEN_TYPE_INT8])], KRequired [''a'']]
   in wf_schema s \<and> named_schema s \<and>
      (\<exists>err'. ten_schema_is_compatible s s (generic_error ''x'') = Ret (True, err'))"
proof -
  let ?s = "Schema [KType TEN_TYPE_OBJECT, KProperties [(''a'', Schema [KType TEN_TYPE_INT8])], KRequired [''a'']]"
  have h: "wf_schema ?s" "named_schema ?s" by (simp_all add: keywords_fit_def walkable_numeral)
  from compatibility_reflexive [OF h, of "generic_error ''x''"] h show ?thesis by (simp only: Let_def simp_thms)
qed

end
