(* ===== verification/Schema_Adjust.thy ===== *)
theory Schema_Adjust
  imports Schema
begin

text \<open>
  What \<open>ten_schema_adjust_value_type\<close> achieves: after a successful adjustment every declared part of
  the value has the declared type, a second adjustment changes nothing, and a valid value stays
  valid.
\<close>

section \<open>What adjustment achieves\<close>

text \<open>Every declared part of the value has exactly the declared type, and no list that is looped over is
  too long.\<close>

function exact :: "ten_schema \<Rightarrow> ten_value \<Rightarrow> bool"
  and keyword_exact :: "ten_schema_keyword \<Rightarrow> ten_value \<Rightarrow> bool" where
  "exact (Schema ks) v \<longleftrightarrow> (\<forall>k \<in> set ks. keyword_exact k v)"
| "keyword_exact (KType t) v \<longleftrightarrow> ten_value_get_type v = t"
| "keyword_exact (KProperties props) v \<longleftrightarrow> ten_value_is_object v \<and> walkable (content_object v) \<and>
     (\<forall>(name, x) \<in> set (content_object v). name \<noteq> [] \<and>
        (case map_of (rev props) name of None \<Rightarrow> True | Some s \<Rightarrow> exact s x))"
| "keyword_exact (KItems s) v \<longleftrightarrow> ten_value_is_array v \<and> walkable (content_array v) \<and>
     (\<forall>x \<in> set (content_array v). exact s x)"
| "keyword_exact (KRequired rs) v \<longleftrightarrow> True"
  by pat_completeness auto
termination
  by (relation "measure (\<lambda>x. case x of Inl (s, _) \<Rightarrow> size s | Inr (k, _) \<Rightarrow> size k)")
     (auto simp: less_Suc_eq_le dest!: map_of_rev_size intro: size_list_estimation')

lemma adjust_each_None:
  "adjust_each f xs = Ret (None, ys) \<Longrightarrow> list_all2 (\<lambda>x y. f x = Ret (None, y)) xs ys"
  by (induction xs arbitrary: ys) (auto split: option.splits prod.splits)

lemma adjust_each_fixed:
  "(\<And>x. x \<in> set xs \<Longrightarrow> f x = Ret (None, x)) \<Longrightarrow> adjust_each f xs = Ret (None, xs)"
  by (induction xs) auto


definition adjusted_property :: "machine \<Rightarrow> (string \<times> ten_schema) list \<Rightarrow> string \<times> ten_value \<Rightarrow> string \<times> ten_value \<Rightarrow> bool" where
  "adjusted_property mach props kv kv' \<longleftrightarrow> fst kv' = fst kv \<and> fst kv \<noteq> [] \<and>
     (case map_of (rev props) (fst kv) of
        None \<Rightarrow> snd kv' = snd kv
      | Some s \<Rightarrow> ten_schema_adjust_value_type_with_schema_error mach s (snd kv) = Ret (None, snd kv'))"

lemma adjust_properties_None:
  assumes "ten_schema_keyword_adjust_value mach (KProperties props) v = Ret (None, v')"
  shows "\<exists>kvs kvs'. v = VObject kvs \<and> v' = VObject kvs' \<and> walkable kvs \<and> walkable kvs' \<and> list_all2 (adjusted_property mach props) kvs kvs'"
proof -
  from assms obtain kvs where v: "v = VObject kvs" by (auto simp: adjust_defs split: if_splits)
  with assms obtain kvs' where v': "v' = VObject kvs'" and
    each: "adjust_each (adjust_property (ten_schema_adjust_value_type_with_schema_error mach) props) kvs = Ret (None, kvs')"
    by (auto simp: adjust_defs)
  from adjust_each_None [OF each] have "list_all2 (adjusted_property mach props) kvs kvs'"
    by (rule list_all2_mono)
       (auto simp: adjusted_property_def adjust_property_def ten_schema_keyword_properties_peek_property_schema_def
          split: option.splits if_splits)
  moreover from assms v have "walkable kvs" by (auto simp: adjust_defs)
  ultimately show ?thesis using v v' list_all2_lengthD [of _ kvs kvs'] walkable_length [of kvs kvs'] by auto
qed

lemma adjust_items_None:
  assumes "ten_schema_keyword_adjust_value mach (KItems s) v = Ret (None, v')"
  shows "\<exists>vs vs'. v = VArray vs \<and> v' = VArray vs' \<and> walkable vs \<and> walkable vs' \<and>
    list_all2 (\<lambda>x x'. ten_schema_adjust_value_type_with_schema_error mach s x = Ret (None, x')) vs vs'"
proof -
  from assms obtain vs where v: "v = VArray vs" by (auto simp: adjust_defs split: if_splits)
  with assms obtain ys where v': "v' = VArray (map snd ys)" and
    each: "adjust_each (adjust_item (ten_schema_adjust_value_type_with_schema_error mach s)) (enumerate 0 vs) = Ret (None, ys)"
    by (auto simp: adjust_defs)
  have "list_all2 (\<lambda>x y. ten_schema_adjust_value_type_with_schema_error mach s (snd x) = Ret (None, snd y))
      (enumerate 0 vs) ys"
    using adjust_each_None [OF each] by (rule list_all2_mono) (auto simp: adjust_item_def)
  then have "list_all2 (\<lambda>x x'. ten_schema_adjust_value_type_with_schema_error mach s x = Ret (None, x'))
      (map snd (enumerate 0 vs)) (map snd ys)"
    by (simp only: list_all2_map1 list_all2_map2)
  moreover from assms v have "walkable vs" by (auto simp: adjust_defs)
  ultimately show ?thesis using v v' list_all2_lengthD [of _ "map snd (enumerate 0 vs)" "map snd ys"] walkable_length [of vs "map snd ys"]
    by auto
qed

text \<open>Two keywords of one well-formed schema do not undo each other.\<close>

definition keep_all :: "(ten_schema_keyword \<Rightarrow> ten_value \<Rightarrow> bool) \<Rightarrow> machine \<Rightarrow> ten_schema_keyword list \<Rightarrow> bool" where
  "keep_all P mach ks \<longleftrightarrow> (\<forall>k1 \<in> set ks. \<forall>k2 \<in> set ks. \<forall>v v'. k1 \<noteq> k2 \<longrightarrow> P k1 v \<longrightarrow>
     ten_schema_keyword_adjust_value mach k2 v = Ret (None, v') \<longrightarrow> P k1 v')"

lemma keep_allD:
  "keep_all P mach ks \<Longrightarrow> k1 \<in> set ks \<Longrightarrow> k2 \<in> set ks \<Longrightarrow> k1 \<noteq> k2 \<Longrightarrow> P k1 v \<Longrightarrow>
     ten_schema_keyword_adjust_value mach k2 v = Ret (None, v') \<Longrightarrow> P k1 v'"
  by (simp add: keep_all_def)

lemma fit_type_unique:
  assumes "keywords_fit ks" and "KType t \<in> set ks" and "KType u \<in> set ks"
  shows "t = u"
proof -
  from assms(1) have "inj_on keyword_kind (set ks)" by (simp add: keywords_fit_def distinct_map)
  from inj_onD [OF this _ assms(2,3)] show ?thesis by simp
qed

lemma fit_pair:
  assumes "keywords_fit ks" and "k1 \<in> set ks" and "k2 \<in> set ks" and "k1 \<noteq> k2"
  shows "case k2 of
      KType t \<Rightarrow> (case k1 of KProperties _ \<Rightarrow> t = TEN_TYPE_OBJECT | KRequired _ \<Rightarrow> t = TEN_TYPE_OBJECT
                 | KItems _ \<Rightarrow> t = TEN_TYPE_ARRAY | KType _ \<Rightarrow> False)
    | KProperties _ \<Rightarrow> (case k1 of KType t \<Rightarrow> t = TEN_TYPE_OBJECT | KRequired _ \<Rightarrow> True | _ \<Rightarrow> False)
    | KItems _ \<Rightarrow> (case k1 of KType t \<Rightarrow> t = TEN_TYPE_ARRAY | _ \<Rightarrow> False)
    | KRequired _ \<Rightarrow> True"
proof -
  from assms(1) have inj: "inj_on keyword_kind (set ks)" by (simp add: keywords_fit_def distinct_map)
  from assms(1) obtain t where t: "KType t \<in> set ks" and fit: "\<forall>k \<in> set ks. case k of
            KType _ \<Rightarrow> True
          | KProperties _ \<Rightarrow> t = TEN_TYPE_OBJECT
          | KRequired rs \<Rightarrow> t = TEN_TYPE_OBJECT \<and> rs \<noteq> [] \<and> walkable rs
          | KItems _ \<Rightarrow> t = TEN_TYPE_ARRAY" by (auto simp: keywords_fit_def)
  have ne: "keyword_kind k1 \<noteq> keyword_kind k2" using inj_onD [OF inj _ assms(2,3)] assms(4) by blast
  have u: "u = t" if "KType u \<in> set ks" for u using fit_type_unique [OF assms(1) that t] .
  from fit assms(2) have f1: "case k1 of KType _ \<Rightarrow> True | KProperties _ \<Rightarrow> t = TEN_TYPE_OBJECT
      | KRequired rs \<Rightarrow> t = TEN_TYPE_OBJECT \<and> rs \<noteq> [] \<and> walkable rs | KItems _ \<Rightarrow> t = TEN_TYPE_ARRAY" by blast
  from fit assms(3) have f2: "case k2 of KType _ \<Rightarrow> True | KProperties _ \<Rightarrow> t = TEN_TYPE_OBJECT
      | KRequired rs \<Rightarrow> t = TEN_TYPE_OBJECT \<and> rs \<noteq> [] \<and> walkable rs | KItems _ \<Rightarrow> t = TEN_TYPE_ARRAY" by blast
  from ne f1 f2 u assms(2,3) show ?thesis by (cases k1; cases k2) auto
qed

lemma type_adjust_same: "ten_value_get_type v = t \<Longrightarrow> ten_schema_keyword_type_adjust_value mach t v = Ret (None, v)"
  by (simp add: ten_schema_keyword_type_adjust_value_def)

lemma keep_all_exact: "keywords_fit ks \<Longrightarrow> keep_all keyword_exact mach ks"
  unfolding keep_all_def
proof (intro ballI allI impI)
  fix k1 k2 v v'
  assume a: "keywords_fit ks" "k1 \<in> set ks" "k2 \<in> set ks" "k1 \<noteq> k2" "keyword_exact k1 v"
    "ten_schema_keyword_adjust_value mach k2 v = Ret (None, v')"
  from fit_pair [OF a(1-4)] a(5,6) show "keyword_exact k1 v'"
    by (cases k2; cases k1)
       (auto simp: type_adjust_same ten_schema_keyword_required_adjust_value_def simp del: ten_schema_keyword_adjust_value.simps(2,3)
          simp: ten_schema_keyword_adjust_value.simps(1) dest!: adjust_properties_None adjust_items_None)
qed


lemma list_all2_keys: "list_all2 (adjusted_property mach props) kvs kvs' \<Longrightarrow> map fst kvs' = map fst kvs"
  by (induction rule: list_all2_induct) (auto simp: adjusted_property_def)

lemma keep_all_accepts: "keywords_fit ks \<Longrightarrow> keep_all keyword_accepts mach ks"
  unfolding keep_all_def
proof (intro ballI allI impI)
  fix k1 k2 v v'
  assume a: "keywords_fit ks" "k1 \<in> set ks" "k2 \<in> set ks" "k1 \<noteq> k2" "keyword_accepts k1 v"
    "ten_schema_keyword_adjust_value mach k2 v = Ret (None, v')"
  have keys: "fst ` set kvs' = fst ` set kvs" if "list_all2 (adjusted_property mach props) kvs kvs'" for props kvs kvs'
    using list_all2_keys [OF that] by (metis list.set_map)
  from fit_pair [OF a(1-4)] a(5,6) show "keyword_accepts k1 v'"
    by (cases k2; cases k1)
       (auto simp: type_adjust_same ten_schema_keyword_required_adjust_value_def ten_type_is_compatible_iff TEN_IS_INTEGER_TYPE_def TEN_IS_FLOAT_TYPE_def
          simp del: ten_schema_keyword_adjust_value.simps(2,3)
          simp: ten_schema_keyword_adjust_value.simps(1) dest!: adjust_properties_None adjust_items_None keys)
qed

lemma adjust_steps_all:
  assumes "adjust_steps (\<lambda>k. ten_schema_keyword_adjust_value mach k) ks v = Ret (None, v')"
    and "keep_all P mach all" and "set ks \<subseteq> set all" and "distinct (done @ ks)" and "set done \<subseteq> set all"
    and "\<And>k v v'. k \<in> set ks \<Longrightarrow> Q k v \<Longrightarrow> ten_schema_keyword_adjust_value mach k v = Ret (None, v') \<Longrightarrow> P k v'"
    and "keep_all Q mach all" and "\<forall>k \<in> set done. P k v" and "\<forall>k \<in> set ks. Q k v"
  shows "\<forall>k \<in> set (done @ ks). P k v'"
  using assms
proof (induction ks arbitrary: v "done")
  case (Cons k ks)
  from Cons.prems(1) obtain v1 where k: "ten_schema_keyword_adjust_value mach k v = Ret (None, v1)"
    and rest: "adjust_steps (\<lambda>k. ten_schema_keyword_adjust_value mach k) ks v1 = Ret (None, v')"
    by (auto split: option.splits)
  have "P k v1" using Cons.prems(6) [of k v v1] Cons.prems(9) k by simp
  moreover have "P x v1" if "x \<in> set done" for x
    by (rule keep_allD [OF Cons.prems(2) _ _ _ _ k]) (use that Cons.prems(3-5,8) in auto)
  moreover have "Q x v1" if "x \<in> set ks" for x
    by (rule keep_allD [OF Cons.prems(7) _ _ _ _ k]) (use that Cons.prems(3,4,9) in auto)
  ultimately have "\<forall>x \<in> set ((done @ [k]) @ ks). P x v'"
    using Cons.prems by (intro Cons.IH [OF rest Cons.prems(2)]) auto
  then show ?case by simp
qed simp

lemma fit_distinct: "keywords_fit ks \<Longrightarrow> distinct ks"
  by (auto simp: keywords_fit_def distinct_map)

lemma adjust_exact:
  "wf_schema s \<Longrightarrow> ten_schema_adjust_value_type_with_schema_error mach s v = Ret (None, v') \<Longrightarrow> exact s v'"
  "wf_keyword k \<Longrightarrow> ten_schema_keyword_adjust_value mach k v = Ret (None, v') \<Longrightarrow> keyword_exact k v'"
proof (induction s and k arbitrary: v v' and v v' rule: ten_schema.induct ten_schema_keyword.induct)
  case (Schema ks)
  then have fit: "keywords_fit ks" by simp
  from adjust_steps_all [OF Schema(3) [unfolded ten_schema_adjust_value_type_with_schema_error.simps]
      keep_all_exact [OF fit], of "[]" "\<lambda>_ _. True"] Schema(1,2) fit_distinct [OF fit]
  show ?case by (auto simp: keep_all_def)
next
  case (KType t)
  then show ?case by (simp add: type_adjust_type)
next
  case (KProperties props)
  from adjust_properties_None [OF KProperties(3)] obtain kvs kvs' where
    v: "v' = VObject kvs'" "walkable kvs'" and all: "list_all2 (adjusted_property mach props) kvs kvs'" by blast
  have "name \<noteq> [] \<and> (case map_of (rev props) name of None \<Rightarrow> True | Some s \<Rightarrow> exact s x)"
    if "(name, x) \<in> set kvs'" for name x
  proof -
    from that obtain i where i: "i < length kvs'" "kvs' ! i = (name, x)" by (auto simp: in_set_conv_nth)
    define kv where "kv = kvs ! i"
    from list_all2_nthD2 [OF all i(1)] i(2) have kv: "adjusted_property mach props kv (name, x)"
      by (simp add: kv_def)
    have "exact s x" if "map_of (rev props) name = Some s" for s
    proof -
      from that have "(name, s) \<in> set props" by (metis map_of_SomeD set_rev)
      then show ?thesis using KProperties(1) [of "(name, s)" s] KProperties(2) kv that
        by (auto simp: adjusted_property_def)
    qed
    then show ?thesis using kv by (auto simp: adjusted_property_def split: option.splits)
  qed
  with v show ?case by auto
next
  case (KItems s)
  from adjust_items_None [OF KItems(3)] obtain vs vs' where v: "v' = VArray vs'" "walkable vs'"
    and all: "list_all2 (\<lambda>x x'. ten_schema_adjust_value_type_with_schema_error mach s x = Ret (None, x')) vs vs'"
    by blast
  have "exact s x" if x: "x \<in> set vs'" for x
  proof -
    from all x obtain y where "ten_schema_adjust_value_type_with_schema_error mach s y = Ret (None, x)"
      by (auto simp: list_all2_conv_all_nth in_set_conv_nth)
    with KItems(1,2) show ?thesis by simp
  qed
  with v show ?case by simp
next
  case (KRequired rs)
  then show ?case by (simp add: adjust_defs)
qed

lemma adjust_idempotent:
  "exact s v \<Longrightarrow> ten_schema_adjust_value_type_with_schema_error mach s v = Ret (None, v)"
  "keyword_exact k v \<Longrightarrow> ten_schema_keyword_adjust_value mach k v = Ret (None, v)"
proof (induction s v and k v rule: exact_keyword_exact.induct)
  case (1 ks v)
  have "adjust_steps (\<lambda>k. ten_schema_keyword_adjust_value mach k) ls v = Ret (None, v)" if "set ls \<subseteq> set ks" for ls
    using that 1 by (induction ls) auto
  then show ?case by simp
next
  case (2 t v)
  then show ?case by (simp add: type_adjust_same)
next
  case (3 props v)
  then obtain kvs where v: "v = VObject kvs" and w: "walkable kvs" by auto
  have each: "adjust_each (adjust_property (ten_schema_adjust_value_type_with_schema_error mach) props) kvs = Ret (None, kvs)"
    using 3 v
    by (intro adjust_each_fixed)
       (fastforce simp: adjust_property_def ten_schema_keyword_properties_peek_property_schema_def split: option.splits)
  show ?case unfolding v ten_schema_keyword_adjust_value.simps adjust_defs ten_value.sel each foreach_of_walkable [OF w] by simp
next
  case (4 s v)
  then obtain vs where v: "v = VArray vs" and w: "walkable vs" by auto
  have each: "adjust_each (adjust_item (ten_schema_adjust_value_type_with_schema_error mach s)) (enumerate 0 vs) = Ret (None, enumerate 0 vs)"
    using 4 v by (intro adjust_each_fixed) (force simp: adjust_item_def dest: snd_in_enumerate)
  show ?case unfolding v ten_schema_keyword_adjust_value.simps adjust_defs ten_value.sel each foreach_of_walkable [OF w] by simp
next
  case (5 rs v)
  then show ?case by (simp add: adjust_defs)
qed

lemma type_adjust_accepts:
  assumes "ten_type_is_compatible (ten_value_get_type v) t"
    and "ten_schema_keyword_type_adjust_value mach t v = Ret (None, v')"
  shows "ten_type_is_compatible (ten_value_get_type v') t"
  using type_adjust_type [OF assms(2)] ten_type_is_compatible_valid [OF assms(1)]
  by (simp add: type_compat.compat_refl)

lemma adjust_accepts:
  "wf_schema s \<Longrightarrow> accepts s v \<Longrightarrow>
     ten_schema_adjust_value_type_with_schema_error mach s v = Ret (None, v') \<Longrightarrow> accepts s v'"
  "wf_keyword k \<Longrightarrow> keyword_accepts k v \<Longrightarrow>
     ten_schema_keyword_adjust_value mach k v = Ret (None, v') \<Longrightarrow> keyword_accepts k v'"
proof (induction s and k arbitrary: v v' and v v' rule: ten_schema.induct ten_schema_keyword.induct)
  case (Schema ks)
  then have fit: "keywords_fit ks" by simp
  have each: "keyword_accepts k x'" if "k \<in> set ks" "keyword_accepts k x"
      "ten_schema_keyword_adjust_value mach k x = Ret (None, x')" for k x x'
    using Schema(1) [OF that(1) _ that(2,3)] that(1) Schema(2) by simp
  have "\<forall>k \<in> set ([] @ ks). keyword_accepts k v'"
    by (rule adjust_steps_all [OF Schema(4) [unfolded ten_schema_adjust_value_type_with_schema_error.simps]
          keep_all_accepts [OF fit] _ _ _ each keep_all_accepts [OF fit]])
       (use Schema(3) fit_distinct [OF fit] in simp_all)
  then show ?case by simp
next
  case (KType t)
  then show ?case using type_adjust_accepts by simp
next
  case (KProperties props)
  from adjust_properties_None [OF KProperties(4)] obtain kvs kvs' where
    v: "v = VObject kvs" "v' = VObject kvs'" "walkable kvs'" and all: "list_all2 (adjusted_property mach props) kvs kvs'" by blast
  have "name \<noteq> [] \<and> (case map_of (rev props) name of None \<Rightarrow> True | Some s \<Rightarrow> accepts s x)"
    if "(name, x) \<in> set kvs'" for name x
  proof -
    from that obtain i where i: "i < length kvs'" "kvs' ! i = (name, x)" by (auto simp: in_set_conv_nth)
    obtain y where y: "kvs ! i = (name, y)" and a: "adjusted_property mach props (name, y) (name, x)"
      using list_all2_nthD2 [OF all i(1)] i(2) by (cases "kvs ! i") (auto simp: adjusted_property_def)
    from y i list_all2_lengthD [OF all] have yk: "(name, y) \<in> set kvs" by (metis nth_mem)
    have "accepts s x" if s: "map_of (rev props) name = Some s" for s
    proof -
      from s have "(name, s) \<in> set props" by (metis map_of_SomeD set_rev)
      moreover have "accepts s y" using KProperties(3) v(1) yk s by auto
      ultimately show ?thesis using KProperties(1) [of "(name, s)" s] KProperties(2) a s
        by (auto simp: adjusted_property_def)
    qed
    then show ?thesis using a by (auto simp: adjusted_property_def split: option.splits)
  qed
  with v show ?case by auto
next
  case (KItems s)
  from adjust_items_None [OF KItems(4)] obtain vs vs' where v: "v = VArray vs" "v' = VArray vs'" "walkable vs'"
    and all: "list_all2 (\<lambda>x x'. ten_schema_adjust_value_type_with_schema_error mach s x = Ret (None, x')) vs vs'"
    by blast
  have "accepts s x" if x: "x \<in> set vs'" for x
  proof -
    from x obtain i where i: "i < length vs'" "vs' ! i = x" by (auto simp: in_set_conv_nth)
    have "vs ! i \<in> set vs" using i(1) list_all2_lengthD [OF all] by simp
    moreover have "ten_schema_adjust_value_type_with_schema_error mach s (vs ! i) = Ret (None, x)"
      using list_all2_nthD2 [OF all i(1)] i(2) by simp
    ultimately obtain y where "y \<in> set vs"
      "ten_schema_adjust_value_type_with_schema_error mach s y = Ret (None, x)" by blast
    with KItems(1-3) v show ?thesis by auto
  qed
  with v show ?case by simp
next
  case (KRequired rs)
  then show ?case by (simp add: adjust_defs)
qed

section \<open>Correctness of adjustment\<close>

lemma adjust_value_ok:
  "ten_schema_adjust_value_type mach s (Some v) = Ret (None, r) \<longleftrightarrow>
     (\<exists>v'. r = Some v' \<and> ten_schema_adjust_value_type_with_schema_error mach s v = Ret (None, v'))"
  by (cases "ten_schema_adjust_value_type_with_schema_error mach s v")
     (auto simp: ten_schema_adjust_value_type_def)

text \<open>C7: When adjusting a value to a well-formed schema succeeds, every part of the value that the
  schema declares has exactly the declared type, at every depth, and adjusting the result again
  succeeds and changes nothing.\<close>

theorem adjustment_establishes_types:
  assumes "wf_schema s" and "ten_schema_adjust_value_type mach s (Some v) = Ret (None, Some v')"
  shows "exact s v' \<and> ten_schema_adjust_value_type mach s (Some v') = Ret (None, Some v')"
  using assms adjust_exact(1) [OF assms(1)] adjust_idempotent(1) by (auto simp: adjust_value_ok)

theorem adjustment_establishes_types_witness:
  "let s = Schema [KType TEN_TYPE_OBJECT, KProperties [(''n'', Schema [KType TEN_TYPE_UINT8])]];
       v = VObject [(''n'', VInt64 200), (''m'', VBool True)];
       v' = VObject [(''n'', VUint8 200), (''m'', VBool True)]
   in wf_schema s \<and> ten_schema_adjust_value_type indefinite_machine s (Some v) = Ret (None, Some v') \<and>
      exact s v' \<and> ten_schema_adjust_value_type indefinite_machine s (Some v') = Ret (None, Some v')"
proof -
  let ?s = "Schema [KType TEN_TYPE_OBJECT, KProperties [(''n'', Schema [KType TEN_TYPE_UINT8])]]"
  let ?v = "VObject [(''n'', VInt64 200), (''m'', VBool True)]"
  let ?v' = "VObject [(''n'', VUint8 200), (''m'', VBool True)]"
  have w: "wf_schema ?s" by (simp add: keywords_fit_def)
  have a: "ten_schema_adjust_value_type indefinite_machine ?s (Some ?v) = Ret (None, Some ?v')" by code_simp
  from adjustment_establishes_types [OF w a] w a show ?thesis by (simp only: Let_def simp_thms)
qed

text \<open>C8: Adjusting a value that validation accepts keeps it valid: after a successful adjustment by a
  well-formed schema, validation against the same schema still succeeds.\<close>

theorem adjustment_keeps_valid:
  assumes "wf_schema s" and "ten_schema_validate_value s (Some v) = Ret (Inr ())"
    and "ten_schema_adjust_value_type mach s (Some v) = Ret (None, Some v')"
  shows "ten_schema_validate_value s (Some v') = Ret (Inr ())"
  using assms adjust_accepts(1) [OF assms(1)] by (auto simp: adjust_value_ok validate_value_ok)

theorem adjustment_keeps_valid_witness:
  "let s = Schema [KType TEN_TYPE_ARRAY, KItems (Schema [KType TEN_TYPE_UINT8])];
       v = VArray [VInt64 200, VInt32 3]; v' = VArray [VUint8 200, VUint8 3]
   in wf_schema s \<and> ten_schema_validate_value s (Some v) = Ret (Inr ()) \<and>
      ten_schema_adjust_value_type saturating_machine s (Some v) = Ret (None, Some v') \<and>
      ten_schema_validate_value s (Some v') = Ret (Inr ())"
proof -
  let ?s = "Schema [KType TEN_TYPE_ARRAY, KItems (Schema [KType TEN_TYPE_UINT8])]"
  let ?v = "VArray [VInt64 200, VInt32 3]" and ?v' = "VArray [VUint8 200, VUint8 3]"
  have w: "wf_schema ?s" by (simp add: keywords_fit_def)
  have v: "ten_schema_validate_value ?s (Some ?v) = Ret (Inr ())" by code_simp
  have a: "ten_schema_adjust_value_type saturating_machine ?s (Some ?v) = Ret (None, Some ?v')" by code_simp
  from adjustment_keeps_valid [OF w v a] w v a show ?thesis by (simp only: Let_def simp_thms)
qed

end
