(* ===== verification/Loc.thy ===== *)
theory Loc
  imports Value_Path Value_Get
begin

text \<open>
  Locations of messages and extensions (\<open>core/src/ten_runtime/common/loc.c\<close>): the URI of an app, the
  id of a graph, the names of an extension group and of an extension, each of them empty when it is
  not given.  A NULL argument is \<open>None\<close>.  A location with the name of an extension but not of its
  group fails the integrity check, and with it the assertion of the operation that made it.
\<close>

abbreviation "TEN_STR_APP \<equiv> ''app''"
abbreviation "TEN_STR_GRAPH \<equiv> ''graph''"
abbreviation "TEN_STR_EXTENSION_GROUP \<equiv> ''extension_group''"
abbreviation "TEN_STR_EXTENSION \<equiv> ''extension''"

section \<open>Operations\<close>

record ten_loc =
  app_uri :: string
  graph_id :: string
  extension_group_name :: string
  extension_name :: string

definition ten_loc_check_integrity :: "ten_loc \<Rightarrow> bool" where
  "ten_loc_check_integrity self \<longleftrightarrow> (if extension_name self \<noteq> [] then extension_group_name self \<noteq> [] else True)"

definition ten_loc_init_empty :: ten_loc where
  "ten_loc_init_empty = \<lparr>app_uri = [], graph_id = [], extension_group_name = [], extension_name = []\<rparr>"

text \<open>The \<open>s ? s : ""\<close> of the setters.\<close>

definition c_str_or_empty :: "string option \<Rightarrow> string" where
  "c_str_or_empty s = (case s of None \<Rightarrow> [] | Some s \<Rightarrow> s)"

definition ten_loc_set ::
    "ten_loc \<Rightarrow> string option \<Rightarrow> string option \<Rightarrow> string option \<Rightarrow> string option \<Rightarrow> ten_loc run" where
  "ten_loc_set self uri graph grp ext =
     (let self = self\<lparr>app_uri := c_str_or_empty uri, graph_id := c_str_or_empty graph,
                      extension_group_name := c_str_or_empty grp, extension_name := c_str_or_empty ext\<rparr>
      in if ten_loc_check_integrity self then Ret self else Abort)"

definition ten_loc_init ::
    "string option \<Rightarrow> string option \<Rightarrow> string option \<Rightarrow> string option \<Rightarrow> ten_loc run" where
  "ten_loc_init uri graph grp ext =
     (let self = \<lparr>app_uri = c_str_or_empty uri, graph_id = c_str_or_empty graph,
                  extension_group_name = c_str_or_empty grp, extension_name = c_str_or_empty ext\<rparr>
      in if ten_loc_check_integrity self then Ret self else Abort)"

definition ten_loc_create ::
    "string option \<Rightarrow> string option \<Rightarrow> string option \<Rightarrow> string option \<Rightarrow> ten_loc run" where
  "ten_loc_create uri graph grp ext =
     run_bind (ten_loc_set ten_loc_init_empty uri graph grp ext) (\<lambda>self.
       if ten_loc_check_integrity self then Ret self else Abort)"

definition ten_loc_clone :: "ten_loc \<Rightarrow> ten_loc run" where
  "ten_loc_clone src =
     (if \<not> ten_loc_check_integrity src then Abort
      else ten_loc_create (Some (app_uri src)) (Some (graph_id src))
             (Some (extension_group_name src)) (Some (extension_name src)))"

definition ten_loc_init_from_loc :: "ten_loc \<Rightarrow> ten_loc run" where
  "ten_loc_init_from_loc src =
     ten_loc_init (Some (app_uri src)) (Some (graph_id src))
       (Some (extension_group_name src)) (Some (extension_name src))"

definition ten_loc_set_from_loc :: "ten_loc \<Rightarrow> ten_loc \<Rightarrow> ten_loc run" where
  "ten_loc_set_from_loc self src =
     (if \<not> ten_loc_check_integrity self then Abort
      else ten_loc_set self (Some (app_uri src)) (Some (graph_id src))
             (Some (extension_group_name src)) (Some (extension_name src)))"

definition ten_loc_copy :: "ten_loc \<Rightarrow> ten_loc \<Rightarrow> ten_loc run" where
  "ten_loc_copy self src =
     (if \<not> ten_loc_check_integrity src then Abort else ten_loc_set_from_loc self src)"

definition ten_loc_is_empty :: "ten_loc \<Rightarrow> bool" where
  "ten_loc_is_empty self \<longleftrightarrow>
     app_uri self = [] \<and> graph_id self = [] \<and> extension_group_name self = [] \<and> extension_name self = []"

definition ten_loc_clear :: "ten_loc \<Rightarrow> ten_loc" where
  "ten_loc_clear self =
     self\<lparr>app_uri := [], graph_id := [], extension_group_name := [], extension_name := []\<rparr>"

definition ten_loc_is_equal :: "ten_loc \<Rightarrow> ten_loc \<Rightarrow> bool" where
  "ten_loc_is_equal self other \<longleftrightarrow>
     app_uri self = app_uri other \<and> graph_id self = graph_id other \<and>
     extension_group_name self = extension_group_name other \<and> extension_name self = extension_name other"

text \<open>The assertion leaves the graph id out; the comparison with a NULL graph id asserts instead, once
  the URIs are equal.\<close>

definition ten_loc_is_equal_with_value ::
    "ten_loc \<Rightarrow> string option \<Rightarrow> string option \<Rightarrow> string option \<Rightarrow> string option \<Rightarrow> bool run" where
  "ten_loc_is_equal_with_value self uri graph grp ext =
     (case (uri, grp, ext) of
        (Some uri, Some grp, Some ext) \<Rightarrow>
          if app_uri self \<noteq> uri then Ret False
          else (case graph of
              None \<Rightarrow> Abort
            | Some graph \<Rightarrow>
                Ret (graph_id self = graph \<and> extension_group_name self = grp \<and> extension_name self = ext))
      | _ \<Rightarrow> Abort)"

definition ten_loc_to_string :: "ten_loc \<Rightarrow> string run" where
  "ten_loc_to_string self =
     (if \<not> ten_loc_check_integrity self then Abort
      else Ret (''app: '' @ app_uri self @ '', graph: '' @ graph_id self @
                '', group: '' @ extension_group_name self @ '', extension: '' @ extension_name self))"

section \<open>Locations as values\<close>

text \<open>One entry for every part that is not empty.\<close>

definition loc_field :: "string \<Rightarrow> string \<Rightarrow> (string \<times> ten_value) list run" where
  "loc_field key s =
     (if s = [] then Ret [] else map_run (\<lambda>kv. [kv]) (ten_value_kv_create key (ten_value_create_string s)))"

definition ten_loc_set_value :: "ten_loc \<Rightarrow> ten_value run" where
  "ten_loc_set_value self =
     (if \<not> ten_loc_check_integrity self then Abort
      else run_bind (loc_field TEN_STR_APP (app_uri self)) (\<lambda>app.
           run_bind (loc_field TEN_STR_GRAPH (graph_id self)) (\<lambda>graph.
           run_bind (loc_field TEN_STR_EXTENSION_GROUP (extension_group_name self)) (\<lambda>group.
           run_bind (loc_field TEN_STR_EXTENSION (extension_name self)) (\<lambda>ext.
             Ret (ten_value_init_object_with_move (Some (app @ graph @ group @ ext))))))))"

definition ten_loc_to_value :: "ten_loc \<Rightarrow> ten_value run" where
  "ten_loc_to_value self =
     (if \<not> ten_loc_check_integrity self then Abort else ten_loc_set_value self)"

text \<open>A part is overwritten by a value that is a string and not empty.\<close>

definition loc_string :: "ten_value option \<Rightarrow> string \<Rightarrow> string run" where
  "loc_string v old =
     (case v of
        None \<Rightarrow> Ret old
      | Some v \<Rightarrow>
          if \<not> ten_value_is_string v then Abort
          else (case ten_value_peek_raw_str v of
              None \<Rightarrow> Ret old
            | Some s \<Rightarrow> Ret (if length s > 0 then s else old)))"

definition ten_loc_set_from_value :: "ten_loc \<Rightarrow> ten_value \<Rightarrow> ten_loc run" where
  "ten_loc_set_from_value self v =
     run_bind (ten_value_object_peek v TEN_STR_APP) (\<lambda>app_value.
     run_bind (ten_value_object_peek v TEN_STR_GRAPH) (\<lambda>graph_value.
     run_bind (ten_value_object_peek v TEN_STR_EXTENSION_GROUP) (\<lambda>extension_group_value.
     run_bind (ten_value_object_peek v TEN_STR_EXTENSION) (\<lambda>extension_value.
     run_bind (loc_string app_value (app_uri self)) (\<lambda>uri.
     run_bind (loc_string graph_value (graph_id self)) (\<lambda>graph.
     run_bind (loc_string extension_group_value (extension_group_name self)) (\<lambda>group.
     run_bind (loc_string extension_value (extension_name self)) (\<lambda>ext.
       Ret (self\<lparr>app_uri := uri, graph_id := graph, extension_group_name := group,
                 extension_name := ext\<rparr>)))))))))"

definition ten_loc_init_from_value :: "ten_value \<Rightarrow> ten_loc run" where
  "ten_loc_init_from_value v = ten_loc_set_from_value ten_loc_init_empty v"

definition ten_loc_create_from_value :: "ten_value \<Rightarrow> ten_loc run" where
  "ten_loc_create_from_value v =
     run_bind (ten_loc_set_from_value ten_loc_init_empty v) (\<lambda>self.
       if ten_loc_check_integrity self then Ret self else Abort)"

section \<open>Lemmas\<close>

lemma ten_loc_set_eq [spec_simps]:
  fixes self :: ten_loc
  shows "ten_loc_set self (Some u) (Some g) (Some p) (Some e) =
    (if e \<noteq> [] \<and> p = [] then Abort
     else Ret \<lparr>app_uri = u, graph_id = g, extension_group_name = p, extension_name = e\<rparr>)"
  by (simp add: ten_loc_set_def Let_def c_str_or_empty_def ten_loc_check_integrity_def)

text \<open>Copies of a location of integrity are the location itself.\<close>

lemma ten_loc_copies [simp, spec_simps]:
  fixes self src :: ten_loc
  assumes "ten_loc_check_integrity src"
  shows "ten_loc_clone src = Ret src"
    and "ten_loc_init_from_loc src = Ret src"
    and "ten_loc_set_from_loc self src = (if ten_loc_check_integrity self then Ret src else Abort)"
    and "ten_loc_set self (Some (app_uri src)) (Some (graph_id src)) (Some (extension_group_name src))
           (Some (extension_name src)) = Ret src"
  using assms
  by (cases src; auto simp: ten_loc_clone_def ten_loc_create_def ten_loc_set_eq ten_loc_init_from_loc_def
      ten_loc_init_def ten_loc_set_from_loc_def c_str_or_empty_def ten_loc_check_integrity_def Let_def)+

lemma ten_loc_init_empty_integrity [simp]: "ten_loc_check_integrity ten_loc_init_empty"
  by (simp add: ten_loc_check_integrity_def ten_loc_init_empty_def)

lemma loc_field_eq [spec_simps]:
  "plain_key k \<Longrightarrow> loc_field k s = Ret (if s = [] then [] else [(k, VString s)])"
  by (simp add: loc_field_def ten_value_kv_create_def ten_value_kv_create_empty_def
      ten_value_create_string_def ten_value_init_string_with_size_def)

lemma loc_keys_plain [simp]:
  "plain_key TEN_STR_APP" "plain_key TEN_STR_GRAPH" "plain_key TEN_STR_EXTENSION_GROUP"
  "plain_key TEN_STR_EXTENSION"
  by (simp_all add: plain_key_def)

text \<open>The entries of the value of a location.\<close>

definition loc_entries :: "ten_loc \<Rightarrow> (string \<times> ten_value) list" where
  "loc_entries l = concat (map (\<lambda>(k, s). if s = [] then [] else [(k, VString s)])
     [(TEN_STR_APP, app_uri l), (TEN_STR_GRAPH, graph_id l),
      (TEN_STR_EXTENSION_GROUP, extension_group_name l), (TEN_STR_EXTENSION, extension_name l)])"

lemma loc_to_value_eq [spec_simps]:
  "ten_loc_check_integrity l \<Longrightarrow> ten_loc_to_value l = Ret (VObject (loc_entries l))"
  by (simp add: ten_loc_to_value_def ten_loc_set_value_def loc_field_eq ten_value_init_object_with_move_def
      loc_entries_def)

lemma find_entry_optional:
  "find_entry k (if s = [] then [] else [(k', VString s)]) =
     (if k' = k \<and> s \<noteq> [] then Some (VString s) else None)"
  by simp

lemma loc_entries_find:
  "find_entry TEN_STR_APP (loc_entries l) = (if app_uri l = [] then None else Some (VString (app_uri l)))"
  "find_entry TEN_STR_GRAPH (loc_entries l) = (if graph_id l = [] then None else Some (VString (graph_id l)))"
  "find_entry TEN_STR_EXTENSION_GROUP (loc_entries l) =
     (if extension_group_name l = [] then None else Some (VString (extension_group_name l)))"
  "find_entry TEN_STR_EXTENSION (loc_entries l) =
     (if extension_name l = [] then None else Some (VString (extension_name l)))"
  by (simp_all add: loc_entries_def find_entry_append find_entry_optional split: option.split)

lemma loc_entries_distinct: "entries_distinct (loc_entries l)"
  by (simp add: loc_entries_def entries_distinct_def)

lemma loc_entries_walkable [simp]: "walkable (loc_entries l)"
  by (simp add: loc_entries_def walkable_numeral)

lemma loc_string_simps [simp]:
  "loc_string None old = Ret old"
  "loc_string (Some (VString s)) old = Ret (if s = [] then old else s)"
  by (simp_all add: loc_string_def ten_value_peek_raw_str_def)

lemma loc_set_from_entries [spec_simps]:
  "ten_loc_set_from_value ten_loc_init_empty (VObject (loc_entries l)) = Ret l"
  using loc_entries_walkable [of l]
  by (cases l) (simp add: ten_loc_set_from_value_def ten_value_object_peek_def loc_entries_find
      ten_loc_init_empty_def)

text \<open>A location that passes its integrity check survives the way through a value, as the source
  and destination fields of a message take it; every value made from a location is an object whose
  keys are distinct.\<close>

theorem loc_value_roundtrip:
  assumes "ten_loc_check_integrity l"
  shows "\<exists>v. ten_loc_to_value l = Ret v \<and> keys_distinct v \<and>
             ten_loc_init_from_value v = Ret l \<and> ten_loc_create_from_value v = Ret l"
  using assms
  by (simp add: loc_to_value_eq loc_entries_distinct ten_loc_init_from_value_def
      ten_loc_create_from_value_def loc_set_from_entries)

theorem loc_value_roundtrip_witness:
  "\<exists>v. ten_loc_to_value \<lparr>app_uri = ''localhost'', graph_id = [], extension_group_name = ''g'',
          extension_name = ''e''\<rparr> = Ret v \<and> keys_distinct v \<and>
       ten_loc_init_from_value v =
         Ret \<lparr>app_uri = ''localhost'', graph_id = [], extension_group_name = ''g'', extension_name = ''e''\<rparr> \<and>
       ten_loc_create_from_value v =
         Ret \<lparr>app_uri = ''localhost'', graph_id = [], extension_group_name = ''g'', extension_name = ''e''\<rparr>"
  by (rule loc_value_roundtrip) (simp add: ten_loc_check_integrity_def)

end
