(* ===== verification/Msg.thy ===== *)
theory Msg
  imports Loc
begin

text \<open>
  Messages (\<open>core/src/ten_runtime/msg/\<close>): the header \<open>ten_msg_t\<close> of \<open>msg.c\<close>, the commands of
  \<open>cmd_base/cmd_base.c\<close> and \<open>cmd_base/cmd/\<close>, and the command results of \<open>cmd_base/cmd_result/\<close>.  A
  struct that embeds another one as its first member is a record that extends it, so the operations
  of \<open>msg.c\<close> work on every message.  The fields that hold a \<open>ten_value_t\<close> of one fixed type (the name,
  the ids, the flags and codes of a result) are their contents.  A new id, the result of
  \<open>ten_uuid4_gen_string\<close>, is an argument of the operations that draw one.
\<close>

abbreviation "TEN_STR_UNDERLINE_TEN \<equiv> ''_ten''"
abbreviation "TEN_STR_NAME \<equiv> ''name''"
abbreviation "TEN_STR_LOCALHOST \<equiv> ''localhost''"
abbreviation "TEN_STR_PROPERTY \<equiv> ''property''"
abbreviation "TEN_STR_CMD \<equiv> ''cmd''"
abbreviation "TEN_STR_DATA \<equiv> ''data''"
abbreviation "TEN_STR_VIDEO_FRAME \<equiv> ''video_frame''"
abbreviation "TEN_STR_AUDIO_FRAME \<equiv> ''audio_frame''"
abbreviation "TEN_STR_INTERFACE \<equiv> ''interface''"
abbreviation "TEN_STR_RESULT \<equiv> ''result''"

section \<open>Types of messages\<close>

datatype TEN_MSG_TYPE =
    TEN_MSG_TYPE_INVALID
  | TEN_MSG_TYPE_CMD
  | TEN_MSG_TYPE_CMD_RESULT
  | TEN_MSG_TYPE_CMD_CLOSE_APP
  | TEN_MSG_TYPE_CMD_START_GRAPH
  | TEN_MSG_TYPE_CMD_STOP_GRAPH
  | TEN_MSG_TYPE_CMD_TIMER
  | TEN_MSG_TYPE_CMD_TIMEOUT
  | TEN_MSG_TYPE_DATA
  | TEN_MSG_TYPE_VIDEO_FRAME
  | TEN_MSG_TYPE_AUDIO_FRAME
  | TEN_MSG_TYPE_LAST

text \<open>The enumeration in its order, which is the order of the table \<open>ten_msg_info\<close>.\<close>

definition msg_types :: "TEN_MSG_TYPE list" where
  "msg_types = [TEN_MSG_TYPE_INVALID, TEN_MSG_TYPE_CMD, TEN_MSG_TYPE_CMD_RESULT,
     TEN_MSG_TYPE_CMD_CLOSE_APP, TEN_MSG_TYPE_CMD_START_GRAPH, TEN_MSG_TYPE_CMD_STOP_GRAPH,
     TEN_MSG_TYPE_CMD_TIMER, TEN_MSG_TYPE_CMD_TIMEOUT, TEN_MSG_TYPE_DATA, TEN_MSG_TYPE_VIDEO_FRAME,
     TEN_MSG_TYPE_AUDIO_FRAME, TEN_MSG_TYPE_LAST]"

record ten_msg_info_t =
  msg_type_name :: "string option"
  msg_unique_name :: "string option"
  create_in_path :: bool
  has_clone :: bool

fun ten_msg_info :: "TEN_MSG_TYPE \<Rightarrow> ten_msg_info_t" where
  "ten_msg_info TEN_MSG_TYPE_CMD = \<lparr>msg_type_name = Some ''cmd'', msg_unique_name = None, create_in_path = True, has_clone = True\<rparr>"
| "ten_msg_info TEN_MSG_TYPE_CMD_STOP_GRAPH = \<lparr>msg_type_name = Some ''stop_graph'', msg_unique_name = Some ''aptima:stop_graph'', create_in_path = False, has_clone = False\<rparr>"
| "ten_msg_info TEN_MSG_TYPE_CMD_START_GRAPH = \<lparr>msg_type_name = Some ''start_graph'', msg_unique_name = Some ''aptima:start_graph'', create_in_path = True, has_clone = True\<rparr>"
| "ten_msg_info TEN_MSG_TYPE_CMD_RESULT = \<lparr>msg_type_name = Some ''result'', msg_unique_name = Some ''aptima:result'', create_in_path = False, has_clone = True\<rparr>"
| "ten_msg_info TEN_MSG_TYPE_CMD_CLOSE_APP = \<lparr>msg_type_name = Some ''close_app'', msg_unique_name = Some ''aptima:close_app'', create_in_path = False, has_clone = False\<rparr>"
| "ten_msg_info TEN_MSG_TYPE_CMD_TIMEOUT = \<lparr>msg_type_name = Some ''timeout'', msg_unique_name = Some ''aptima:timeout'', create_in_path = False, has_clone = False\<rparr>"
| "ten_msg_info TEN_MSG_TYPE_CMD_TIMER = \<lparr>msg_type_name = Some ''timer'', msg_unique_name = Some ''aptima:timer'', create_in_path = True, has_clone = False\<rparr>"
| "ten_msg_info TEN_MSG_TYPE_DATA = \<lparr>msg_type_name = Some ''data'', msg_unique_name = None, create_in_path = False, has_clone = True\<rparr>"
| "ten_msg_info TEN_MSG_TYPE_AUDIO_FRAME = \<lparr>msg_type_name = Some ''audio_frame'', msg_unique_name = None, create_in_path = False, has_clone = True\<rparr>"
| "ten_msg_info TEN_MSG_TYPE_VIDEO_FRAME = \<lparr>msg_type_name = Some ''video_frame'', msg_unique_name = None, create_in_path = False, has_clone = True\<rparr>"
| "ten_msg_info _ = \<lparr>msg_type_name = None, msg_unique_name = None, create_in_path = False, has_clone = False\<rparr>"

text \<open>The loops over the table stop at the first entry whose name is set and equal.\<close>

definition find_msg_type :: "(ten_msg_info_t \<Rightarrow> string option) \<Rightarrow> string \<Rightarrow> TEN_MSG_TYPE option" where
  "find_msg_type sel s = List.find (\<lambda>t. sel (ten_msg_info t) = Some s) msg_types"

definition or_else :: "'a option \<Rightarrow> 'a \<Rightarrow> 'a" where
  "or_else x d = (case x of None \<Rightarrow> d | Some y \<Rightarrow> y)"

text \<open>The check \<open>INVALID < type && type < LAST\<close>.\<close>

definition real_msg_type :: "TEN_MSG_TYPE \<Rightarrow> TEN_MSG_TYPE" where
  "real_msg_type t = (if t = TEN_MSG_TYPE_LAST then TEN_MSG_TYPE_INVALID else t)"

definition ten_msg_type_from_type_and_name_string :: "string option \<Rightarrow> string option \<Rightarrow> TEN_MSG_TYPE run" where
  "ten_msg_type_from_type_and_name_string type_str name_str =
     (let msg_type = (case type_str of
          None \<Rightarrow> TEN_MSG_TYPE_CMD
        | Some s \<Rightarrow> or_else (find_msg_type msg_type_name s) TEN_MSG_TYPE_INVALID)
      in map_run real_msg_type
           (if msg_type = TEN_MSG_TYPE_CMD
            then (case name_str of
                None \<Rightarrow> Abort
              | Some name \<Rightarrow> Ret (or_else (find_msg_type msg_unique_name name) msg_type))
            else Ret msg_type))"

definition ten_msg_type_from_unique_name_string :: "string \<Rightarrow> TEN_MSG_TYPE" where
  "ten_msg_type_from_unique_name_string name = or_else (find_msg_type msg_unique_name name) TEN_MSG_TYPE_INVALID"

definition ten_msg_type_from_type_string :: "string \<Rightarrow> TEN_MSG_TYPE" where
  "ten_msg_type_from_type_string s =
     real_msg_type (or_else (find_msg_type msg_type_name s) TEN_MSG_TYPE_INVALID)"

definition ten_msg_type_to_string :: "TEN_MSG_TYPE \<Rightarrow> string option" where
  "ten_msg_type_to_string t = msg_type_name (ten_msg_info t)"

text \<open>The type that a name chosen by the user stands for; \<open>ten_raw_cmd_create\<close> asserts that it is one
  of the five kinds of commands it can create.\<close>

definition ten_cmd_type_from_name_string :: "string \<Rightarrow> TEN_MSG_TYPE" where
  "ten_cmd_type_from_name_string name =
     (let t = or_else (find_msg_type msg_unique_name name) TEN_MSG_TYPE_CMD
      in if t \<in> {TEN_MSG_TYPE_INVALID, TEN_MSG_TYPE_DATA, TEN_MSG_TYPE_VIDEO_FRAME,
                  TEN_MSG_TYPE_AUDIO_FRAME, TEN_MSG_TYPE_CMD_RESULT}
         then TEN_MSG_TYPE_INVALID else t)"

section \<open>The header of a message\<close>

record ten_msg =
  msg_type :: TEN_MSG_TYPE
  msg_name :: string
  src_loc :: ten_loc
  dest_loc :: "ten_loc list"
  properties :: ten_value
  locked_res :: "64 word list"

definition ten_raw_msg_init :: "TEN_MSG_TYPE \<Rightarrow> ten_msg" where
  "ten_raw_msg_init type =
     \<lparr>msg_type = type, msg_name = [], src_loc = ten_loc_init_empty, dest_loc = [],
      properties = ten_value_init_object_with_move None, locked_res = []\<rparr>"

definition ten_raw_msg_is_cmd_and_result :: "'a ten_msg_scheme \<Rightarrow> bool run" where
  "ten_raw_msg_is_cmd_and_result self = (case msg_type self of
      TEN_MSG_TYPE_CMD_CLOSE_APP \<Rightarrow> Ret True | TEN_MSG_TYPE_CMD_STOP_GRAPH \<Rightarrow> Ret True
    | TEN_MSG_TYPE_CMD_START_GRAPH \<Rightarrow> Ret True | TEN_MSG_TYPE_CMD_TIMER \<Rightarrow> Ret True
    | TEN_MSG_TYPE_CMD_TIMEOUT \<Rightarrow> Ret True | TEN_MSG_TYPE_CMD \<Rightarrow> Ret True
    | TEN_MSG_TYPE_CMD_RESULT \<Rightarrow> Ret True
    | TEN_MSG_TYPE_DATA \<Rightarrow> Ret False | TEN_MSG_TYPE_VIDEO_FRAME \<Rightarrow> Ret False
    | TEN_MSG_TYPE_AUDIO_FRAME \<Rightarrow> Ret False
    | _ \<Rightarrow> Abort)"

definition ten_raw_msg_is_cmd :: "'a ten_msg_scheme \<Rightarrow> bool run" where
  "ten_raw_msg_is_cmd self =
     (if msg_type self = TEN_MSG_TYPE_CMD_RESULT then Ret False else ten_raw_msg_is_cmd_and_result self)"

definition ten_raw_msg_is_cmd_result :: "'a ten_msg_scheme \<Rightarrow> bool run" where
  "ten_raw_msg_is_cmd_result self =
     map_run (\<lambda>_. msg_type self = TEN_MSG_TYPE_CMD_RESULT) (ten_raw_msg_is_cmd_and_result self)"

subsection \<open>Source and destinations\<close>

definition ten_raw_msg_set_src_to_loc :: "'a ten_msg_scheme \<Rightarrow> ten_loc \<Rightarrow> 'a ten_msg_scheme run" where
  "ten_raw_msg_set_src_to_loc self loc =
     map_run (\<lambda>l. self\<lparr>src_loc := l\<rparr>) (ten_loc_set_from_loc (src_loc self) loc)"

definition ten_raw_msg_set_src ::
    "'a ten_msg_scheme \<Rightarrow> string option \<Rightarrow> string option \<Rightarrow> string option \<Rightarrow> string option \<Rightarrow>
       'a ten_msg_scheme run" where
  "ten_raw_msg_set_src self uri graph grp ext =
     map_run (\<lambda>l. self\<lparr>src_loc := l\<rparr>) (ten_loc_set (src_loc self) uri graph grp ext)"

definition ten_raw_msg_clear_and_set_dest ::
    "'a ten_msg_scheme \<Rightarrow> string option \<Rightarrow> string option \<Rightarrow> string option \<Rightarrow> string option \<Rightarrow>
       'a ten_msg_scheme run" where
  "ten_raw_msg_clear_and_set_dest self uri graph grp ext =
     (if uri = None \<and> ext = None then Abort
      else map_run (\<lambda>l. self\<lparr>dest_loc := [l]\<rparr>) (ten_loc_create uri graph grp ext))"

definition ten_raw_msg_add_dest ::
    "'a ten_msg_scheme \<Rightarrow> string option \<Rightarrow> string option \<Rightarrow> string option \<Rightarrow> string option \<Rightarrow>
       'a ten_msg_scheme run" where
  "ten_raw_msg_add_dest self uri graph grp ext =
     map_run (\<lambda>l. self\<lparr>dest_loc := dest_loc self @ [l]\<rparr>) (ten_loc_create uri graph grp ext)"

definition ten_raw_msg_clear_dest :: "'a ten_msg_scheme \<Rightarrow> 'a ten_msg_scheme" where
  "ten_raw_msg_clear_dest self = self\<lparr>dest_loc := []\<rparr>"

definition ten_raw_msg_clear_and_set_dest_to_loc :: "'a ten_msg_scheme \<Rightarrow> ten_loc \<Rightarrow> 'a ten_msg_scheme run" where
  "ten_raw_msg_clear_and_set_dest_to_loc self loc =
     ten_raw_msg_clear_and_set_dest self (Some (app_uri loc)) (Some (graph_id loc))
       (Some (extension_group_name loc)) (Some (extension_name loc))"

definition ten_raw_msg_clear_and_set_dest_from_msg_src ::
    "'a ten_msg_scheme \<Rightarrow> 'b ten_msg_scheme \<Rightarrow> 'a ten_msg_scheme run" where
  "ten_raw_msg_clear_and_set_dest_from_msg_src self cmd =
     ten_raw_msg_clear_and_set_dest self (Some (app_uri (src_loc cmd))) (Some (graph_id (src_loc cmd)))
       (Some (extension_group_name (src_loc cmd))) (Some (extension_name (src_loc cmd)))"

definition ten_raw_msg_get_dest_cnt :: "'a ten_msg_scheme \<Rightarrow> nat" where
  "ten_raw_msg_get_dest_cnt self = length (dest_loc self)"

definition ten_raw_msg_get_first_dest_loc :: "'a ten_msg_scheme \<Rightarrow> ten_loc run" where
  "ten_raw_msg_get_first_dest_loc self = (case dest_loc self of [] \<Rightarrow> Abort | l # _ \<Rightarrow> Ret l)"

definition ten_raw_msg_get_first_dest_uri :: "'a ten_msg_scheme \<Rightarrow> string run" where
  "ten_raw_msg_get_first_dest_uri self = (case dest_loc self of [l] \<Rightarrow> Ret (app_uri l) | _ \<Rightarrow> Abort)"

definition ten_raw_msg_src_is_empty :: "'a ten_msg_scheme \<Rightarrow> bool" where
  "ten_raw_msg_src_is_empty self = ten_loc_is_empty (src_loc self)"

definition ten_msg_src_uri_is_empty :: "'a ten_msg_scheme \<Rightarrow> bool" where
  "ten_msg_src_uri_is_empty self \<longleftrightarrow> length (app_uri (src_loc self)) = 0"

definition ten_msg_src_graph_id_is_empty :: "'a ten_msg_scheme \<Rightarrow> bool" where
  "ten_msg_src_graph_id_is_empty self \<longleftrightarrow> length (graph_id (src_loc self)) = 0"

definition ten_msg_set_src_uri :: "'a ten_msg_scheme \<Rightarrow> string \<Rightarrow> 'a ten_msg_scheme" where
  "ten_msg_set_src_uri self uri = self\<lparr>src_loc := (src_loc self)\<lparr>app_uri := uri\<rparr>\<rparr>"

definition ten_msg_set_src_uri_if_empty :: "'a ten_msg_scheme \<Rightarrow> string \<Rightarrow> 'a ten_msg_scheme" where
  "ten_msg_set_src_uri_if_empty self uri =
     (if ten_msg_src_uri_is_empty self then self\<lparr>src_loc := (src_loc self)\<lparr>app_uri := uri\<rparr>\<rparr> else self)"

subsection \<open>Destinations in the engine that sends\<close>

text \<open>What the routing reads of an engine and of its app: which engine it is, its graph id, the URI of
  the app and the predefined graphs, with the engine that runs each of them.\<close>

record ten_predefined_graph_info =
  pg_name :: string
  pg_singleton :: bool
  pg_engine :: "(nat \<times> string) option"   \<comment> \<open>the engine and its graph id\<close>

record ten_engine =
  engine_addr :: nat
  engine_graph_id :: string
  engine_app_uri :: string
  predefined_graph_infos :: "ten_predefined_graph_info list"

definition ten_predefined_graph_infos_get_by_name ::
    "ten_predefined_graph_info list \<Rightarrow> string \<Rightarrow> ten_predefined_graph_info option" where
  "ten_predefined_graph_infos_get_by_name infos name = List.find (\<lambda>i. pg_name i = name) infos"

definition ten_predefined_graph_infos_get_singleton_by_name ::
    "ten_predefined_graph_info list \<Rightarrow> string \<Rightarrow> ten_predefined_graph_info option" where
  "ten_predefined_graph_infos_get_singleton_by_name infos name =
     (case ten_predefined_graph_infos_get_by_name infos name of
        None \<Rightarrow> None
      | Some result \<Rightarrow> if pg_singleton result then Some result else None)"

definition ten_msg_set_src_engine_if_unspecified ::
    "'a ten_msg_scheme \<Rightarrow> ten_engine \<Rightarrow> 'a ten_msg_scheme" where
  "ten_msg_set_src_engine_if_unspecified self engine =
     (if ten_msg_src_graph_id_is_empty self
      then self\<lparr>src_loc := (src_loc self)\<lparr>graph_id := engine_graph_id engine\<rparr>\<rparr> else self)"

definition ten_msg_clear_dest_graph_id :: "'a ten_msg_scheme \<Rightarrow> 'a ten_msg_scheme run" where
  "ten_msg_clear_dest_graph_id self =
     map_run (\<lambda>ls. self\<lparr>dest_loc := ls\<rparr>)
       (run_map (\<lambda>l. if ten_loc_check_integrity l then Ret (l\<lparr>graph_id := []\<rparr>) else Abort) (dest_loc self))"

text \<open>The body of the loop over the destinations.\<close>

definition complete_graph_id ::
    "ten_engine \<Rightarrow> ten_predefined_graph_info list option \<Rightarrow> ten_loc \<Rightarrow> ten_loc run" where
  "complete_graph_id engine infos l =
     (if \<not> ten_loc_check_integrity l then Abort
      else if graph_id l = [] then Ret (l\<lparr>graph_id := engine_graph_id engine\<rparr>)
      else (case infos of
          None \<Rightarrow> Ret l
        | Some infos \<Rightarrow>
            (case ten_predefined_graph_infos_get_singleton_by_name infos (graph_id l) of
               None \<Rightarrow> Ret l
             | Some info \<Rightarrow>
                 (case pg_engine info of
                    None \<Rightarrow> Ret l
                  | Some (addr, gid) \<Rightarrow>
                      if addr = engine_addr engine then Ret (l\<lparr>graph_id := gid\<rparr>) else Abort))))"

definition ten_msg_set_dest_engine_if_unspecified_or_predefined_graph_name ::
    "'a ten_msg_scheme \<Rightarrow> ten_engine \<Rightarrow> ten_predefined_graph_info list option \<Rightarrow> 'a ten_msg_scheme run" where
  "ten_msg_set_dest_engine_if_unspecified_or_predefined_graph_name self engine infos =
     map_run (\<lambda>ls. self\<lparr>dest_loc := ls\<rparr>) (run_map (complete_graph_id engine infos) (dest_loc self))"

text \<open>One round of the loop of \<open>ten_msg_correct_dest\<close>, at the destination with the index \<open>i\<close>: a local
  destination gets the URI of the app and makes the function go over all destinations of the
  message.  The last part of the function is not modelled: in a command that starts a graph, it also puts
  the URI of the app in the place of \<open>localhost\<close> in the locations of the extensions of that graph.\<close>

definition correct_dest_step :: "ten_engine \<Rightarrow> nat \<Rightarrow> 'a ten_msg_scheme \<Rightarrow> 'a ten_msg_scheme run" where
  "correct_dest_step engine i msg =
     (let l = dest_loc msg ! i;
          msg' = (if app_uri l \<noteq> engine_app_uri engine \<and> app_uri l = TEN_STR_LOCALHOST
                  then msg\<lparr>dest_loc := (dest_loc msg)[i := l\<lparr>app_uri := engine_app_uri engine\<rparr>]\<rparr> else msg)
      in if app_uri l = engine_app_uri engine \<or> app_uri l = TEN_STR_LOCALHOST
         then (if msg_type msg = TEN_MSG_TYPE_CMD_START_GRAPH then ten_msg_clear_dest_graph_id msg'
               else ten_msg_set_dest_engine_if_unspecified_or_predefined_graph_name msg' engine
                      (Some (predefined_graph_infos engine)))
         else Ret msg)"

definition ten_msg_correct_dest :: "'a ten_msg_scheme \<Rightarrow> ten_engine \<Rightarrow> 'a ten_msg_scheme run" where
  "ten_msg_correct_dest msg engine = run_fold (correct_dest_step engine) [0..<length (dest_loc msg)] msg"

subsection \<open>Name\<close>

definition ten_raw_msg_set_name_with_len ::
    "'a ten_msg_scheme \<Rightarrow> string option \<Rightarrow> nat \<Rightarrow> ten_error + 'a ten_msg_scheme" where
  "ten_raw_msg_set_name_with_len self name len =
     (case name of
        None \<Rightarrow> Inl (generic_error ''Failed to set message name to an empty string.'')
      | Some name \<Rightarrow> Inr (self\<lparr>msg_name := take len name\<rparr>))"

text \<open>The argument of \<open>strlen\<close> is not checked.\<close>

definition ten_raw_msg_set_name :: "'a ten_msg_scheme \<Rightarrow> string option \<Rightarrow> 'a ten_msg_scheme fallible" where
  "ten_raw_msg_set_name self name =
     (case name of None \<Rightarrow> Undef | Some s \<Rightarrow> Ret (ten_raw_msg_set_name_with_len self name (length s)))"

subsection \<open>Locked resources\<close>

definition ten_msg_add_locked_res_buf :: "'a ten_msg_scheme \<Rightarrow> 64 word \<Rightarrow> ten_error + 'a ten_msg_scheme" where
  "ten_msg_add_locked_res_buf self data =
     (if data = 0
      then Inl (ten_error_set ten_error_init TEN_ERRNO_INVALID_ARGUMENT ''Try to lock a NULL buf.'')
      else Inr (self\<lparr>locked_res := locked_res self @ [data]\<rparr>))"

definition ten_raw_msg_remove_locked_res_buf :: "'a ten_msg_scheme \<Rightarrow> 64 word \<Rightarrow> bool \<times> 'a ten_msg_scheme" where
  "ten_raw_msg_remove_locked_res_buf self data =
     (if data = 0 then (False, self)
      else if data \<in> set (locked_res self)
           then (True, self\<lparr>locked_res := remove1 data (locked_res self)\<rparr>)
           else (False, self))"

definition ten_raw_msg_has_locked_res :: "'a ten_msg_scheme \<Rightarrow> bool" where
  "ten_raw_msg_has_locked_res self \<longleftrightarrow> locked_res self \<noteq> []"

subsection \<open>Properties\<close>

text \<open>The handler that \<open>ten_msg_info\<close> names for paths that start with \<open>_ten\<close>; the record has no
  fields of timers and frames, so their handlers are an argument.  The handler of custom commands
  and of data takes every key \<open>name\<close> of the rest of the path.\<close>

definition set_name_property :: "'a ten_msg_scheme \<Rightarrow> ten_value_path_item list \<Rightarrow> ten_value \<Rightarrow> bool \<times> 'a ten_msg_scheme" where
  "set_name_property self paths v =
     fold (\<lambda>item (success, self).
        if item = ObjectItem TEN_STR_NAME
        then (case ten_value_peek_raw_str v of
            Some s \<Rightarrow> (True, self\<lparr>msg_name := take (length s) s\<rparr>)
          | None \<Rightarrow> (False, self))
        else (success, self)) paths (True, self)"

definition ten_raw_cmd_custom_set_ten_property ::
    "'a ten_msg_scheme \<Rightarrow> ten_value_path_item list \<Rightarrow> ten_value \<Rightarrow> bool \<times> 'a ten_msg_scheme" where
  "ten_raw_cmd_custom_set_ten_property = set_name_property"

definition ten_raw_data_like_set_ten_property ::
    "'a ten_msg_scheme \<Rightarrow> ten_value_path_item list \<Rightarrow> ten_value \<Rightarrow> bool \<times> 'a ten_msg_scheme" where
  "ten_raw_data_like_set_ten_property = set_name_property"

type_synonym 'a ten_property_handler =
  "'a ten_msg_scheme \<Rightarrow> ten_value_path_item list \<Rightarrow> ten_value \<Rightarrow> bool \<times> 'a ten_msg_scheme"

definition set_ten_property :: "'a ten_property_handler \<Rightarrow> 'a ten_property_handler" where
  "set_ten_property other self paths v = (case msg_type self of
      TEN_MSG_TYPE_CMD \<Rightarrow> ten_raw_cmd_custom_set_ten_property self paths v
    | TEN_MSG_TYPE_DATA \<Rightarrow> ten_raw_data_like_set_ten_property self paths v
    | TEN_MSG_TYPE_AUDIO_FRAME \<Rightarrow> ten_raw_data_like_set_ten_property self paths v
    | TEN_MSG_TYPE_CMD_TIMER \<Rightarrow> other self paths v
    | TEN_MSG_TYPE_VIDEO_FRAME \<Rightarrow> other self paths v
    | _ \<Rightarrow> (True, self))"

text \<open>A path that does not parse is reported as success.\<close>

definition ten_raw_msg_set_property ::
    "'a ten_property_handler \<Rightarrow> 'a ten_msg_scheme \<Rightarrow> string \<Rightarrow> ten_value \<Rightarrow> (bool \<times> 'a ten_msg_scheme) run" where
  "ten_raw_msg_set_property other self path v =
     (if path = []
      then run_bind (ten_value_destroy (properties self)) (\<lambda>_. case ten_value_peek_object v of
          None \<Rightarrow> run_bind (ten_value_destroy v) (\<lambda>_.
            Ret (True, self\<lparr>properties := ten_value_init_object_with_move None\<rparr>))
        | Some kvs \<Rightarrow> Ret (True, self\<lparr>properties := ten_value_init_object_with_move (Some kvs)\<rparr>))
      else run_bind (ten_value_path_parse path) (\<lambda>(paths, _). case paths of
          None \<Rightarrow> Ret (True, self)
        | Some paths \<Rightarrow> ten_list_foreach_of paths
           (if paths \<noteq> [] \<and> hd paths = ObjectItem TEN_STR_UNDERLINE_TEN
            then run_bind (ten_value_destroy v) (\<lambda>_. Ret (set_ten_property other self (tl paths) v))
            else map_run (\<lambda>(success, props). (success, self\<lparr>properties := props\<rparr>))
                   (ten_value_set_from_path_list_with_move (properties self) paths v))))"

text \<open>Only frames have a handler for reading \<open>_ten\<close>; a path that does not parse gives NULL without an
  error.\<close>

definition ten_raw_msg_peek_property ::
    "('a ten_msg_scheme \<Rightarrow> ten_value_path_item list \<Rightarrow> ten_value option) \<Rightarrow> 'a ten_msg_scheme \<Rightarrow> string \<Rightarrow>
       (ten_value option \<times> ten_error option) run" where
  "ten_raw_msg_peek_property peek_frame self path =
     (if path = [] then Ret (Some (properties self), None)
      else run_bind (ten_value_path_parse path) (\<lambda>(paths, _). case paths of
          None \<Rightarrow> Ret (None, None)
        | Some paths \<Rightarrow> ten_list_foreach_of paths
           (if paths \<noteq> [] \<and> hd paths = ObjectItem TEN_STR_UNDERLINE_TEN
            then Ret (if msg_type self \<in> {TEN_MSG_TYPE_AUDIO_FRAME, TEN_MSG_TYPE_VIDEO_FRAME}
                      then peek_frame self (tl paths) else None, None)
            else map_run (\<lambda>r. case r of Inl err \<Rightarrow> (None, Some err) | Inr v \<Rightarrow> (Some v, None))
                   (ten_value_peek_from_path (properties self) path))))"

text \<open>The key is compared with the whole path.\<close>

fun del_entry :: "string \<Rightarrow> (string \<times> ten_value) list \<Rightarrow> ((string \<times> ten_value) list \<times> bool) run" where
  "del_entry k [] = Ret ([], False)"
| "del_entry k ((k', v) # kvs) =
     (if k' = k then run_bind (ten_value_destroy v) (\<lambda>_. Ret (kvs, True))
      else map_run (map_prod ((#) (k', v)) id) (del_entry k kvs))"

definition ten_msg_del_property :: "'a ten_msg_scheme \<Rightarrow> string \<Rightarrow> (bool \<times> 'a ten_msg_scheme) run" where
  "ten_msg_del_property self path =
     (if path = [] \<or> \<not> ten_value_is_object (properties self) then Abort
      else map_run (\<lambda>(kvs, found). (found, self\<lparr>properties := VObject kvs\<rparr>))
             (ten_list_foreach_of (content_object (properties self))
               (del_entry path (content_object (properties self)))))"

section \<open>Routing in the sending engine\<close>

definition is_local :: "ten_engine \<Rightarrow> ten_loc \<Rightarrow> bool" where
  "is_local e l \<longleftrightarrow> app_uri l = engine_app_uri e \<or> app_uri l = TEN_STR_LOCALHOST"

definition with_app :: "ten_engine \<Rightarrow> ten_loc \<Rightarrow> ten_loc" where
  "with_app e l = (if is_local e l then l\<lparr>app_uri := engine_app_uri e\<rparr> else l)"

definition with_graph :: "ten_engine \<Rightarrow> ten_loc \<Rightarrow> ten_loc" where
  "with_graph e l = (if graph_id l = [] then l\<lparr>graph_id := engine_graph_id e\<rparr> else l)"

text \<open>A graph id that does not name a running singleton graph of another engine, and that is the
  graph id of the engine when it names its own.\<close>

definition not_elsewhere :: "ten_engine \<Rightarrow> string \<Rightarrow> bool" where
  "not_elsewhere e g \<longleftrightarrow>
     (case ten_predefined_graph_infos_get_singleton_by_name (predefined_graph_infos e) g of
        None \<Rightarrow> True
      | Some info \<Rightarrow> pg_engine info \<in> {None, Some (engine_addr e, g)})"

definition reachable_dest :: "ten_engine \<Rightarrow> ten_loc \<Rightarrow> bool" where
  "reachable_dest e l \<longleftrightarrow> ten_loc_check_integrity l \<and> (graph_id l = [] \<or> not_elsewhere e (graph_id l))"

lemma complete_graph_id_eq [spec_simps]:
  "reachable_dest e l \<Longrightarrow> complete_graph_id e (Some (predefined_graph_infos e)) l = Ret (with_graph e l)"
  by (auto simp: reachable_dest_def complete_graph_id_def with_graph_def not_elsewhere_def split: option.splits)

lemma reachable_with [simp]:
  assumes "reachable_dest e l"
  shows "reachable_dest e (with_app e l)"
    and "not_elsewhere e (engine_graph_id e) \<Longrightarrow> reachable_dest e (with_graph e l)"
  using assms by (auto simp: reachable_dest_def with_app_def with_graph_def ten_loc_check_integrity_def)

lemma with_app_graph [simp]:
  "with_app e (with_graph e l) = with_graph e (with_app e l)"
  "with_graph e (with_graph e l) = with_graph e l" 
  "with_app e (with_app e l) = with_app e l"
  "is_local e (with_graph e l) = is_local e l"
  "is_local e (with_app e l) = is_local e l"
  by (auto simp: with_app_def with_graph_def is_local_def)

text \<open>The destinations after the first \<open>k\<close> rounds.\<close>

definition corrected :: "ten_engine \<Rightarrow> nat \<Rightarrow> ten_loc list \<Rightarrow> ten_loc list" where
  "corrected e k ls =
     map (if \<exists>l \<in> set (take k ls). is_local e l then with_graph e else id)
       (map (with_app e) (take k ls) @ drop k ls)"

lemma correct_dest_step_local:
  assumes "k < length ls" and "is_local e (ls ! k)" and "msg_type m \<noteq> TEN_MSG_TYPE_CMD_START_GRAPH"
  shows "correct_dest_step e k (m\<lparr>dest_loc := ls\<rparr>) =
    ten_msg_set_dest_engine_if_unspecified_or_predefined_graph_name
      (m\<lparr>dest_loc := ls[k := with_app e (ls ! k)]\<rparr>) e (Some (predefined_graph_infos e))"
proof (cases "app_uri (ls ! k) = engine_app_uri e")
  case True
  then have "(ls ! k)\<lparr>app_uri := engine_app_uri e\<rparr> = ls ! k" by (cases "ls ! k") simp
  then have "ls[k := with_app e (ls ! k)] = ls" by (simp add: with_app_def)
  with True assms show ?thesis by (simp add: correct_dest_step_def)
next
  case False
  with assms show ?thesis by (auto simp: correct_dest_step_def is_local_def with_app_def)
qed

lemma corrected_step:
  assumes "k < length ls" and "\<forall>l \<in> set ls. reachable_dest e l" and "not_elsewhere e (engine_graph_id e)"
    and "msg_type m \<noteq> TEN_MSG_TYPE_CMD_START_GRAPH"
  shows "correct_dest_step e k (m\<lparr>dest_loc := corrected e k ls\<rparr>) = Ret (m\<lparr>dest_loc := corrected e (Suc k) ls\<rparr>)"
proof -
  let ?f = "if \<exists>l \<in> set (take k ls). is_local e l then with_graph e else id"
  have k: "corrected e k ls ! k = ?f (ls ! k)" and len: "length (corrected e k ls) = length ls"
    using assms(1) by (simp_all add: corrected_def nth_append)
  have loc: "is_local e (?f (ls ! k)) \<longleftrightarrow> is_local e (ls ! k)" by simp
  have app: "?f (with_app e (ls ! k)) = with_app e (?f (ls ! k))" by simp
  have upd: "(corrected e k ls)[k := with_app e (?f (ls ! k))] =
     map ?f (map (with_app e) (take (Suc k) ls) @ drop (Suc k) ls)"
    using assms(1) unfolding app [symmetric]
    by (simp add: corrected_def list_update_append take_Suc_conv_app_nth Cons_nth_drop_Suc [symmetric])
  have any: "(\<exists>l \<in> set (take (Suc k) ls). is_local e l) \<longleftrightarrow>
      (\<exists>l \<in> set (take k ls). is_local e l) \<or> is_local e (ls ! k)"
    using assms(1) by (auto simp: take_Suc_conv_app_nth)
  show ?thesis
  proof (cases "is_local e (ls ! k)")
    case False
    then have "with_app e (?f (ls ! k)) = ?f (ls ! k)" by (simp add: with_app_def)
    with upd k have "corrected e k ls = map ?f (map (with_app e) (take (Suc k) ls) @ drop (Suc k) ls)"
      by (metis list_update_id)
    moreover have "correct_dest_step e k (m\<lparr>dest_loc := corrected e k ls\<rparr>) = Ret (m\<lparr>dest_loc := corrected e k ls\<rparr>)"
      using False loc by (simp add: correct_dest_step_def k is_local_def)
    ultimately show ?thesis using False any by (simp add: corrected_def)
  next
    case True
    let ?ls = "map ?f (map (with_app e) (take (Suc k) ls) @ drop (Suc k) ls)"
    have "\<forall>l \<in> set ?ls. reachable_dest e l"
      using assms(2,3) by (auto dest!: in_set_takeD in_set_dropD)
    then have "run_map (complete_graph_id e (Some (predefined_graph_infos e))) ?ls = Ret (map (with_graph e) ?ls)"
      by (intro run_map_all_Ret complete_graph_id_eq) auto
    moreover have "map (with_graph e) ?ls = corrected e (Suc k) ls"
      using True any by (simp add: corrected_def)
    moreover have "correct_dest_step e k (m\<lparr>dest_loc := corrected e k ls\<rparr>) =
       ten_msg_set_dest_engine_if_unspecified_or_predefined_graph_name (m\<lparr>dest_loc := ?ls\<rparr>) e
         (Some (predefined_graph_infos e))"
      using correct_dest_step_local [of k "corrected e k ls" e m] True loc assms(1,4) upd
      by (simp only: k len simp_thms)
    ultimately show ?thesis
      by (simp add: ten_msg_set_dest_engine_if_unspecified_or_predefined_graph_name_def)
  qed
qed

text \<open>C17: When one destination of a message is local - it names the URI of the app or \<open>localhost\<close> -
  every local destination gets the URI of the app, and every destination of the message, the remote
  ones as well, that has no graph id gets the id of the sending graph.  Without a local destination
  nothing changes.  The destinations must not name a singleton graph that another engine runs.\<close>

theorem correct_dest_correct:
  assumes "\<forall>l \<in> set (dest_loc msg). reachable_dest e l" and "not_elsewhere e (engine_graph_id e)"
    and "msg_type msg \<noteq> TEN_MSG_TYPE_CMD_START_GRAPH"
  shows "ten_msg_correct_dest msg e = Ret (msg\<lparr>dest_loc :=
     map (if \<exists>l \<in> set (dest_loc msg). is_local e l then with_graph e \<circ> with_app e else id) (dest_loc msg)\<rparr>)"
proof -
  have "k \<le> length (dest_loc msg) \<Longrightarrow>
     run_fold (correct_dest_step e) [0..<k] msg = Ret (msg\<lparr>dest_loc := corrected e k (dest_loc msg)\<rparr>)" for k
  proof (induction k)
    case 0
    then show ?case by (simp add: corrected_def)
  next
    case (Suc k)
    with corrected_step [of k "dest_loc msg" e msg] assms show ?case
      by (simp add: run_fold_append)
  qed
  then have "ten_msg_correct_dest msg e = Ret (msg\<lparr>dest_loc := corrected e (length (dest_loc msg)) (dest_loc msg)\<rparr>)"
    by (simp add: ten_msg_correct_dest_def)
  moreover have "map (with_app e) (dest_loc msg) = dest_loc msg"
    if "\<not> (\<exists>l \<in> set (dest_loc msg). is_local e l)"
    using that by (simp add: with_app_def map_idI)
  ultimately show ?thesis by (auto simp: corrected_def)
qed

theorem correct_dest_correct_witness:
  "ten_msg_correct_dest
     ((ten_raw_msg_init TEN_MSG_TYPE_CMD)\<lparr>dest_loc :=
        [\<lparr>app_uri = ''remote'', graph_id = [], extension_group_name = ''g'', extension_name = ''e''\<rparr>,
         \<lparr>app_uri = ''localhost'', graph_id = [], extension_group_name = ''g'', extension_name = ''e''\<rparr>]\<rparr>)
     \<lparr>engine_addr = 0, engine_graph_id = ''G'', engine_app_uri = ''here'', predefined_graph_infos = []\<rparr> =
   Ret ((ten_raw_msg_init TEN_MSG_TYPE_CMD)\<lparr>dest_loc :=
        [\<lparr>app_uri = ''remote'', graph_id = ''G'', extension_group_name = ''g'', extension_name = ''e''\<rparr>,
         \<lparr>app_uri = ''here'', graph_id = ''G'', extension_group_name = ''g'', extension_name = ''e''\<rparr>]\<rparr>)"
proof -
  let ?e = "\<lparr>engine_addr = 0, engine_graph_id = ''G'', engine_app_uri = ''here'', predefined_graph_infos = []\<rparr>"
  let ?m = "(ten_raw_msg_init TEN_MSG_TYPE_CMD)\<lparr>dest_loc :=
        [\<lparr>app_uri = ''remote'', graph_id = [], extension_group_name = ''g'', extension_name = ''e''\<rparr>,
         \<lparr>app_uri = ''localhost'', graph_id = [], extension_group_name = ''g'', extension_name = ''e''\<rparr>]\<rparr>"
  have "\<forall>l \<in> set (dest_loc ?m). reachable_dest ?e l" "not_elsewhere ?e (engine_graph_id ?e)"
    by (simp_all add: reachable_dest_def not_elsewhere_def ten_loc_check_integrity_def
        ten_predefined_graph_infos_get_singleton_by_name_def ten_predefined_graph_infos_get_by_name_def)
  from correct_dest_correct [OF this] show ?thesis
    by (simp add: ten_raw_msg_init_def is_local_def with_app_def with_graph_def)
qed

section \<open>Access to properties\<close>

text \<open>C19: A property that is set at a rendered path (of at most 100000 items) outside the \<open>_ten\<close> name
  space is read back there, and nothing but the properties of the message changes, as long as no list
  on the way has or gets more than 100000 entries and no value that is replaced holds such a list;
  otherwise the process aborts, when the property is set or when it is read.  The path \<open>_ten.name\<close> sets
  the name of a custom command or of data.\<close>

theorem msg_property_roundtrip:
  assumes "properties m = VObject kvs" and "segs \<noteq> []" and "walkable (path_items segs)"
    and "\<forall>seg \<in> set segs. segment_ok seg \<and> plain_key (fst seg)" and "fst (hd segs) \<noteq> TEN_STR_UNDERLINE_TEN"
  shows "(has_room (path_items segs) (VObject kvs) \<longrightarrow>
          (\<exists>props. ten_raw_msg_set_property other m (render_path segs) v = Ret (True, m\<lparr>properties := props\<rparr>) \<and>
            ten_raw_msg_peek_property peek_frame (m\<lparr>properties := props\<rparr>) (render_path segs) = Ret (Some v, None))) \<and>
         (\<not> has_room (path_items segs) (VObject kvs) \<longrightarrow>
            run_bind (ten_raw_msg_set_property other m (render_path segs) v)
              (\<lambda>(_, m'). ten_raw_msg_peek_property peek_frame m' (render_path segs)) = Abort) \<and>
         (msg_type m \<in> {TEN_MSG_TYPE_CMD, TEN_MSG_TYPE_DATA} \<longrightarrow>
            ten_raw_msg_set_property other m ''_ten.name'' (VString name) = Ret (True, m\<lparr>msg_name := name\<rparr>))"
proof -
  obtain r where parse: "ten_value_path_parse (render_path segs) = Ret (Some (path_items segs), None)"
    and set: "ten_value_set_from_path_list_with_move (VObject kvs) (path_items segs) v = r"
    and peek: "case r of Ret (res, b) \<Rightarrow> res \<and> ten_value_peek_from_path b (render_path segs) =
         (if has_room (path_items segs) (VObject kvs) then Ret (Inr v) else Abort)
      | Abort \<Rightarrow> \<not> has_room (path_items segs) (VObject kvs) | Undef \<Rightarrow> False"
    using set_then_at_path [OF assms(2-4), of kvs v] by blast
  have ne: "render_path segs \<noteq> []"
    using parse by (auto simp: ten_value_path_parse_def)
  have hd: "hd (path_items segs) = ObjectItem (fst (hd segs))"
    using assms(2) by (cases segs) (auto simp: path_items_def segment_items_def)
  have s: "ten_raw_msg_set_property other m (render_path segs) v =
      map_run (\<lambda>(success, props). (success, m\<lparr>properties := props\<rparr>)) r"
    using parse ne hd set assms(1,3,5) by (simp add: ten_raw_msg_set_property_def)
  have p: "ten_raw_msg_peek_property peek_frame (m\<lparr>properties := b\<rparr>) (render_path segs) =
      map_run (\<lambda>r. case r of Inl err \<Rightarrow> (None, Some err) | Inr v \<Rightarrow> (Some v, None))
        (ten_value_peek_from_path b (render_path segs))" for b
    using parse ne hd assms(1,3,5) by (simp add: ten_raw_msg_peek_property_def)
  have "ten_value_path_parse ''_ten.name'' = Ret (Some [ObjectItem ''_ten'', ObjectItem ''name''], None)"
    using parse_render_path [of "[(''_ten'', []), (''name'', [])]"]
    by (simp add: path_items_def segment_items_def segment_ok_def render_segment_def walkable_numeral)
  then have "ten_raw_msg_set_property other m ''_ten.name'' (VString name) = Ret (True, m\<lparr>msg_name := name\<rparr>)"
    if "msg_type m \<in> {TEN_MSG_TYPE_CMD, TEN_MSG_TYPE_DATA}"
    using that by (auto simp: ten_raw_msg_set_property_def set_ten_property_def ten_raw_cmd_custom_set_ten_property_def
        ten_raw_data_like_set_ten_property_def set_name_property_def ten_value_peek_raw_str_def walkable_numeral)
  then show ?thesis
    using peek by (cases r) (auto simp: s p)
qed

theorem msg_property_roundtrip_witness:
  "\<exists>props. ten_raw_msg_set_property (\<lambda>m _ _. (True, m)) (ten_raw_msg_init TEN_MSG_TYPE_CMD)
       (render_path [(''a'', []), (''b'', [1])]) VNull =
       Ret (True, (ten_raw_msg_init TEN_MSG_TYPE_CMD)\<lparr>properties := props\<rparr>) \<and>
     ten_raw_msg_peek_property (\<lambda>_ _. None) ((ten_raw_msg_init TEN_MSG_TYPE_CMD)\<lparr>properties := props\<rparr>)
       (render_path [(''a'', []), (''b'', [1])]) = Ret (Some VNull, None)"
proof -
  let ?segs = "[(''a'', []), (''b'', [1])]"
  have r: "has_room (path_items ?segs) (VObject [])"
    by (simp add: path_items_def segment_items_def walkable_numeral entries_of_def elements_of_def)
  have p: "properties (ten_raw_msg_init TEN_MSG_TYPE_CMD) = VObject []"
    by (simp add: ten_raw_msg_init_def ten_value_init_object_with_move_def)
  have l: "?segs \<noteq> []" "walkable (path_items ?segs)" "fst (hd ?segs) \<noteq> TEN_STR_UNDERLINE_TEN"
    by (simp_all add: path_items_def segment_items_def walkable_numeral)
  have k: "\<forall>seg \<in> set ?segs. segment_ok seg \<and> plain_key (fst seg)"
    by (simp add: segment_ok_def plain_key_def segment_items_def walkable_numeral)
  from msg_property_roundtrip [OF p l(1,2) k l(3)] r show ?thesis by blast
qed

end
