(* ===== verification/Buf.thy ===== *)
theory Buf
  imports Ten_Value
begin

text \<open>
  Byte buffers (\<open>core/src/ten_utils/lib/sys/general/buf.c\<close>).  The record of a buffer has the bytes of
  the allocated memory; the first \<open>content_size\<close> of them are its content.  Sizes are 64 bits wide and
  their arithmetic wraps.  Memory that was allocated and not written holds the bytes of the argument
  \<open>junk\<close>.  An operation whose loop may run for ever is an option, \<open>None\<close> for a call that never
  returns; allocation does not fail.
\<close>

section \<open>Operations\<close>

abbreviation buf_size :: "ten_buf \<Rightarrow> nat" where
  "buf_size b \<equiv> length (buf_data b)"

definition ten_buf_init_empty :: ten_buf where
  "ten_buf_init_empty =
     \<lparr>buf_signed = True, buf_data = [], buf_content_size = 0, buf_owns_memory = True, buf_is_fixed_size = False\<rparr>"

definition ten_buf_init_with_owned_data :: "(nat \<Rightarrow> 8 word) \<Rightarrow> nat \<Rightarrow> ten_buf" where
  "ten_buf_init_with_owned_data junk sz = ten_buf_init_empty\<lparr>buf_data := map junk [0..<sz]\<rparr>"

definition ten_buf_init_with_unowned_data :: "8 word list \<Rightarrow> ten_buf" where
  "ten_buf_init_with_unowned_data bytes =
     ten_buf_init_empty\<lparr>buf_data := bytes, buf_content_size := length bytes, buf_owns_memory := False\<rparr>"

definition ten_buf_deinit :: "ten_buf \<Rightarrow> ten_buf run" where
  "ten_buf_deinit self =
     (if \<not> buf_signed self then Abort
      else Ret \<lparr>buf_signed = False, buf_data = [], buf_content_size = 0, buf_owns_memory = True,
                buf_is_fixed_size = False\<rparr>)"

definition ten_buf_reset :: "ten_buf \<Rightarrow> ten_buf run" where
  "ten_buf_reset self =
     (if \<not> buf_signed self then Abort
      else Ret (self\<lparr>buf_data := (if buf_size self > 0
                                  then (if buf_owns_memory self then replicate (buf_size self) 0 else [])
                                  else buf_data self),
                     buf_content_size := 0, buf_is_fixed_size := False\<rparr>))"

definition ten_buf_set_fixed_size :: "ten_buf \<Rightarrow> bool \<Rightarrow> ten_buf run" where
  "ten_buf_set_fixed_size self fixed =
     (if buf_signed self \<and> buf_owns_memory self then Ret (self\<lparr>buf_is_fixed_size := fixed\<rparr>) else Abort)"

text \<open>\<open>while (req_size >= size) size *= 2\<close>\<close>

partial_function (option) grow_size :: "nat \<Rightarrow> nat \<Rightarrow> nat option" where
  "grow_size req_size sz =
     (if req_size \<ge> sz then grow_size req_size (sz * 2 mod 2 ^ 64) else Some sz)"

definition ten_buf_reserve :: "(nat \<Rightarrow> 8 word) \<Rightarrow> ten_buf \<Rightarrow> nat \<Rightarrow> (bool \<times> ten_buf) run option" where
  "ten_buf_reserve junk self len =
     (if \<not> (buf_signed self \<and> buf_owns_memory self) then Some Abort
      else let req_size = (buf_content_size self + len) mod 2 ^ 64
           in if req_size \<ge> buf_size self
              then (if buf_is_fixed_size self then Some Abort
                    else map_option (\<lambda>sz. Ret (True, self\<lparr>buf_data :=
                             buf_data self @ map junk [buf_size self..<sz]\<rparr>))
                           (grow_size req_size (if buf_size self = 0 then req_size else buf_size self)))
              else Some (Ret (True, self)))"

text \<open>\<open>memcpy\<close> and \<open>memset\<close> into the data; a write past its end is undefined.\<close>

definition write_bytes :: "nat \<Rightarrow> 8 word list \<Rightarrow> 8 word list \<Rightarrow> 8 word list run" where
  "write_bytes i bs mem =
     (if i + length bs \<le> length mem then Ret (take i mem @ bs @ drop (i + length bs) mem) else Undef)"

definition ten_buf_push :: "(nat \<Rightarrow> 8 word) \<Rightarrow> ten_buf \<Rightarrow> 8 word list \<Rightarrow> (bool \<times> ten_buf) run option" where
  "ten_buf_push junk self src =
     (if \<not> (buf_signed self \<and> buf_owns_memory self) then Some Abort
      else if src = [] then Some (Ret (False, self))
      else map_option (\<lambda>r. run_bind r (\<lambda>(ok, self).
             if \<not> ok then Ret (False, self)
             else map_run (\<lambda>mem. (True, self\<lparr>buf_data := mem,
                                    buf_content_size := (buf_content_size self + length src) mod 2 ^ 64\<rparr>))
                    (write_bytes (buf_content_size self) src (buf_data self))))
           (ten_buf_reserve junk self (length src)))"

text \<open>The bytes that are copied to \<open>dest\<close> when it is not NULL come with the result.\<close>

definition ten_buf_pop :: "ten_buf \<Rightarrow> nat \<Rightarrow> (bool \<times> 8 word list \<times> ten_buf) run" where
  "ten_buf_pop self sz =
     (if \<not> (buf_signed self \<and> buf_owns_memory self) then Abort
      else if sz = 0 then Ret (True, [], self)
      else if sz > buf_content_size self then Ret (False, [], self)
      else let new_size = buf_content_size self - sz
           in map_run (\<lambda>mem. (True, take sz (drop new_size (buf_data self)),
                              self\<lparr>buf_content_size := new_size, buf_data := mem\<rparr>))
                (write_bytes new_size (replicate sz 0) (buf_data self)))"

definition ten_buf_get_back :: "ten_buf \<Rightarrow> nat \<Rightarrow> (bool \<times> 8 word list) run" where
  "ten_buf_get_back self sz =
     (if \<not> buf_signed self then Abort
      else if sz = 0 then Ret (True, [])
      else if sz > buf_content_size self then Ret (False, [])
      else if buf_content_size self > buf_size self then Undef
      else Ret (True, take sz (drop (buf_content_size self - sz) (buf_data self))))"

definition ten_buf_take_ownership :: "ten_buf \<Rightarrow> ten_buf run" where
  "ten_buf_take_ownership self = (if buf_signed self then Ret (self\<lparr>buf_owns_memory := True\<rparr>) else Abort)"

definition ten_buf_release_ownership :: "ten_buf \<Rightarrow> ten_buf run" where
  "ten_buf_release_ownership self = (if buf_signed self then Ret (self\<lparr>buf_owns_memory := False\<rparr>) else Abort)"

definition ten_buf_move :: "ten_buf \<Rightarrow> ten_buf \<Rightarrow> (ten_buf \<times> ten_buf) run" where
  "ten_buf_move self other =
     (if \<not> buf_signed self then Abort
      else Ret (self\<lparr>buf_data := buf_data other, buf_content_size := buf_content_size other,
                     buf_owns_memory := buf_owns_memory other, buf_is_fixed_size := buf_is_fixed_size other\<rparr>,
                ten_buf_init_with_owned_data (\<lambda>_. 0) 0))"

section \<open>The loop of \<open>ten_buf_reserve\<close>\<close>

declare grow_size.simps [code]

text \<open>The loop from a size that is not zero ends with the first double that is large enough.\<close>

lemma grow_size_returns:
  "0 < sz \<Longrightarrow> sz < 2 ^ 64 \<Longrightarrow> req < 2 ^ 63 \<Longrightarrow>
     \<exists>n. grow_size req sz = Some n \<and> req < n \<and> sz \<le> n \<and> n < 2 ^ 64"
proof (induction "2 ^ 64 - sz" arbitrary: sz rule: less_induct)
  case less
  show ?case
  proof (cases "req < sz")
    case True
    with less.prems show ?thesis by (subst grow_size.simps) auto
  next
    case False
    with less.prems have d: "sz * 2 < 2 ^ 64" by simp
    have "\<exists>n. grow_size req (sz * 2) = Some n \<and> req < n \<and> sz * 2 \<le> n \<and> n < 2 ^ 64"
      using less.prems d by (intro less.hyps) simp_all
    with d False show ?thesis by (subst grow_size.simps) auto
  qed
qed

text \<open>From the size zero it doubles zero.\<close>

lemma grow_size_zero_loops: "grow_size req 0 = None"
proof -
  have "grow_size req sz = Some n \<Longrightarrow> sz \<noteq> 0" for sz n
    by (rule grow_size.raw_induct [where P = "\<lambda>_ s _. s \<noteq> 0"]) (rule notI, auto split: if_splits)
  then show ?thesis by (cases "grow_size req 0") auto
qed

section \<open>Buffers as stacks of bytes\<close>

definition buf_content :: "ten_buf \<Rightarrow> 8 word list" where
  "buf_content b = take (buf_content_size b) (buf_data b)"

text \<open>A buffer that can be pushed to: it owns its memory, may grow, and its content lies within it.\<close>

definition growable :: "ten_buf \<Rightarrow> bool" where
  "growable b \<longleftrightarrow> buf_signed b \<and> buf_owns_memory b \<and> \<not> buf_is_fixed_size b \<and>
     buf_content_size b \<le> buf_size b \<and> buf_size b < 2 ^ 64"

lemma reserve_returns:
  assumes b: "growable b" and small: "buf_content_size b + len < 2 ^ 63"
    and some: "0 < buf_content_size b + len \<or> 0 < buf_size b"
  shows "\<exists>d. ten_buf_reserve junk b len = Some (Ret (True, b\<lparr>buf_data := d\<rparr>)) \<and>
           take (buf_content_size b) d = buf_content b \<and>
           buf_content_size b + len < length d \<and> length d < 2 ^ 64"
proof (cases "buf_content_size b + len < buf_size b")
  case True
  with b small show ?thesis
    by (intro exI [of _ "buf_data b"]) (simp add: ten_buf_reserve_def growable_def buf_content_def)
next
  case False
  let ?req = "buf_content_size b + len"
  obtain n where n: "grow_size ?req (if buf_size b = 0 then ?req else buf_size b) = Some n"
    "?req < n" "buf_size b \<le> n" "n < 2 ^ 64"
    using grow_size_returns [of "if buf_size b = 0 then ?req else buf_size b" ?req] False some small b
    by (fastforce simp: growable_def split: if_splits)
  with False b small show ?thesis
    by (intro exI [of _ "buf_data b @ map junk [buf_size b..<n]"])
      (simp add: ten_buf_reserve_def growable_def buf_content_def)
qed

text \<open>A push onto a buffer that may grow always returns; it puts the bytes behind the content,
  keeps the buffer well formed, and a pop of as many bytes gives them back and restores the content.\<close>

theorem push_then_pop:
  assumes "growable b" and "src \<noteq> []" and "buf_content_size b + length src < 2 ^ 63"
  shows "\<exists>b'. ten_buf_push junk b src = Some (Ret (True, b')) \<and> growable b' \<and>
           buf_content b' = buf_content b @ src \<and>
           ten_buf_get_back b' (length src) = Ret (True, src) \<and>
           (\<exists>b''. ten_buf_pop b' (length src) = Ret (True, src, b'') \<and> growable b'' \<and>
                  buf_content b'' = buf_content b)"
proof -
  let ?c = "buf_content_size b"
  obtain d where r: "ten_buf_reserve junk b (length src) = Some (Ret (True, b\<lparr>buf_data := d\<rparr>))"
    and d: "take ?c d = buf_content b" and l: "?c + length src < length d" "length d < 2 ^ 64"
    using reserve_returns [of b "length src" junk] assms by auto
  let ?m = "take ?c d @ src @ drop (?c + length src) d"
  let ?b = "b\<lparr>buf_data := ?m, buf_content_size := ?c + length src\<rparr>"
  have s: "buf_signed b" "buf_owns_memory b" and c: "?c \<le> buf_size b" using assms(1) by (auto simp: growable_def)
  have "ten_buf_push junk b src = Some (Ret (True, ?b))"
    using assms r l s by (simp add: ten_buf_push_def write_bytes_def)
  moreover have "growable ?b" using assms l by (simp add: growable_def)
  moreover have "buf_content ?b = buf_content b @ src" using l by (simp add: buf_content_def [of ?b] d [symmetric])
  moreover have "ten_buf_get_back ?b (length src) = Ret (True, src)"
    using assms l s by (simp add: ten_buf_get_back_def)
  moreover have "\<exists>b''. ten_buf_pop ?b (length src) = Ret (True, src, b'') \<and> growable b'' \<and>
                  buf_content b'' = buf_content b"
    using assms l s d by (simp add: ten_buf_pop_def write_bytes_def Let_def growable_def buf_content_def)
  ultimately show ?thesis by blast
qed

theorem push_then_pop_witness:
  "\<exists>b'. ten_buf_push (\<lambda>_. 0) ten_buf_init_empty [1, 2] = Some (Ret (True, b')) \<and> growable b' \<and>
     buf_content b' = buf_content ten_buf_init_empty @ [1, 2] \<and>
     ten_buf_get_back b' (length [1, 2 :: 8 word]) = Ret (True, [1, 2]) \<and>
     (\<exists>b''. ten_buf_pop b' (length [1, 2 :: 8 word]) = Ret (True, [1, 2], b'') \<and> growable b'' \<and>
            buf_content b'' = buf_content ten_buf_init_empty)"
  by (rule push_then_pop) (simp_all add: growable_def ten_buf_init_empty_def)

text \<open>C21: Reserving returns for every request below \<open>2 ^ 63\<close> bytes but one: nothing asked of a buffer
  that has no memory, for which the loop doubles a size of zero for ever.\<close>

theorem reserve_returns_iff:
  assumes "growable b" and "buf_content_size b + len < 2 ^ 63"
  shows "((\<exists>b'. ten_buf_reserve junk b len = Some (Ret (True, b'))) \<longleftrightarrow> buf_size b \<noteq> 0 \<or> len \<noteq> 0) \<and>
         (ten_buf_reserve junk b len = None \<longleftrightarrow> buf_size b = 0 \<and> len = 0)"
proof -
  have none: "ten_buf_reserve junk b len = None" if "buf_size b = 0" "len = 0"
    using assms(1) that by (simp add: ten_buf_reserve_def growable_def grow_size_zero_loops)
  have some: "\<exists>b'. ten_buf_reserve junk b len = Some (Ret (True, b'))" if "buf_size b \<noteq> 0 \<or> len \<noteq> 0"
    using reserve_returns [of b len junk] assms that by auto
  show ?thesis using none some by fastforce
qed

theorem reserve_returns_iff_witness:
  "ten_buf_reserve (\<lambda>_. 0) ten_buf_init_empty 0 = None"
  using reserve_returns_iff [of ten_buf_init_empty 0 "\<lambda>_. 0"]
  by (simp add: growable_def ten_buf_init_empty_def)

end
