(* ===== verification/Cmd.thy ===== *)
theory Cmd
  imports Msg Buf
begin

text \<open>
  Commands (\<open>msg/cmd_base/cmd_base.c\<close>), command results (\<open>msg/cmd_base/cmd_result/cmd.c\<close>) and the
  copies of both (\<open>field/\<close>, \<open>ten_msg_clone\<close>).  The cell of a message is the largest of the structs,
  \<open>message\<close>; which of its fields a message really has is decided by its type.
\<close>

section \<open>Commands\<close>

record ten_cmd_base = ten_msg +
  parent_cmd_id :: string
  cmd_id :: string
  seq_id :: string
  original_connection :: "nat option"
  result_handler :: "nat option"
  result_handler_data :: "nat option"

definition ten_cmd_base_check_integrity :: "'a ten_cmd_base_scheme \<Rightarrow> bool run" where
  "ten_cmd_base_check_integrity self = ten_raw_msg_is_cmd_and_result self"

definition cmd_name_of_type :: "TEN_MSG_TYPE \<Rightarrow> string" where
  "cmd_name_of_type t = (case t of
      TEN_MSG_TYPE_CMD_START_GRAPH \<Rightarrow> ''aptima:start_graph''
    | TEN_MSG_TYPE_CMD_TIMEOUT \<Rightarrow> ''aptima:timeout''
    | TEN_MSG_TYPE_CMD_TIMER \<Rightarrow> ''aptima:timer''
    | TEN_MSG_TYPE_CMD_STOP_GRAPH \<Rightarrow> ''aptima:stop_graph''
    | TEN_MSG_TYPE_CMD_CLOSE_APP \<Rightarrow> ''aptima:close_app''
    | TEN_MSG_TYPE_CMD_RESULT \<Rightarrow> ''aptima:result''
    | _ \<Rightarrow> [])"

definition ten_raw_cmd_base_init :: "TEN_MSG_TYPE \<Rightarrow> ten_cmd_base" where
  "ten_raw_cmd_base_init t =
     ten_msg.extend (ten_raw_msg_init TEN_MSG_TYPE_INVALID\<lparr>msg_type := t, msg_name := cmd_name_of_type t\<rparr>)
       (ten_cmd_base.fields [] [] [] None None None)"

definition ten_raw_cmd_base_gen_cmd_id_if_empty :: "string \<Rightarrow> 'a ten_cmd_base_scheme \<Rightarrow> 'a ten_cmd_base_scheme" where
  "ten_raw_cmd_base_gen_cmd_id_if_empty uuid self = (if cmd_id self = [] then self\<lparr>cmd_id := uuid\<rparr> else self)"

definition ten_raw_cmd_base_gen_new_cmd_id_forcibly :: "string \<Rightarrow> 'a ten_cmd_base_scheme \<Rightarrow> 'a ten_cmd_base_scheme" where
  "ten_raw_cmd_base_gen_new_cmd_id_forcibly uuid self = self\<lparr>cmd_id := uuid\<rparr>"

definition ten_raw_cmd_base_set_cmd_id :: "'a ten_cmd_base_scheme \<Rightarrow> string \<Rightarrow> 'a ten_cmd_base_scheme" where
  "ten_raw_cmd_base_set_cmd_id self i = self\<lparr>cmd_id := i\<rparr>"

definition ten_raw_cmd_base_set_seq_id :: "'a ten_cmd_base_scheme \<Rightarrow> string \<Rightarrow> 'a ten_cmd_base_scheme" where
  "ten_raw_cmd_base_set_seq_id self i = self\<lparr>seq_id := i\<rparr>"

definition ten_raw_cmd_base_save_cmd_id_to_parent_cmd_id :: "'a ten_cmd_base_scheme \<Rightarrow> 'a ten_cmd_base_scheme" where
  "ten_raw_cmd_base_save_cmd_id_to_parent_cmd_id self = self\<lparr>parent_cmd_id := cmd_id self\<rparr>"

definition ten_cmd_base_get_parent_cmd_id :: "'a ten_cmd_base_scheme \<Rightarrow> string option" where
  "ten_cmd_base_get_parent_cmd_id self = (if parent_cmd_id self = [] then None else Some (parent_cmd_id self))"

definition ten_raw_cmd_base_reset_parent_cmd_id :: "'a ten_cmd_base_scheme \<Rightarrow> 'a ten_cmd_base_scheme" where
  "ten_raw_cmd_base_reset_parent_cmd_id self = self\<lparr>parent_cmd_id := []\<rparr>"

definition ten_raw_cmd_base_set_result_handler ::
    "'a ten_cmd_base_scheme \<Rightarrow> nat option \<Rightarrow> nat option \<Rightarrow> 'a ten_cmd_base_scheme" where
  "ten_raw_cmd_base_set_result_handler self handler handler_data =
     self\<lparr>result_handler := handler, result_handler_data := handler_data\<rparr>"

definition ten_cmd_base_comes_from_client_outside :: "'a ten_cmd_base_scheme \<Rightarrow> bool" where
  "ten_cmd_base_comes_from_client_outside self \<longleftrightarrow> app_uri (src_loc self) = cmd_id self"

section \<open>Results\<close>

definition TEN_STATUS_CODE_INVALID :: "32 word" where "TEN_STATUS_CODE_INVALID = -1"
definition TEN_STATUS_CODE_OK :: "32 word" where "TEN_STATUS_CODE_OK = 0"
definition TEN_STATUS_CODE_ERROR :: "32 word" where "TEN_STATUS_CODE_ERROR = 1"

record ten_cmd_result = ten_cmd_base +
  original_cmd_type :: TEN_MSG_TYPE
  original_cmd_name :: string
  status_code :: "32 word"
  is_final :: bool
  is_completed :: bool

text \<open>A \<open>ten_data_t\<close> has a buffer besides the header.\<close>

record message = ten_cmd_result +
  data_buf :: ten_buf

definition ten_raw_cmd_result_create_empty :: message where
  "ten_raw_cmd_result_create_empty =
     ten_cmd_base.extend (ten_raw_cmd_base_init TEN_MSG_TYPE_CMD_RESULT)
       \<lparr>original_cmd_type = TEN_MSG_TYPE_INVALID, original_cmd_name = [], status_code = TEN_STATUS_CODE_INVALID,
        is_final = True, is_completed = True, data_buf = ten_buf_init_empty\<rparr>"

definition ten_raw_cmd_result_create :: "32 word \<Rightarrow> message" where
  "ten_raw_cmd_result_create code = ten_raw_cmd_result_create_empty\<lparr>status_code := code\<rparr>"

definition is_result :: "message \<Rightarrow> bool" where
  "is_result m \<longleftrightarrow> msg_type m = TEN_MSG_TYPE_CMD_RESULT"

definition ten_raw_cmd_result_create_from_raw_cmd :: "32 word \<Rightarrow> message option \<Rightarrow> message run" where
  "ten_raw_cmd_result_create_from_raw_cmd code original_cmd =
     (let cmd = ten_raw_cmd_result_create code
      in case original_cmd of
           None \<Rightarrow> Ret cmd
         | Some original_cmd \<Rightarrow>
             let cmd = ten_raw_cmd_base_set_cmd_id cmd (cmd_id original_cmd);
                 cmd = ten_raw_cmd_base_set_seq_id cmd (seq_id original_cmd);
                 cmd = cmd\<lparr>original_cmd_type := msg_type original_cmd\<rparr>
             in if ten_raw_msg_get_dest_cnt original_cmd > 1 then Abort
                else run_bind
                  (if ten_raw_msg_get_dest_cnt original_cmd = 1
                   then run_bind (ten_raw_msg_get_first_dest_loc original_cmd) (ten_raw_msg_set_src_to_loc cmd)
                   else Ret cmd)
                  (\<lambda>cmd. ten_raw_msg_clear_and_set_dest_to_loc cmd (src_loc original_cmd)))"

definition ten_raw_cmd_result_get_status_code :: "message \<Rightarrow> 32 word run" where
  "ten_raw_cmd_result_get_status_code self = (if is_result self then Ret (status_code self) else Abort)"

definition ten_raw_cmd_result_set_status_code :: "message \<Rightarrow> 32 word \<Rightarrow> message run" where
  "ten_raw_cmd_result_set_status_code self code =
     (if is_result self \<and> code \<noteq> TEN_STATUS_CODE_INVALID then Ret (self\<lparr>status_code := code\<rparr>) else Abort)"

definition ten_raw_cmd_result_is_final :: "message \<Rightarrow> bool run" where
  "ten_raw_cmd_result_is_final self = (if is_result self then Ret (is_final self) else Abort)"

definition ten_raw_cmd_result_set_final :: "message \<Rightarrow> bool \<Rightarrow> message run" where
  "ten_raw_cmd_result_set_final self b = (if is_result self then Ret (self\<lparr>is_final := b\<rparr>) else Abort)"

definition ten_raw_cmd_result_is_completed :: "message \<Rightarrow> bool run" where
  "ten_raw_cmd_result_is_completed self = (if is_result self then Ret (is_completed self) else Abort)"

definition ten_raw_cmd_result_set_completed :: "message \<Rightarrow> bool \<Rightarrow> message run" where
  "ten_raw_cmd_result_set_completed self b = (if is_result self then Ret (self\<lparr>is_completed := b\<rparr>) else Abort)"

definition ten_raw_cmd_result_get_original_cmd_type :: "message \<Rightarrow> TEN_MSG_TYPE run" where
  "ten_raw_cmd_result_get_original_cmd_type self = (if is_result self then Ret (original_cmd_type self) else Abort)"

definition ten_raw_cmd_result_set_original_cmd_type :: "message \<Rightarrow> TEN_MSG_TYPE \<Rightarrow> message run" where
  "ten_raw_cmd_result_set_original_cmd_type self t =
     (if is_result self then Ret (self\<lparr>original_cmd_type := t\<rparr>) else Abort)"

definition ten_raw_cmd_result_set_original_cmd_name :: "message \<Rightarrow> string \<Rightarrow> message run" where
  "ten_raw_cmd_result_set_original_cmd_name self name =
     (if is_result self \<and> name \<noteq> [] then Ret (self\<lparr>original_cmd_name := name\<rparr>) else Abort)"

section \<open>Copies\<close>

text \<open>A table of fields is a list of ids and copy functions, and the loop over it copies every field
  whose id is not excluded.  A copy function gets the copy, the source and the excluded ids.\<close>

type_synonym copy_field = "message \<Rightarrow> message \<Rightarrow> int list \<Rightarrow> message run"

definition copy_fields :: "(int \<times> copy_field) list \<Rightarrow> copy_field" where
  "copy_fields table self src excluded =
     run_fold (\<lambda>(field_id, copy) self. if field_id \<in> set excluded then Ret self else copy self src excluded)
       table self"

definition TEN_MSG_FIELD_PROPERTIES :: int where "TEN_MSG_FIELD_PROPERTIES = 4"
definition TEN_MSG_FIELD_LAST :: int where "TEN_MSG_FIELD_LAST = 5"

definition ten_raw_msg_type_copy :: copy_field where
  "ten_raw_msg_type_copy self src excluded = Ret (self\<lparr>msg_type := msg_type src\<rparr>)"

definition ten_raw_msg_name_copy :: copy_field where
  "ten_raw_msg_name_copy self src excluded = Ret (self\<lparr>msg_name := msg_name src\<rparr>)"

definition ten_raw_msg_src_copy :: copy_field where
  "ten_raw_msg_src_copy self src excluded =
     map_run (\<lambda>l. self\<lparr>src_loc := l\<rparr>) (ten_loc_set_from_loc (src_loc self) (src_loc src))"

definition ten_raw_msg_dest_copy :: copy_field where
  "ten_raw_msg_dest_copy self src excluded =
     map_run (\<lambda>ls. self\<lparr>dest_loc := ls\<rparr>) (run_map ten_loc_clone (dest_loc src))"

definition ten_raw_msg_properties_copy :: copy_field where
  "ten_raw_msg_properties_copy self src excluded =
     (if ten_value_is_object (properties self) \<and> content_object (properties self) = []
      then map_run (\<lambda>v. self\<lparr>properties := v\<rparr>)
             (ten_value_object_merge_with_clone (properties self) (properties src))
      else Abort)"

definition ten_msg_fields_info :: "(int \<times> copy_field) list" where
  "ten_msg_fields_info =
     [(0, ten_raw_msg_type_copy), (1, ten_raw_msg_name_copy), (2, ten_raw_msg_src_copy),
      (3, ten_raw_msg_dest_copy), (TEN_MSG_FIELD_PROPERTIES, ten_raw_msg_properties_copy)]"

definition ten_raw_msg_copy_field :: copy_field where
  "ten_raw_msg_copy_field = copy_fields ten_msg_fields_info"

definition ten_cmd_base_copy_cmd_id :: copy_field where
  "ten_cmd_base_copy_cmd_id self src excluded = Ret (self\<lparr>cmd_id := cmd_id src\<rparr>)"

definition ten_cmd_base_copy_seq_id :: copy_field where
  "ten_cmd_base_copy_seq_id self src excluded = Ret (self\<lparr>seq_id := seq_id src\<rparr>)"

definition ten_cmd_base_copy_original_connection :: copy_field where
  "ten_cmd_base_copy_original_connection self src excluded =
     Ret (self\<lparr>original_connection := original_connection src\<rparr>)"

definition ten_cmd_base_copy_result_handler :: copy_field where
  "ten_cmd_base_copy_result_handler self src excluded = Ret (self\<lparr>result_handler := result_handler src\<rparr>)"

definition ten_cmd_base_copy_result_handler_data :: copy_field where
  "ten_cmd_base_copy_result_handler_data self src excluded =
     Ret (self\<lparr>result_handler_data := result_handler_data src\<rparr>)"

definition ten_cmd_base_fields_info :: "(int \<times> copy_field) list" where
  "ten_cmd_base_fields_info =
     [(-1, ten_raw_msg_copy_field), (TEN_MSG_FIELD_LAST + 1, ten_cmd_base_copy_cmd_id),
      (TEN_MSG_FIELD_LAST + 2, ten_cmd_base_copy_seq_id),
      (TEN_MSG_FIELD_LAST + 3, ten_cmd_base_copy_original_connection),
      (TEN_MSG_FIELD_LAST + 4, ten_cmd_base_copy_result_handler),
      (TEN_MSG_FIELD_LAST + 5, ten_cmd_base_copy_result_handler_data)]"

definition ten_raw_cmd_base_copy_field :: copy_field where
  "ten_raw_cmd_base_copy_field = copy_fields ten_cmd_base_fields_info"

text \<open>The three kinds of messages whose copies are modelled: a custom command, a result, and data.  The
  tables of the first one lead to that of \<open>ten_cmd_base_t\<close> through two tables with one entry.\<close>

definition ten_raw_cmd_init :: "TEN_MSG_TYPE \<Rightarrow> message" where
  "ten_raw_cmd_init t =
     ten_cmd_base.extend (ten_raw_cmd_base_init t)
       \<lparr>original_cmd_type = TEN_MSG_TYPE_INVALID, original_cmd_name = [], status_code = TEN_STATUS_CODE_INVALID,
        is_final = True, is_completed = True, data_buf = ten_buf_init_empty\<rparr>"

definition ten_raw_cmd_copy_field :: copy_field where
  "ten_raw_cmd_copy_field = copy_fields [(-1, ten_raw_cmd_base_copy_field)]"

definition ten_raw_cmd_custom_as_msg_clone :: "message \<Rightarrow> int list \<Rightarrow> message run" where
  "ten_raw_cmd_custom_as_msg_clone self excluded =
     (if msg_type self \<noteq> TEN_MSG_TYPE_CMD then Abort
      else copy_fields [(-1, ten_raw_cmd_copy_field)] (ten_raw_cmd_init TEN_MSG_TYPE_CMD) self excluded)"

definition ten_cmd_result_copy_original_cmd_type :: copy_field where
  "ten_cmd_result_copy_original_cmd_type self src excluded =
     map_run (\<lambda>t. self\<lparr>original_cmd_type := t\<rparr>) (ten_raw_cmd_result_get_original_cmd_type src)"

definition ten_cmd_result_copy_status_code :: copy_field where
  "ten_cmd_result_copy_status_code self src excluded =
     run_bind (ten_raw_cmd_result_get_status_code src) (ten_raw_cmd_result_set_status_code self)"

definition ten_cmd_result_copy_is_final :: copy_field where
  "ten_cmd_result_copy_is_final self src excluded =
     run_bind (ten_raw_cmd_result_is_final src) (ten_raw_cmd_result_set_final self)"

definition ten_cmd_result_fields_info :: "copy_field list" where
  "ten_cmd_result_fields_info =
     [ten_raw_cmd_base_copy_field, ten_cmd_result_copy_original_cmd_type, ten_cmd_result_copy_status_code,
      ten_cmd_result_copy_is_final]"

text \<open>The excluded ids are not used.\<close>

definition ten_raw_cmd_result_as_msg_clone :: "message \<Rightarrow> int list \<Rightarrow> message run" where
  "ten_raw_cmd_result_as_msg_clone self excluded =
     run_fold (\<lambda>copy clone. copy clone self []) ten_cmd_result_fields_info ten_raw_cmd_result_create_empty"

definition ten_raw_data_create_empty :: message where
  "ten_raw_data_create_empty = (ten_raw_cmd_init TEN_MSG_TYPE_DATA)\<lparr>data_buf := ten_buf_init_empty\<rparr>"

text \<open>A copy of data takes the whole memory of the buffer for its content.\<close>

definition ten_raw_data_buf_copy :: copy_field where
  "ten_raw_data_buf_copy self src excluded =
     (if \<not> buf_signed (data_buf src) then Abort
      else if buf_size (data_buf src) \<noteq> 0
           then Ret (self\<lparr>data_buf := ten_buf_init_with_copying_data (buf_data (data_buf src))\<rparr>) else Ret self)"

definition ten_raw_data_as_msg_clone :: "message \<Rightarrow> int list \<Rightarrow> message run" where
  "ten_raw_data_as_msg_clone self excluded =
     (if msg_type self \<noteq> TEN_MSG_TYPE_DATA then Abort
      else copy_fields [(-1, ten_raw_msg_copy_field), (TEN_MSG_FIELD_LAST, ten_raw_data_buf_copy)]
             ten_raw_data_create_empty self excluded)"

text \<open>\<open>None\<close> stands for the NULL of a type that has no clone function.  The structs of a start_graph
  command and of the frames have fields of their own; their clone functions are an argument.\<close>

definition ten_msg_clone ::
    "(message \<Rightarrow> int list \<Rightarrow> message run) \<Rightarrow> string \<Rightarrow> message \<Rightarrow> int list \<Rightarrow> message option run" where
  "ten_msg_clone other uuid self excluded =
     (case msg_type self of
        TEN_MSG_TYPE_CMD \<Rightarrow>
          map_run (\<lambda>result. Some (ten_raw_cmd_base_gen_new_cmd_id_forcibly uuid
                     (ten_raw_cmd_base_save_cmd_id_to_parent_cmd_id result)))
            (ten_raw_cmd_custom_as_msg_clone self excluded)
      | TEN_MSG_TYPE_CMD_RESULT \<Rightarrow>
          map_run (\<lambda>result. Some (ten_raw_cmd_base_gen_new_cmd_id_forcibly uuid
                     (ten_raw_cmd_base_save_cmd_id_to_parent_cmd_id result)))
            (ten_raw_cmd_result_as_msg_clone self excluded)
      | TEN_MSG_TYPE_CMD_START_GRAPH \<Rightarrow>
          map_run (\<lambda>result. Some (ten_raw_cmd_base_gen_new_cmd_id_forcibly uuid
                     (ten_raw_cmd_base_save_cmd_id_to_parent_cmd_id result))) (other self excluded)
      | TEN_MSG_TYPE_DATA \<Rightarrow> map_run Some (ten_raw_data_as_msg_clone self excluded)
      | TEN_MSG_TYPE_AUDIO_FRAME \<Rightarrow> map_run Some (other self excluded)
      | TEN_MSG_TYPE_VIDEO_FRAME \<Rightarrow> map_run Some (other self excluded)
      | _ \<Rightarrow> Ret None)"

section \<open>What a copy keeps\<close>

text \<open>Properties that the cloning merge copies exactly.\<close>

definition copyable :: "ten_value \<Rightarrow> bool" where
  "copyable v \<longleftrightarrow> ten_value_is_object v \<and> keys_plain v \<and> bufs_exact v \<and> distinct (map fst (content_object v))"

lemma fold_put_merged_fresh:
  "distinct (map fst (acc @ kvs)) \<Longrightarrow> fold put_merged kvs acc = acc @ kvs"
proof (induction kvs arbitrary: acc)
  case (Cons kv kvs)
  then have "put_merged kv acc = acc @ [kv]" by (auto simp: put_merged_def image_iff)
  with Cons.prems Cons.IH [of "acc @ [kv]"] show ?case by simp
qed simp

lemma merge_into_empty [simp, spec_simps]:
  assumes "copyable v"
  shows "ten_value_object_merge_with_clone (VObject []) v = Ret v"
proof -
  obtain kvs where "v = VObject kvs" using assms by (auto simp: copyable_def)
  with assms merge_with_clone_eq [of v "VObject []"] fold_put_merged_fresh [of "[]" kvs] show ?thesis
    by (simp add: copyable_def del: ten_value_object_merge_with_clone.simps)
qed

text \<open>A message whose locations and properties can be copied.\<close>

definition clonable :: "'a ten_msg_scheme \<Rightarrow> bool" where
  "clonable m \<longleftrightarrow> ten_loc_check_integrity (src_loc m) \<and> (\<forall>l \<in> set (dest_loc m). ten_loc_check_integrity l) \<and>
     copyable (properties m)"

lemma run_map_clone_locs [simp]:
  "(\<forall>l \<in> set ls. ten_loc_check_integrity l) \<Longrightarrow> run_map ten_loc_clone ls = Ret ls"
  using run_map_all_Ret [of ls ten_loc_clone id] by simp

lemma run_map_Inl [simp]: "run_map f [] = Ret []" by simp

lemmas copy_defs =
  copy_fields_def ten_raw_msg_copy_field_def ten_raw_cmd_base_copy_field_def ten_raw_cmd_copy_field_def
  ten_msg_fields_info_def ten_cmd_base_fields_info_def ten_raw_msg_type_copy_def ten_raw_msg_name_copy_def
  ten_raw_msg_src_copy_def ten_raw_msg_dest_copy_def ten_raw_msg_properties_copy_def
  ten_cmd_base_copy_cmd_id_def ten_cmd_base_copy_seq_id_def ten_cmd_base_copy_original_connection_def
  ten_cmd_base_copy_result_handler_def ten_cmd_base_copy_result_handler_data_def
  TEN_MSG_FIELD_PROPERTIES_def TEN_MSG_FIELD_LAST_def

lemmas create_defs =
  ten_raw_msg_init_def ten_raw_cmd_base_init_def ten_raw_cmd_init_def ten_raw_cmd_result_create_empty_def
  ten_msg.defs ten_cmd_base.defs ten_value_init_object_with_move_def cmd_name_of_type_def

text \<open>The fields of a command as the copy has them: everything but the locked resources, a new id, and
  the old id as that of the parent.\<close>

definition copied_cmd :: "string \<Rightarrow> bool \<Rightarrow> message \<Rightarrow> ten_cmd_base" where
  "copied_cmd uuid with_properties m =
     ten_cmd_base.truncate (m\<lparr>locked_res := [], parent_cmd_id := cmd_id m, cmd_id := uuid,
       properties := (if with_properties then properties m else VObject [])\<rparr>)"

lemma clone_command:
  assumes "clonable m" and "set excluded \<subseteq> {TEN_MSG_FIELD_PROPERTIES}" and "msg_type m = TEN_MSG_TYPE_CMD"
  shows "\<exists>c. ten_msg_clone other uuid m excluded = Ret (Some c) \<and>
             ten_cmd_base.truncate c = copied_cmd uuid (excluded = []) m"
proof -
  have ids: "i \<notin> set excluded" if "i \<noteq> 4" for i
    using assms(2) that by (auto simp: TEN_MSG_FIELD_PROPERTIES_def)
  have p: "4 \<in> set excluded \<longleftrightarrow> excluded \<noteq> []"
    using assms(2) by (cases excluded) (auto simp: TEN_MSG_FIELD_PROPERTIES_def)
  show ?thesis
    using assms(1,3)
    by (cases m)
      (auto simp: clonable_def ten_msg_clone_def ten_raw_cmd_custom_as_msg_clone_def copy_defs create_defs
         ids p copied_cmd_def ten_raw_cmd_base_gen_new_cmd_id_forcibly_def
         ten_raw_cmd_base_save_cmd_id_to_parent_cmd_id_def)
qed

lemma clone_result:
  assumes "clonable m" and "is_result m"
  shows "ten_msg_clone other uuid m excluded =
    (if status_code m = TEN_STATUS_CODE_INVALID then Abort
     else Ret (Some (m\<lparr>locked_res := [], parent_cmd_id := cmd_id m, cmd_id := uuid,
                       original_cmd_name := [], is_completed := True, data_buf := ten_buf_init_empty\<rparr>)))"
  using assms
  by (cases m)
    (auto simp: clonable_def ten_msg_clone_def copy_defs create_defs is_result_def
       ten_raw_cmd_result_as_msg_clone_def ten_cmd_result_fields_info_def
       ten_cmd_result_copy_original_cmd_type_def ten_cmd_result_copy_status_code_def
       ten_cmd_result_copy_is_final_def ten_raw_cmd_result_get_original_cmd_type_def
       ten_raw_cmd_result_get_status_code_def ten_raw_cmd_result_set_status_code_def
       ten_raw_cmd_result_is_final_def ten_raw_cmd_result_set_final_def
       ten_raw_cmd_base_gen_new_cmd_id_forcibly_def ten_raw_cmd_base_save_cmd_id_to_parent_cmd_id_def)

text \<open>C16: A copy of a custom command has the name, the locations, the sequence id, the handler and
  - unless they are excluded - the properties of the command, a new command id, and the id of the
  command as its parent's.  A copy of a result ignores the excluded ids, keeps its status, the type of
  the original command and the final flag, and forgets the name of the original command and that it
  was not completed; a result that never got a status code cannot be copied.\<close>

theorem clone_keeps:
  assumes "clonable m" and "set excluded \<subseteq> {TEN_MSG_FIELD_PROPERTIES}"
  shows "(msg_type m = TEN_MSG_TYPE_CMD \<longrightarrow>
            (\<exists>c. ten_msg_clone other uuid m excluded = Ret (Some c) \<and>
                 ten_cmd_base.truncate c = copied_cmd uuid (excluded = []) m)) \<and>
         (is_result m \<longrightarrow>
            ten_msg_clone other uuid m excluded =
              (if status_code m = TEN_STATUS_CODE_INVALID then Abort
               else Ret (Some (m\<lparr>locked_res := [], parent_cmd_id := cmd_id m, cmd_id := uuid,
                                 original_cmd_name := [], is_completed := True,
                                 data_buf := ten_buf_init_empty\<rparr>))))"
  using clone_command [OF assms] clone_result [OF assms(1)] by blast

theorem clone_keeps_witness:
  "\<exists>c. ten_msg_clone (\<lambda>m _. Ret m) ''u'' ((ten_raw_cmd_init TEN_MSG_TYPE_CMD)\<lparr>cmd_id := ''a''\<rparr>) [] = Ret (Some c) \<and>
     ten_cmd_base.truncate c =
       copied_cmd ''u'' True ((ten_raw_cmd_init TEN_MSG_TYPE_CMD)\<lparr>cmd_id := ''a''\<rparr>)"
  using clone_keeps [of "(ten_raw_cmd_init TEN_MSG_TYPE_CMD)\<lparr>cmd_id := ''a''\<rparr>" "[]" "\<lambda>m _. Ret m" "''u''"]
  by (simp add: clonable_def copyable_def create_defs)

text \<open>C18: The result of a command goes back to where the command came from: it has the ids of the
  command and its type, its only destination is the source of the command, and its source is the
  destination of the command when that has one.  Both locations pass the integrity check.  With more
  than one destination the call aborts.\<close>

theorem result_returns_to_source:
  assumes "ten_loc_check_integrity (src_loc cmd)" and "\<forall>l \<in> set (dest_loc cmd). ten_loc_check_integrity l"
  shows "ten_raw_cmd_result_create_from_raw_cmd code (Some cmd) =
    (if length (dest_loc cmd) > 1 then Abort
     else Ret ((ten_raw_cmd_result_create code)\<lparr>cmd_id := cmd_id cmd, seq_id := seq_id cmd,
                 original_cmd_type := msg_type cmd,
                 src_loc := (case dest_loc cmd of [] \<Rightarrow> ten_loc_init_empty | l # _ \<Rightarrow> l),
                 dest_loc := [src_loc cmd]\<rparr>))"
proof -
  have c: "ten_loc_create (Some (app_uri l)) (Some (graph_id l)) (Some (extension_group_name l))
       (Some (extension_name l)) = Ret l" if "ten_loc_check_integrity l" for l :: ten_loc
    using ten_loc_copies(1) [OF that] that by (simp add: ten_loc_clone_def)
  show ?thesis
    using assms
    by (cases "dest_loc cmd")
      (auto simp: ten_raw_cmd_result_create_from_raw_cmd_def ten_raw_cmd_result_create_def create_defs
         ten_raw_cmd_base_set_cmd_id_def ten_raw_cmd_base_set_seq_id_def ten_raw_msg_get_dest_cnt_def
         ten_raw_msg_get_first_dest_loc_def ten_raw_msg_set_src_to_loc_def c
         ten_raw_msg_clear_and_set_dest_to_loc_def ten_raw_msg_clear_and_set_dest_def)
qed

theorem result_returns_to_source_witness:
  "ten_raw_cmd_result_create_from_raw_cmd TEN_STATUS_CODE_OK
     (Some ((ten_raw_cmd_init TEN_MSG_TYPE_CMD)\<lparr>cmd_id := ''a''\<rparr>)) =
   Ret ((ten_raw_cmd_result_create TEN_STATUS_CODE_OK)\<lparr>cmd_id := ''a'', seq_id := [],
          original_cmd_type := TEN_MSG_TYPE_CMD, src_loc := ten_loc_init_empty,
          dest_loc := [ten_loc_init_empty]\<rparr>)"
  using result_returns_to_source [of "(ten_raw_cmd_init TEN_MSG_TYPE_CMD)\<lparr>cmd_id := ''a''\<rparr>" TEN_STATUS_CODE_OK]
  by (simp add: create_defs)

end
