(* ===== verification/Msg_Conversion.thy ===== *)
theory Msg_Conversion
  imports Cmd
begin

text \<open>
  The conversion of messages at the border of an extension (\<open>core/src/ten_runtime/msg_conversion/\<close>).
  A conversion is a list of rules, each of which sets one property of a copy of the message to a fixed
  value or to the value of a property of the original.  The contexts of an extension say which
  messages, by source and name, are converted, and how their results are converted on the way back.
\<close>

abbreviation "TEN_STR_TYPE \<equiv> ''type''"
abbreviation "TEN_STR_VALUE \<equiv> ''value''"
abbreviation "TEN_STR_CONVERSION_MODE \<equiv> ''conversion_mode''"
abbreviation "TEN_STR_PATH \<equiv> ''path''"
abbreviation "TEN_STR_FIXED_VALUE \<equiv> ''fixed_value''"
abbreviation "TEN_STR_FROM_ORIGINAL \<equiv> ''from_original''"
abbreviation "TEN_STR_RULES \<equiv> ''rules''"
abbreviation "TEN_STR_ORIGINAL_PATH \<equiv> ''original_path''"
abbreviation "TEN_STR_PER_PROPERTY \<equiv> ''per_property''"
abbreviation "TEN_STR_KEEP_ORIGINAL \<equiv> ''keep_original''"

section \<open>Rules\<close>

datatype rule_mode =
    ModeInvalid
  | FromOriginal (original_path: string)
  | FixedValue (fixed_value: ten_value)

record conversion_rule =
  property_path :: string
  conversion_mode :: rule_mode

record conversion_rules =
  rules :: "conversion_rule list"
  keep_original :: bool

text \<open>The handlers that \<open>ten_msg_info\<close> holds for the types of messages whose structs are not modelled.\<close>

record msg_handlers =
  clone_other :: "message \<Rightarrow> int list \<Rightarrow> message run"
  set_other_property :: "message \<Rightarrow> ten_value_path_item list \<Rightarrow> ten_value \<Rightarrow> bool \<times> message"
  peek_other_property :: "message \<Rightarrow> ten_value_path_item list \<Rightarrow> ten_value option"

definition ten_msg_conversion_per_property_rule_fixed_value_convert ::
    "msg_handlers \<Rightarrow> ten_value \<Rightarrow> message \<Rightarrow> string \<Rightarrow> (bool \<times> message) run" where
  "ten_msg_conversion_per_property_rule_fixed_value_convert h self new_msg path =
     run_bind (ten_value_clone self) (ten_raw_msg_set_property (set_other_property h) new_msg path)"

definition ten_msg_conversion_per_property_rule_from_original_get_value ::
    "msg_handlers \<Rightarrow> string \<Rightarrow> message \<Rightarrow> ten_value option run" where
  "ten_msg_conversion_per_property_rule_from_original_get_value h opath msg =
     map_run fst (ten_raw_msg_peek_property (peek_other_property h) msg opath)"

definition ten_msg_conversion_per_property_rule_from_original_convert ::
    "msg_handlers \<Rightarrow> string \<Rightarrow> message \<Rightarrow> message \<Rightarrow> string \<Rightarrow> (bool \<times> message) run" where
  "ten_msg_conversion_per_property_rule_from_original_convert h opath msg new_msg path =
     run_bind (ten_msg_conversion_per_property_rule_from_original_get_value h opath msg)
       (\<lambda>msg_property.
     run_bind (case msg_property of Some v \<Rightarrow> ten_value_clone v | None \<Rightarrow> Ret VInvalid)
       (ten_raw_msg_set_property (set_other_property h) new_msg path))"

definition ten_msg_conversion_per_property_rule_convert ::
    "msg_handlers \<Rightarrow> conversion_rule \<Rightarrow> message \<Rightarrow> message \<Rightarrow> (bool \<times> message) run" where
  "ten_msg_conversion_per_property_rule_convert h self msg new_msg =
     (case conversion_mode self of
        FromOriginal p \<Rightarrow>
          ten_msg_conversion_per_property_rule_from_original_convert h p msg new_msg (property_path self)
      | FixedValue v \<Rightarrow>
          ten_msg_conversion_per_property_rule_fixed_value_convert h v new_msg (property_path self)
      | ModeInvalid \<Rightarrow> Abort)"

text \<open>The loop over the rules stops at the first one that fails; \<open>None\<close> is the NULL message.\<close>

fun convert_loop :: "msg_handlers \<Rightarrow> conversion_rule list \<Rightarrow> message \<Rightarrow> message option \<Rightarrow> message option run" where
  "convert_loop h [] msg new_msg = Ret new_msg"
| "convert_loop h (r # rs) msg new_msg =
     (case new_msg of
        None \<Rightarrow> Abort
      | Some new_msg \<Rightarrow>
          run_bind (ten_msg_conversion_per_property_rule_convert h r msg new_msg) (\<lambda>(ok, new_msg).
            if ok then convert_loop h rs msg (Some new_msg) else Ret None))"

definition excluded_fields :: "conversion_rules \<Rightarrow> int list" where
  "excluded_fields self = (if keep_original self then [] else [TEN_MSG_FIELD_PROPERTIES])"

definition ten_msg_conversion_per_property_rules_convert ::
    "msg_handlers \<Rightarrow> string \<Rightarrow> conversion_rules \<Rightarrow> message \<Rightarrow> message option run" where
  "ten_msg_conversion_per_property_rules_convert h uuid self msg =
     run_bind (ten_msg_clone (clone_other h) uuid msg (excluded_fields self)) (\<lambda>new_msg.
       ten_list_foreach_of (rules self) (convert_loop h (rules self) msg new_msg))"

text \<open>For a result the new id is taken back.\<close>

definition ten_result_conversion_per_property_rules_convert ::
    "msg_handlers \<Rightarrow> string \<Rightarrow> conversion_rules \<Rightarrow> message \<Rightarrow> message option run" where
  "ten_result_conversion_per_property_rules_convert h uuid self msg =
     run_bind (ten_msg_clone (clone_other h) uuid msg (excluded_fields self)) (\<lambda>new_msg.
       case new_msg of
         None \<Rightarrow> Abort
       | Some new_msg \<Rightarrow>
           ten_list_foreach_of (rules self)
             (convert_loop h (rules self) msg (Some (ten_raw_cmd_base_set_cmd_id new_msg (cmd_id msg)))))"

text \<open>The only kind of conversion; its rules are NULL when they were read from something that is not an
  array.\<close>

datatype ten_msg_conversion = PerProperty (conversion_rules_of: "conversion_rules option")

definition ten_msg_conversion_per_property_convert ::
    "msg_handlers \<Rightarrow> string \<Rightarrow> conversion_rules option \<Rightarrow> message \<Rightarrow> message option run" where
  "ten_msg_conversion_per_property_convert h uuid rules_opt msg =
     (case rules_opt of
        None \<Rightarrow> Abort
      | Some rs \<Rightarrow>
          if msg_type msg = TEN_MSG_TYPE_CMD_RESULT
          then ten_result_conversion_per_property_rules_convert h uuid rs msg
          else ten_msg_conversion_per_property_rules_convert h uuid rs msg)"

definition ten_msg_conversion_convert ::
    "msg_handlers \<Rightarrow> string \<Rightarrow> ten_msg_conversion \<Rightarrow> message \<Rightarrow> message option run" where
  "ten_msg_conversion_convert h uuid self msg =
     (case self of PerProperty rules_opt \<Rightarrow> ten_msg_conversion_per_property_convert h uuid rules_opt msg)"

section \<open>Contexts\<close>

record msg_and_result_conversion =
  msg_conversion :: ten_msg_conversion
  result_conversion_of :: "ten_msg_conversion option"

record msg_conversion_context =
  context_msg_name :: string
  context_src_loc :: ten_loc
  context_conversion :: "msg_and_result_conversion option"

definition ten_msg_conversion_is_equal :: "msg_conversion_context \<Rightarrow> msg_conversion_context \<Rightarrow> bool" where
  "ten_msg_conversion_is_equal a b \<longleftrightarrow>
     ten_loc_is_equal (context_src_loc a) (context_src_loc b) \<and> context_msg_name a = context_msg_name b"

text \<open>The context takes the graph id of the first message it is asked about.\<close>

definition ten_msg_conversion_can_match_msg ::
    "msg_conversion_context \<Rightarrow> message \<Rightarrow> bool \<times> msg_conversion_context" where
  "ten_msg_conversion_can_match_msg self msg =
     (let self = (if graph_id (context_src_loc self) = []
                  then self\<lparr>context_src_loc := (context_src_loc self)\<lparr>graph_id := graph_id (src_loc msg)\<rparr>\<rparr>
                  else self)
      in (ten_loc_is_equal (src_loc msg) (context_src_loc self) \<and> context_msg_name self = msg_name msg, self))"

definition TEN_ERRNO_INVALID_GRAPH :: int where "TEN_ERRNO_INVALID_GRAPH = 5"

definition ten_msg_conversion_context_merge ::
    "msg_conversion_context list \<Rightarrow> msg_conversion_context \<Rightarrow> ten_error + msg_conversion_context list" where
  "ten_msg_conversion_context_merge msg_conversions new =
     (if \<exists>c \<in> set msg_conversions. ten_msg_conversion_is_equal c new
      then Inl (ten_error_set ten_error_init TEN_ERRNO_INVALID_GRAPH ''Duplicated message conversion.'')
      else Inr (msg_conversions @ [new]))"

text \<open>The loop over the contexts: what became of them, the messages with the conversions of their
  results, whether nothing went wrong, and how many ids were drawn.\<close>

fun convert_contexts ::
    "msg_handlers \<Rightarrow> (nat \<Rightarrow> string) \<Rightarrow> nat \<Rightarrow> msg_conversion_context list \<Rightarrow> message \<Rightarrow>
       (msg_conversion_context list \<times> (message \<times> ten_msg_conversion option) list \<times> bool \<times> nat) run" where
  "convert_contexts h uuids n [] msg = Ret ([], [], True, n)"
| "convert_contexts h uuids n (c # cs) msg =
     (let (matches, c) = ten_msg_conversion_can_match_msg c msg
      in run_bind
           (case context_conversion c of
              Some conv \<Rightarrow>
                if matches
                then map_run (\<lambda>new_msg. case new_msg of
                         Some m \<Rightarrow> ([(m, result_conversion_of conv)], True, n + 1)
                       | None \<Rightarrow> ([], False, n + 1))
                       (ten_msg_conversion_convert h (uuids n) (msg_conversion conv) msg)
                else Ret ([], True, n)
            | None \<Rightarrow> Ret ([], True, n))
           (\<lambda>(out, ok, n').
              map_run (\<lambda>(cs, outs, oks, n''). (c # cs, out @ outs, ok \<and> oks, n''))
                (convert_contexts h uuids n' cs msg)))"

definition ten_extension_convert_msg ::
    "msg_handlers \<Rightarrow> (nat \<Rightarrow> string) \<Rightarrow> nat \<Rightarrow> msg_conversion_context list \<Rightarrow> message \<Rightarrow>
       (msg_conversion_context list \<times> (message \<times> ten_msg_conversion option) list \<times> bool \<times> nat) run" where
  "ten_extension_convert_msg h uuids n contexts msg =
     run_bind (ten_raw_msg_is_cmd_and_result msg) (\<lambda>is_cmd.
       if is_cmd \<and> msg_type msg \<noteq> TEN_MSG_TYPE_CMD then Ret (contexts, [], False, n)
       else map_run (\<lambda>(cs, outs, ok, n'). (cs, if outs = [] then [(msg, None)] else outs, ok, n'))
              (convert_contexts h uuids n contexts msg))"

section \<open>Conversions as values\<close>

text \<open>The original path is used as a format string.\<close>

definition peek_string_of :: "ten_value \<Rightarrow> string \<Rightarrow> string option run" where
  "peek_string_of v key =
     map_run (\<lambda>r. case r of None \<Rightarrow> None | Some s \<Rightarrow> ten_value_peek_raw_str s) (ten_value_object_peek v key)"

definition ten_msg_conversion_per_property_rule_fixed_value_from_value :: "ten_value \<Rightarrow> rule_mode run" where
  "ten_msg_conversion_per_property_rule_fixed_value_from_value v =
     run_bind (ten_value_object_peek v TEN_STR_VALUE) (\<lambda>fixed.
       case fixed of
         None \<Rightarrow> Abort
       | Some fixed \<Rightarrow>
           if ten_value_get_type fixed \<in> {TEN_TYPE_INT8, TEN_TYPE_INT16, TEN_TYPE_INT32, TEN_TYPE_INT64,
                TEN_TYPE_UINT8, TEN_TYPE_UINT16, TEN_TYPE_UINT32, TEN_TYPE_UINT64, TEN_TYPE_FLOAT32,
                TEN_TYPE_FLOAT64, TEN_TYPE_BOOL, TEN_TYPE_STRING}
           then map_run FixedValue (ten_value_clone fixed) else Abort)"

definition ten_msg_conversion_per_property_rule_from_original_from_value :: "ten_value \<Rightarrow> rule_mode run" where
  "ten_msg_conversion_per_property_rule_from_original_from_value v =
     run_bind (peek_string_of v TEN_STR_ORIGINAL_PATH) (\<lambda>s.
     run_bind (required_string s) (\<lambda>s. map_run FromOriginal (format_no_args s)))"

definition ten_msg_conversion_per_property_rule_from_value :: "ten_value \<Rightarrow> conversion_rule run" where
  "ten_msg_conversion_per_property_rule_from_value v =
     run_bind (peek_string_of v TEN_STR_PATH) (\<lambda>p.
     run_bind (required_string p) (\<lambda>p.
     run_bind (peek_string_of v TEN_STR_CONVERSION_MODE) (\<lambda>mode.
     run_bind
       (if mode = Some TEN_STR_FIXED_VALUE then ten_msg_conversion_per_property_rule_fixed_value_from_value v
        else if mode = Some TEN_STR_FROM_ORIGINAL
        then ten_msg_conversion_per_property_rule_from_original_from_value v
        else Abort)
       (\<lambda>m. Ret \<lparr>property_path = p, conversion_mode = m\<rparr>))))"

text \<open>\<open>None\<close> is NULL.\<close>

definition ten_msg_conversion_per_property_rules_from_value :: "ten_value option \<Rightarrow> conversion_rules option run" where
  "ten_msg_conversion_per_property_rules_from_value v =
     (case v of
        None \<Rightarrow> Abort
      | Some v \<Rightarrow>
          if \<not> ten_value_is_array v then Ret None
          else map_run (\<lambda>rs. Some \<lparr>rules = rs, keep_original = False\<rparr>)
                 (ten_list_foreach_of (content_array v)
                   (run_map ten_msg_conversion_per_property_rule_from_value (content_array v))))"

text \<open>The rules are dereferenced when the flag is set, even if they are NULL.\<close>

definition ten_msg_conversion_per_property_from_value :: "ten_value \<Rightarrow> ten_msg_conversion option run" where
  "ten_msg_conversion_per_property_from_value v =
     (if \<not> ten_value_is_object v then Ret None
      else run_bind (ten_value_object_peek v TEN_STR_RULES) (\<lambda>rules_value.
           run_bind (ten_msg_conversion_per_property_rules_from_value rules_value) (\<lambda>rs.
           run_bind (ten_value_object_peek v TEN_STR_KEEP_ORIGINAL) (\<lambda>keep.
             case keep of
               Some (VBool b) \<Rightarrow>
                 (case rs of
                    None \<Rightarrow> Undef
                  | Some rs \<Rightarrow> Ret (Some (PerProperty (Some (rs\<lparr>keep_original := b\<rparr>)))))
             | _ \<Rightarrow> Ret (Some (PerProperty rs))))))"

definition ten_msg_conversion_from_value :: "ten_value \<Rightarrow> ten_msg_conversion option run" where
  "ten_msg_conversion_from_value v =
     run_bind (ten_value_object_peek v TEN_STR_TYPE) (\<lambda>type_value.
       case type_value of
         Some (VString s) \<Rightarrow>
           if s = TEN_STR_PER_PROPERTY then ten_msg_conversion_per_property_from_value v else Ret None
       | _ \<Rightarrow> Ret None)"

definition ten_msg_and_result_conversion_from_value :: "ten_value \<Rightarrow> msg_and_result_conversion option run" where
  "ten_msg_and_result_conversion_from_value v =
     run_bind (ten_msg_conversion_from_value v) (\<lambda>msg.
       case msg of
         None \<Rightarrow> Ret None
       | Some msg \<Rightarrow>
           run_bind (ten_value_object_peek v TEN_STR_RESULT) (\<lambda>resp_value.
             case resp_value of
               None \<Rightarrow> Ret (Some \<lparr>msg_conversion = msg, result_conversion_of = None\<rparr>)
             | Some resp_value \<Rightarrow>
                 map_run (map_option (\<lambda>r. \<lparr>msg_conversion = msg, result_conversion_of = Some r\<rparr>))
                   (ten_msg_conversion_from_value resp_value)))"

definition ten_msg_conversion_context_from_value ::
    "ten_value \<Rightarrow> ten_loc \<Rightarrow> string \<Rightarrow> msg_conversion_context run" where
  "ten_msg_conversion_context_from_value v src cmd_name =
     run_bind (ten_loc_init_from_loc src) (\<lambda>l.
       if \<not> ten_value_is_object v then Abort
       else run_bind (ten_msg_and_result_conversion_from_value v) (\<lambda>conv.
         case conv of
           None \<Rightarrow> Abort
         | Some conv \<Rightarrow> Ret \<lparr>context_msg_name = cmd_name, context_src_loc = l, context_conversion = Some conv\<rparr>))"

definition string_entry :: "string \<Rightarrow> string \<Rightarrow> (string \<times> ten_value) run" where
  "string_entry key s = ten_value_kv_create key (ten_value_create_string s)"

definition ten_msg_conversion_per_property_rule_fixed_value_to_value :: "ten_value \<Rightarrow> (string \<times> ten_value) run" where
  "ten_msg_conversion_per_property_rule_fixed_value_to_value v =
     run_bind (ten_value_clone v) (ten_value_kv_create TEN_STR_VALUE)"

definition ten_msg_conversion_per_property_rule_from_original_to_value :: "string \<Rightarrow> (string \<times> ten_value) run" where
  "ten_msg_conversion_per_property_rule_from_original_to_value p = string_entry TEN_STR_ORIGINAL_PATH p"

definition ten_msg_conversion_per_property_rule_to_value :: "conversion_rule \<Rightarrow> ten_value run" where
  "ten_msg_conversion_per_property_rule_to_value self =
     (case conversion_mode self of
        ModeInvalid \<Rightarrow> Abort
      | FixedValue v \<Rightarrow>
          run_bind (string_entry TEN_STR_CONVERSION_MODE TEN_STR_FIXED_VALUE) (\<lambda>mode.
          run_bind (string_entry TEN_STR_PATH (property_path self)) (\<lambda>p.
          run_bind (ten_msg_conversion_per_property_rule_fixed_value_to_value v) (\<lambda>kv.
            Ret (VObject [mode, p, kv]))))
      | FromOriginal op \<Rightarrow>
          run_bind (string_entry TEN_STR_CONVERSION_MODE TEN_STR_FROM_ORIGINAL) (\<lambda>mode.
          run_bind (string_entry TEN_STR_PATH (property_path self)) (\<lambda>p.
          run_bind (ten_msg_conversion_per_property_rule_from_original_to_value op) (\<lambda>kv.
            Ret (VObject [mode, p, kv])))))"

definition ten_msg_conversion_per_property_rules_to_value :: "conversion_rules \<Rightarrow> ten_value run" where
  "ten_msg_conversion_per_property_rules_to_value self =
     map_run VArray (ten_list_foreach_of (rules self)
       (run_map ten_msg_conversion_per_property_rule_to_value (rules self)))"

definition ten_msg_conversion_per_property_to_value :: "conversion_rules option \<Rightarrow> ten_value run" where
  "ten_msg_conversion_per_property_to_value rules_opt =
     run_bind (string_entry TEN_STR_TYPE TEN_STR_PER_PROPERTY) (\<lambda>type_kv.
       case rules_opt of
         None \<Rightarrow> Undef
       | Some self \<Rightarrow>
           run_bind (if keep_original self
               then map_run (\<lambda>kv. [kv]) (ten_value_kv_create TEN_STR_KEEP_ORIGINAL (VBool (keep_original self)))
               else Ret []) (\<lambda>keep_original_kv.
           run_bind (ten_msg_conversion_per_property_rules_to_value self) (\<lambda>rules_value.
           run_bind (ten_value_kv_create TEN_STR_RULES rules_value) (\<lambda>rules_kv.
             Ret (VObject (type_kv # keep_original_kv @ [rules_kv]))))))"

definition ten_msg_conversion_to_value :: "ten_msg_conversion \<Rightarrow> ten_value run" where
  "ten_msg_conversion_to_value self =
     (case self of PerProperty rules_opt \<Rightarrow> ten_msg_conversion_per_property_to_value rules_opt)"

definition ten_msg_and_result_conversion_to_value :: "msg_and_result_conversion \<Rightarrow> ten_value run" where
  "ten_msg_and_result_conversion_to_value self =
     run_bind (ten_msg_conversion_to_value (msg_conversion self)) (\<lambda>v.
       case result_conversion_of self of
         None \<Rightarrow> Ret v
       | Some r \<Rightarrow>
           run_bind (ten_msg_conversion_to_value r) (\<lambda>rv.
           run_bind (ten_value_kv_create TEN_STR_RESULT rv) (\<lambda>kv.
             Ret (VObject (content_object v @ [kv])))))"

section \<open>Conversions survive the way through a value\<close>

text \<open>Conversions that values can express: at most 100000 rules, none without a mode, fixed values of the
  twelve simple types, and original paths without a percent sign.\<close>

definition expressible_mode :: "rule_mode \<Rightarrow> bool" where
  "expressible_mode mode = (case mode of
      ModeInvalid \<Rightarrow> False
    | FromOriginal p \<Rightarrow> plain_key p
    | FixedValue v \<Rightarrow> ten_value_get_type v \<in> {TEN_TYPE_INT8, TEN_TYPE_INT16, TEN_TYPE_INT32, TEN_TYPE_INT64,
        TEN_TYPE_UINT8, TEN_TYPE_UINT16, TEN_TYPE_UINT32, TEN_TYPE_UINT64, TEN_TYPE_FLOAT32,
        TEN_TYPE_FLOAT64, TEN_TYPE_BOOL, TEN_TYPE_STRING})"

definition expressible :: "ten_msg_conversion \<Rightarrow> bool" where
  "expressible c \<longleftrightarrow> (\<exists>rs. c = PerProperty (Some rs) \<and> walkable (rules rs) \<and>
     (\<forall>r \<in> set (rules rs). expressible_mode (conversion_mode r)))"

lemma plain_keys_conversion [simp]:
  "plain_key TEN_STR_CONVERSION_MODE" "plain_key TEN_STR_PATH" "plain_key TEN_STR_VALUE"
  "plain_key TEN_STR_ORIGINAL_PATH" "plain_key TEN_STR_TYPE" "plain_key TEN_STR_RULES"
  "plain_key TEN_STR_KEEP_ORIGINAL" "plain_key TEN_STR_RESULT"
  by (simp_all add: plain_key_def)

lemma kv_create_plain [simp]: "plain_key k \<Longrightarrow> ten_value_kv_create k v = Ret (k, v)"
  by (simp add: ten_value_kv_create_def ten_value_kv_create_empty_def)

lemma string_entry_plain [simp]: "plain_key k \<Longrightarrow> string_entry k s = Ret (k, VString s)"
  by (simp add: string_entry_def ten_value_create_string_def ten_value_init_string_with_size_def)

lemma clone_simple:
  "expressible_mode (FixedValue v) \<Longrightarrow> ten_value_clone v = Ret v"
  by (cases v) (auto simp: expressible_mode_def)

lemma rule_roundtrip:
  assumes "expressible_mode (conversion_mode r)"
  shows "\<exists>v. ten_msg_conversion_per_property_rule_to_value r = Ret v \<and>
             ten_msg_conversion_per_property_rule_from_value v = Ret r"
proof (cases "conversion_mode r")
  case ModeInvalid
  with assms show ?thesis by (simp add: expressible_mode_def)
next
  case (FromOriginal p)
  with assms show ?thesis
    by (cases r) (simp add: expressible_mode_def ten_msg_conversion_per_property_rule_to_value_def
        ten_msg_conversion_per_property_rule_from_original_to_value_def
        ten_msg_conversion_per_property_rule_from_value_def peek_string_of_def required_string_def
        ten_value_object_peek_def ten_value_peek_raw_str_def walkable_numeral
        ten_msg_conversion_per_property_rule_from_original_from_value_def)
next
  case (FixedValue v)
  with assms clone_simple [of v] show ?thesis
    by (cases r) (auto simp: expressible_mode_def ten_msg_conversion_per_property_rule_to_value_def
        ten_msg_conversion_per_property_rule_fixed_value_to_value_def
        ten_msg_conversion_per_property_rule_from_value_def peek_string_of_def required_string_def
        ten_value_object_peek_def ten_value_peek_raw_str_def walkable_numeral
        ten_msg_conversion_per_property_rule_fixed_value_from_value_def)
qed

lemma run_map_roundtrip:
  assumes "\<And>x. x \<in> set xs \<Longrightarrow> \<exists>y. f x = Ret y \<and> g y = Ret x"
  shows "\<exists>ys. run_map f xs = Ret ys \<and> run_map g ys = Ret xs"
  using assms
proof (induction xs)
  case (Cons x xs)
  then obtain y ys where "f x = Ret y" "g y = Ret x" "run_map f xs = Ret ys" "run_map g ys = Ret xs"
    by (metis list.set_intros)
  then show ?case by (intro exI [of _ "y # ys"]) simp
qed simp

lemma conversion_roundtrip:
  assumes "expressible c"
  shows "\<exists>kvs. ten_msg_conversion_to_value c = Ret (VObject kvs) \<and> TEN_STR_RESULT \<notin> fst ` set kvs \<and> length kvs \<le> 3 \<and>
    (\<forall>tail. fst ` set tail \<subseteq> {TEN_STR_RESULT} \<and> length tail \<le> 1 \<longrightarrow>
       ten_msg_conversion_from_value (VObject (kvs @ tail)) = Ret (Some c))"
proof -
  obtain rs where c: "c = PerProperty (Some rs)" and rs: "\<forall>r \<in> set (rules rs). expressible_mode (conversion_mode r)"
    and len: "walkable (rules rs)"
    using assms by (auto simp: expressible_def)
  obtain vs where vs: "run_map ten_msg_conversion_per_property_rule_to_value (rules rs) = Ret vs"
    "run_map ten_msg_conversion_per_property_rule_from_value vs = Ret (rules rs)"
    using run_map_roundtrip [of "rules rs" ten_msg_conversion_per_property_rule_to_value
        ten_msg_conversion_per_property_rule_from_value] rs rule_roundtrip by blast
  let ?kvs = "(TEN_STR_TYPE, VString TEN_STR_PER_PROPERTY) #
     (if keep_original rs then [(TEN_STR_KEEP_ORIGINAL, VBool True)] else []) @ [(TEN_STR_RULES, VArray vs)]"
  have "ten_msg_conversion_to_value c = Ret (VObject ?kvs)"
    by (simp add: c ten_msg_conversion_to_value_def ten_msg_conversion_per_property_to_value_def
        ten_msg_conversion_per_property_rules_to_value_def vs len)
  moreover have "ten_msg_conversion_from_value (VObject (?kvs @ tail)) = Ret (Some c)"
    if "fst ` set tail \<subseteq> {TEN_STR_RESULT} \<and> length tail \<le> 1" for tail
  proof -
    have tail: "TEN_STR_KEEP_ORIGINAL \<notin> fst ` set tail" using that by auto
    have w: "walkable (?kvs @ tail)" using that by (simp add: walkable_numeral)
    have wv: "walkable vs" using len list_all2_lengthD [OF run_map_eq_RetD [OF vs(1)]] by (simp add: walkable_def)
    obtain rl keep where "rs = \<lparr>rules = rl, keep_original = keep\<rparr>" by (cases rs)
    with vs tail w wv show ?thesis
      by (simp add: c ten_msg_conversion_from_value_def ten_value_object_peek_def
          ten_msg_conversion_per_property_from_value_def ten_msg_conversion_per_property_rules_from_value_def)
  qed
  ultimately show ?thesis by (intro exI [of _ ?kvs]) (auto split: if_splits)
qed

lemma both_conversions_roundtrip:
  assumes "expressible (msg_conversion c)"
    and "\<And>r. result_conversion_of c = Some r \<Longrightarrow> expressible r"
  shows "\<exists>v. ten_msg_and_result_conversion_to_value c = Ret v \<and>
             ten_msg_and_result_conversion_from_value v = Ret (Some c) \<and>
             ten_value_is_object v"
proof -
  obtain kvs where kvs: "ten_msg_conversion_to_value (msg_conversion c) = Ret (VObject kvs)"
    "TEN_STR_RESULT \<notin> fst ` set kvs" "length kvs \<le> 3"
    "\<And>tail. fst ` set tail \<subseteq> {TEN_STR_RESULT} \<and> length tail \<le> 1 \<Longrightarrow>
       ten_msg_conversion_from_value (VObject (kvs @ tail)) = Ret (Some (msg_conversion c))"
    using conversion_roundtrip [OF assms(1)] by blast
  have w: "walkable kvs" "walkable (kvs @ [kv])" for kv using kvs(3) by (simp_all add: walkable_numeral)
  show ?thesis
  proof (cases "result_conversion_of c")
    case None
    with kvs kvs(4) [of "[]"] w show ?thesis
      by (cases c) (simp add: ten_msg_and_result_conversion_to_value_def
          ten_msg_and_result_conversion_from_value_def ten_value_object_peek_def)
  next
    case (Some r)
    then obtain rkvs where r: "ten_msg_conversion_to_value r = Ret (VObject rkvs)"
      "ten_msg_conversion_from_value (VObject rkvs) = Ret (Some r)"
      using conversion_roundtrip [OF assms(2)] by (metis append_Nil2 empty_subsetI image_empty list.set(1) list.size(3) zero_le)
    with kvs Some w kvs(4) [of "[(TEN_STR_RESULT, VObject rkvs)]"] show ?thesis
      by (cases c) (simp add: ten_msg_and_result_conversion_to_value_def
          ten_msg_and_result_conversion_from_value_def ten_value_object_peek_def find_entry_append)
  qed
qed

text \<open>C20: A conversion of a message and of its result that values can express is the same after it went
  through a value.\<close>

theorem conversion_value_roundtrip:
  assumes "expressible (msg_conversion c)"
    and "\<And>r. result_conversion_of c = Some r \<Longrightarrow> expressible r"
  shows "\<exists>v. ten_msg_and_result_conversion_to_value c = Ret v \<and>
             ten_msg_and_result_conversion_from_value v = Ret (Some c)"
  using both_conversions_roundtrip [OF assms] by blast

theorem conversion_value_roundtrip_witness:
  "\<exists>v. ten_msg_and_result_conversion_to_value
         \<lparr>msg_conversion = PerProperty (Some \<lparr>rules = [\<lparr>property_path = ''a'', conversion_mode = FixedValue (VBool True)\<rparr>,
              \<lparr>property_path = ''b'', conversion_mode = FromOriginal ''c''\<rparr>], keep_original = True\<rparr>),
          result_conversion_of = None\<rparr> = Ret v \<and>
       ten_msg_and_result_conversion_from_value v = Ret (Some
         \<lparr>msg_conversion = PerProperty (Some \<lparr>rules = [\<lparr>property_path = ''a'', conversion_mode = FixedValue (VBool True)\<rparr>,
              \<lparr>property_path = ''b'', conversion_mode = FromOriginal ''c''\<rparr>], keep_original = True\<rparr>),
          result_conversion_of = None\<rparr>)"
  by (rule conversion_value_roundtrip) (simp_all add: expressible_def expressible_mode_def plain_key_def walkable_numeral)

section \<open>What a conversion makes of the properties\<close>

lemma parse_bracket_no_invalid:
  "ItemInvalid \<notin> set result \<Longrightarrow> ItemInvalid \<notin> set (snd (parse_bracket_loop first cs result))"
  by (induction first cs result rule: parse_bracket_loop.induct)
    (auto simp: ten_value_path_parse_between_bracket_def Let_def split: option.splits if_splits)

lemma parse_colon_no_invalid:
  "parse_colon_loop cs result = Ret (rc, items) \<Longrightarrow> ItemInvalid \<notin> set result \<Longrightarrow> ItemInvalid \<notin> set items"
proof (induction cs result rule: parse_colon_loop.induct)
  case (2 c cs result)
  from 2(2) obtain rc' result' where r: "ten_value_path_parse_between_colon c result = Ret (rc', result')" by auto
  then have "ItemInvalid \<notin> set result'"
    using parse_bracket_no_invalid [OF 2(3), of True "ten_c_string_split c (CHR ''['')"]
    by (simp add: ten_value_path_parse_between_colon_def Let_def)
  with 2 r show ?case by (cases rc') auto
qed simp

lemma parse_no_invalid:
  "ten_value_path_parse p = Ret (Some items, err) \<Longrightarrow> ItemInvalid \<notin> set items"
  by (auto simp: ten_value_path_parse_def Let_def dest: parse_colon_no_invalid split: if_splits)

text \<open>What a path finds in a value that can be copied can be copied.\<close>

lemma peek_loop_copyable:
  "ItemInvalid \<notin> set items \<Longrightarrow> keys_plain base \<Longrightarrow> bufs_exact base \<Longrightarrow>
     \<exists>r. peek_loop base items = Ret r \<and> (\<forall>v. r = Some v \<longrightarrow> keys_plain v \<and> bufs_exact v)"
proof (induction base items rule: peek_loop.induct)
  case (3 base k items)
  then show ?case by (cases base) (fastforce split: option.splits dest: find_entry_SomeD)+
next
  case (4 base i items)
  then show ?case by (cases base) (auto dest: nth_mem)
qed auto

text \<open>The value a rule takes from the message.\<close>

definition rule_value :: "msg_handlers \<Rightarrow> message \<Rightarrow> conversion_rule \<Rightarrow> ten_value" where
  "rule_value h m r = (case conversion_mode r of
      FixedValue v \<Rightarrow> v
    | FromOriginal p \<Rightarrow>
        (case ten_msg_conversion_per_property_rule_from_original_get_value h p m of
           Ret (Some v) \<Rightarrow> v | _ \<Rightarrow> VInvalid)
    | ModeInvalid \<Rightarrow> VInvalid)"

text \<open>A path that can be parsed, with at most 100000 items, and does not lead to the name space \<open>_ten\<close>;
  a malformed path is another one that can be parsed.\<close>

definition readable_path :: "string \<Rightarrow> bool" where
  "readable_path p \<longleftrightarrow> (case ten_value_path_parse p of
      Ret (Some items, _) \<Rightarrow> walkable items \<and> (items = [] \<or> hd items \<noteq> ObjectItem TEN_STR_UNDERLINE_TEN)
    | Ret (None, _) \<Rightarrow> True
    | _ \<Rightarrow> False)"

text \<open>Rules that set one key of the properties, not in the name space \<open>_ten\<close>, and take nothing from
  that name space.\<close>

definition key_rule :: "conversion_rule \<Rightarrow> bool" where
  "key_rule r \<longleftrightarrow> segment_ok (property_path r, []) \<and> plain_key (property_path r) \<and>
     property_path r \<noteq> TEN_STR_UNDERLINE_TEN \<and>
     (case conversion_mode r of
        ModeInvalid \<Rightarrow> False
      | FixedValue v \<Rightarrow> keys_plain v \<and> bufs_exact v
      | FromOriginal p \<Rightarrow> readable_path p)"

definition put_entry :: "string \<Rightarrow> ten_value \<Rightarrow> (string \<times> ten_value) list \<Rightarrow> (string \<times> ten_value) list" where
  "put_entry k v kvs = (if k \<in> fst ` set kvs then update_entry k v kvs else kvs @ [(k, v)])"

lemma find_put_entry: "find_entry k' (put_entry k v kvs) = (if k' = k then Some v else find_entry k' kvs)"
  by (auto simp: put_entry_def find_entry_append split: option.splits dest: find_entry_key)

lemma get_value_copyable:
  assumes "copyable (properties m)" and "readable_path p"
  shows "\<exists>r. ten_msg_conversion_per_property_rule_from_original_get_value h p m = Ret r \<and>
             (\<forall>v. r = Some v \<longrightarrow> keys_plain v \<and> bufs_exact v)"
proof (cases "p = []")
  case True
  with assms(1) show ?thesis
    by (auto simp: ten_msg_conversion_per_property_rule_from_original_get_value_def
        ten_raw_msg_peek_property_def copyable_def)
next
  case False
  obtain o_items err where parse: "ten_value_path_parse p = Ret (o_items, err)"
    using assms(2) by (auto simp: readable_path_def split: run.splits)
  show ?thesis
  proof (cases o_items)
    case None
    with parse False show ?thesis
      by (simp add: ten_msg_conversion_per_property_rule_from_original_get_value_def ten_raw_msg_peek_property_def)
  next
    case (Some items)
    obtain r where "peek_loop (properties m) items = Ret r" "\<forall>v. r = Some v \<longrightarrow> keys_plain v \<and> bufs_exact v"
      using peek_loop_copyable [OF parse_no_invalid, of p items err "properties m"] parse Some assms(1)
      by (auto simp: copyable_def)
    with parse Some assms(2) False show ?thesis
      by (cases r)
        (auto simp: ten_msg_conversion_per_property_rule_from_original_get_value_def readable_path_def
           ten_raw_msg_peek_property_def ten_value_peek_from_path_def)
  qed
qed

text \<open>A value that can be copied can be destroyed.\<close>

lemma destroy_plain: "keys_plain v \<Longrightarrow> ten_value_destroy v = Ret ()"
proof (induction v rule: ten_value_destroy.induct)
  case (1 vs)
  then show ?case using run_map_all_Ret [of vs ten_value_destroy "\<lambda>_. ()"] by simp
next
  case (2 kvs)
  then have "ten_value_destroy (snd kv) = Ret ()" if "kv \<in> set kvs" for kv using that by (cases kv) auto
  with 2 run_map_all_Ret [of kvs "\<lambda>kv. ten_value_destroy (snd kv)" "\<lambda>_. ()"] show ?case by simp
qed simp_all

lemma set_key_property:
  assumes "segment_ok (k, [])" "plain_key k" "k \<noteq> TEN_STR_UNDERLINE_TEN" "properties m = VObject kvs"
    and "length kvs < TEN_LIST_LOOP_MAX_ALLOWABLE_CNT" and "\<forall>v \<in> snd ` set kvs. keys_plain v"
  shows "ten_raw_msg_set_property other m k v = Ret (True, m\<lparr>properties := VObject (put_entry k v kvs)\<rparr>)"
proof -
  have "k \<noteq> []" using assms(1) by (simp add: segment_ok_def)
  moreover have "ten_value_path_parse k = Ret (Some [ObjectItem k], None)"
    using parse_render_path [of "[(k, [])]"] assms(1)
    by (simp add: render_segment_def path_items_def segment_items_def walkable_numeral)
  moreover have "put_entry k v kvs = (case find_entry k kvs of None \<Rightarrow> kvs @ [(k, v)] | Some w \<Rightarrow> update_entry k v kvs)"
    by (auto simp: put_entry_def split: option.splits dest: find_entry_key)
  moreover have "walkable kvs" "walkable [ObjectItem k]" using assms(5) by (simp_all add: walkable_numeral)
  moreover have "ten_value_destroy w = Ret ()" if "find_entry k kvs = Some w" for w
    using find_entry_SomeD [OF that] assms(6) by (force intro: destroy_plain)
  ultimately show ?thesis
    using assms(2,3,4) by (auto simp: ten_raw_msg_set_property_def ten_value_set_from_path_list_with_move_def
        ten_value_kv_create_def ten_value_kv_create_empty_def split: option.splits)
qed

lemma rule_value_plain:
  "key_rule r \<Longrightarrow> copyable (properties m) \<Longrightarrow> keys_plain (rule_value h m r) \<and> bufs_exact (rule_value h m r)"
  by (auto simp: key_rule_def rule_value_def dest: get_value_copyable [of m _ h] split: rule_mode.splits option.splits)

lemma rule_convert_eq:
  assumes "key_rule r" and "copyable (properties m)" and "properties c = VObject kvs"
    and "length kvs < TEN_LIST_LOOP_MAX_ALLOWABLE_CNT" and "\<forall>v \<in> snd ` set kvs. keys_plain v"
  shows "ten_msg_conversion_per_property_rule_convert h r m c =
    Ret (True, c\<lparr>properties := VObject (put_entry (property_path r) (rule_value h m r) kvs)\<rparr>)"
proof (cases "conversion_mode r")
  case (FromOriginal p)
  with assms get_value_copyable [OF assms(2), of p h] set_key_property [of "property_path r" c kvs] show ?thesis
    by (auto simp: key_rule_def ten_msg_conversion_per_property_rule_convert_def rule_value_def
        ten_msg_conversion_per_property_rule_from_original_convert_def split: option.splits)
next
  case (FixedValue v)
  with assms set_key_property [of "property_path r" c kvs] show ?thesis
    by (simp add: key_rule_def ten_msg_conversion_per_property_rule_convert_def rule_value_def
        ten_msg_conversion_per_property_rule_fixed_value_convert_def)
qed (use assms in \<open>simp add: key_rule_def\<close>)

lemma update_entry_values: "x \<in> set (update_entry k w kvs) \<Longrightarrow> snd x = w \<or> snd x \<in> snd ` set kvs"
  by (induction k w kvs rule: update_entry.induct) (auto split: if_splits)

lemma put_entry_plain:
  "\<forall>v \<in> snd ` set kvs. keys_plain v \<Longrightarrow> keys_plain w \<Longrightarrow> v \<in> snd ` set (put_entry k w kvs) \<Longrightarrow> keys_plain v"
  by (auto simp: put_entry_def dest!: update_entry_values split: if_splits)

lemma length_put_entry: "length (put_entry k v kvs) \<le> Suc (length kvs)"
  by (simp add: put_entry_def)

lemma convert_loop_eq:
  "\<forall>r \<in> set rs. key_rule r \<Longrightarrow> copyable (properties m) \<Longrightarrow> properties c = VObject kvs \<Longrightarrow>
   length kvs + length rs \<le> TEN_LIST_LOOP_MAX_ALLOWABLE_CNT \<Longrightarrow> \<forall>v \<in> snd ` set kvs. keys_plain v \<Longrightarrow>
   convert_loop h rs m (Some c) =
     Ret (Some (c\<lparr>properties := VObject (fold (\<lambda>r. put_entry (property_path r) (rule_value h m r)) rs kvs)\<rparr>))"
proof (induction rs arbitrary: c kvs)
  case Nil
  then show ?case by (cases c) simp
next
  case (Cons r rs)
  let ?kvs = "put_entry (property_path r) (rule_value h m r) kvs"
  have "\<forall>v \<in> snd ` set ?kvs. keys_plain v"
    using Cons.prems put_entry_plain [of kvs] rule_value_plain [of r m h] by (metis list.set_intros(1))
  with Cons.prems length_put_entry [of "property_path r" "rule_value h m r" kvs] show ?case
    using Cons.IH [of "c\<lparr>properties := VObject ?kvs\<rparr>" ?kvs] by (simp add: rule_convert_eq)
qed

text \<open>The last rule for a key decides.\<close>

definition rule_for :: "string \<Rightarrow> conversion_rule list \<Rightarrow> conversion_rule option" where
  "rule_for k rs = List.find (\<lambda>r. property_path r = k) (rev rs)"

lemma find_append: "List.find P (xs @ ys) = (case List.find P xs of None \<Rightarrow> List.find P ys | Some x \<Rightarrow> Some x)"
  by (induction xs) auto

lemma find_fold_put_entry:
  "find_entry k (fold (\<lambda>r. put_entry (property_path r) (val r)) rs kvs) =
     (case rule_for k rs of Some r \<Rightarrow> Some (val r) | None \<Rightarrow> find_entry k kvs)"
  by (induction rs arbitrary: kvs) (auto simp: rule_for_def find_put_entry find_append split: option.splits)

definition converted_properties :: "msg_handlers \<Rightarrow> conversion_rules \<Rightarrow> bool \<Rightarrow> message \<Rightarrow> string \<Rightarrow> ten_value option" where
  "converted_properties h rs keep m k =
     (case rule_for k (rules rs) of
        Some r \<Rightarrow> Some (rule_value h m r)
      | None \<Rightarrow> if keep then find_entry k (content_object (properties m)) else None)"

text \<open>C15: The properties and the rules are at most 100000 together.  Converting a custom command by rules
  for single keys gives a copy of it with a new id, which
  holds for every key the value of the last rule for that key - a fixed value, or what the original
  has at the path of the rule, or an invalid value when it has nothing there - and for a key without
  a rule the original value if the rules say so.  The conversion of a result keeps the id of the
  result, and it keeps the properties without a rule whatever the rules say.\<close>

theorem conversion_correct:
  assumes "clonable m" and "\<forall>r \<in> set (rules rs). key_rule r"
    and "length (content_object (properties m)) + length (rules rs) \<le> TEN_LIST_LOOP_MAX_ALLOWABLE_CNT"
  shows "(msg_type m = TEN_MSG_TYPE_CMD \<longrightarrow>
     (\<exists>c. ten_msg_conversion_convert h uuid (PerProperty (Some rs)) m = Ret (Some c) \<and>
          ten_cmd_base.truncate (c\<lparr>properties := VObject []\<rparr>) = copied_cmd uuid False m \<and>
          ten_value_is_object (properties c) \<and>
          (\<forall>k. find_entry k (content_object (properties c)) = converted_properties h rs (keep_original rs) m k))) \<and>
    (is_result m \<longrightarrow> status_code m \<noteq> TEN_STATUS_CODE_INVALID \<longrightarrow>
     (\<exists>c. ten_msg_conversion_convert h uuid (PerProperty (Some rs)) m = Ret (Some c) \<and>
          cmd_id c = cmd_id m \<and> status_code c = status_code m \<and> is_final c = is_final m \<and>
          src_loc c = src_loc m \<and> dest_loc c = dest_loc m \<and> ten_value_is_object (properties c) \<and>
          (\<forall>k. find_entry k (content_object (properties c)) = converted_properties h rs True m k)))"
proof (intro conjI impI)
  have m: "copyable (properties m)" using assms(1) by (simp add: clonable_def)
  then obtain kvs where kvs: "properties m = VObject kvs" by (auto simp: copyable_def)
  have w: "walkable (rules rs)" using assms(3) by (simp add: walkable_def)
  have plain: "\<forall>v \<in> snd ` set kvs. keys_plain v" using m kvs by (auto simp: copyable_def)
  let ?put = "\<lambda>r. put_entry (property_path r) (rule_value h m r)"
  {
    assume cmd: "msg_type m = TEN_MSG_TYPE_CMD"
    have "set (excluded_fields rs) \<subseteq> {TEN_MSG_FIELD_PROPERTIES}" by (simp add: excluded_fields_def)
    then obtain c where c: "ten_msg_clone (clone_other h) uuid m (excluded_fields rs) = Ret (Some c)"
      "ten_cmd_base.truncate c = copied_cmd uuid (excluded_fields rs = []) m"
      using clone_command [OF assms(1) _ cmd, of "excluded_fields rs" "clone_other h" uuid] by blast
    let ?kvs = "if keep_original rs then kvs else []"
    have p: "properties c = VObject ?kvs"
      using arg_cong [OF c(2), of properties] kvs
      by (simp add: copied_cmd_def excluded_fields_def ten_cmd_base.defs)
    have t: "ten_cmd_base.truncate (c\<lparr>properties := VObject []\<rparr>) = copied_cmd uuid False m"
      using c(2) by (cases c) (simp add: copied_cmd_def ten_cmd_base.defs)
    have "convert_loop h (rules rs) m (Some c) =
        Ret (Some (c\<lparr>properties := VObject (fold ?put (rules rs) ?kvs)\<rparr>))"
      using assms(3) kvs plain by (intro convert_loop_eq [OF assms(2) m p]) auto
    with c(1) p cmd t w
    show "\<exists>c. ten_msg_conversion_convert h uuid (PerProperty (Some rs)) m = Ret (Some c) \<and>
          ten_cmd_base.truncate (c\<lparr>properties := VObject []\<rparr>) = copied_cmd uuid False m \<and>
          ten_value_is_object (properties c) \<and>
          (\<forall>k. find_entry k (content_object (properties c)) = converted_properties h rs (keep_original rs) m k)"
      by (intro exI [of _ "c\<lparr>properties := VObject (fold ?put (rules rs) ?kvs)\<rparr>"])
        (simp add: ten_msg_conversion_convert_def ten_msg_conversion_per_property_convert_def
           ten_msg_conversion_per_property_rules_convert_def find_fold_put_entry converted_properties_def kvs split: option.split)
  next
    assume res: "is_result m" and st: "status_code m \<noteq> TEN_STATUS_CODE_INVALID"
    let ?c = "m\<lparr>locked_res := [], parent_cmd_id := cmd_id m, cmd_id := cmd_id m, original_cmd_name := [],
                 is_completed := True, data_buf := ten_buf_init_empty\<rparr>"
    have p: "properties ?c = VObject kvs" by (simp add: kvs)
    from clone_result [OF assms(1) res] st res w convert_loop_eq [OF assms(2) m p _ plain, of h] assms(3) kvs
    show "\<exists>c. ten_msg_conversion_convert h uuid (PerProperty (Some rs)) m = Ret (Some c) \<and>
          cmd_id c = cmd_id m \<and> status_code c = status_code m \<and> is_final c = is_final m \<and>
          src_loc c = src_loc m \<and> dest_loc c = dest_loc m \<and> ten_value_is_object (properties c) \<and>
          (\<forall>k. find_entry k (content_object (properties c)) = converted_properties h rs True m k)"
      by (intro exI [of _ "?c\<lparr>properties := VObject (fold ?put (rules rs) kvs)\<rparr>"])
        (simp add: ten_msg_conversion_convert_def ten_msg_conversion_per_property_convert_def is_result_def
           ten_result_conversion_per_property_rules_convert_def ten_raw_cmd_base_set_cmd_id_def
           find_fold_put_entry converted_properties_def kvs split: option.split)
  }
qed

theorem conversion_correct_witness:
  "\<exists>c. ten_msg_conversion_convert
         \<lparr>clone_other = \<lambda>m _. Ret m, set_other_property = \<lambda>m _ _. (False, m), peek_other_property = \<lambda>_ _. None\<rparr> ''u''
         (PerProperty (Some \<lparr>rules = [\<lparr>property_path = ''a'', conversion_mode = FixedValue (VBool True)\<rparr>],
            keep_original = False\<rparr>))
         ((ten_raw_cmd_init TEN_MSG_TYPE_CMD)\<lparr>properties := VObject [(''b'', VNull)]\<rparr>) = Ret (Some c) \<and>
       find_entry ''a'' (content_object (properties c)) = Some (VBool True) \<and>
       find_entry ''b'' (content_object (properties c)) = None"
proof -
  let ?m = "(ten_raw_cmd_init TEN_MSG_TYPE_CMD)\<lparr>properties := VObject [(''b'', VNull)]\<rparr>"
  let ?rs = "\<lparr>rules = [\<lparr>property_path = ''a'', conversion_mode = FixedValue (VBool True)\<rparr>], keep_original = False\<rparr>"
  have m: "clonable ?m" by (simp add: clonable_def copyable_def create_defs plain_key_def walkable_numeral)
  have r: "\<forall>r \<in> set (rules ?rs). key_rule r"
    by (simp add: key_rule_def segment_ok_def plain_key_def segment_items_def walkable_numeral)
  have l: "length (content_object (properties ?m)) + length (rules ?rs) \<le> TEN_LIST_LOOP_MAX_ALLOWABLE_CNT"
    by (simp add: TEN_LIST_LOOP_MAX_ALLOWABLE_CNT_def)
  have t: "msg_type ?m = TEN_MSG_TYPE_CMD" by (simp add: create_defs)
  show ?thesis
    using conversion_correct [OF m r l, THEN conjunct1, rule_format, OF t] 
    by (fastforce simp: converted_properties_def rule_for_def rule_value_def)
qed

end
