(* ===== verification/Path_Table.thy ===== *)
theory Path_Table
  imports Msg_Conversion
begin

text \<open>
  The paths of commands (\<open>core/src/ten_runtime/path/\<close>).  Every command that enters an extension leaves
  an IN path and every command that leaves it an OUT path; a result finds the path with its command
  id, is cached there, and gets back the id, the destination and the handler that the command had
  before.  The OUT paths of a command that went to several destinations form a group, which decides
  by its policy which of the results goes on.

  Paths, groups and messages are shared through pointers, so the table comes with a store for each of
  them; \<open>next_addr\<close> is the next free address.  A group dies with its last path; the store keeps it.
\<close>

section \<open>Data\<close>

datatype TEN_PATH_TYPE = TEN_PATH_INVALID | TEN_PATH_IN | TEN_PATH_OUT

datatype TEN_RESULT_RETURN_POLICY =
    TEN_RESULT_RETURN_POLICY_INVALID
  | TEN_RESULT_RETURN_POLICY_FIRST_ERROR_OR_FIRST_OK
  | TEN_RESULT_RETURN_POLICY_FIRST_ERROR_OR_LAST_OK
  | TEN_RESULT_RETURN_POLICY_EACH_OK_AND_ERROR

text \<open>An OUT path has a handler besides the common fields.\<close>

record ten_path =
  path_type :: TEN_PATH_TYPE
  cmd_name :: string
  original_cmd_id :: string
  path_cmd_id :: string
  path_src_loc :: ten_loc
  path_dest_loc :: ten_loc
  path_group :: "nat option"
  cached_cmd_result :: "nat option"
  result_conversion :: "ten_msg_conversion option"
  expired_time_us :: "64 word"
  path_result_handler :: "nat option"
  path_result_handler_data :: "nat option"

record ten_path_group =
  group_policy :: TEN_RESULT_RETURN_POLICY
  group_members :: "nat list"

text \<open>An extension has timeouts for the two kinds of paths, an engine has not.\<close>

datatype path_table_owner = OwnedByEngine | OwnedByExtension (in_path_timeout: "64 word") (out_path_timeout: "64 word")

record ten_path_table =
  attached_target :: path_table_owner
  in_paths :: "nat list"
  out_paths :: "nat list"
  path_at :: "nat \<Rightarrow> ten_path option"
  group_at :: "nat \<Rightarrow> ten_path_group option"
  msg_at :: "nat \<Rightarrow> message option"
  next_addr :: nat

definition alloc_msg :: "message \<Rightarrow> ten_path_table \<Rightarrow> nat \<times> ten_path_table" where
  "alloc_msg m t = (next_addr t, t\<lparr>msg_at := (msg_at t)(next_addr t \<mapsto> m), next_addr := next_addr t + 1\<rparr>)"

definition put_path :: "nat \<Rightarrow> ten_path \<Rightarrow> ten_path_table \<Rightarrow> ten_path_table" where
  "put_path a p t = t\<lparr>path_at := (path_at t)(a \<mapsto> p)\<rparr>"

definition put_msg :: "nat \<Rightarrow> message \<Rightarrow> ten_path_table \<Rightarrow> ten_path_table" where
  "put_msg r m t = t\<lparr>msg_at := (msg_at t)(r \<mapsto> m)\<rparr>"

definition put_members :: "nat \<Rightarrow> nat list \<Rightarrow> ten_path_table \<Rightarrow> ten_path_table" where
  "put_members g ms t =
     t\<lparr>group_at := (\<lambda>a. if a = g then map_option (\<lambda>G. G\<lparr>group_members := ms\<rparr>) (group_at t g) else group_at t a)\<rparr>"

text \<open>The node of a list owns the path: removing the one frees the other.\<close>

definition paths_of :: "TEN_PATH_TYPE \<Rightarrow> ten_path_table \<Rightarrow> nat list" where
  "paths_of ty t = (if ty = TEN_PATH_IN then in_paths t else out_paths t)"

definition drop_path :: "TEN_PATH_TYPE \<Rightarrow> nat \<Rightarrow> ten_path_table \<Rightarrow> ten_path_table" where
  "drop_path ty a t =
     (if ty = TEN_PATH_IN then t\<lparr>in_paths := remove1 a (in_paths t), path_at := (path_at t)(a := None)\<rparr>
      else t\<lparr>out_paths := remove1 a (out_paths t), path_at := (path_at t)(a := None)\<rparr>)"

section \<open>Paths\<close>

definition ten_path_init ::
    "TEN_PATH_TYPE \<Rightarrow> string \<Rightarrow> string option \<Rightarrow> string \<Rightarrow> ten_loc \<Rightarrow> ten_loc \<Rightarrow> ten_path run" where
  "ten_path_init ty name parent i src dest =
     (if name = [] then Abort
      else run_bind (ten_loc_init_from_loc src) (\<lambda>src.
           run_bind (ten_loc_init_from_loc dest) (\<lambda>dest.
             Ret \<lparr>path_type = ty, cmd_name = name, original_cmd_id = c_str_or_empty parent, path_cmd_id = i,
                  path_src_loc = src, path_dest_loc = dest, path_group = None, cached_cmd_result = None,
                  result_conversion = None, expired_time_us = -1, path_result_handler = None,
                  path_result_handler_data = None\<rparr>)))"

definition ten_path_in_create ::
    "string \<Rightarrow> string option \<Rightarrow> string \<Rightarrow> ten_loc \<Rightarrow> ten_loc \<Rightarrow> ten_msg_conversion option \<Rightarrow> ten_path run" where
  "ten_path_in_create name parent i src dest conv =
     map_run (\<lambda>p. p\<lparr>result_conversion := conv\<rparr>) (ten_path_init TEN_PATH_IN name parent i src dest)"

definition ten_path_out_create ::
    "string \<Rightarrow> string option \<Rightarrow> string \<Rightarrow> ten_loc \<Rightarrow> ten_loc \<Rightarrow> nat option \<Rightarrow> nat option \<Rightarrow> ten_path run" where
  "ten_path_out_create name parent i src dest handler handler_data =
     map_run (\<lambda>p. p\<lparr>path_result_handler := handler, path_result_handler_data := handler_data,
                    result_conversion := None\<rparr>) (ten_path_init TEN_PATH_OUT name parent i src dest)"

definition ten_path_set_expired_time :: "ten_path \<Rightarrow> 64 word \<Rightarrow> ten_path" where
  "ten_path_set_expired_time path time = path\<lparr>expired_time_us := time\<rparr>"

definition ten_path_is_in_a_group :: "ten_path \<Rightarrow> bool" where
  "ten_path_is_in_a_group self \<longleftrightarrow> path_group self \<noteq> None"

definition ten_path_get_group :: "ten_path_table \<Rightarrow> ten_path \<Rightarrow> ten_path_group run" where
  "ten_path_get_group t self = (case path_group self of None \<Rightarrow> Abort | Some g \<Rightarrow> load (group_at t) g)"

text \<open>The new result takes the place of an older one.  A conversion that fails leads to a copy of the
  NULL it returned.  The paths of a group stand in the order of their results.\<close>

definition ten_path_set_result :: "msg_handlers \<Rightarrow> string \<Rightarrow> nat \<Rightarrow> nat \<Rightarrow> ten_path_table \<Rightarrow> ten_path_table run" where
  "ten_path_set_result h uuid path cmd_result t =
     run_bind (load (path_at t) path) (\<lambda>p.
     run_bind (load (msg_at t) cmd_result) (\<lambda>m.
     if \<not> is_result m then Abort
     else run_bind
       (case result_conversion p of
          None \<Rightarrow> Ret (cmd_result, t)
        | Some conv \<Rightarrow>
            run_bind (ten_msg_conversion_convert h uuid conv m) (\<lambda>converted.
              case converted of None \<Rightarrow> Abort | Some m' \<Rightarrow> Ret (alloc_msg m' t)))
       (\<lambda>(r, t).
          let t = put_path path (p\<lparr>cached_cmd_result := Some r\<rparr>) t
          in case path_group p of
               None \<Rightarrow> Ret t
             | Some g \<Rightarrow>
                 run_bind (ten_path_get_group t p) (\<lambda>G.
                   if path \<in> set (group_members G)
                   then Ret (put_members g (remove1 path (group_members G) @ [path]) t)
                   else Abort))))"

section \<open>Groups\<close>

fun join_group :: "nat \<Rightarrow> nat list \<Rightarrow> ten_path_table \<Rightarrow> ten_path_table run" where
  "join_group g [] t = Ret t"
| "join_group g (a # as) t =
     run_bind (load (path_at t) a) (\<lambda>p. join_group g as (put_path a (p\<lparr>path_group := Some g\<rparr>) t))"

definition ten_paths_create_group ::
    "nat list \<Rightarrow> TEN_RESULT_RETURN_POLICY \<Rightarrow> ten_path_table \<Rightarrow> ten_path_table run" where
  "ten_paths_create_group paths policy t =
     (if length paths \<le> 1 then Abort
      else join_group (next_addr t) paths
             (t\<lparr>group_at := (group_at t)(next_addr t \<mapsto> \<lparr>group_policy = policy, group_members = paths\<rparr>),
                next_addr := next_addr t + 1\<rparr>))"

definition ten_path_group_get_members :: "ten_path_table \<Rightarrow> ten_path \<Rightarrow> nat list run" where
  "ten_path_group_get_members t path = map_run group_members (ten_path_get_group t path)"

text \<open>The loop over the members: the first with a result that is not OK, or whether all have one.\<close>

fun resolve_loop :: "ten_path_table \<Rightarrow> nat list \<Rightarrow> bool \<Rightarrow> (nat option \<times> bool) run" where
  "resolve_loop t [] has_all = Ret (None, has_all)"
| "resolve_loop t (a # as) has_all =
     run_bind (load (path_at t) a) (\<lambda>p.
       case cached_cmd_result p of
         None \<Rightarrow> resolve_loop t as False
       | Some r \<Rightarrow>
           run_bind (load (msg_at t) r) (\<lambda>m.
           run_bind (ten_raw_cmd_result_get_status_code m) (\<lambda>status.
             if status \<noteq> TEN_STATUS_CODE_OK then Ret (Some a, has_all) else resolve_loop t as has_all)))"

definition ten_path_group_resolve_in_one_fail_and_all_ok_return ::
    "ten_path_table \<Rightarrow> nat list \<Rightarrow> bool \<Rightarrow> nat option run" where
  "ten_path_group_resolve_in_one_fail_and_all_ok_return t members return_last =
     run_bind (resolve_loop t members True) (\<lambda>(found, has_all).
       case found of
         Some a \<Rightarrow> Ret (Some a)
       | None \<Rightarrow>
           if has_all
           then (if members = [] then Abort else Ret (Some (if return_last then last members else hd members)))
           else Ret None)"

definition ten_path_group_resolve :: "ten_path_table \<Rightarrow> nat \<Rightarrow> nat option run" where
  "ten_path_group_resolve t path =
     run_bind (load (path_at t) path) (\<lambda>p.
     run_bind (ten_path_get_group t p) (\<lambda>G.
       case group_policy G of
         TEN_RESULT_RETURN_POLICY_FIRST_ERROR_OR_FIRST_OK \<Rightarrow>
           ten_path_group_resolve_in_one_fail_and_all_ok_return t (group_members G) False
       | TEN_RESULT_RETURN_POLICY_FIRST_ERROR_OR_LAST_OK \<Rightarrow>
           ten_path_group_resolve_in_one_fail_and_all_ok_return t (group_members G) True
       | TEN_RESULT_RETURN_POLICY_EACH_OK_AND_ERROR \<Rightarrow> Ret (Some path)
       | TEN_RESULT_RETURN_POLICY_INVALID \<Rightarrow> Abort))"

section \<open>The table\<close>

definition ten_path_table_create :: "path_table_owner \<Rightarrow> ten_path_table" where
  "ten_path_table_create owner =
     \<lparr>attached_target = owner, in_paths = [], out_paths = [], path_at = (\<lambda>_. None), group_at = (\<lambda>_. None),
      msg_at = (\<lambda>_. None), next_addr = 0\<rparr>"

definition ten_path_table_check_empty :: "ten_path_table \<Rightarrow> unit run" where
  "ten_path_table_check_empty self = (if in_paths self = [] \<and> out_paths self = [] then Ret () else Abort)"

text \<open>Without an id the first path is found.\<close>

fun find_path_loop :: "ten_path_table \<Rightarrow> string option \<Rightarrow> nat list \<Rightarrow> nat option run" where
  "find_path_loop t i [] = Ret None"
| "find_path_loop t i (a # as) =
     run_bind (load (path_at t) a) (\<lambda>p.
       if (case i of None \<Rightarrow> True | Some i \<Rightarrow> path_cmd_id p = i) then Ret (Some a) else find_path_loop t i as)"

definition ten_path_table_find_path_from_cmd_id ::
    "ten_path_table \<Rightarrow> TEN_PATH_TYPE \<Rightarrow> string option \<Rightarrow> nat option run" where
  "ten_path_table_find_path_from_cmd_id self ty i = find_path_loop self i (paths_of ty self)"

definition get_expired_time :: "int \<Rightarrow> 64 word \<Rightarrow> 64 word run" where
  "get_expired_time current_time_us timeout_duration =
     (if current_time_us < 0 then Abort
      else let now = word_of_int current_time_us
           in if timeout_duration > - 1 - now then Ret (- 1) else Ret (now + timeout_duration))"

definition ten_path_table_get_path_timeout_duration :: "ten_path_table \<Rightarrow> TEN_PATH_TYPE \<Rightarrow> 64 word" where
  "ten_path_table_get_path_timeout_duration self ty =
     (case attached_target self of
        OwnedByEngine \<Rightarrow> - 1
      | OwnedByExtension in_timeout out_timeout \<Rightarrow>
          (case ty of TEN_PATH_IN \<Rightarrow> in_timeout | TEN_PATH_OUT \<Rightarrow> out_timeout | TEN_PATH_INVALID \<Rightarrow> - 1))"

text \<open>The arguments are the time and the id that is drawn when the id of the command is taken; the
  results are the path, the command as it goes on, and the table.\<close>

definition ten_path_table_add_in_path ::
    "int \<Rightarrow> string \<Rightarrow> ten_path_table \<Rightarrow> message \<Rightarrow> ten_msg_conversion option \<Rightarrow>
       (nat \<times> message \<times> ten_path_table) run" where
  "ten_path_table_add_in_path now uuid self cmd conv =
     run_bind (ten_raw_msg_is_cmd_and_result cmd) (\<lambda>is_cmd.
     if \<not> is_cmd \<or> ten_raw_msg_get_dest_cnt cmd \<noteq> 1 then Abort
     else run_bind (ten_path_table_find_path_from_cmd_id self TEN_PATH_IN (Some (cmd_id cmd))) (\<lambda>old.
     run_bind
       (if old \<noteq> None \<and> msg_type cmd = TEN_MSG_TYPE_CMD
        then let cmd = ten_raw_cmd_base_gen_new_cmd_id_forcibly uuid
                         (ten_raw_cmd_base_save_cmd_id_to_parent_cmd_id cmd)
             in map_run (\<lambda>old. (old, cmd))
                  (ten_path_table_find_path_from_cmd_id self TEN_PATH_IN (Some (cmd_id cmd)))
        else Ret (old, cmd))
       (\<lambda>(old, cmd).
     if old \<noteq> None then Abort
     else run_bind (ten_loc_init_from_loc (src_loc cmd)) (\<lambda>src.
     run_bind (ten_raw_msg_get_first_dest_loc cmd) (\<lambda>first.
     run_bind (ten_loc_init_from_loc first) (\<lambda>dest.
     run_bind (ten_path_in_create (msg_name cmd) (ten_cmd_base_get_parent_cmd_id cmd) (cmd_id cmd) src dest conv)
       (\<lambda>in_path.
     run_bind (get_expired_time now (ten_path_table_get_path_timeout_duration self TEN_PATH_IN)) (\<lambda>expired.
     let a = next_addr self;
         self = put_path a (ten_path_set_expired_time in_path expired) self
     in Ret (a, ten_raw_cmd_base_reset_parent_cmd_id cmd,
             self\<lparr>in_paths := in_paths self @ [a], next_addr := next_addr self + 1\<rparr>)))))))))"

definition ten_path_table_add_out_path ::
    "int \<Rightarrow> ten_path_table \<Rightarrow> message \<Rightarrow> (nat \<times> message \<times> ten_path_table) run" where
  "ten_path_table_add_out_path now self cmd =
     run_bind (ten_raw_msg_is_cmd_and_result cmd) (\<lambda>is_cmd.
     if \<not> is_cmd \<or> ten_raw_msg_get_dest_cnt cmd \<noteq> 1 then Abort
     else run_bind (ten_loc_init_from_loc (src_loc cmd)) (\<lambda>src.
     run_bind (ten_raw_msg_get_first_dest_loc cmd) (\<lambda>first.
     run_bind (ten_loc_init_from_loc first) (\<lambda>dest.
     run_bind (ten_path_out_create (msg_name cmd) (ten_cmd_base_get_parent_cmd_id cmd) (cmd_id cmd) src dest
                 (result_handler cmd) (result_handler_data cmd)) (\<lambda>out_path.
     run_bind (get_expired_time now (ten_path_table_get_path_timeout_duration self TEN_PATH_OUT)) (\<lambda>expired.
     let a = next_addr self;
         self = put_path a (ten_path_set_expired_time out_path expired) self
     in Ret (a, ten_raw_cmd_base_set_result_handler (ten_raw_cmd_base_reset_parent_cmd_id cmd) None None,
             self\<lparr>out_paths := out_paths self @ [a], next_addr := next_addr self + 1\<rparr>)))))))"

definition ten_path_table_find_path ::
    "ten_path_table \<Rightarrow> TEN_PATH_TYPE \<Rightarrow> message \<Rightarrow> nat option run" where
  "ten_path_table_find_path self ty cmd =
     (case ty of
        TEN_PATH_INVALID \<Rightarrow> Abort
      | _ \<Rightarrow> run_bind (ten_raw_msg_is_cmd_and_result cmd) (\<lambda>is_cmd.
               if is_cmd then ten_path_table_find_path_from_cmd_id self ty (Some (cmd_id cmd)) else Abort))"

text \<open>Whether the path was the last of its group, and the table without it.\<close>

definition ten_path_table_remove_path_from_group ::
    "ten_path_table \<Rightarrow> TEN_PATH_TYPE \<Rightarrow> nat \<Rightarrow> (bool \<times> ten_path_table) run" where
  "ten_path_table_remove_path_from_group self ty path =
     run_bind (load (path_at self) path) (\<lambda>p.
     run_bind (ten_path_group_get_members self p) (\<lambda>members.
       if path \<notin> set members \<or> path \<notin> set (paths_of ty self) then Abort
       else case path_group p of
              None \<Rightarrow> Abort
            | Some g \<Rightarrow>
                Ret (remove1 path members = [],
                     drop_path ty path (put_members g (remove1 path members) self))))"

text \<open>The body of the loop over the members.\<close>

definition remove_member :: "TEN_PATH_TYPE \<Rightarrow> nat \<Rightarrow> ten_path_table \<Rightarrow> ten_path_table run" where
  "remove_member ty a t =
     run_bind (load (path_at t) a) (\<lambda>_. if a \<in> set (paths_of ty t) then Ret (drop_path ty a t) else Abort)"

definition ten_path_table_remove_group_and_all_its_paths ::
    "ten_path_table \<Rightarrow> TEN_PATH_TYPE \<Rightarrow> nat \<Rightarrow> ten_path_table run" where
  "ten_path_table_remove_group_and_all_its_paths self ty path =
     run_bind (load (path_at self) path) (\<lambda>p.
     run_bind (ten_path_group_get_members self p) (\<lambda>members. run_fold (remove_member ty) members self))"

text \<open>What the result becomes on its way through a path.\<close>

definition restore_result :: "TEN_PATH_TYPE \<Rightarrow> ten_path \<Rightarrow> message \<Rightarrow> message run" where
  "restore_result ty p m =
     run_bind (ten_raw_cmd_result_set_original_cmd_name m (cmd_name p)) (\<lambda>m.
     run_bind (ten_raw_msg_clear_and_set_dest_to_loc
                 (if original_cmd_id p \<noteq> [] then ten_raw_cmd_base_set_cmd_id m (original_cmd_id p) else m)
                 (path_src_loc p)) (\<lambda>m.
       Ret (if ty = TEN_PATH_OUT
            then ten_raw_cmd_base_set_result_handler m (path_result_handler p) (path_result_handler_data p)
            else m)))"

text \<open>What becomes of the path whose result goes on, and whether this completes the command.\<close>

definition leave_table ::
    "TEN_PATH_TYPE \<Rightarrow> bool \<Rightarrow> nat \<Rightarrow> ten_path \<Rightarrow> message \<Rightarrow> ten_path_table \<Rightarrow> (bool \<times> ten_path_table) run" where
  "leave_table ty remove_path path p m self =
     (if ten_path_is_in_a_group p
      then run_bind (ten_path_get_group self p) (\<lambda>G.
        case group_policy G of
          TEN_RESULT_RETURN_POLICY_EACH_OK_AND_ERROR \<Rightarrow> ten_path_table_remove_path_from_group self ty path
        | TEN_RESULT_RETURN_POLICY_INVALID \<Rightarrow> Abort
        | _ \<Rightarrow> map_run (Pair True) (ten_path_table_remove_group_and_all_its_paths self ty path))
      else map_run (\<lambda>final.
             (final, if remove_path \<and> path \<in> set (paths_of ty self) then drop_path ty path self else self))
             (ten_raw_cmd_result_is_final m))"

definition deliver_result ::
    "TEN_PATH_TYPE \<Rightarrow> bool \<Rightarrow> nat \<Rightarrow> ten_path_table \<Rightarrow> (nat option \<times> ten_path_table) run" where
  "deliver_result ty remove_path path self =
     run_bind (load (path_at self) path) (\<lambda>p.
     case cached_cmd_result p of
       None \<Rightarrow> Abort
     | Some cmd_result \<Rightarrow>
         run_bind (load (msg_at self) cmd_result) (\<lambda>m.
         run_bind (restore_result ty p m) (\<lambda>m.
         run_bind (leave_table ty remove_path path p m self) (\<lambda>(completed, self).
         map_run (\<lambda>m. (Some cmd_result, put_msg cmd_result m self))
           (ten_raw_cmd_result_set_completed m completed)))))"

definition ten_path_table_determine_actual_cmd_result ::
    "ten_path_table \<Rightarrow> TEN_PATH_TYPE \<Rightarrow> nat \<Rightarrow> bool \<Rightarrow> (nat option \<times> ten_path_table) run" where
  "ten_path_table_determine_actual_cmd_result self ty path remove_path =
     (if ty = TEN_PATH_INVALID then Abort
      else run_bind (load (path_at self) path) (\<lambda>p.
           run_bind (if ten_path_is_in_a_group p then ten_path_group_resolve self path else Ret (Some path))
             (\<lambda>resolved.
           case resolved of None \<Rightarrow> Ret (None, self) | Some path \<Rightarrow> deliver_result ty remove_path path self)))"

definition ten_path_table_set_result ::
    "msg_handlers \<Rightarrow> string \<Rightarrow> ten_path_table \<Rightarrow> TEN_PATH_TYPE \<Rightarrow> nat \<Rightarrow> (nat option \<times> ten_path_table) run" where
  "ten_path_table_set_result h uuid self ty cmd_result =
     run_bind (load (msg_at self) cmd_result) (\<lambda>m.
     if \<not> is_result m then Abort
     else run_bind (ten_path_table_find_path self ty m) (\<lambda>path.
       case path of
         None \<Rightarrow> Ret (None, self)
       | Some path \<Rightarrow> map_run (Pair (Some path)) (ten_path_set_result h uuid path cmd_result self)))"

end
