(* ===== verification/Path_Invariant.thy ===== *)
theory Path_Invariant
  imports Path_Table
begin

text \<open>
  What the path table of an extension always satisfies: paths are in one list only, ids of IN paths
  are unique, every pointer leads to something, and groups list exactly the paths that are in them.
  One lemma per operation says that the operation keeps it.
\<close>

section \<open>Tables that the operations lead to\<close>

definition path_ok :: "TEN_PATH_TYPE \<Rightarrow> ten_path_table \<Rightarrow> nat \<Rightarrow> bool" where
  "path_ok ty t a \<longleftrightarrow> (\<exists>p. path_at t a = Some p \<and> path_type p = ty \<and> cmd_name p \<noteq> [] \<and>
     ten_loc_check_integrity (path_src_loc p) \<and> ten_loc_check_integrity (path_dest_loc p) \<and>
     (\<forall>r. cached_cmd_result p = Some r \<longrightarrow> (\<exists>m. msg_at t r = Some m \<and> (ty = TEN_PATH_OUT \<longrightarrow> is_result m))) \<and>
     (ty = TEN_PATH_IN \<longrightarrow> path_group p = None) \<and> (ty = TEN_PATH_OUT \<longrightarrow> result_conversion p = None))"

text \<open>A group that a path is in lists it, lists nothing twice, and lists OUT paths of the table that are
  in this group.\<close>

definition group_ok :: "ten_path_table \<Rightarrow> nat \<Rightarrow> bool" where
  "group_ok t a \<longleftrightarrow> (\<forall>p g. path_at t a = Some p \<longrightarrow> path_group p = Some g \<longrightarrow>
     (\<exists>G. group_at t g = Some G \<and> a \<in> set (group_members G) \<and> distinct (group_members G) \<and>
        (\<forall>b \<in> set (group_members G). b \<in> set (out_paths t) \<and>
           (\<exists>q. path_at t b = Some q \<and> path_group q = Some g))))"

definition cmd_id_at :: "ten_path_table \<Rightarrow> nat \<Rightarrow> string option" where
  "cmd_id_at t a = map_option path_cmd_id (path_at t a)"

text \<open>\<open>S\<close> are paths whose group is being taken apart.\<close>

definition table_ok_but :: "nat set \<Rightarrow> ten_path_table \<Rightarrow> bool" where
  "table_ok_but S t \<longleftrightarrow> distinct (in_paths t @ out_paths t) \<and>
     (\<forall>a \<in> set (in_paths t). path_ok TEN_PATH_IN t a) \<and>
     (\<forall>a \<in> set (out_paths t). path_ok TEN_PATH_OUT t a \<and> (a \<notin> S \<longrightarrow> group_ok t a)) \<and>
     inj_on (cmd_id_at t) (set (in_paths t)) \<and>
     (\<forall>a. path_at t a \<noteq> None \<longrightarrow> a \<in> set (in_paths t) \<union> set (out_paths t)) \<and>
     (\<forall>a. path_at t a \<noteq> None \<or> group_at t a \<noteq> None \<or> msg_at t a \<noteq> None \<longrightarrow> a < next_addr t)"

abbreviation table_ok :: "ten_path_table \<Rightarrow> bool" where
  "table_ok \<equiv> table_ok_but {}"

lemmas table_ok_def = table_ok_but_def

lemmas store_defs = alloc_msg_def put_path_def put_msg_def put_members_def drop_path_def paths_of_def

lemma load_eq_Ret [simp]: "load store a = Ret x \<longleftrightarrow> store a = Some x"
  by (cases "store a") (simp_all add: load_def)

lemma load_Some [simp]: "store a = Some x \<Longrightarrow> load store a = Ret x"
  by (simp add: load_def)

lemma table_ok_create: "table_ok (ten_path_table_create owner)"
  by (simp add: table_ok_def ten_path_table_create_def)

text \<open>A new message, and a message that changes but stays a result, harm nothing.\<close>

lemma table_ok_put_msg:
  assumes "table_ok t" and "r < next_addr t" and "\<And>m'. msg_at t r = Some m' \<Longrightarrow> is_result m' \<Longrightarrow> is_result m"
  shows "table_ok (put_msg r m t)"
proof -
  have "path_ok ty t a \<Longrightarrow> path_ok ty (put_msg r m t) a" for ty a
    using assms(3) by (fastforce simp: path_ok_def put_msg_def)
  moreover have "group_ok t a \<Longrightarrow> group_ok (put_msg r m t) a" for a
    by (simp add: group_ok_def put_msg_def)
  moreover have "cmd_id_at (put_msg r m t) = cmd_id_at t"
    by (simp add: fun_eq_iff cmd_id_at_def put_msg_def)
  ultimately show ?thesis
    using assms(1,2) by (auto simp: table_ok_def put_msg_def)
qed

lemma alloc_msg_put: "alloc_msg m t = (next_addr t, put_msg (next_addr t) m (t\<lparr>next_addr := next_addr t + 1\<rparr>))"
  by (simp add: alloc_msg_def put_msg_def)

lemma table_ok_next: "table_ok t \<Longrightarrow> table_ok (t\<lparr>next_addr := next_addr t + n\<rparr>)"
  by (simp add: table_ok_def path_ok_def group_ok_def cmd_id_at_def inj_on_def trans_less_add1)

lemma table_ok_fresh:
  "table_ok t \<Longrightarrow> path_at t (next_addr t) = None"
  "table_ok t \<Longrightarrow> group_at t (next_addr t) = None"
  "table_ok t \<Longrightarrow> msg_at t (next_addr t) = None"
  "table_ok t \<Longrightarrow> next_addr t \<notin> set (in_paths t)"
  "table_ok t \<Longrightarrow> next_addr t \<notin> set (out_paths t)"
  unfolding table_ok_def path_ok_def by (metis less_irrefl option.distinct(1))+

lemma table_ok_alloc: "table_ok t \<Longrightarrow> alloc_msg m t = (r, t') \<Longrightarrow> table_ok t'"
  using table_ok_fresh(3) [of t]
  by (auto simp: alloc_msg_put intro!: table_ok_put_msg table_ok_next [where n = 1, simplified])

text \<open>A path may cache a result, and a group may reorder its members.\<close>

lemma table_ok_cache:
  assumes "table_ok t" and "path_at t a = Some p" and "msg_at t r = Some m" and "is_result m \<or> path_type p \<noteq> TEN_PATH_OUT"
  shows "table_ok (put_path a (p\<lparr>cached_cmd_result := Some r\<rparr>) t)"
proof -
  let ?t = "put_path a (p\<lparr>cached_cmd_result := Some r\<rparr>) t"
  have "path_ok ty t b \<Longrightarrow> path_ok ty ?t b" for ty b
    using assms(2-4) by (auto simp: path_ok_def put_path_def)
  moreover have "group_ok t b \<Longrightarrow> group_ok ?t b" for b
    using assms(2) by (fastforce simp: group_ok_def put_path_def)
  moreover have "cmd_id_at ?t = cmd_id_at t"
    using assms(2) by (simp add: fun_eq_iff cmd_id_at_def put_path_def)
  ultimately show ?thesis
    using assms(1,2) by (auto simp: table_ok_def put_path_def)
qed

lemma table_ok_members:
  assumes "table_ok t" and "group_at t g = Some G" and "set ms = set (group_members G)"
    and "distinct (group_members G) \<Longrightarrow> distinct ms"
  shows "table_ok (put_members g ms t)"
proof -
  have "path_ok ty t b \<Longrightarrow> path_ok ty (put_members g ms t) b" for ty b
    by (simp add: path_ok_def put_members_def)
  moreover have "group_ok t b \<Longrightarrow> group_ok (put_members g ms t) b" for b
    using assms(2-4) by (fastforce simp: group_ok_def put_members_def)
  moreover have "cmd_id_at (put_members g ms t) = cmd_id_at t"
    by (simp add: fun_eq_iff cmd_id_at_def put_members_def)
  ultimately show ?thesis
    using assms(1,2) by (auto simp: table_ok_def put_members_def)
qed

text \<open>Where the result of a path is kept: as it is, or converted in a new message.\<close>

lemma set_result_cases:
  assumes "ten_path_set_result h uuid a r t = Ret t'"
  obtains p m r1 t1 where "path_at t a = Some p" "msg_at t r = Some m" "is_result m"
    "(result_conversion p = None \<and> r1 = r \<and> t1 = t) \<or>
     (\<exists>conv m'. result_conversion p = Some conv \<and> ten_msg_conversion_convert h uuid conv m = Ret (Some m') \<and>
        (r1, t1) = alloc_msg m' t)"
    "(path_group p = None \<and> t' = put_path a (p\<lparr>cached_cmd_result := Some r1\<rparr>) t1) \<or>
     (\<exists>g G. path_group p = Some g \<and> group_at t1 g = Some G \<and> a \<in> set (group_members G) \<and>
        t' = put_members g (remove1 a (group_members G) @ [a]) (put_path a (p\<lparr>cached_cmd_result := Some r1\<rparr>) t1))"
proof -
  obtain p m where p: "path_at t a = Some p" and m: "msg_at t r = Some m" "is_result m"
    using assms by (auto simp: ten_path_set_result_def split: if_splits)
  obtain r1 t1 where
    1: "(case result_conversion p of None \<Rightarrow> Ret (r, t)
      | Some conv \<Rightarrow> run_bind (ten_msg_conversion_convert h uuid conv m) (\<lambda>converted.
          case converted of None \<Rightarrow> Abort | Some m' \<Rightarrow> Ret (alloc_msg m' t))) = Ret (r1, t1)"
    and 2: "(case path_group p of None \<Rightarrow> Ret (put_path a (p\<lparr>cached_cmd_result := Some r1\<rparr>) t1)
      | Some g \<Rightarrow> run_bind (ten_path_get_group (put_path a (p\<lparr>cached_cmd_result := Some r1\<rparr>) t1) p) (\<lambda>G.
          if a \<in> set (group_members G)
          then Ret (put_members g (remove1 a (group_members G) @ [a]) (put_path a (p\<lparr>cached_cmd_result := Some r1\<rparr>) t1))
          else Abort)) = Ret t'"
    using assms p m by (auto simp: ten_path_set_result_def Let_def)
  show thesis
  proof (rule that [OF p m])
    show "(result_conversion p = None \<and> r1 = r \<and> t1 = t) \<or>
     (\<exists>conv m'. result_conversion p = Some conv \<and> ten_msg_conversion_convert h uuid conv m = Ret (Some m') \<and>
        (r1, t1) = alloc_msg m' t)"
      using 1 by (auto split: option.splits)
    show "(path_group p = None \<and> t' = put_path a (p\<lparr>cached_cmd_result := Some r1\<rparr>) t1) \<or>
     (\<exists>g G. path_group p = Some g \<and> group_at t1 g = Some G \<and> a \<in> set (group_members G) \<and>
        t' = put_members g (remove1 a (group_members G) @ [a]) (put_path a (p\<lparr>cached_cmd_result := Some r1\<rparr>) t1))"
      using 2 by (auto simp: ten_path_get_group_def put_path_def split: option.splits if_splits)
  qed
qed

lemma table_ok_path:
  assumes "table_ok_but S t" and "path_at t a = Some p"
  shows "path_ok (path_type p) t a" "a \<in> set (paths_of (path_type p) t)" "path_type p \<noteq> TEN_PATH_INVALID"
    "path_type p = TEN_PATH_OUT \<Longrightarrow> a \<notin> S \<Longrightarrow> group_ok t a" "path_type p \<noteq> TEN_PATH_OUT \<Longrightarrow> path_group p = None"
proof -
  have "a \<in> set (in_paths t) \<and> path_ok TEN_PATH_IN t a \<or>
        a \<in> set (out_paths t) \<and> path_ok TEN_PATH_OUT t a \<and> (a \<notin> S \<longrightarrow> group_ok t a)"
    using assms by (auto simp: table_ok_def)
  then have "path_type p = TEN_PATH_IN \<and> a \<in> set (in_paths t) \<and> path_ok TEN_PATH_IN t a \<and> path_group p = None \<or>
      path_type p = TEN_PATH_OUT \<and> a \<in> set (out_paths t) \<and> path_ok TEN_PATH_OUT t a \<and> (a \<notin> S \<longrightarrow> group_ok t a)"
    using assms(2) by (auto simp: path_ok_def)
  then show "path_ok (path_type p) t a" "a \<in> set (paths_of (path_type p) t)" "path_type p \<noteq> TEN_PATH_INVALID"
    "path_type p = TEN_PATH_OUT \<Longrightarrow> a \<notin> S \<Longrightarrow> group_ok t a" "path_type p \<noteq> TEN_PATH_OUT \<Longrightarrow> path_group p = None"
    by (auto simp: paths_of_def)
qed

lemma set_move_last: "a \<in> set xs \<Longrightarrow> set (remove1 a xs @ [a]) = set xs"
  by (induction xs) auto

lemma set_result_ok:
  assumes "table_ok t" and "ten_path_set_result h uuid a r t = Ret t'"
  shows "table_ok t'"
  using assms(2)
proof (cases rule: set_result_cases)
  case (1 p m r1 t1)
  have t1: "table_ok t1" "path_at t1 a = Some p"
    using 1(1,4) assms(1) table_ok_alloc [OF assms(1)] by (auto simp: alloc_msg_def)
  have "\<exists>m'. msg_at t1 r1 = Some m' \<and> (is_result m' \<or> path_type p \<noteq> TEN_PATH_OUT)"
    using 1(1-4) table_ok_path(1) [OF assms(1) 1(1)] by (auto simp: alloc_msg_def path_ok_def)
  then have t2: "table_ok (put_path a (p\<lparr>cached_cmd_result := Some r1\<rparr>) t1)"
    using table_ok_cache [OF t1] by blast
  from 1(5) show ?thesis
  proof (elim disjE exE conjE)
    fix g G
    assume "group_at t1 g = Some G" "a \<in> set (group_members G)" and
      t': "t' = put_members g (remove1 a (group_members G) @ [a]) (put_path a (p\<lparr>cached_cmd_result := Some r1\<rparr>) t1)"
    then show "table_ok t'"
      unfolding t' by (intro table_ok_members [OF t2, where G = G]) (auto simp: put_path_def set_move_last
          simp del: set_append)
  qed (simp add: t2)
qed

section \<open>Paths leave\<close>

lemma drop_path_fields [simp]:
  "path_at (drop_path ty a t) = (path_at t)(a := None)"
  "group_at (drop_path ty a t) = group_at t" "msg_at (drop_path ty a t) = msg_at t"
  "next_addr (drop_path ty a t) = next_addr t"
  "in_paths (drop_path ty a t) = (if ty = TEN_PATH_IN then remove1 a (in_paths t) else in_paths t)"
  "out_paths (drop_path ty a t) = (if ty = TEN_PATH_IN then out_paths t else remove1 a (out_paths t))"
  by (simp_all add: drop_path_def)

text \<open>A path can go when no group of another path lists it.\<close>

lemma table_ok_drop:
  assumes t: "table_ok_but S t" and a: "a \<in> set (paths_of ty t)"
    and free: "\<And>b q g G. b \<noteq> a \<Longrightarrow> b \<notin> S \<Longrightarrow> path_at t b = Some q \<Longrightarrow> path_group q = Some g \<Longrightarrow>
      group_at t g = Some G \<Longrightarrow> a \<notin> set (group_members G)"
  shows "table_ok_but (S - {a}) (drop_path ty a t)"
proof -
  let ?t = "drop_path ty a t"
  have d: "distinct (in_paths t)" "distinct (out_paths t)" "set (in_paths t) \<inter> set (out_paths t) = {}"
    using t by (auto simp: table_ok_def)
  have ins: "set (in_paths ?t) = set (in_paths t) - {a}" "set (out_paths ?t) = set (out_paths t) - {a}"
    using a d by (auto simp: paths_of_def split: if_splits)
  have p: "b \<noteq> a \<Longrightarrow> path_ok ty' t b \<Longrightarrow> path_ok ty' ?t b" for ty' b
    by (simp add: path_ok_def)
  have g: "group_ok ?t b" if b: "b \<noteq> a" "b \<notin> S" "group_ok t b" for b
    unfolding group_ok_def
  proof (intro allI impI)
    fix q g
    assume "path_at ?t b = Some q" and g: "path_group q = Some g"
    with b have q: "path_at t b = Some q" by simp
    obtain G where G: "group_at t g = Some G" "b \<in> set (group_members G)" "distinct (group_members G)"
      "\<forall>c \<in> set (group_members G). c \<in> set (out_paths t) \<and> (\<exists>q. path_at t c = Some q \<and> path_group q = Some g)"
      using b(3) q g by (auto simp: group_ok_def)
    moreover have "a \<notin> set (group_members G)" by (rule free [OF b(1,2) q g G(1)])
    ultimately show "\<exists>G. group_at ?t g = Some G \<and> b \<in> set (group_members G) \<and> distinct (group_members G) \<and>
        (\<forall>c \<in> set (group_members G). c \<in> set (out_paths ?t) \<and> (\<exists>q. path_at ?t c = Some q \<and> path_group q = Some g))"
      by (intro exI [of _ G]) (auto simp: ins simp del: drop_path_fields(5,6))
  qed
  have "inj_on (cmd_id_at ?t) (set (in_paths t) - {a})"
  proof -
    have "cmd_id_at ?t b = cmd_id_at t b" if "b \<noteq> a" for b using that by (simp add: cmd_id_at_def)
    then show ?thesis using t by (auto simp: table_ok_def inj_on_def)
  qed
  moreover have "distinct (in_paths ?t @ out_paths ?t)"
    using d by (auto simp del: drop_path_fields(5,6) simp: ins) (simp_all add: distinct_remove1)
  ultimately show ?thesis
    using t p g unfolding table_ok_but_def ins by auto
qed

text \<open>What a group that a path is in knows about it.\<close>

lemma listed_in_group:
  assumes "table_ok_but S t" and "b \<notin> S" and "path_at t b = Some q" and "path_group q = Some g"
    and "group_at t g = Some G"
  shows "b \<in> set (group_members G)" "distinct (group_members G)"
    "c \<in> set (group_members G) \<Longrightarrow> c \<in> set (out_paths t) \<and> (\<exists>r. path_at t c = Some r \<and> path_group r = Some g)"
proof -
  have "path_type q = TEN_PATH_OUT" using table_ok_path(5) [OF assms(1,3)] assms(4) by auto
  then have "group_ok t b" using table_ok_path(4) [OF assms(1,3)] assms(2) by simp
  with assms(3-5) show "b \<in> set (group_members G)" "distinct (group_members G)"
    "c \<in> set (group_members G) \<Longrightarrow> c \<in> set (out_paths t) \<and> (\<exists>r. path_at t c = Some r \<and> path_group r = Some g)"
    by (auto simp: group_ok_def)
qed

lemma drop_alone_ok:
  assumes "table_ok t" and "path_at t a = Some p" and "path_group p = None" and "a \<in> set (paths_of ty t)"
  shows "table_ok (drop_path ty a t)"
proof -
  have "table_ok_but ({} - {a}) (drop_path ty a t)"
    by (rule table_ok_drop [OF assms(1,4)]) (use listed_in_group(3) [OF assms(1)] assms(2,3) in fastforce)
  then show ?thesis by simp
qed

lemma remove_path_from_group_ok:
  assumes t: "table_ok t" and r: "ten_path_table_remove_path_from_group t ty a = Ret (last_one, t')"
  shows "table_ok t'"
proof -
  obtain p g G where p: "path_at t a = Some p" "path_group p = Some g" "group_at t g = Some G"
    "a \<in> set (paths_of ty t)" and t': "t' = drop_path ty a (put_members g (remove1 a (group_members G)) t)"
    using r by (auto simp: ten_path_table_remove_path_from_group_def ten_path_group_get_members_def
        ten_path_get_group_def split: option.splits if_splits)
  let ?t = "put_members g (remove1 a (group_members G)) t"
  have d: "distinct (group_members G)" using listed_in_group(2) [OF t _ p(1-3)] by simp
  have "group_ok ?t b" if b: "group_ok t b" "b \<noteq> a" for b
    using b p(3) d by (fastforce simp: group_ok_def put_members_def)
  then have "table_ok_but {a} ?t"
    using t p(3) by (auto simp: table_ok_but_def path_ok_def cmd_id_at_def inj_on_def put_members_def)
  then have "table_ok_but ({a} - {a}) t'"
    unfolding t'
  proof (rule table_ok_drop)
    show "a \<in> set (paths_of ty ?t)" using p(4) by (auto simp: paths_of_def put_members_def split: if_splits)
    fix b q g' G'
    assume b: "b \<noteq> a" "path_at ?t b = Some q" "path_group q = Some g'" "group_at ?t g' = Some G'"
    show "a \<notin> set (group_members G')"
    proof (cases "g' = g")
      case True
      with b(4) p(3) d show ?thesis by (auto simp: put_members_def)
    next
      case False
      with b listed_in_group(3) [OF t _ _ b(3), of b G' a] p(1,2) show ?thesis by (auto simp: put_members_def)
    qed
  qed
  then show ?thesis by simp
qed

lemma remove_memberD:
  "remove_member ty a t = Ret t' \<Longrightarrow> a \<in> set (paths_of ty t) \<and> t' = drop_path ty a t"
  by (auto simp: remove_member_def split: if_splits)

lemma remove_members_ok:
  assumes "table_ok_but (set as) t"
    and "\<And>b q g G. b \<notin> set as \<Longrightarrow> path_at t b = Some q \<Longrightarrow> path_group q = Some g \<Longrightarrow>
      group_at t g = Some G \<Longrightarrow> set (group_members G) \<inter> set as = {}"
    and "distinct as" and "run_fold (remove_member ty) as t = Ret t'"
  shows "table_ok t'"
  using assms
proof (induction as arbitrary: t)
  case (Cons a as)
  from Cons.prems(4) obtain t1 where m: "remove_member ty a t = Ret t1" and f: "run_fold (remove_member ty) as t1 = Ret t'"
    by auto
  from m have a: "a \<in> set (paths_of ty t)" and "t1 = drop_path ty a t"
    by (auto dest: remove_memberD)
  with f have r: "run_fold (remove_member ty) as (drop_path ty a t) = Ret t'" by simp
  have "table_ok_but (set (a # as) - {a}) (drop_path ty a t)"
    by (rule table_ok_drop [OF Cons.prems(1) a]) (use Cons.prems(2) in fastforce)
  then have "table_ok_but (set as) (drop_path ty a t)" using Cons.prems(3) by simp
  then show ?case
  proof (rule Cons.IH)
    fix b q g G
    assume "b \<notin> set as" "path_at (drop_path ty a t) b = Some q" "path_group q = Some g"
      "group_at (drop_path ty a t) g = Some G"
    with Cons.prems(2) [of b q g G] show "set (group_members G) \<inter> set as = {}" by (auto split: if_splits)
  qed (use Cons.prems(3) r in simp_all)
qed simp

lemma table_ok_but_mono: "table_ok_but S t \<Longrightarrow> S \<subseteq> S' \<Longrightarrow> table_ok_but S' t"
  by (auto simp: table_ok_but_def)

lemma remove_group_ok:
  assumes t: "table_ok t" and r: "ten_path_table_remove_group_and_all_its_paths t ty a = Ret t'"
  shows "table_ok t'"
proof -
  obtain p g G where p: "path_at t a = Some p" "path_group p = Some g" "group_at t g = Some G"
    and t': "run_fold (remove_member ty) (group_members G) t = Ret t'"
    using r by (auto simp: ten_path_table_remove_group_and_all_its_paths_def ten_path_group_get_members_def
        ten_path_get_group_def split: option.splits)
  show ?thesis
  proof (rule remove_members_ok [OF _ _ _ t'])
    show "table_ok_but (set (group_members G)) t" using t by (rule table_ok_but_mono) simp
    show "distinct (group_members G)" using listed_in_group(2) [OF t _ p] by simp
    fix b q g' G'
    assume b: "b \<notin> set (group_members G)" "path_at t b = Some q" "path_group q = Some g'" "group_at t g' = Some G'"
    have "g' \<noteq> g" using b listed_in_group(1) [OF t _ b(2-4)] p(3) by auto
    then show "set (group_members G') \<inter> set (group_members G) = {}"
      using listed_in_group(3) [OF t _ b(2-4)] listed_in_group(3) [OF t _ p] by fastforce
  qed
qed

lemma table_ok_completed:
  assumes "table_ok t" and "r < next_addr t"
    and "map_run (\<lambda>m. (Some r, put_msg r m t)) (ten_raw_cmd_result_set_completed m c) = Ret (x, t')"
  shows "table_ok t'"
proof -
  have "t' = put_msg r (m\<lparr>is_completed := c\<rparr>) t" "is_result m"
    using assms(3) by (auto simp: ten_raw_cmd_result_set_completed_def split: if_splits)
  with assms(1,2) show ?thesis by (auto simp: is_result_def intro!: table_ok_put_msg)
qed

lemma remove_next_addr:
  "ten_path_table_remove_path_from_group t ty a = Ret (l, t') \<Longrightarrow> next_addr t' = next_addr t"
  "run_fold (remove_member ty) as t = Ret t' \<Longrightarrow> next_addr t' = next_addr t"
  "ten_path_table_remove_group_and_all_its_paths t ty a = Ret t' \<Longrightarrow> next_addr t' = next_addr t"
proof -
  show "ten_path_table_remove_path_from_group t ty a = Ret (l, t') \<Longrightarrow> next_addr t' = next_addr t"
    by (auto simp: ten_path_table_remove_path_from_group_def put_members_def split: if_splits option.splits)
  have *: "run_fold (remove_member ty) as t = Ret t' \<Longrightarrow> next_addr t' = next_addr t" for as
  proof (induction as arbitrary: t)
    case (Cons a as)
    then obtain t1 where "remove_member ty a t = Ret t1" "run_fold (remove_member ty) as t1 = Ret t'" by auto
    then show ?case using Cons.IH [of t1] remove_memberD [of ty a t t1] by simp
  qed simp
  then show "run_fold (remove_member ty) as t = Ret t' \<Longrightarrow> next_addr t' = next_addr t" by blast
  show "ten_path_table_remove_group_and_all_its_paths t ty a = Ret t' \<Longrightarrow> next_addr t' = next_addr t"
    using * by (fastforce simp: ten_path_table_remove_group_and_all_its_paths_def)
qed

lemma leave_table_ok:
  assumes "table_ok t" and "path_at t a = Some p" and "leave_table ty rm a p m t = Ret (c, t')"
  shows "table_ok t' \<and> next_addr t' = next_addr t"
proof (cases "path_group p")
  case None
  with assms drop_alone_ok [OF assms(1,2) None, of ty] show ?thesis
    by (auto simp: leave_table_def ten_path_is_in_a_group_def)
next
  case (Some g)
  have "ten_path_table_remove_path_from_group t ty a = Ret (c, t') \<or>
      ten_path_table_remove_group_and_all_its_paths t ty a = Ret t'"
  proof -
    from assms(3) Some have "\<exists>G. ten_path_get_group t p = Ret G \<and> (case group_policy G of
          TEN_RESULT_RETURN_POLICY_EACH_OK_AND_ERROR \<Rightarrow> ten_path_table_remove_path_from_group t ty a
        | TEN_RESULT_RETURN_POLICY_INVALID \<Rightarrow> Abort
        | _ \<Rightarrow> map_run (Pair True) (ten_path_table_remove_group_and_all_its_paths t ty a)) = Ret (c, t')"
      by (simp add: leave_table_def ten_path_is_in_a_group_def)
    then obtain G where "ten_path_get_group t p = Ret G \<and> (case group_policy G of
          TEN_RESULT_RETURN_POLICY_EACH_OK_AND_ERROR \<Rightarrow> ten_path_table_remove_path_from_group t ty a
        | TEN_RESULT_RETURN_POLICY_INVALID \<Rightarrow> Abort
        | _ \<Rightarrow> map_run (Pair True) (ten_path_table_remove_group_and_all_its_paths t ty a)) = Ret (c, t')" ..
    then show ?thesis by (cases "group_policy G") auto
  qed
  then show ?thesis
    using remove_path_from_group_ok [OF assms(1)] remove_group_ok [OF assms(1)] remove_next_addr by blast
qed

lemma deliver_ok:
  assumes t: "table_ok t" and d: "deliver_result ty rm a t = Ret (r, t')"
  shows "table_ok t'"
proof -
  obtain p q m m' c t1 where p: "path_at t a = Some p" "msg_at t q = Some m"
    and l: "leave_table ty rm a p m' t = Ret (c, t1)"
    and fin: "map_run (\<lambda>m. (Some q, put_msg q m t1)) (ten_raw_cmd_result_set_completed m' c) = Ret (r, t')"
    using d by (fastforce simp: deliver_result_def split: option.splits)
  have "q < next_addr t" using t p(2) by (auto simp: table_ok_def)
  then show ?thesis
    using leave_table_ok [OF t p(1) l] fin table_ok_completed [of t1 q m' c r t'] by auto
qed

lemma determine_ok:
  assumes "table_ok t" and "ten_path_table_determine_actual_cmd_result t ty a rm = Ret (r, t')"
  shows "table_ok t'"
  using assms deliver_ok [OF assms(1)]
  by (auto simp: ten_path_table_determine_actual_cmd_result_def split: option.splits if_splits)

section \<open>Paths enter\<close>

lemma table_ok_add:
  assumes t: "table_ok t" and p: "path_type p = ty" "ty \<noteq> TEN_PATH_INVALID" "cmd_name p \<noteq> []"
    "ten_loc_check_integrity (path_src_loc p)" "ten_loc_check_integrity (path_dest_loc p)"
    "cached_cmd_result p = None" "path_group p = None" "ty = TEN_PATH_OUT \<Longrightarrow> result_conversion p = None"
    and new: "\<And>a q. ty = TEN_PATH_IN \<Longrightarrow> a \<in> set (in_paths t) \<Longrightarrow> path_at t a = Some q \<Longrightarrow> path_cmd_id q \<noteq> path_cmd_id p"
  shows "ty = TEN_PATH_IN \<Longrightarrow>
      table_ok (put_path (next_addr t) p t\<lparr>in_paths := in_paths t @ [next_addr t], next_addr := next_addr t + 1\<rparr>)"
    and "ty = TEN_PATH_OUT \<Longrightarrow>
      table_ok (put_path (next_addr t) p t\<lparr>out_paths := out_paths t @ [next_addr t], next_addr := next_addr t + 1\<rparr>)"
proof -
  let ?a = "next_addr t"
  note fresh = table_ok_fresh [OF t]
  have ins: "a \<in> set (in_paths t) \<Longrightarrow> a \<noteq> ?a" "a \<in> set (out_paths t) \<Longrightarrow> a \<noteq> ?a" for a
    using fresh by auto
  have ok: "path_ok ty' t a \<Longrightarrow> a \<noteq> ?a \<Longrightarrow> path_at u = (path_at t)(?a \<mapsto> p) \<Longrightarrow> msg_at u = msg_at t \<Longrightarrow> path_ok ty' u a"
    for ty' a u by (simp add: path_ok_def)
  have grp: "group_ok u a" if "group_ok t a" "a \<noteq> ?a" "path_at u = (path_at t)(?a \<mapsto> p)" "group_at u = group_at t"
      "set (out_paths t) \<subseteq> set (out_paths u)" for a u
    using that ins(2) by (fastforce simp: group_ok_def)
  have newok: "path_ok ty u ?a" "group_ok u ?a" if "path_at u = (path_at t)(?a \<mapsto> p)" for u
    using p that by (auto simp: path_ok_def group_ok_def)
  have ids: "cmd_id_at u a = cmd_id_at t a" if "a \<noteq> ?a" "path_at u = (path_at t)(?a \<mapsto> p)" for u a
    using that by (simp add: cmd_id_at_def)
  {
    let ?u = "put_path ?a p t\<lparr>in_paths := in_paths t @ [?a], next_addr := ?a + 1\<rparr>"
    assume ty: "ty = TEN_PATH_IN"
    have u: "path_at ?u = (path_at t)(?a \<mapsto> p)" by (simp add: put_path_def)
    have "inj_on (cmd_id_at ?u) (set (in_paths t))"
      using t ins(1) ids [OF _ u] by (simp add: table_ok_def inj_on_def)
    moreover have "cmd_id_at ?u ?a \<notin> cmd_id_at ?u ` set (in_paths t)"
      using new [OF ty] t ins(1) ids [OF _ u] u by (fastforce simp: cmd_id_at_def table_ok_def path_ok_def)
    ultimately have "inj_on (cmd_id_at ?u) (set (in_paths ?u))"
      by (auto simp: inj_on_insert)
    then show "table_ok ?u"
      using t fresh newok [OF u] ok grp ty ins
      unfolding table_ok_def by (auto simp: put_path_def less_Suc_eq)
  next
    let ?u = "put_path ?a p t\<lparr>out_paths := out_paths t @ [?a], next_addr := ?a + 1\<rparr>"
    assume ty: "ty = TEN_PATH_OUT"
    have u: "path_at ?u = (path_at t)(?a \<mapsto> p)" by (simp add: put_path_def)
    have "inj_on (cmd_id_at ?u) (set (in_paths ?u))"
      using t ins(1) ids [OF _ u] by (simp add: table_ok_def inj_on_def put_path_def)
    moreover have "group_ok ?u a" if "a \<in> set (out_paths t)" for a
      using that t ins(2) by (intro grp [OF _ _ u]) (auto simp: table_ok_def put_path_def)
    ultimately show "table_ok ?u"
      using t fresh newok [OF u] ok ty ins
      unfolding table_ok_def by (auto simp: put_path_def less_Suc_eq)
  }
qed

lemma find_path_loop_eq:
  "\<forall>a \<in> set as. path_at t a \<noteq> None \<Longrightarrow>
   find_path_loop t i as = Ret (List.find (\<lambda>a. i = None \<or> cmd_id_at t a = i) as)"
  by (induction as) (auto simp: cmd_id_at_def split: option.splits)

lemma find_path_eq:
  assumes "table_ok_but S t"
  shows "ten_path_table_find_path_from_cmd_id t ty i =
    Ret (List.find (\<lambda>a. i = None \<or> cmd_id_at t a = i) (paths_of ty t))"
  using assms unfolding ten_path_table_find_path_from_cmd_id_def
  by (intro find_path_loop_eq) (auto simp: table_ok_def path_ok_def paths_of_def)

lemma init_from_loc_eq [simp]:
  "ten_loc_init_from_loc l = (if ten_loc_check_integrity l then Ret l else Abort)"
  by (auto simp: ten_loc_init_from_loc_def ten_loc_init_def c_str_or_empty_def ten_loc_check_integrity_def Let_def)

lemma path_init_eq [simp]:
  "ten_path_init ty name parent i src dest = Ret p \<longleftrightarrow>
     name \<noteq> [] \<and> ten_loc_check_integrity src \<and> ten_loc_check_integrity dest \<and>
     p = \<lparr>path_type = ty, cmd_name = name, original_cmd_id = c_str_or_empty parent, path_cmd_id = i,
          path_src_loc = src, path_dest_loc = dest, path_group = None, cached_cmd_result = None,
          result_conversion = None, expired_time_us = -1, path_result_handler = None,
          path_result_handler_data = None\<rparr>"
  by (auto simp: ten_path_init_def)

text \<open>The path that a command leaves.\<close>

definition path_for :: "TEN_PATH_TYPE \<Rightarrow> message \<Rightarrow> ten_loc \<Rightarrow> ten_msg_conversion option \<Rightarrow> 64 word \<Rightarrow> ten_path" where
  "path_for ty cmd dest conv expired =
     \<lparr>path_type = ty, cmd_name = msg_name cmd, original_cmd_id = parent_cmd_id cmd, path_cmd_id = cmd_id cmd,
      path_src_loc = src_loc cmd, path_dest_loc = dest, path_group = None, cached_cmd_result = None,
      result_conversion = conv, expired_time_us = expired,
      path_result_handler = (if ty = TEN_PATH_OUT then result_handler cmd else None),
      path_result_handler_data = (if ty = TEN_PATH_OUT then result_handler_data cmd else None)\<rparr>"

lemma parent_or_empty [simp]: "c_str_or_empty (ten_cmd_base_get_parent_cmd_id cmd) = parent_cmd_id cmd"
  by (simp add: c_str_or_empty_def ten_cmd_base_get_parent_cmd_id_def)

lemma path_for_ok:
  assumes "table_ok t" "msg_name cmd \<noteq> []" "ten_loc_check_integrity (src_loc cmd)" "ten_loc_check_integrity dest"
  shows "cmd_id cmd \<notin> (\<lambda>a. path_cmd_id (the (path_at t a))) ` set (in_paths t) \<Longrightarrow>
      table_ok (put_path (next_addr t) (path_for TEN_PATH_IN cmd dest conv expired)
        t\<lparr>in_paths := in_paths t @ [next_addr t], next_addr := next_addr t + 1\<rparr>)"
    and "table_ok (put_path (next_addr t) (path_for TEN_PATH_OUT cmd dest None expired)
        t\<lparr>out_paths := out_paths t @ [next_addr t], next_addr := next_addr t + 1\<rparr>)"
  by (rule table_ok_add(1) [OF assms(1), where ty = TEN_PATH_IN]; use assms in \<open>force simp: path_for_def\<close>)
    (rule table_ok_add(2) [OF assms(1), where ty = TEN_PATH_OUT]; use assms in \<open>force simp: path_for_def\<close>)

lemma add_in_path_eq:
  assumes "ten_path_table_add_in_path now uuid t cmd conv = Ret (a, cmd', t')"
  obtains cmd1 dest expired where
    "cmd1 = cmd \<or> cmd1 = cmd\<lparr>parent_cmd_id := cmd_id cmd, cmd_id := uuid\<rparr>" "cmd' = cmd1\<lparr>parent_cmd_id := []\<rparr>"
    "ten_path_table_find_path_from_cmd_id t TEN_PATH_IN (Some (cmd_id cmd1)) = Ret None"
    "dest_loc cmd = [dest]" "msg_name cmd \<noteq> []" "ten_loc_check_integrity (src_loc cmd)" "ten_loc_check_integrity dest"
    "get_expired_time now (ten_path_table_get_path_timeout_duration t TEN_PATH_IN) = Ret expired"
    "a = next_addr t" "t' = put_path (next_addr t) (path_for TEN_PATH_IN cmd1 dest conv expired)
        t\<lparr>in_paths := in_paths t @ [next_addr t], next_addr := next_addr t + 1\<rparr>"
proof -
  obtain old cmd1 dest expired where
    "(if old \<noteq> None \<and> msg_type cmd = TEN_MSG_TYPE_CMD
      then cmd1 = cmd\<lparr>parent_cmd_id := cmd_id cmd, cmd_id := uuid\<rparr> else cmd1 = cmd)"
    "cmd' = cmd1\<lparr>parent_cmd_id := []\<rparr>"
    "ten_path_table_find_path_from_cmd_id t TEN_PATH_IN (Some (cmd_id cmd1)) = Ret None"
    "dest_loc cmd1 = [dest]" "msg_name cmd1 \<noteq> []" "ten_loc_check_integrity (src_loc cmd1)" "ten_loc_check_integrity dest"
    "get_expired_time now (ten_path_table_get_path_timeout_duration t TEN_PATH_IN) = Ret expired"
    "a = next_addr t" "t' = put_path (next_addr t) (path_for TEN_PATH_IN cmd1 dest conv expired)
        t\<lparr>in_paths := in_paths t @ [next_addr t], next_addr := next_addr t + 1\<rparr>"
    using assms
    by (fastforce simp: ten_path_table_add_in_path_def Let_def put_path_def ten_path_in_create_def
        ten_path_set_expired_time_def path_for_def ten_raw_cmd_base_gen_new_cmd_id_forcibly_def
        ten_raw_cmd_base_save_cmd_id_to_parent_cmd_id_def ten_raw_cmd_base_reset_parent_cmd_id_def
        ten_raw_msg_get_first_dest_loc_def ten_raw_msg_get_dest_cnt_def split: if_splits list.splits)
  then show thesis by (intro that) (auto split: if_splits)
qed

lemma add_in_path_ok:
  assumes "table_ok t" and "ten_path_table_add_in_path now uuid t cmd conv = Ret (a, cmd', t')"
  shows "table_ok t'"
  using assms(2)
proof (cases rule: add_in_path_eq)
  case (1 cmd1 dest expired)
  have "cmd_id cmd1 \<notin> (\<lambda>a. path_cmd_id (the (path_at t a))) ` set (in_paths t)"
  proof
    assume "cmd_id cmd1 \<in> (\<lambda>a. path_cmd_id (the (path_at t a))) ` set (in_paths t)"
    then obtain b where "b \<in> set (in_paths t)" "cmd_id cmd1 = path_cmd_id (the (path_at t b))" by blast
    moreover from this assms(1) obtain p where "path_at t b = Some p" by (auto simp: table_ok_def path_ok_def)
    ultimately show False
      using 1(3) by (auto simp: find_path_eq [OF assms(1)] find_None_iff cmd_id_at_def paths_of_def)
  qed
  with 1 path_for_ok(1) [OF assms(1)] show ?thesis by auto
qed

lemma add_out_path_eq:
  assumes "ten_path_table_add_out_path now t cmd = Ret (a, cmd', t')"
  obtains dest expired where
    "cmd' = cmd\<lparr>parent_cmd_id := [], result_handler := None, result_handler_data := None\<rparr>"
    "dest_loc cmd = [dest]" "msg_name cmd \<noteq> []" "ten_loc_check_integrity (src_loc cmd)" "ten_loc_check_integrity dest"
    "get_expired_time now (ten_path_table_get_path_timeout_duration t TEN_PATH_OUT) = Ret expired"
    "a = next_addr t" "t' = put_path (next_addr t) (path_for TEN_PATH_OUT cmd dest None expired)
        t\<lparr>out_paths := out_paths t @ [next_addr t], next_addr := next_addr t + 1\<rparr>"
  using assms
  by (fastforce simp: ten_path_table_add_out_path_def Let_def put_path_def ten_path_out_create_def
      ten_path_set_expired_time_def path_for_def ten_raw_cmd_base_set_result_handler_def
      ten_raw_cmd_base_reset_parent_cmd_id_def
      ten_raw_msg_get_first_dest_loc_def ten_raw_msg_get_dest_cnt_def split: if_splits list.splits)

lemma add_out_path_ok:
  assumes "table_ok t" and "ten_path_table_add_out_path now t cmd = Ret (a, cmd', t')"
  shows "table_ok t'"
  using assms(2)
proof (cases rule: add_out_path_eq)
  case (1 dest expired)
  with path_for_ok(2) [OF assms(1)] show ?thesis by auto
qed

text \<open>Joining a group changes nothing but the group of the paths.\<close>

lemma join_group_eq:
  assumes "\<forall>a \<in> set as. path_at t a \<noteq> None"
  shows "join_group g as t = Ret (t\<lparr>path_at := (\<lambda>a. if a \<in> set as
           then map_option (\<lambda>p. p\<lparr>path_group := Some g\<rparr>) (path_at t a) else path_at t a)\<rparr>)"
  using assms
proof (induction as arbitrary: t)
  case (Cons a as)
  then obtain p where p: "path_at t a = Some p" by auto
  with Cons.prems Cons.IH [of "put_path a (p\<lparr>path_group := Some g\<rparr>) t"]
  have "join_group g (a # as) t = Ret (put_path a (p\<lparr>path_group := Some g\<rparr>) t\<lparr>path_at := (\<lambda>b. if b \<in> set as
      then map_option (\<lambda>p. p\<lparr>path_group := Some g\<rparr>) (path_at (put_path a (p\<lparr>path_group := Some g\<rparr>) t) b)
      else path_at (put_path a (p\<lparr>path_group := Some g\<rparr>) t) b)\<rparr>)"
    by (simp add: put_path_def)
  then show ?case
    using p by (auto simp: put_path_def fun_eq_iff intro!: arg_cong [where f = "\<lambda>f. t\<lparr>path_at := f\<rparr>"])
qed simp

definition grouped :: "nat \<Rightarrow> nat list \<Rightarrow> TEN_RESULT_RETURN_POLICY \<Rightarrow> ten_path_table \<Rightarrow> ten_path_table" where
  "grouped g as policy t = t\<lparr>
     path_at := (\<lambda>a. if a \<in> set as then map_option (\<lambda>p. p\<lparr>path_group := Some g\<rparr>) (path_at t a) else path_at t a),
     group_at := (group_at t)(g \<mapsto> \<lparr>group_policy = policy, group_members = as\<rparr>),
     next_addr := next_addr t + 1\<rparr>"

lemma create_group_eq:
  assumes "\<forall>a \<in> set as. path_at t a \<noteq> None" and "length as > 1"
  shows "ten_paths_create_group as policy t = Ret (grouped (next_addr t) as policy t)"
  using assms by (simp add: ten_paths_create_group_def join_group_eq grouped_def cong: if_cong)

text \<open>Distinct OUT paths without a group can form one.\<close>

lemma create_group_ok:
  assumes t: "table_ok t" and as: "set as \<subseteq> set (out_paths t)" "distinct as"
    and alone: "\<And>a p. a \<in> set as \<Longrightarrow> path_at t a = Some p \<Longrightarrow> path_group p = None"
    and r: "ten_paths_create_group as policy t = Ret t'"
  shows "table_ok t'"
proof -
  let ?g = "next_addr t"
  have all: "\<forall>a \<in> set as. path_at t a \<noteq> None" using t as(1) by (auto simp: table_ok_def path_ok_def)
  then have t': "t' = grouped ?g as policy t"
    using r create_group_eq [of as t policy] by (auto simp: ten_paths_create_group_def split: if_splits)
  have ins: "set as \<inter> set (in_paths t) = {}" using t as(1) by (auto simp: table_ok_def)
  have "path_ok TEN_PATH_IN t' a" if "a \<in> set (in_paths t)" for a
    using that t ins by (auto simp: t' table_ok_def path_ok_def grouped_def)
  moreover have "path_ok TEN_PATH_OUT t' a" if "a \<in> set (out_paths t)" for a
    using that t by (fastforce simp: t' table_ok_def path_ok_def grouped_def)
  moreover have "group_ok t' a" if a: "a \<in> set (out_paths t)" for a
  proof (cases "a \<in> set as")
    case True
    have ps: "b \<in> set (out_paths t') \<and> (\<exists>q. path_at t' b = Some q \<and> path_group q = Some ?g)" if "b \<in> set as" for b
      using that as(1) all by (auto simp: t' grouped_def)
    moreover have "group_at t' ?g = Some \<lparr>group_policy = policy, group_members = as\<rparr>" by (simp add: t' grouped_def)
    ultimately show ?thesis
      using True as(2) ps [OF True] unfolding group_ok_def by (metis option.inject ten_path_group.select_convs(2))
  next
    case False
    show ?thesis
      unfolding group_ok_def
    proof (intro allI impI)
      fix p g
      assume "path_at t' a = Some p" and g: "path_group p = Some g"
      with False have p: "path_at t a = Some p" by (simp add: t' grouped_def)
      obtain G where G: "group_at t g = Some G"
        using t a p g by (fastforce simp: table_ok_def group_ok_def)
      then have "g \<noteq> ?g" using table_ok_fresh(2) [OF t] by auto
      moreover have "b \<notin> set as" if "b \<in> set (group_members G)" for b
        using listed_in_group(3) [OF t _ p g G that] alone by fastforce
      ultimately show "\<exists>G. group_at t' g = Some G \<and> a \<in> set (group_members G) \<and> distinct (group_members G) \<and>
          (\<forall>b \<in> set (group_members G). b \<in> set (out_paths t') \<and> (\<exists>q. path_at t' b = Some q \<and> path_group q = Some g))"
        using listed_in_group [OF t _ p g G] G by (intro exI [of _ G]) (auto simp: t' grouped_def)
    qed
  qed
  moreover have "cmd_id_at t' = cmd_id_at t"
    by (auto simp: t' grouped_def fun_eq_iff cmd_id_at_def option.map_comp comp_def)
  ultimately show ?thesis
    using t by (auto simp: table_ok_def t' grouped_def less_Suc_eq)
qed

end
