(* ===== verification/Path_Flow.thy ===== *)
theory Path_Flow
  imports Path_Invariant
begin

text \<open>
  How the messages of an extension use its path table: results that arrive
  (\<open>core/src/ten_runtime/extension/msg_handling.c\<close>), the timers that give up on paths
  (\<open>extension/internal/path_timer.c\<close>), and the tables an extension can reach.
\<close>

section \<open>Results arrive\<close>

text \<open>A result that goes to the extension is kept with the IN path of the command that caused it, too.\<close>

definition ten_extension_cache_cmd_result_to_in_path_for_auto_return ::
    "msg_handlers \<Rightarrow> string \<Rightarrow> ten_path_table \<Rightarrow> nat \<Rightarrow> ten_path_table run" where
  "ten_extension_cache_cmd_result_to_in_path_for_auto_return h uuid t cmd =
     run_bind (load (msg_at t) cmd) (\<lambda>m.
     if \<not> is_result m then Abort
     else run_bind (ten_path_table_find_path_from_cmd_id t TEN_PATH_IN (Some (cmd_id m))) (\<lambda>in_path.
       case in_path of None \<Rightarrow> Ret t | Some a \<Rightarrow> ten_path_set_result h uuid a cmd t))"

text \<open>The part of \<open>ten_extension_handle_in_msg\<close> for results: the result that goes to the extension, if
  there is one.\<close>

definition handle_in_result ::
    "msg_handlers \<Rightarrow> string \<Rightarrow> ten_path_table \<Rightarrow> nat \<Rightarrow> (nat option \<times> ten_path_table) run" where
  "handle_in_result h uuid t msg =
     run_bind (ten_path_table_set_result h uuid t TEN_PATH_OUT msg) (\<lambda>(out_path, t).
     case out_path of
       None \<Rightarrow> Ret (None, t)
     | Some a \<Rightarrow>
         run_bind (load (msg_at t) msg) (\<lambda>m.
         run_bind (ten_raw_cmd_result_is_final m) (\<lambda>final.
         run_bind (load (path_at t) a) (\<lambda>p.
         if \<not> (final \<or> \<not> ten_path_is_in_a_group p) then Abort
         else run_bind (ten_path_table_determine_actual_cmd_result t TEN_PATH_OUT a final) (\<lambda>(r, t).
           case r of
             None \<Rightarrow> Ret (None, t)
           | Some r \<Rightarrow>
               map_run (Pair (Some r)) (ten_extension_cache_cmd_result_to_in_path_for_auto_return h uuid t r))))))"

section \<open>Timers\<close>

definition expire_in_path :: "64 word \<Rightarrow> nat \<Rightarrow> ten_path_table \<Rightarrow> ten_path_table run" where
  "expire_in_path now a t =
     run_bind (load (path_at t) a) (\<lambda>p. Ret (if now \<ge> expired_time_us p then drop_path TEN_PATH_IN a t else t))"

text \<open>The time is signed; the comparison is not.\<close>

definition ten_extension_in_path_timer_on_triggered :: "int \<Rightarrow> ten_path_table \<Rightarrow> ten_path_table run" where
  "ten_extension_in_path_timer_on_triggered current_time_us t =
     run_fold (expire_in_path (word_of_int current_time_us)) (in_paths t) t"

text \<open>The errors that stand for the results of the OUT paths that expired; the success of setting the
  property is not looked at.\<close>

definition timeout_result :: "msg_handlers \<Rightarrow> ten_path \<Rightarrow> message run" where
  "timeout_result h p =
     map_run (\<lambda>(_, m). ten_raw_cmd_base_set_cmd_id m (path_cmd_id p))
       (ten_raw_msg_set_property (set_other_property h) (ten_raw_cmd_result_create TEN_STATUS_CODE_ERROR)
          ''detail'' (ten_value_create_string ''Path timeout.''))"

fun timeout_results :: "msg_handlers \<Rightarrow> 64 word \<Rightarrow> ten_path_table \<Rightarrow> nat list \<Rightarrow> message list run" where
  "timeout_results h now t [] = Ret []"
| "timeout_results h now t (a # as) =
     run_bind (load (path_at t) a) (\<lambda>p.
       if now \<ge> expired_time_us p
       then run_bind (timeout_result h p) (\<lambda>m. map_run ((#) m) (timeout_results h now t as))
       else timeout_results h now t as)"

text \<open>A result that arrives is a new message; \<open>arrive_all\<close> handles several in their order and gives what
  the extension gets to see.\<close>

definition arrive ::
    "msg_handlers \<Rightarrow> string \<Rightarrow> message \<Rightarrow> ten_path_table \<Rightarrow> (message list \<times> ten_path_table) run" where
  "arrive h uuid m t =
     (let (r, t) = alloc_msg m t
      in run_bind (handle_in_result h uuid t r) (\<lambda>(out, t).
           case out of None \<Rightarrow> Ret ([], t) | Some r \<Rightarrow> map_run (\<lambda>m. ([m], t)) (load (msg_at t) r)))"

fun arrive_all ::
    "msg_handlers \<Rightarrow> (nat \<Rightarrow> string) \<Rightarrow> nat \<Rightarrow> message list \<Rightarrow> ten_path_table \<Rightarrow> (message list \<times> ten_path_table) run" where
  "arrive_all h uuids n [] t = Ret ([], t)"
| "arrive_all h uuids n (m # ms) t =
     run_bind (arrive h (uuids n) m t) (\<lambda>(out, t).
       map_run (\<lambda>(outs, t). (out @ outs, t)) (arrive_all h uuids (n + 1) ms t))"

definition ten_extension_out_path_timer_on_triggered ::
    "msg_handlers \<Rightarrow> (nat \<Rightarrow> string) \<Rightarrow> int \<Rightarrow> ten_path_table \<Rightarrow> (message list \<times> ten_path_table) run" where
  "ten_extension_out_path_timer_on_triggered h uuids current_time_us t =
     run_bind (timeout_results h (word_of_int current_time_us) t (out_paths t)) (\<lambda>ms. arrive_all h uuids 0 ms t)"

section \<open>The invariant\<close>

lemma find_path_member:
  assumes "table_ok t" and "ten_path_table_find_path_from_cmd_id t ty i = Ret (Some a)"
  shows "a \<in> set (paths_of ty t)" "path_at t a \<noteq> None"
proof -
  have "List.find (\<lambda>a. i = None \<or> cmd_id_at t a = i) (paths_of ty t) = Some a"
    using assms by (simp add: find_path_eq)
  then show "a \<in> set (paths_of ty t)" by (auto simp: find_Some_iff)
  then show "path_at t a \<noteq> None" using assms(1) by (auto simp: table_ok_def path_ok_def paths_of_def split: if_splits)
qed

lemma cache_result_ok:
  assumes "table_ok t" and "ten_extension_cache_cmd_result_to_in_path_for_auto_return h uuid t r = Ret t'"
  shows "table_ok t'"
  using assms set_result_ok [OF assms(1)]
  by (auto simp: ten_extension_cache_cmd_result_to_in_path_for_auto_return_def split: if_splits option.splits)

lemma table_set_result_ok:
  assumes "table_ok t" and "ten_path_table_set_result h uuid t ty r = Ret (a, t')"
  shows "table_ok t'"
  using assms set_result_ok [OF assms(1)]
  by (auto simp: ten_path_table_set_result_def split: if_splits option.splits)

lemma handle_in_result_ok:
  assumes t: "table_ok t" and r: "handle_in_result h uuid t r = Ret (out, t')"
  shows "table_ok t'"
proof -
  obtain a t1 where 1: "ten_path_table_set_result h uuid t TEN_PATH_OUT r = Ret (a, t1)"
    using r by (auto simp: handle_in_result_def)
  note t1 = table_set_result_ok [OF t 1]
  show ?thesis
  proof (cases a)
    case None
    with 1 r t1 show ?thesis by (simp add: handle_in_result_def)
  next
    case (Some b)
    with 1 r obtain final q t2 where 2: "ten_path_table_determine_actual_cmd_result t1 TEN_PATH_OUT b final = Ret (q, t2)"
      and 3: "(case q of None \<Rightarrow> Ret (None, t2) | Some r \<Rightarrow>
        map_run (Pair (Some r)) (ten_extension_cache_cmd_result_to_in_path_for_auto_return h uuid t2 r)) = Ret (out, t')"
      by (auto simp: handle_in_result_def split: if_splits)
    from determine_ok [OF t1 2] 3 show ?thesis
      by (auto split: option.splits dest: cache_result_ok)
  qed
qed

lemma arrive_ok:
  assumes "table_ok t" and "arrive h uuid m t = Ret (out, t')"
  shows "table_ok t'"
proof -
  obtain r t1 where a: "alloc_msg m t = (r, t1)" by fastforce
  obtain o1 where "handle_in_result h uuid t1 r = Ret (o1, t')"
    using assms(2) a by (auto simp: arrive_def split: option.splits)
  then show ?thesis using table_ok_alloc [OF assms(1) a] handle_in_result_ok by blast
qed

lemma arrive_all_ok:
  "table_ok t \<Longrightarrow> arrive_all h uuids n ms t = Ret (outs, t') \<Longrightarrow> table_ok t'"
proof (induction ms arbitrary: n t outs)
  case (Cons m ms)
  then show ?case by (fastforce dest: arrive_ok)
qed simp

text \<open>The timer of the IN paths always returns, and it leaves the paths that are still valid.\<close>

lemma expire_fold:
  assumes "table_ok t" and "distinct as" and "set as \<subseteq> set (in_paths t)"
  shows "\<exists>t'. run_fold (expire_in_path now) as t = Ret t' \<and> table_ok t' \<and> out_paths t' = out_paths t \<and>
    in_paths t' = filter (\<lambda>a. a \<in> set as \<longrightarrow> now < expired_time_us (the (path_at t a))) (in_paths t) \<and>
    path_at t' = (\<lambda>a. if a \<in> set as \<and> expired_time_us (the (path_at t a)) \<le> now then None else path_at t a)"
  using assms
proof (induction as arbitrary: t)
  case (Cons a as)
  obtain p where p: "path_at t a = Some p" "path_group p = None"
    using Cons.prems by (auto simp: table_ok_def path_ok_def)
  let ?t = "if expired_time_us p \<le> now then drop_path TEN_PATH_IN a t else t"
  have d: "distinct (in_paths t)" using Cons.prems(1) by (simp add: table_ok_def)
  have "table_ok ?t" using drop_alone_ok [OF Cons.prems(1) p, of TEN_PATH_IN] Cons.prems by (auto simp: paths_of_def)
  moreover have "set as \<subseteq> set (in_paths ?t)" using Cons.prems d by auto
  ultimately obtain t' where t': "run_fold (expire_in_path now) as ?t = Ret t'" "table_ok t'" "out_paths t' = out_paths ?t"
    "in_paths t' = filter (\<lambda>a. a \<in> set as \<longrightarrow> now < expired_time_us (the (path_at ?t a))) (in_paths ?t)"
    "path_at t' = (\<lambda>a. if a \<in> set as \<and> expired_time_us (the (path_at ?t a)) \<le> now then None else path_at ?t a)"
    using Cons.IH [of ?t] Cons.prems(2) by auto
  have "in_paths t' = filter (\<lambda>b. b \<in> set (a # as) \<longrightarrow> now < expired_time_us (the (path_at t b))) (in_paths t)"
    using Cons.prems(2) d p by (auto simp: t'(4) distinct_remove1_removeAll removeAll_filter_not_eq not_less intro!: filter_cong)
  moreover have "path_at t' = (\<lambda>b. if b \<in> set (a # as) \<and> expired_time_us (the (path_at t b)) \<le> now then None else path_at t b)"
    using Cons.prems(2) p by (auto simp: t'(5))
  moreover have "expire_in_path now a t = Ret ?t" using p(1) by (simp add: expire_in_path_def)
  ultimately show ?case
    using t'(1-3) by (intro exI [of _ t']) auto
qed simp

text \<open>The time at which a path expires is the sum of the time and the timeout, or the last time there
  is.\<close>

lemma get_expired_time_eq:
  assumes "0 \<le> now" and "now < 2 ^ 64"
  shows "\<exists>e. get_expired_time now d = Ret e \<and> uint e = min (2 ^ 64 - 1) (now + uint d)"
proof -
  let ?now = "word_of_int now :: 64 word"
  have now: "uint ?now = now" using assms by (simp add: uint_word_of_int)
  have max: "uint (- 1 :: 64 word) = 2 ^ 64 - 1"
    by (simp add: unsigned_minus_1_eq_mask mask_eq_exp_minus_1)
  have m: "uint (- 1 - ?now) = 2 ^ 64 - 1 - now"
    using now assms max by (simp add: uint_sub_if')
  have "d > - 1 - ?now \<longleftrightarrow> 2 ^ 64 - 1 < now + uint d" by (auto simp: word_less_def m)
  moreover have "uint (?now + d) = now + uint d" if "now + uint d < 2 ^ 64"
    using that now by (simp add: uint_plus_if')
  ultimately show ?thesis
    using assms max by (auto simp: get_expired_time_def Let_def min_def)
qed

text \<open>C14: A command that enters an extension is remembered until its timeout has passed and no longer:
  the timer for IN paths always returns, keeps the path of the command as long as the time is before
  the sum of the time of entry and the timeout, without overflow for any timeout, and removes it
  from then on.  Other paths that are still valid and the OUT paths are not touched.\<close>

theorem in_path_expires:
  assumes t: "table_ok t" and owner: "attached_target t = OwnedByExtension d out"
    and add: "ten_path_table_add_in_path now uuid t cmd conv = Ret (a, cmd', t1)"
    and time: "0 \<le> now" "now < 2 ^ 63" "0 \<le> later" "later < 2 ^ 63"
  shows "\<exists>t2. ten_extension_in_path_timer_on_triggered later t1 = Ret t2 \<and> out_paths t2 = out_paths t1 \<and>
    (a \<in> set (in_paths t2) \<longleftrightarrow> later < now + uint d) \<and>
    (\<forall>b \<in> set (in_paths t1). b \<in> set (in_paths t2) \<longleftrightarrow> later < uint (expired_time_us (the (path_at t1 b))))"
proof -
  from add obtain cmd1 dest e where e: "get_expired_time now (ten_path_table_get_path_timeout_duration t TEN_PATH_IN) = Ret e"
    and a: "a = next_addr t" and t1: "t1 = put_path a (path_for TEN_PATH_IN cmd1 dest conv e)
      t\<lparr>in_paths := in_paths t @ [a], next_addr := next_addr t + 1\<rparr>"
    by (elim add_in_path_eq) auto
  have "uint e = min (2 ^ 64 - 1) (now + uint d)"
    using e get_expired_time_eq [of now d] time owner by (auto simp: ten_path_table_get_path_timeout_duration_def)
  then have e: "later < uint e \<longleftrightarrow> later < now + uint d" using time by auto
  have ok: "table_ok t1" by (rule add_in_path_ok [OF t add])
  then have "distinct (in_paths t1)" by (simp add: table_ok_def)
  with expire_fold [OF ok, of "in_paths t1" "word_of_int later"] obtain t2 where
    t2: "ten_extension_in_path_timer_on_triggered later t1 = Ret t2" "out_paths t2 = out_paths t1"
      "in_paths t2 = filter (\<lambda>b. word_of_int later < expired_time_us (the (path_at t1 b))) (in_paths t1)"
    by (auto simp: ten_extension_in_path_timer_on_triggered_def cong: filter_cong)
  have "(word_of_int later :: 64 word) < x \<longleftrightarrow> later < uint x" for x
    using time by (simp add: word_less_def uint_word_of_int)
  moreover have "expired_time_us (the (path_at t1 a)) = e" "a \<in> set (in_paths t1)"
    by (simp_all add: t1 put_path_def path_for_def)
  ultimately show ?thesis using t2 e by auto
qed

theorem in_path_expires_witness:
  "\<exists>a cmd' t1 t2.
     ten_path_table_add_in_path 5 ''u'' (ten_path_table_create (OwnedByExtension 10 20))
       ((ten_raw_cmd_init TEN_MSG_TYPE_CMD)\<lparr>msg_name := ''c'', cmd_id := ''i'', dest_loc := [ten_loc_init_empty]\<rparr>) None =
       Ret (a, cmd', t1) \<and>
     ten_extension_in_path_timer_on_triggered 14 t1 = Ret t2 \<and> a \<in> set (in_paths t2)"
proof -
  let ?t = "ten_path_table_create (OwnedByExtension 10 20)"
  let ?c = "(ten_raw_cmd_init TEN_MSG_TYPE_CMD)\<lparr>msg_name := ''c'', cmd_id := ''i'', dest_loc := [ten_loc_init_empty]\<rparr>"
  obtain e where "get_expired_time 5 10 = Ret e" using get_expired_time_eq [of 5 10] by auto
  then have "returns (ten_path_table_add_in_path 5 ''u'' ?t ?c None)"
    by (simp add: ten_path_table_add_in_path_def ten_path_table_create_def create_defs
        ten_raw_msg_is_cmd_and_result_def ten_raw_msg_get_dest_cnt_def ten_path_table_find_path_from_cmd_id_def
        paths_of_def ten_raw_msg_get_first_dest_loc_def ten_path_in_create_def ten_path_init_def
        ten_loc_init_empty_def ten_loc_check_integrity_def ten_path_table_get_path_timeout_duration_def Let_def)
  then obtain r where "ten_path_table_add_in_path 5 ''u'' ?t ?c None = Ret r" by (auto simp: returns_def)
  then obtain a c t1 where r: "ten_path_table_add_in_path 5 ''u'' ?t ?c None = Ret (a, c, t1)" by (cases r) auto
  from in_path_expires [OF table_ok_create _ r, of 10 20 14] r show ?thesis
    by (fastforce simp: ten_path_table_create_def)
qed

end
