(* ===== verification/Path_Group.thy ===== *)
theory Path_Group
  imports Path_Flow
begin

text \<open>
  What a group of OUT paths promises: a small machine that knows which paths still wait for their
  result and which results arrived in which order, and which says for every result whether one goes
  to the extension.  The path table implements it; and when every path got its result, the extension
  has got exactly one of them, or every one of them if the policy says so.
\<close>

section \<open>The abstract group\<close>

record pending =
  pending_policy :: TEN_RESULT_RETURN_POLICY
  waiting :: "nat list"
  arrived :: "(nat \<times> message) list"

text \<open>What goes to the extension: the path, its result, and whether it is the last.\<close>

definition receive :: "pending \<Rightarrow> nat \<Rightarrow> message \<Rightarrow> (nat \<times> message \<times> bool) option \<times> pending" where
  "receive s a m =
     (if a \<notin> set (waiting s) \<union> fst ` set (arrived s) then (None, s)
      else let w = remove1 a (waiting s);
               got = filter (\<lambda>(b, _). b \<noteq> a) (arrived s) @ [(a, m)];
               over = s\<lparr>waiting := [], arrived := []\<rparr>
      in if pending_policy s = TEN_RESULT_RETURN_POLICY_EACH_OK_AND_ERROR
         then (Some (a, m, w = []), s\<lparr>waiting := w\<rparr>)
         else if status_code m \<noteq> TEN_STATUS_CODE_OK then (Some (a, m, True), over)
         else if w = []
         then let (b, m') = (if pending_policy s = TEN_RESULT_RETURN_POLICY_FIRST_ERROR_OR_LAST_OK
                             then last got else hd got)
              in (Some (b, m', True), over)
         else (None, s\<lparr>waiting := w, arrived := got\<rparr>))"

definition members_of :: "pending \<Rightarrow> nat list" where
  "members_of s = waiting s @ map fst (arrived s)"

text \<open>A result as it leaves its path.\<close>

definition restored :: "ten_path \<Rightarrow> message \<Rightarrow> bool \<Rightarrow> message" where
  "restored p m completed = m\<lparr>
     original_cmd_name := cmd_name p,
     cmd_id := (if original_cmd_id p \<noteq> [] then original_cmd_id p else cmd_id m),
     dest_loc := [path_src_loc p],
     result_handler := path_result_handler p, result_handler_data := path_result_handler_data p,
     is_completed := completed\<rparr>"

section \<open>How a table represents it\<close>

text \<open>\<open>A\<close> are the paths the group started with and \<open>P\<close> what they were then; a path of \<open>A\<close> that is not
  a member any more is gone, and no other path has its id.\<close>

definition represents :: "(nat \<Rightarrow> ten_path) \<Rightarrow> nat set \<Rightarrow> nat \<Rightarrow> pending \<Rightarrow> ten_path_table \<Rightarrow> bool" where
  "represents P A g s t \<longleftrightarrow>
     distinct (members_of s) \<and> set (members_of s) \<subseteq> A \<and>
     pending_policy s \<noteq> TEN_RESULT_RETURN_POLICY_INVALID \<and>
     (pending_policy s = TEN_RESULT_RETURN_POLICY_EACH_OK_AND_ERROR \<longrightarrow> arrived s = []) \<and>
     (members_of s \<noteq> [] \<longrightarrow>
        group_at t g = Some \<lparr>group_policy = pending_policy s, group_members = members_of s\<rparr>) \<and>
     (\<forall>a \<in> set (waiting s). path_at t a = Some (P a)) \<and>
     (\<forall>(a, m) \<in> set (arrived s). \<exists>r. path_at t a = Some (P a\<lparr>cached_cmd_result := Some r\<rparr>) \<and>
        msg_at t r = Some m \<and> is_result m \<and> status_code m = TEN_STATUS_CODE_OK) \<and>
     (\<forall>a \<in> A. (a \<in> set (out_paths t) \<longrightarrow> a \<in> set (members_of s)) \<and> path_group (P a) = Some g \<and>
        cached_cmd_result (P a) = None \<and> cmd_name (P a) \<noteq> [] \<and> ten_loc_check_integrity (path_src_loc (P a)) \<and>
        (\<forall>b \<in> set (out_paths t). cmd_id_at t b = Some (path_cmd_id (P a)) \<longrightarrow> b = a))"

lemma representsD:
  assumes "represents P A g s t"
  shows "distinct (members_of s)" "set (members_of s) \<subseteq> A"
    "pending_policy s \<noteq> TEN_RESULT_RETURN_POLICY_INVALID"
    "pending_policy s = TEN_RESULT_RETURN_POLICY_EACH_OK_AND_ERROR \<Longrightarrow> arrived s = []"
    "members_of s \<noteq> [] \<Longrightarrow>
        group_at t g = Some \<lparr>group_policy = pending_policy s, group_members = members_of s\<rparr>"
    "a \<in> set (waiting s) \<Longrightarrow> path_at t a = Some (P a)"
    "(a, m) \<in> set (arrived s) \<Longrightarrow> \<exists>r. path_at t a = Some (P a\<lparr>cached_cmd_result := Some r\<rparr>) \<and>
        msg_at t r = Some m \<and> is_result m \<and> status_code m = TEN_STATUS_CODE_OK"
    "a \<in> A \<Longrightarrow> a \<in> set (out_paths t) \<Longrightarrow> a \<in> set (members_of s)"
    "a \<in> A \<Longrightarrow> path_group (P a) = Some g" "a \<in> A \<Longrightarrow> cached_cmd_result (P a) = None"
    "a \<in> A \<Longrightarrow> cmd_name (P a) \<noteq> []" "a \<in> A \<Longrightarrow> ten_loc_check_integrity (path_src_loc (P a))"
    "a \<in> A \<Longrightarrow> b \<in> set (out_paths t) \<Longrightarrow> cmd_id_at t b = Some (path_cmd_id (P a)) \<Longrightarrow> b = a"
proof -
  note r = assms [unfolded represents_def]
  show "distinct (members_of s)" using r by blast
  show "set (members_of s) \<subseteq> A" using r by (elim conjE)
  show "pending_policy s \<noteq> TEN_RESULT_RETURN_POLICY_INVALID" using r by (elim conjE)
  show "pending_policy s = TEN_RESULT_RETURN_POLICY_EACH_OK_AND_ERROR \<Longrightarrow> arrived s = []" using r by (elim conjE) simp
  show "members_of s \<noteq> [] \<Longrightarrow>
        group_at t g = Some \<lparr>group_policy = pending_policy s, group_members = members_of s\<rparr>" using r by (elim conjE) simp
  show "a \<in> set (waiting s) \<Longrightarrow> path_at t a = Some (P a)" using r by (elim conjE) simp
  show "(a, m) \<in> set (arrived s) \<Longrightarrow> \<exists>r. path_at t a = Some (P a\<lparr>cached_cmd_result := Some r\<rparr>) \<and>
        msg_at t r = Some m \<and> is_result m \<and> status_code m = TEN_STATUS_CODE_OK" using r by (elim conjE) (drule bspec, assumption, simp)
  have 1: "\<forall>a \<in> A. (a \<in> set (out_paths t) \<longrightarrow> a \<in> set (members_of s)) \<and> path_group (P a) = Some g \<and>
        cached_cmd_result (P a) = None \<and> cmd_name (P a) \<noteq> [] \<and> ten_loc_check_integrity (path_src_loc (P a)) \<and>
        (\<forall>b \<in> set (out_paths t). cmd_id_at t b = Some (path_cmd_id (P a)) \<longrightarrow> b = a)"
    using r by (elim conjE)
  show "a \<in> A \<Longrightarrow> a \<in> set (out_paths t) \<Longrightarrow> a \<in> set (members_of s)"
    "a \<in> A \<Longrightarrow> path_group (P a) = Some g" "a \<in> A \<Longrightarrow> cached_cmd_result (P a) = None"
    "a \<in> A \<Longrightarrow> cmd_name (P a) \<noteq> []" "a \<in> A \<Longrightarrow> ten_loc_check_integrity (path_src_loc (P a))"
    "a \<in> A \<Longrightarrow> b \<in> set (out_paths t) \<Longrightarrow> cmd_id_at t b = Some (path_cmd_id (P a)) \<Longrightarrow> b = a"
    using 1 by blast+
qed

lemma represents_path:
  assumes "represents P A g s t" and "a \<in> set (members_of s)"
  obtains c where "path_at t a = Some (P a\<lparr>cached_cmd_result := c\<rparr>)"
proof -
  have "(\<exists>c. path_at t a = Some (P a\<lparr>cached_cmd_result := c\<rparr>))"
  proof (cases "a \<in> set (waiting s)")
    case True
    then have "path_at t a = Some (P a)" by (rule representsD(6) [OF assms(1)])
    moreover have "cached_cmd_result (P a) = None"
      using representsD(2) [OF assms(1)] assms(2) by (intro representsD(10) [OF assms(1)]) blast
    ultimately have "path_at t a = Some (P a\<lparr>cached_cmd_result := None\<rparr>)" by (cases "P a") simp
    then show ?thesis ..
  next
    case False
    with assms(2) obtain m where "(a, m) \<in> set (arrived s)" by (auto simp: members_of_def)
    from representsD(7) [OF assms(1) this] show ?thesis by blast
  qed
  then show thesis using that by blast
qed

lemma out_path_live: "table_ok t \<Longrightarrow> a \<in> set (out_paths t) \<Longrightarrow> path_at t a \<noteq> None"
  by (auto simp: table_ok_def path_ok_def)

lemma represents_out:
  assumes "represents P A g s t" and "table_ok t" and "a \<in> set (members_of s)"
  shows "a \<in> set (out_paths t)"
proof -
  obtain c where a: "path_at t a = Some (P a\<lparr>cached_cmd_result := c\<rparr>)"
    using assms(1,3) by (rule represents_path)
  have "path_group (P a) = Some g" using representsD(2,9) [OF assms(1)] assms(3) by blast
  then have "path_type (P a) = TEN_PATH_OUT"
    using table_ok_path(5) [OF assms(2) a] by auto
  then show ?thesis using table_ok_path(2) [OF assms(2) a] by (simp add: paths_of_def)
qed

lemma find_unique:
  assumes "a \<in> set xs" and "Q a" and "\<And>b. b \<in> set xs \<Longrightarrow> Q b \<Longrightarrow> b = a"
  shows "List.find Q xs = Some a"
proof (cases "List.find Q xs")
  case None
  with assms(1,2) show ?thesis unfolding find_None_iff by blast
next
  case (Some b)
  then have "b \<in> set xs" "Q b" by (auto simp: find_Some_iff)
  with Some assms(3) show ?thesis by blast
qed

lemma represents_find:
  assumes r: "represents P A g s t" and t: "table_ok t" and a: "a \<in> A"
  shows "ten_path_table_find_path_from_cmd_id t TEN_PATH_OUT (Some (path_cmd_id (P a))) =
    Ret (if a \<in> set (members_of s) then Some a else None)"
proof -
  let ?Q = "\<lambda>b. cmd_id_at t b = Some (path_cmd_id (P a))"
  have u: "b = a \<and> a \<in> set (members_of s)" if "b \<in> set (out_paths t)" "?Q b" for b
    using representsD(8,13) [OF r a] that by blast
  show ?thesis
  proof (cases "a \<in> set (members_of s)")
    case True
    obtain c where "path_at t a = Some (P a\<lparr>cached_cmd_result := c\<rparr>)"
      using r True by (rule represents_path)
    then have "List.find ?Q (out_paths t) = Some a"
      using u represents_out [OF r t True] by (intro find_unique) (auto simp: cmd_id_at_def)
    with True show ?thesis by (simp add: find_path_eq [OF t] paths_of_def)
  next
    case False
    with u have "List.find ?Q (out_paths t) = None" by (auto simp: find_None_iff)
    with False show ?thesis by (simp add: find_path_eq [OF t] paths_of_def)
  qed
qed

section \<open>One result\<close>

lemma resolve_loop_append:
  "resolve_loop t (xs @ ys) has_all = run_bind (resolve_loop t xs has_all) (\<lambda>(found, has_all).
     case found of None \<Rightarrow> resolve_loop t ys has_all | Some a \<Rightarrow> Ret (Some a, has_all))"
  by (induction xs arbitrary: has_all) (auto simp: run_bind_assoc split: option.splits intro!: run_bind_cong)

lemma resolve_loop_waiting:
  "\<forall>a \<in> set as. \<exists>p. path_at t a = Some p \<and> cached_cmd_result p = None \<Longrightarrow>
   resolve_loop t as has_all = Ret (None, has_all \<and> as = [])"
  by (induction as arbitrary: has_all) auto

lemma resolve_loop_ok:
  "\<forall>a \<in> set as. \<exists>p r m. path_at t a = Some p \<and> cached_cmd_result p = Some r \<and> msg_at t r = Some m \<and>
     is_result m \<and> status_code m = TEN_STATUS_CODE_OK \<Longrightarrow>
   resolve_loop t as has_all = Ret (None, has_all)"
  by (induction as arbitrary: has_all) (auto simp: ten_raw_cmd_result_get_status_code_def)

lemma restore_result_eq:
  assumes "is_result m" and "cmd_name p \<noteq> []" and "ten_loc_check_integrity (path_src_loc p)"
  shows "restore_result TEN_PATH_OUT p m = Ret (restored p m (is_completed m))"
proof -
  have "ten_loc_create (Some (app_uri l)) (Some (graph_id l)) (Some (extension_group_name l))
       (Some (extension_name l)) = Ret l" if "ten_loc_check_integrity l" for l :: ten_loc
    using ten_loc_copies(1) [OF that] that by (simp add: ten_loc_clone_def)
  with assms show ?thesis
    by (cases m) (auto simp: restore_result_def restored_def is_result_def
        ten_raw_cmd_result_set_original_cmd_name_def ten_raw_cmd_base_set_cmd_id_def
        ten_raw_msg_clear_and_set_dest_to_loc_def ten_raw_msg_clear_and_set_dest_def
        ten_raw_cmd_base_set_result_handler_def)
qed

text \<open>The members leave together.\<close>

lemma remove_members_eq:
  "distinct as \<Longrightarrow> distinct (out_paths t) \<Longrightarrow> set as \<subseteq> set (out_paths t) \<Longrightarrow> \<forall>a \<in> set as. path_at t a \<noteq> None \<Longrightarrow>
   \<exists>t'. run_fold (remove_member TEN_PATH_OUT) as t = Ret t' \<and> msg_at t' = msg_at t \<and> in_paths t' = in_paths t \<and>
     out_paths t' = filter (\<lambda>a. a \<notin> set as) (out_paths t) \<and>
     path_at t' = (\<lambda>a. if a \<in> set as then None else path_at t a)"
proof (induction as arbitrary: t)
  case (Cons a as)
  let ?t = "drop_path TEN_PATH_OUT a t"
  have a: "remove_member TEN_PATH_OUT a t = Ret ?t"
    using Cons.prems by (auto simp: remove_member_def paths_of_def)
  have "\<exists>t'. run_fold (remove_member TEN_PATH_OUT) as ?t = Ret t' \<and> msg_at t' = msg_at ?t \<and> in_paths t' = in_paths ?t \<and>
     out_paths t' = filter (\<lambda>a. a \<notin> set as) (out_paths ?t) \<and>
     path_at t' = (\<lambda>a. if a \<in> set as then None else path_at ?t a)"
    using Cons.prems by (intro Cons.IH) (auto simp: in_set_remove1)
  then obtain t' where t': "run_fold (remove_member TEN_PATH_OUT) as ?t = Ret t'" "msg_at t' = msg_at t"
    "in_paths t' = in_paths t" "out_paths t' = filter (\<lambda>a. a \<notin> set as) (remove1 a (out_paths t))"
    "path_at t' = (\<lambda>b. if b \<in> set as then None else if b = a then None else path_at t b)"
    by (auto simp: fun_upd_def cong: if_cong)
  have "out_paths t' = filter (\<lambda>b. b \<notin> set (a # as)) (out_paths t)"
    using t'(4) Cons.prems(2) by (auto simp: distinct_remove1_removeAll removeAll_filter_not_eq intro: filter_cong)
  with a t' show ?case by (intro exI [of _ t']) auto
qed auto

text \<open>The result has been put into its path.\<close>

definition store_result :: "nat \<Rightarrow> nat \<Rightarrow> message \<Rightarrow> nat \<Rightarrow> ten_path \<Rightarrow> nat list \<Rightarrow> ten_path_table \<Rightarrow> ten_path_table" where
  "store_result g r m a p ms t =
     put_members g (remove1 a ms @ [a]) (put_path a (p\<lparr>cached_cmd_result := Some r\<rparr>) (snd (alloc_msg m t)))"

lemma store_result_fields [simp]:
  "out_paths (store_result g r m a p ms t) = out_paths t"
  "in_paths (store_result g r m a p ms t) = in_paths t"
  "path_at (store_result g r m a p ms t) = (path_at t)(a \<mapsto> p\<lparr>cached_cmd_result := Some r\<rparr>)"
  "msg_at (store_result g r m a p ms t) = (msg_at t)(next_addr t \<mapsto> m)"
  "group_at (store_result g r m a p ms t) g = map_option (\<lambda>G. G\<lparr>group_members := remove1 a ms @ [a]\<rparr>) (group_at t g)"
  by (simp_all add: store_result_def put_members_def put_path_def alloc_msg_def)

lemma table_set_result_group:
  assumes rep: "represents P A g s t" and t: "table_ok t" and a: "a \<in> set (members_of s)"
    and m: "is_result m" "cmd_id m = path_cmd_id (P a)"
  shows "\<exists>p. path_at t a = Some p \<and> (\<exists>c. p = P a\<lparr>cached_cmd_result := c\<rparr>) \<and>
    ten_path_table_set_result h uuid (snd (alloc_msg m t)) TEN_PATH_OUT (next_addr t) =
      Ret (Some a, store_result g (next_addr t) m a p (members_of s) t) \<and>
    table_ok (store_result g (next_addr t) m a p (members_of s) t)"
proof -
  let ?t = "snd (alloc_msg m t)"
  have ok: "table_ok ?t" using table_ok_alloc [OF t] by (metis prod.collapse)
  obtain c where p: "path_at t a = Some (P a\<lparr>cached_cmd_result := c\<rparr>)" (is "_ = Some ?p")
    using rep a by (rule represents_path)
  have aA: "a \<in> A" using representsD(2) [OF rep] a by blast
  have G: "group_at t g = Some \<lparr>group_policy = pending_policy s, group_members = members_of s\<rparr>"
    using representsD(5) [OF rep] a by force
  have fields: "path_at ?t = path_at t" "group_at ?t = group_at t" "out_paths ?t = out_paths t"
      "msg_at ?t = (msg_at t)(next_addr t \<mapsto> m)"
    by (simp_all add: alloc_msg_def)
  have "cmd_id_at ?t = cmd_id_at t" by (simp add: fun_eq_iff cmd_id_at_def fields)
  then have find: "ten_path_table_find_path_from_cmd_id ?t TEN_PATH_OUT (Some (cmd_id m)) = Ret (Some a)"
    using represents_find [OF rep t aA] a m(2) by (simp add: find_path_eq [OF t] find_path_eq [OF ok] paths_of_def fields)
  have conv: "result_conversion ?p = None"
  proof -
    have "path_ok TEN_PATH_OUT t a" using represents_out [OF rep t a] t by (simp add: table_ok_def)
    then show ?thesis using p by (simp add: path_ok_def)
  qed
  have "ten_path_set_result h uuid a (next_addr t) ?t = Ret (store_result g (next_addr t) m a ?p (members_of s) t)"
    using p m(1) conv representsD(9) [OF rep aA] G a
    by (simp add: ten_path_set_result_def fields ten_path_get_group_def put_path_def store_result_def)
  then have set: "ten_path_table_set_result h uuid ?t TEN_PATH_OUT (next_addr t) =
      Ret (Some a, store_result g (next_addr t) m a ?p (members_of s) t)"
    using find m(1) by (simp add: ten_path_table_set_result_def ten_path_table_find_path_def fields
        ten_raw_msg_is_cmd_and_result_def is_result_def)
  with table_set_result_ok [OF ok] p show ?thesis by (intro exI [of _ ?p]) blast
qed

text \<open>The IN paths of commands that arrived without a conversion.\<close>

definition plain_in :: "ten_path_table \<Rightarrow> bool" where
  "plain_in t \<longleftrightarrow> (\<forall>a \<in> set (in_paths t). \<forall>p. path_at t a = Some p \<longrightarrow> result_conversion p = None)"

lemma auto_return_eq:
  assumes t: "table_ok t" "plain_in t" and m: "msg_at t r = Some m" "is_result m"
  shows "\<exists>t'. ten_extension_cache_cmd_result_to_in_path_for_auto_return h uuid t r = Ret t' \<and>
    out_paths t' = out_paths t \<and> msg_at t' = msg_at t \<and> group_at t' = group_at t \<and>
    (\<forall>a \<in> set (out_paths t). path_at t' a = path_at t a) \<and> plain_in t'"
proof -
  obtain found where found: "ten_path_table_find_path_from_cmd_id t TEN_PATH_IN (Some (cmd_id m)) = Ret found"
    by (simp add: find_path_eq [OF t(1)])
  show ?thesis
  proof (cases found)
    case None
    with found m t show ?thesis by (simp add: ten_extension_cache_cmd_result_to_in_path_for_auto_return_def)
  next
    case (Some a)
    with found have a: "a \<in> set (in_paths t)" using find_path_member(1) [OF t(1), of TEN_PATH_IN _ a] by (simp add: paths_of_def)
    then obtain p where p: "path_at t a = Some p" "path_group p = None"
      using t(1) by (auto simp: table_ok_def path_ok_def)
    have c: "result_conversion p = None" using a p t(2) by (simp add: plain_in_def)
    have "a \<notin> set (out_paths t)" using a t(1) by (auto simp: table_ok_def)
    with found Some m p c t(2) show ?thesis
      by (auto simp: ten_extension_cache_cmd_result_to_in_path_for_auto_return_def ten_path_set_result_def
          put_path_def plain_in_def)
  qed
qed

lemma represents_frame:
  assumes r: "represents P A g s t" and t: "table_ok t"
    and same: "group_at t' g = group_at t g" "out_paths t' = out_paths t"
      "\<And>a. a \<in> set (out_paths t) \<Longrightarrow> path_at t' a = path_at t a"
      "\<And>r m. msg_at t r = Some m \<Longrightarrow> msg_at t' r = Some m"
  shows "represents P A g s t'"
proof -
  have p: "path_at t' a = path_at t a" if "a \<in> set (members_of s)" for a
    using represents_out [OF r t that] by (rule same(3))
  have i: "cmd_id_at t' b = cmd_id_at t b" if "b \<in> set (out_paths t)" for b
    using same(3) [OF that] by (simp add: cmd_id_at_def)
  have w: "path_at t' a = Some (P a)" if "a \<in> set (waiting s)" for a
    using p [of a] that representsD(6) [OF r that] by (simp add: members_of_def)
  have ar: "\<exists>r. path_at t' a = Some (P a\<lparr>cached_cmd_result := Some r\<rparr>) \<and>
        msg_at t' r = Some m \<and> is_result m \<and> status_code m = TEN_STATUS_CODE_OK"
    if "(a, m) \<in> set (arrived s)" for a m
    using p [of a] that representsD(7) [OF r that] same(4) by (force simp: members_of_def)
  show ?thesis
    unfolding represents_def
    using representsD(1-5) [OF r] representsD(8-13) [OF r] w ar i same(1,2)
    by (intro conjI ballI impI; (simp; fail)?) (auto split: prod.splits)
qed

lemma represents_over:
  assumes r: "represents P A g s t" and out: "set (out_paths t') \<subseteq> set (out_paths t) - A"
    and same: "\<And>a. a \<in> set (out_paths t') \<Longrightarrow> path_at t' a = path_at t a"
  shows "represents P A g (s\<lparr>waiting := [], arrived := []\<rparr>) t'"
proof -
  have i: "cmd_id_at t' b = cmd_id_at t b" if "b \<in> set (out_paths t')" for b
    using same [OF that] by (simp add: cmd_id_at_def)
  have "b = a" if "a \<in> A" "b \<in> set (out_paths t')" "cmd_id_at t' b = Some (path_cmd_id (P a))" for a b
    using that out i representsD(13) [OF r that(1)] by fastforce
  moreover have "a \<notin> set (out_paths t')" if "a \<in> A" for a using out that by blast
  ultimately show ?thesis
    using representsD(3,9-12) [OF r] by (simp add: represents_def members_of_def)
qed

lemma receive_absent: "a \<notin> set (members_of s) \<Longrightarrow> receive s a m = (None, s)"
  by (simp add: receive_def members_of_def)

lemma arrive_absent:
  assumes rep: "represents P A g s t" and t: "table_ok t" and a: "a \<in> A" "a \<notin> set (members_of s)"
    and m: "is_result m" "cmd_id m = path_cmd_id (P a)"
  shows "arrive h uuid m t = Ret ([], snd (alloc_msg m t)) \<and> represents P A g s (snd (alloc_msg m t))"
proof
  let ?t = "snd (alloc_msg m t)"
  have ok: "table_ok ?t" using table_ok_alloc [OF t] by (metis prod.collapse)
  show rep': "represents P A g s ?t"
    using table_ok_fresh(3) [OF t] by (intro represents_frame [OF rep t]) (auto simp: alloc_msg_def)
  have "ten_path_table_find_path_from_cmd_id ?t TEN_PATH_OUT (Some (cmd_id m)) = Ret None"
    using represents_find [OF rep' ok a(1)] a(2) m(2) by simp
  then show "arrive h uuid m t = Ret ([], ?t)"
    using m(1)
    by (simp add: arrive_def alloc_msg_def handle_in_result_def ten_path_table_set_result_def
        ten_path_table_find_path_def ten_raw_msg_is_cmd_and_result_def is_result_def)
qed

text \<open>A result for a member: it is stored, the group decides, and the IN paths take note.\<close>

lemma arrive_member:
  assumes rep: "represents P A g s t" and t: "table_ok t" and a: "a \<in> set (members_of s)"
    and m: "is_result m" "cmd_id m = path_cmd_id (P a)" "is_final m" and p: "path_at t a = Some p"
    and det: "ten_path_table_determine_actual_cmd_result
      (store_result g (next_addr t) m a p (members_of s) t) TEN_PATH_OUT a True = Ret (out, t3)"
  shows "out = None \<Longrightarrow> arrive h uuid m t = Ret ([], t3)"
    and "out = Some r \<Longrightarrow> msg_at t3 r = Some m' \<Longrightarrow> is_result m' \<Longrightarrow> plain_in t3 \<Longrightarrow>
      \<exists>t4. arrive h uuid m t = Ret ([m'], t4) \<and> out_paths t4 = out_paths t3 \<and> msg_at t4 = msg_at t3 \<and>
        group_at t4 = group_at t3 \<and> (\<forall>a \<in> set (out_paths t3). path_at t4 a = path_at t3 a) \<and> plain_in t4"
proof -
  let ?r = "next_addr t" and ?t2 = "store_result g (next_addr t) m a p (members_of s) t"
  have set: "ten_path_table_set_result h uuid (snd (alloc_msg m t)) TEN_PATH_OUT ?r = Ret (Some a, ?t2)"
    and ok2: "table_ok ?t2"
    using table_set_result_group [OF rep t a m(1,2), of h uuid] p by auto
  note ok3 = determine_ok [OF ok2 det]
  have handle: "handle_in_result h uuid (snd (alloc_msg m t)) ?r = (case out of None \<Rightarrow> Ret (None, t3)
      | Some r \<Rightarrow> map_run (Pair (Some r)) (ten_extension_cache_cmd_result_to_in_path_for_auto_return h uuid t3 r))"
    using set det m(1,3) by (simp add: handle_in_result_def ten_raw_cmd_result_is_final_def)
  have arr: "arrive h uuid m t = run_bind (handle_in_result h uuid (snd (alloc_msg m t)) ?r) (\<lambda>(out, t).
      case out of None \<Rightarrow> Ret ([], t) | Some r \<Rightarrow> map_run (\<lambda>m. ([m], t)) (load (msg_at t) r))"
    by (simp add: arrive_def alloc_msg_def)
  show "out = None \<Longrightarrow> arrive h uuid m t = Ret ([], t3)" using arr handle by simp
  assume out: "out = Some r" and m': "msg_at t3 r = Some m'" "is_result m'" "plain_in t3"
  obtain t4 where "ten_extension_cache_cmd_result_to_in_path_for_auto_return h uuid t3 r = Ret t4"
    "out_paths t4 = out_paths t3" "msg_at t4 = msg_at t3" "group_at t4 = group_at t3"
    "\<forall>a \<in> set (out_paths t3). path_at t4 a = path_at t3 a" "plain_in t4"
    using auto_return_eq [OF ok3 m'(3,1,2)] by blast
  with arr handle out m' show "\<exists>t4. arrive h uuid m t = Ret ([m'], t4) \<and> out_paths t4 = out_paths t3 \<and>
        msg_at t4 = msg_at t3 \<and> group_at t4 = group_at t3 \<and>
        (\<forall>a \<in> set (out_paths t3). path_at t4 a = path_at t3 a) \<and> plain_in t4"
    by (intro exI [of _ t4]) simp
qed

text \<open>The result \<open>m\<close> of the member \<open>a\<close> has been stored, which makes \<open>t2\<close> of \<open>t\<close>.\<close>

definition stored :: "(nat \<Rightarrow> ten_path) \<Rightarrow> nat set \<Rightarrow> nat \<Rightarrow> pending \<Rightarrow> ten_path_table \<Rightarrow> nat \<Rightarrow> message \<Rightarrow>
    ten_path_table \<Rightarrow> bool" where
  "stored P A g s t a m t2 \<longleftrightarrow> represents P A g s t \<and> table_ok t \<and> plain_in t \<and> a \<in> set (members_of s) \<and>
     is_result m \<and> table_ok t2 \<and>
     (\<exists>p. path_at t a = Some p \<and> (\<exists>c. p = P a\<lparr>cached_cmd_result := c\<rparr>) \<and>
        t2 = store_result g (next_addr t) m a p (members_of s) t)"

definition others :: "nat \<Rightarrow> pending \<Rightarrow> (nat \<times> message) list" where
  "others a s = filter (\<lambda>(b, _). b \<noteq> a) (arrived s)"

lemma members_others:
  assumes "distinct (members_of s)" and "a \<in> set (members_of s)"
  shows "remove1 a (members_of s) = remove1 a (waiting s) @ map fst (others a s)"
    and "a \<notin> set (remove1 a (members_of s))"
proof -
  have "map fst (filter (\<lambda>(b, _). b \<noteq> a) xs) = removeAll a (map fst xs)" for xs :: "(nat \<times> message) list"
    by (induction xs) auto
  then show "remove1 a (members_of s) = remove1 a (waiting s) @ map fst (others a s)"
  proof (cases "a \<in> set (waiting s)")
    case True
    then have "a \<notin> set (map fst (arrived s))" using assms(1) by (auto simp: members_of_def)
    with True \<open>\<And>xs. map fst (filter (\<lambda>(b, _). b \<noteq> a) xs) = removeAll a (map fst xs)\<close> show ?thesis
      by (simp add: members_of_def others_def remove1_append removeAll_id)
  next
    case False
    with assms \<open>\<And>xs. map fst (filter (\<lambda>(b, _). b \<noteq> a) xs) = removeAll a (map fst xs)\<close> show ?thesis
      by (auto simp: members_of_def others_def remove1_append remove1_idem distinct_remove1_removeAll)
  qed
  show "a \<notin> set (remove1 a (members_of s))" using assms by simp
qed

lemma storedD:
  assumes "stored P A g s t a m t2"
  shows "path_at t2 a = Some (P a\<lparr>cached_cmd_result := Some (next_addr t)\<rparr>)"
    "group_at t2 g = Some \<lparr>group_policy = pending_policy s,
       group_members = remove1 a (waiting s) @ map fst (others a s) @ [a]\<rparr>"
    "msg_at t2 (next_addr t) = Some m"
    "out_paths t2 = out_paths t" "in_paths t2 = in_paths t" "b \<noteq> a \<Longrightarrow> path_at t2 b = path_at t b"
    "b \<in> set (remove1 a (waiting s)) \<Longrightarrow> path_at t2 b = Some (P b)"
    "(b, n) \<in> set (others a s) \<Longrightarrow> \<exists>r. path_at t2 b = Some (P b\<lparr>cached_cmd_result := Some r\<rparr>) \<and>
        msg_at t2 r = Some n \<and> is_result n \<and> status_code n = TEN_STATUS_CODE_OK"
    "a \<in> A" "plain_in t2"
proof -
  note s = assms [unfolded stored_def]
  then have rep: "represents P A g s t" and t: "table_ok t" and a: "a \<in> set (members_of s)" and pl: "plain_in t"
    by blast+
  obtain p c where p: "path_at t a = Some p" "p = P a\<lparr>cached_cmd_result := c\<rparr>"
    and t2: "t2 = store_result g (next_addr t) m a p (members_of s) t"
    using s by blast
  note D = representsD [OF rep]
  note mo = members_others [OF D(1) a]
  have ne: "members_of s \<noteq> []" using a by auto
  show "path_at t2 a = Some (P a\<lparr>cached_cmd_result := Some (next_addr t)\<rparr>)" by (simp add: t2 p(2))
  show "group_at t2 g = Some \<lparr>group_policy = pending_policy s,
       group_members = remove1 a (waiting s) @ map fst (others a s) @ [a]\<rparr>"
    by (simp add: t2 D(5) [OF ne] mo(1))
  show "msg_at t2 (next_addr t) = Some m" "out_paths t2 = out_paths t" "in_paths t2 = in_paths t"
    by (simp_all add: t2)
  show same: "b \<noteq> a \<Longrightarrow> path_at t2 b = path_at t b" for b by (simp add: t2)
  show "b \<in> set (remove1 a (waiting s)) \<Longrightarrow> path_at t2 b = Some (P b)"
  proof -
    assume b: "b \<in> set (remove1 a (waiting s))"
    then have "b \<noteq> a" using mo by auto
    with same b D(6) [of b] set_remove1_subset [of a "waiting s"] show ?thesis by auto
  qed
  show "(b, n) \<in> set (others a s) \<Longrightarrow> \<exists>r. path_at t2 b = Some (P b\<lparr>cached_cmd_result := Some r\<rparr>) \<and>
        msg_at t2 r = Some n \<and> is_result n \<and> status_code n = TEN_STATUS_CODE_OK"
  proof -
    assume b: "(b, n) \<in> set (others a s)"
    then have "(b, n) \<in> set (arrived s)" "b \<noteq> a" by (auto simp: others_def)
    then obtain r where r: "path_at t b = Some (P b\<lparr>cached_cmd_result := Some r\<rparr>)" "msg_at t r = Some n"
      "is_result n" "status_code n = TEN_STATUS_CODE_OK" using D(7) by blast
    moreover have "r \<noteq> next_addr t" using r(2) table_ok_fresh(3) [OF t] by auto
    ultimately show ?thesis using same [OF \<open>b \<noteq> a\<close>] by (intro exI [of _ r]) (simp add: t2)
  qed
  show "a \<in> A" using D(2) a by blast
  have "a \<notin> set (in_paths t)" using represents_out [OF rep t a] t by (auto simp: table_ok_def)
  with pl same show "plain_in t2" by (auto simp: plain_in_def t2)
qed

text \<open>Under the policies that give one result, delivering it ends the group.\<close>

lemma deliver_first:
  assumes st: "stored P A g s t a m t2" and b: "b \<in> set (members_of s)"
    and r: "path_at t2 b = Some (P b\<lparr>cached_cmd_result := Some r\<rparr>)" "msg_at t2 r = Some n" "is_result n"
    and pol: "pending_policy s \<noteq> TEN_RESULT_RETURN_POLICY_EACH_OK_AND_ERROR"
  shows "\<exists>t3. deliver_result TEN_PATH_OUT True b t2 = Ret (Some r, t3) \<and>
    msg_at t3 r = Some (restored (P b) n True) \<and> plain_in t3 \<and>
    set (out_paths t3) \<subseteq> set (out_paths t) - A \<and> (\<forall>c \<in> set (out_paths t3). path_at t3 c = path_at t c)"
proof -
  note s = st [unfolded stored_def]
  then have rep: "represents P A g s t" and t: "table_ok t" and a: "a \<in> set (members_of s)" and t2: "table_ok t2"
    by blast+
  note D = representsD [OF rep] and S = storedD [OF st]
  have bA: "b \<in> A" using D(2) b by blast
  let ?ms = "remove1 a (waiting s) @ map fst (others a s) @ [a]"
  have ms: "set ?ms = set (members_of s)" "distinct ?ms"
  proof -
    have eq: "?ms = remove1 a (members_of s) @ [a]" by (simp add: members_others(1) [OF D(1) a])
    show "set ?ms = set (members_of s)" "distinct ?ms"
      unfolding eq using set_move_last [OF a] distinct_remove1 [OF D(1), of a] members_others(2) [OF D(1) a] by simp_all
  qed
  have out: "set ?ms \<subseteq> set (out_paths t2)" "\<forall>c \<in> set ?ms. path_at t2 c \<noteq> None"
  proof -
    show 1: "set ?ms \<subseteq> set (out_paths t2)" unfolding ms(1) using represents_out [OF rep t] S(4) by auto
    show "\<forall>c \<in> set ?ms. path_at t2 c \<noteq> None"
      using 1 out_path_live [OF t2] by blast
  qed
  obtain t3 where t3: "run_fold (remove_member TEN_PATH_OUT) ?ms t2 = Ret t3" "msg_at t3 = msg_at t2"
    "in_paths t3 = in_paths t2" "out_paths t3 = filter (\<lambda>c. c \<notin> set ?ms) (out_paths t2)"
    "path_at t3 = (\<lambda>c. if c \<in> set ?ms then None else path_at t2 c)"
    using remove_members_eq [OF ms(2) _ out] t2 by (auto simp: table_ok_def)
  have pb: "path_group (P b) = Some g" "cmd_name (P b) \<noteq> []" "ten_loc_check_integrity (path_src_loc (P b))"
    using D(9,11,12) bA by blast+
  have "ten_path_table_remove_group_and_all_its_paths t2 TEN_PATH_OUT b = Ret t3"
    using r(1) pb(1) S(2) t3(1)
    by (simp add: ten_path_table_remove_group_and_all_its_paths_def ten_path_group_get_members_def
        ten_path_get_group_def)
  then have leave: "leave_table TEN_PATH_OUT True b (P b\<lparr>cached_cmd_result := Some r\<rparr>) n' t2 = Ret (True, t3)" for n'
    using pb(1) S(2) pol D(3)
    by (cases "pending_policy s") (simp_all add: leave_table_def ten_path_is_in_a_group_def ten_path_get_group_def)
  let ?n = "restored (P b) n True"
  have "restore_result TEN_PATH_OUT (P b\<lparr>cached_cmd_result := Some r\<rparr>) n =
      Ret (restored (P b) n (is_completed n))"
    using restore_result_eq [OF r(3), of "P b\<lparr>cached_cmd_result := Some r\<rparr>"] pb by (simp add: restored_def)
  moreover have "ten_raw_cmd_result_set_completed (restored (P b) n (is_completed n)) True = Ret ?n"
    using r(3) by (simp add: ten_raw_cmd_result_set_completed_def restored_def is_result_def)
  ultimately have "deliver_result TEN_PATH_OUT True b t2 = Ret (Some r, put_msg r ?n t3)"
    using r leave by (simp add: deliver_result_def)
  moreover have "c \<notin> A" if "c \<in> set (out_paths t)" "c \<notin> set ?ms" for c
    using D(8) that ms(1) by blast
  then have "set (out_paths t3) \<subseteq> set (out_paths t) - A" using t3(4) S(4) by auto
  moreover have "path_at t3 c = path_at t c" if "c \<in> set (out_paths t3)" for c
    using that t3(4,5) S(6) [of c] by auto
  moreover have "plain_in t3" using S(10) t3(3,5) by (auto simp: plain_in_def)
  ultimately show ?thesis
    by (intro exI [of _ "put_msg r ?n t3"]) (simp add: put_msg_def plain_in_def)
qed

text \<open>Under the policy that gives every result, delivering it takes its path out of the group.\<close>

lemma deliver_each:
  assumes st: "stored P A g s t a m t2"
    and pol: "pending_policy s = TEN_RESULT_RETURN_POLICY_EACH_OK_AND_ERROR"
  shows "\<exists>t3. ten_path_table_determine_actual_cmd_result t2 TEN_PATH_OUT a True = Ret (Some (next_addr t), t3) \<and>
    msg_at t3 (next_addr t) = Some (restored (P a) m (remove1 a (waiting s) = [])) \<and> plain_in t3 \<and>
    represents P A g (s\<lparr>waiting := remove1 a (waiting s)\<rparr>) t3"
proof -
  note s = st [unfolded stored_def]
  then have rep: "represents P A g s t" and t: "table_ok t" and a: "a \<in> set (members_of s)" and m: "is_result m"
    and t2: "table_ok t2"
    by blast+
  note D = representsD [OF rep] and S = storedD [OF st]
  let ?w = "remove1 a (waiting s)" and ?r = "next_addr t"
  have arr: "arrived s = []" using D(4) pol by simp
  then have G: "group_at t2 g = Some \<lparr>group_policy = pending_policy s, group_members = ?w @ [a]\<rparr>"
    using S(2) by (simp add: others_def)
  have w: "a \<notin> set ?w" "distinct ?w" using members_others(2) [OF D(1) a] D(1) arr by (auto simp: members_of_def)
  have pa: "path_group (P a) = Some g" "cmd_name (P a) \<noteq> []" "ten_loc_check_integrity (path_src_loc (P a))"
    using D(9,11,12) S(9) by blast+
  have out: "a \<in> set (out_paths t2)" using represents_out [OF rep t a] S(4) by simp
  let ?t = "drop_path TEN_PATH_OUT a (put_members g ?w t2)"
  have "ten_path_table_remove_path_from_group t2 TEN_PATH_OUT a = Ret (?w = [], ?t)"
    using S(1) pa(1) G out w(1)
    by (simp add: ten_path_table_remove_path_from_group_def ten_path_group_get_members_def ten_path_get_group_def
        paths_of_def remove1_append remove1_idem)
  then have leave: "leave_table TEN_PATH_OUT True a (P a\<lparr>cached_cmd_result := Some ?r\<rparr>) n' t2 = Ret (?w = [], ?t)" for n'
    using pa(1) G pol by (simp add: leave_table_def ten_path_is_in_a_group_def ten_path_get_group_def)
  let ?n = "restored (P a) m (?w = [])"
  have "restore_result TEN_PATH_OUT (P a\<lparr>cached_cmd_result := Some ?r\<rparr>) m =
      Ret (restored (P a) m (is_completed m))"
    using restore_result_eq [OF m, of "P a\<lparr>cached_cmd_result := Some ?r\<rparr>"] pa by (simp add: restored_def)
  moreover have "ten_raw_cmd_result_set_completed (restored (P a) m (is_completed m)) (?w = []) = Ret ?n"
    using m by (simp add: ten_raw_cmd_result_set_completed_def restored_def is_result_def)
  ultimately have "deliver_result TEN_PATH_OUT True a t2 = Ret (Some ?r, put_msg ?r ?n ?t)"
    using S(1,3) leave by (simp add: deliver_result_def)
  moreover have "ten_path_group_resolve t2 a = Ret (Some a)"
    using S(1) pa(1) G pol by (simp add: ten_path_group_resolve_def ten_path_get_group_def)
  ultimately have det: "ten_path_table_determine_actual_cmd_result t2 TEN_PATH_OUT a True =
      Ret (Some ?r, put_msg ?r ?n ?t)"
    using S(1) pa(1) by (simp add: ten_path_table_determine_actual_cmd_result_def ten_path_is_in_a_group_def)
  have d: "distinct (out_paths t)" using t by (simp add: table_ok_def)
  let ?t3 = "put_msg ?r ?n ?t" and ?s = "s\<lparr>waiting := ?w\<rparr>"
  have f: "path_at ?t3 = (path_at t2)(a := None)" "out_paths ?t3 = remove1 a (out_paths t)"
    "in_paths ?t3 = in_paths t2" "msg_at ?t3 = (msg_at t2)(?r \<mapsto> ?n)"
    "group_at ?t3 g = Some \<lparr>group_policy = pending_policy s, group_members = ?w\<rparr>"
    using S(4) G by (simp_all add: put_msg_def put_members_def)
  have ids: "cmd_id_at ?t3 b = cmd_id_at t b" if "b \<in> set (out_paths ?t3)" for b
    using that d S(6) [of b] by (auto simp: f cmd_id_at_def)
  have "represents P A g ?s ?t3"
    unfolding represents_def
  proof (intro conjI ballI impI)
    show "distinct (members_of ?s)" "set (members_of ?s) \<subseteq> A" "arrived ?s = []"
      using w(2) arr D(2) set_remove1_subset [of a "waiting s"] by (auto simp: members_of_def)
    show "group_at ?t3 g = Some \<lparr>group_policy = pending_policy ?s, group_members = members_of ?s\<rparr>"
      using f(5) arr by (simp add: members_of_def)
    show "path_at ?t3 b = Some (P b)" if "b \<in> set (waiting ?s)" for b
      using that w(1) S(7) by (auto simp: f(1))
    fix b assume b: "b \<in> A"
    show "b \<in> set (members_of ?s)" if "b \<in> set (out_paths ?t3)"
    proof -
      have "b \<noteq> a" "b \<in> set (out_paths t)" using that d by (auto simp: f(2))
      with D(8) [OF b] arr show ?thesis by (auto simp: members_of_def)
    qed
    show "c = b" if "c \<in> set (out_paths ?t3)" "cmd_id_at ?t3 c = Some (path_cmd_id (P b))" for c
      using D(13) [OF b] that ids d by (auto simp: f(2))
  qed (use D(3,9-12) arr in auto)
  moreover have "plain_in ?t3" using S(10) by (auto simp: plain_in_def f(1,3))
  ultimately show ?thesis using det f(4) by auto
qed

text \<open>The machine and the table take the same step.\<close>

lemma resolve_stored:
  assumes st: "stored P A g s t a m t2"
  shows "resolve_loop t2 (remove1 a (waiting s) @ map fst (others a s) @ [a]) True =
    Ret (if status_code m \<noteq> TEN_STATUS_CODE_OK then Some a else None, remove1 a (waiting s) = [])"
proof -
  note S = storedD [OF st] and D = representsD [OF st [unfolded stored_def, THEN conjunct1]]
  have "cached_cmd_result (P b) = None" if "b \<in> set (waiting s)" for b
    using D(2,10) that by (auto simp: members_of_def)
  then have 1: "resolve_loop t2 (remove1 a (waiting s)) True = Ret (None, remove1 a (waiting s) = [])"
    using resolve_loop_waiting [of "remove1 a (waiting s)" t2 True] S(7) set_remove1_subset [of a "waiting s"] by auto
  have 2: "resolve_loop t2 (map fst (others a s)) x = Ret (None, x)" for x
    using S(8) by (intro resolve_loop_ok) fastforce
  have "is_result m" using st by (simp add: stored_def)
  then have 3: "resolve_loop t2 [a] x = Ret (if status_code m \<noteq> TEN_STATUS_CODE_OK then Some a else None, x)" for x
    using S(1,3) by (simp add: ten_raw_cmd_result_get_status_code_def)
  show ?thesis by (simp only: resolve_loop_append 1 2 3 run_bind.simps prod.case option.case)
qed

text \<open>A group that still waits for somebody keeps the result.\<close>

lemma represents_stored:
  assumes st: "stored P A g s t a m t2" and ok: "status_code m = TEN_STATUS_CODE_OK"
    and pol: "pending_policy s \<noteq> TEN_RESULT_RETURN_POLICY_EACH_OK_AND_ERROR"
  shows "represents P A g (s\<lparr>waiting := remove1 a (waiting s), arrived := others a s @ [(a, m)]\<rparr>) t2"
    (is "represents P A g ?s t2")
proof -
  note s = st [unfolded stored_def]
  then have rep: "represents P A g s t" and t: "table_ok t" and a: "a \<in> set (members_of s)" and m: "is_result m"
    by blast+
  note D = representsD [OF rep] and S = storedD [OF st]
  have ms: "members_of ?s = remove1 a (members_of s) @ [a]"
    using members_others(1) [OF D(1) a] by (simp add: members_of_def)
  have set: "set (members_of ?s) = set (members_of s)" unfolding ms by (rule set_move_last [OF a])
  have ids: "cmd_id_at t2 b = cmd_id_at t b" for b
  proof (cases "b = a")
    case True
    obtain c where "path_at t a = Some (P a\<lparr>cached_cmd_result := c\<rparr>)" using rep a by (rule represents_path)
    with True S(1) show ?thesis by (simp add: cmd_id_at_def)
  next
    case False
    with S(6) show ?thesis by (simp add: cmd_id_at_def)
  qed
  show ?thesis
    unfolding represents_def
  proof (intro conjI ballI impI)
    show "distinct (members_of ?s)" "set (members_of ?s) \<subseteq> A"
      using D(1,2) members_others(2) [OF D(1) a] set unfolding ms by auto
    show "group_at t2 g = Some \<lparr>group_policy = pending_policy ?s, group_members = members_of ?s\<rparr>"
      using S(2) by (simp add: members_of_def)
    show "path_at t2 b = Some (P b)" if "b \<in> set (waiting ?s)" for b using that S(7) by simp
    show "case x of (b, n) \<Rightarrow> \<exists>r. path_at t2 b = Some (P b\<lparr>cached_cmd_result := Some r\<rparr>) \<and>
        msg_at t2 r = Some n \<and> is_result n \<and> status_code n = TEN_STATUS_CODE_OK"
      if "x \<in> set (arrived ?s)" for x
    proof -
      obtain b n where "x = (b, n)" by fastforce
      with that S(1,3,8) m ok show ?thesis by auto
    qed
    fix b assume b: "b \<in> A"
    show "b \<in> set (members_of ?s)" if "b \<in> set (out_paths t2)"
      using D(8) [OF b] that S(4) unfolding set by simp
    show "c = b" if "c \<in> set (out_paths t2)" "cmd_id_at t2 c = Some (path_cmd_id (P b))" for c
      using D(13) [OF b] that S(4) ids by simp
  qed (use D(3,9-12) pol in simp_all)
qed

fun delivered :: "(nat \<Rightarrow> ten_path) \<Rightarrow> (nat \<times> message \<times> bool) option \<Rightarrow> message list" where
  "delivered P None = []"
| "delivered P (Some (a, m, completed)) = [restored (P a) m completed]"

lemma restored_is_result [simp]: "is_result (restored p m c) = is_result m"
  by (simp add: restored_def is_result_def)

lemma represents_transfer:
  assumes "represents P A g s t3" and "table_ok t3"
    and "out_paths t4 = out_paths t3 \<and> msg_at t4 = msg_at t3 \<and> group_at t4 = group_at t3 \<and>
      (\<forall>a \<in> set (out_paths t3). path_at t4 a = path_at t3 a) \<and> plain_in t4"
  shows "represents P A g s t4"
  using assms(3) by (intro represents_frame [OF assms(1,2)]) auto

lemma arrive_simulates:
  assumes rep: "represents P A g s t" and t: "table_ok t" "plain_in t" and aA: "a \<in> A"
    and m: "is_result m" "cmd_id m = path_cmd_id (P a)" "is_final m"
  shows "\<exists>t'. arrive h uuid m t = Ret (delivered P (fst (receive s a m)), t') \<and>
    represents P A g (snd (receive s a m)) t' \<and> plain_in t' \<and> table_ok t'"
proof (cases "a \<in> set (members_of s)")
  case False
  have "plain_in (snd (alloc_msg m t))" using t(2) by (simp add: plain_in_def alloc_msg_def)
  with arrive_absent [OF rep t(1) aA False m(1,2), of h uuid] arrive_ok [OF t(1)] False show ?thesis
    by (auto simp: receive_absent)
next
  case True
  let ?r = "next_addr t"
  obtain p where p: "path_at t a = Some p" "\<exists>c. p = P a\<lparr>cached_cmd_result := c\<rparr>"
    and ok2: "table_ok (store_result g ?r m a p (members_of s) t)" (is "table_ok ?t2")
    using table_set_result_group [OF rep t(1) True m(1,2), of h uuid] by auto
  have st: "stored P A g s t a m ?t2" using rep t True m(1) ok2 p by (auto simp: stored_def)
  note S = storedD [OF st] and D = representsD [OF rep]
  note arr = arrive_member [OF rep t(1) True m p(1), where h = h and uuid = uuid]
  have pa: "path_group (P a) = Some g" using D(9) aA by blast
  let ?w = "remove1 a (waiting s)" and ?got = "others a s @ [(a, m)]"
  have mem: "(a \<notin> set (waiting s) \<union> fst ` set (arrived s)) = False"
    using True by (auto simp: members_of_def)
  note rec = receive_def [of s a m, unfolded mem if_False, folded others_def]
  show ?thesis
  proof (cases "pending_policy s = TEN_RESULT_RETURN_POLICY_EACH_OK_AND_ERROR")
    case each: True
    from deliver_each [OF st each] obtain t3 where
      det: "ten_path_table_determine_actual_cmd_result ?t2 TEN_PATH_OUT a True = Ret (Some ?r, t3)" and
      t3: "msg_at t3 ?r = Some (restored (P a) m (?w = []))" "plain_in t3" "represents P A g (s\<lparr>waiting := ?w\<rparr>) t3"
      by blast
    from arr(2) [OF det refl t3(1) _ t3(2)] m(1) obtain t4 where
      t4: "arrive h uuid m t = Ret ([restored (P a) m (?w = [])], t4)" "plain_in t4" and
      f: "out_paths t4 = out_paths t3 \<and> msg_at t4 = msg_at t3 \<and> group_at t4 = group_at t3 \<and>
        (\<forall>a \<in> set (out_paths t3). path_at t4 a = path_at t3 a) \<and> plain_in t4" by auto
    have "represents P A g (s\<lparr>waiting := ?w\<rparr>) t4"
      using represents_transfer [OF t3(3) determine_ok [OF ok2 det] f] .
    with t4 each arrive_ok [OF t(1) t4(1)] show ?thesis by (simp add: rec Let_def)
  next
    case pol: False
    let ?t2 = ?t2
    have resolve: "ten_path_group_resolve ?t2 a = Ret
      (if status_code m \<noteq> TEN_STATUS_CODE_OK then Some a
       else if ?w = []
       then Some (if pending_policy s = TEN_RESULT_RETURN_POLICY_FIRST_ERROR_OR_LAST_OK then a
                  else hd (map fst (others a s) @ [a]))
       else None)"
      using S(1,2) pa pol D(3) resolve_stored [OF st]
      by (cases "pending_policy s")
        (auto simp: ten_path_group_resolve_def ten_path_get_group_def
          ten_path_group_resolve_in_one_fail_and_all_ok_return_def)
    have det: "ten_path_table_determine_actual_cmd_result ?t2 TEN_PATH_OUT a True =
      run_bind (ten_path_group_resolve ?t2 a) (\<lambda>resolved. case resolved of
         None \<Rightarrow> Ret (None, ?t2) | Some b \<Rightarrow> deliver_result TEN_PATH_OUT True b ?t2)"
      using S(1) pa by (simp add: ten_path_table_determine_actual_cmd_result_def ten_path_is_in_a_group_def)
    have over: ?thesis if b: "ten_path_group_resolve ?t2 a = Ret (Some b)" "b \<in> set (members_of s)"
        "path_at ?t2 b = Some (P b\<lparr>cached_cmd_result := Some r\<rparr>)" "msg_at ?t2 r = Some n" "is_result n"
        and rv: "receive s a m = (Some (b, n, True), s\<lparr>waiting := [], arrived := []\<rparr>)" for b r n
    proof -
      from deliver_first [OF st b(2-5) pol] obtain t3 where
        det3: "deliver_result TEN_PATH_OUT True b ?t2 = Ret (Some r, t3)" and
        t3: "msg_at t3 r = Some (restored (P b) n True)" "plain_in t3"
          "set (out_paths t3) \<subseteq> set (out_paths t) - A" "\<forall>c \<in> set (out_paths t3). path_at t3 c = path_at t c"
        by blast
      have det4: "ten_path_table_determine_actual_cmd_result ?t2 TEN_PATH_OUT a True = Ret (Some r, t3)"
        using det b(1) det3 by simp
      from arr(2) [OF det4 refl t3(1) _ t3(2)] b(5) obtain t4 where
        t4: "arrive h uuid m t = Ret ([restored (P b) n True], t4)" "plain_in t4" and
        f: "out_paths t4 = out_paths t3 \<and> msg_at t4 = msg_at t3 \<and> group_at t4 = group_at t3 \<and>
          (\<forall>a \<in> set (out_paths t3). path_at t4 a = path_at t3 a) \<and> plain_in t4" by auto
      have "represents P A g (s\<lparr>waiting := [], arrived := []\<rparr>) t4"
        using represents_transfer [OF represents_over [OF rep t3(3)] determine_ok [OF ok2 det4] f] t3(4) by blast
      with t4 arrive_ok [OF t(1) t4(1)] rv show ?thesis by simp
    qed
    consider (failed) "status_code m \<noteq> TEN_STATUS_CODE_OK" | (last) "status_code m = TEN_STATUS_CODE_OK" "?w = []"
      | (wait) "status_code m = TEN_STATUS_CODE_OK" "?w \<noteq> []" by blast
    then show ?thesis
    proof cases
      case failed
      show ?thesis
        by (rule over [of a ?r m]) (use resolve failed True S(1,3) m(1) pol in \<open>simp_all add: rec Let_def\<close>)
    next
      case wait
      with det resolve have "ten_path_table_determine_actual_cmd_result ?t2 TEN_PATH_OUT a True = Ret (None, ?t2)"
        by simp
      from arr(1) [OF this refl] represents_stored [OF st wait(1) pol] S(10) ok2 wait pol show ?thesis
        by (simp add: rec Let_def)
    next
      case last
      show ?thesis
      proof (cases "pending_policy s = TEN_RESULT_RETURN_POLICY_FIRST_ERROR_OR_LAST_OK \<or> others a s = []")
        case True
        show ?thesis
          by (rule over [of a ?r m])
            (use resolve last True \<open>a \<in> set (members_of s)\<close> S(1,3) m(1) pol in \<open>auto simp: rec Let_def\<close>)
      next
        case False
        then obtain b n rest where o: "others a s = (b, n) # rest" by (cases "others a s") auto
        with S(8) [of b n] obtain r where r: "path_at ?t2 b = Some (P b\<lparr>cached_cmd_result := Some r\<rparr>)"
          "msg_at ?t2 r = Some n" "is_result n" by auto
        have "(b, n) \<in> set (arrived s)" using o by (auto simp: others_def dest: filter_eq_ConsD)
        then have "b \<in> set (members_of s)" by (force simp: members_of_def)
        with over [of b r n] resolve last False o r pol show ?thesis by (simp add: rec Let_def)
      qed
    qed
  qed
qed

section \<open>All results\<close>

fun receive_all :: "pending \<Rightarrow> (nat \<times> message) list \<Rightarrow> (nat \<times> message \<times> bool) list \<times> pending" where
  "receive_all s [] = ([], s)"
| "receive_all s ((a, m) # xs) =
     (let (d, s) = receive s a m; (ds, s) = receive_all s xs
      in ((case d of None \<Rightarrow> ds | Some x \<Rightarrow> x # ds), s))"

text \<open>Final results with the ids of the paths of the group.\<close>

definition for_group :: "(nat \<Rightarrow> ten_path) \<Rightarrow> nat set \<Rightarrow> (nat \<times> message) list \<Rightarrow> bool" where
  "for_group P A xs \<longleftrightarrow>
     (\<forall>(a, m) \<in> set xs. a \<in> A \<and> is_result m \<and> cmd_id m = path_cmd_id (P a) \<and> is_final m)"

lemma arrive_all_simulates:
  assumes "represents P A g s t" and "table_ok t" and "plain_in t" and "for_group P A xs"
  shows "\<exists>t'. arrive_all h uuids n (map snd xs) t =
      Ret (map (\<lambda>(a, m, c). restored (P a) m c) (fst (receive_all s xs)), t') \<and>
    represents P A g (snd (receive_all s xs)) t' \<and> table_ok t' \<and> plain_in t'"
  using assms
proof (induction s xs arbitrary: n t rule: receive_all.induct)
  case (2 s a m xs)
  from arrive_simulates [OF 2(2-4), of a m h "uuids n"] 2(5) obtain t1 where
    t1: "arrive h (uuids n) m t = Ret (delivered P (fst (receive s a m)), t1)"
      "represents P A g (snd (receive s a m)) t1" "plain_in t1" "table_ok t1"
    by (auto simp: for_group_def)
  obtain d s1 where r: "receive s a m = (d, s1)" by fastforce
  have "for_group P A xs" using 2(5) by (simp add: for_group_def)
  from 2(1) [OF r [symmetric] refl, of t1 "n + 1"] t1 r this obtain t2 where
    "arrive_all h uuids (n + 1) (map snd xs) t1 =
       Ret (map (\<lambda>(a, m, c). restored (P a) m c) (fst (receive_all s1 xs)), t2)"
    "represents P A g (snd (receive_all s1 xs)) t2" "table_ok t2" "plain_in t2" by auto
  with t1 r show ?case
    by (intro exI [of _ t2]) (auto split: option.splits prod.splits)
qed simp

text \<open>A new group waits for all of its paths.\<close>

lemma create_group_represents:
  assumes t: "table_ok t" and as: "set as \<subseteq> set (out_paths t)" "distinct as"
    and new: "\<And>a p. a \<in> set as \<Longrightarrow> path_at t a = Some p \<Longrightarrow> path_group p = None \<and> cached_cmd_result p = None"
    and ids: "\<And>a b. a \<in> set as \<Longrightarrow> b \<in> set (out_paths t) \<Longrightarrow> cmd_id_at t b = cmd_id_at t a \<Longrightarrow> b = a"
    and pol: "policy \<noteq> TEN_RESULT_RETURN_POLICY_INVALID"
    and r: "ten_paths_create_group as policy t = Ret t'"
  shows "represents (\<lambda>a. the (path_at t' a)) (set as) (next_addr t)
     \<lparr>pending_policy = policy, waiting = as, arrived = []\<rparr> t'"
proof -
  let ?g = "next_addr t"
  have paths: "\<exists>p. path_at t a = Some p \<and> cmd_name p \<noteq> [] \<and> ten_loc_check_integrity (path_src_loc p)"
    if "a \<in> set as" for a
  proof -
    have "path_ok TEN_PATH_OUT t a" using that as(1) t by (auto simp: table_ok_def)
    then show ?thesis by (auto simp: path_ok_def)
  qed
  then have "\<forall>a \<in> set as. path_at t a \<noteq> None" by fastforce
  moreover have "length as > 1" using r by (simp add: ten_paths_create_group_def split: if_splits)
  ultimately have t': "t' = grouped ?g as policy t" using r create_group_eq [of as t policy] by simp
  have p: "\<exists>p. path_at t a = Some p \<and> path_at t' a = Some (p\<lparr>path_group := Some ?g\<rparr>) \<and> cached_cmd_result p = None \<and>
      cmd_name p \<noteq> [] \<and> ten_loc_check_integrity (path_src_loc p)" if "a \<in> set as" for a
    using paths [OF that] new [OF that] that by (auto simp: t' grouped_def)
  have i: "cmd_id_at t' = cmd_id_at t"
    by (auto simp: t' grouped_def fun_eq_iff cmd_id_at_def option.map_comp comp_def)
  have out: "out_paths t' = out_paths t" by (simp add: t' grouped_def)
  have pid: "Some (path_cmd_id (the (path_at t' a))) = cmd_id_at t a" if "a \<in> set as" for a
    using p [OF that] by (auto simp: cmd_id_at_def)
  show ?thesis
    unfolding represents_def
  proof (intro conjI ballI impI)
    show "group_at t' ?g = Some \<lparr>group_policy = pending_policy \<lparr>pending_policy = policy, waiting = as, arrived = []\<rparr>,
        group_members = members_of \<lparr>pending_policy = policy, waiting = as, arrived = []\<rparr>\<rparr>"
      by (simp add: t' grouped_def members_of_def)
    show "path_at t' a = Some (the (path_at t' a))" if "a \<in> set (waiting \<lparr>pending_policy = policy, waiting = as, arrived = []\<rparr>)" for a
      using p [of a] that by auto
    fix a assume a: "a \<in> set as"
    show "path_group (the (path_at t' a)) = Some ?g" "cached_cmd_result (the (path_at t' a)) = None"
      "cmd_name (the (path_at t' a)) \<noteq> []" "ten_loc_check_integrity (path_src_loc (the (path_at t' a)))"
      using p [OF a] by auto
    show "b = a" if "b \<in> set (out_paths t')" "cmd_id_at t' b = Some (path_cmd_id (the (path_at t' a)))" for b
      using ids [OF a, of b] that pid [OF a] out i by simp
  qed (use as pol p in \<open>auto simp: members_of_def\<close>)
qed

text \<open>What the extension gets of the results \<open>xs\<close>, which stand in the order of their arrival.\<close>

definition answers :: "(nat \<Rightarrow> ten_path) \<Rightarrow> TEN_RESULT_RETURN_POLICY \<Rightarrow> (nat \<times> message) list \<Rightarrow> message list" where
  "answers P policy xs =
     (if policy = TEN_RESULT_RETURN_POLICY_EACH_OK_AND_ERROR
      then map (\<lambda>(a, m). restored (P a) m False) (butlast xs) @
           (case last xs of (a, m) \<Rightarrow> [restored (P a) m True])
      else case List.find (\<lambda>(_, m). status_code m \<noteq> TEN_STATUS_CODE_OK) xs of
             Some (a, m) \<Rightarrow> [restored (P a) m True]
           | None \<Rightarrow>
               (case (if policy = TEN_RESULT_RETURN_POLICY_FIRST_ERROR_OR_LAST_OK then last xs else hd xs) of
                  (a, m) \<Rightarrow> [restored (P a) m True]))"

lemma receive_each:
  "distinct (map fst xs) \<Longrightarrow> set (map fst xs) = set w \<Longrightarrow> distinct w \<Longrightarrow> xs \<noteq> [] \<Longrightarrow>
   pending_policy s = TEN_RESULT_RETURN_POLICY_EACH_OK_AND_ERROR \<Longrightarrow> waiting s = w \<Longrightarrow>
   \<exists>s'. receive_all s xs = (map (\<lambda>(a, m). (a, m, False)) (butlast xs) @ [(fst (last xs), snd (last xs), True)], s') \<and>
     waiting s' = [] \<and> arrived s' = arrived s"
proof (induction xs arbitrary: w s)
  case (Cons x xs)
  obtain a m where x: "x = (a, m)" by fastforce
  have rest: "set (map fst xs) = set (remove1 a w)" "distinct (remove1 a w)"
    using Cons.prems(1-3) x by auto
  then have w: "remove1 a w = [] \<longleftrightarrow> xs = []" by (metis list.map_disc_iff set_empty)
  have a: "a \<in> set w" using Cons.prems(2) x by auto
  have r: "receive s a m = (Some (a, m, xs = []), s\<lparr>waiting := remove1 a w\<rparr>)"
    using Cons.prems(5,6) a w by (simp add: receive_def Let_def)
  show ?case
  proof (cases "xs = []")
    case True
    with r w x show ?thesis by simp
  next
    case False
    with Cons.IH [of "remove1 a w" "s\<lparr>waiting := remove1 a w\<rparr>"] Cons.prems rest x obtain s' where
      "receive_all (s\<lparr>waiting := remove1 a w\<rparr>) xs =
         (map (\<lambda>(a, m). (a, m, False)) (butlast xs) @ [(fst (last xs), snd (last xs), True)], s')"
      "waiting s' = []" "arrived s' = arrived s" by auto
    with r x False show ?thesis by simp
  qed
qed simp

lemma receive_over: "waiting s = [] \<Longrightarrow> arrived s = [] \<Longrightarrow> receive_all s xs = ([], s)"
  by (induction s xs rule: receive_all.induct) (auto simp: receive_def)

lemma receive_first:
  "distinct (map fst (sofar @ xs)) \<Longrightarrow> set (map fst xs) = set w \<Longrightarrow> distinct w \<Longrightarrow> xs \<noteq> [] \<Longrightarrow>
   pending_policy s \<noteq> TEN_RESULT_RETURN_POLICY_EACH_OK_AND_ERROR \<Longrightarrow> waiting s = w \<Longrightarrow> arrived s = sofar \<Longrightarrow>
   \<exists>s'. receive_all s xs = ([case List.find (\<lambda>(_, m). status_code m \<noteq> TEN_STATUS_CODE_OK) xs of
       Some (a, m) \<Rightarrow> (a, m, True)
     | None \<Rightarrow> (case (if pending_policy s = TEN_RESULT_RETURN_POLICY_FIRST_ERROR_OR_LAST_OK then last xs else hd (sofar @ xs)) of
           (a, m) \<Rightarrow> (a, m, True))], s') \<and> waiting s' = [] \<and> arrived s' = []"
proof (induction xs arbitrary: w sofar s)
  case (Cons x xs)
  obtain a m where x: "x = (a, m)" by fastforce
  have rest: "set (map fst xs) = set (remove1 a w)" "distinct (remove1 a w)"
    using Cons.prems(1-3) x by auto
  then have w: "remove1 a w = [] \<longleftrightarrow> xs = []" by (metis list.map_disc_iff set_empty)
  have a: "a \<in> set w" using Cons.prems(2) x by auto
  have f: "filter (\<lambda>(b, _). b \<noteq> a) sofar = sofar"
    using Cons.prems(1) x by (force simp: filter_id_conv)
  have r: "receive s a m =
      (if status_code m \<noteq> TEN_STATUS_CODE_OK then (Some (a, m, True), s\<lparr>waiting := [], arrived := []\<rparr>)
       else if xs = []
       then (Some (case (if pending_policy s = TEN_RESULT_RETURN_POLICY_FIRST_ERROR_OR_LAST_OK
                         then (a, m) else hd (sofar @ [(a, m)])) of (b, n) \<Rightarrow> (b, n, True)),
             s\<lparr>waiting := [], arrived := []\<rparr>)
       else (None, s\<lparr>waiting := remove1 a w, arrived := sofar @ [(a, m)]\<rparr>))"
    using Cons.prems(5-7) a w f by (auto simp: receive_def Let_def split: prod.splits)
  show ?case
  proof (cases "status_code m \<noteq> TEN_STATUS_CODE_OK \<or> xs = []")
    case True
    with r x show ?thesis by (auto simp: receive_over split: prod.splits)
  next
    case False
    with Cons.IH [of "sofar @ [(a, m)]" "remove1 a w" "s\<lparr>waiting := remove1 a w, arrived := sofar @ [(a, m)]\<rparr>"]
      Cons.prems rest x obtain s' where
      "receive_all (s\<lparr>waiting := remove1 a w, arrived := sofar @ [(a, m)]\<rparr>) xs =
       ([case List.find (\<lambda>(_, m). status_code m \<noteq> TEN_STATUS_CODE_OK) xs of
       Some (a, m) \<Rightarrow> (a, m, True)
     | None \<Rightarrow> (case (if pending_policy s = TEN_RESULT_RETURN_POLICY_FIRST_ERROR_OR_LAST_OK then last xs
                     else hd ((sofar @ [(a, m)]) @ xs)) of
           (a, m) \<Rightarrow> (a, m, True))], s')" "waiting s' = []" "arrived s' = []" by auto
    with r x False show ?thesis by (simp split: option.split)
  qed
qed simp


text \<open>What becomes of a group of OUT paths when all their results arrive.\<close>

lemma group_answered:
  assumes t: "table_ok t" "plain_in t" and as: "set as \<subseteq> set (out_paths t)" "distinct as"
    and new: "\<And>a p. a \<in> set as \<Longrightarrow> path_at t a = Some p \<Longrightarrow> path_group p = None \<and> cached_cmd_result p = None"
    and ids: "\<And>a b. a \<in> set as \<Longrightarrow> b \<in> set (out_paths t) \<Longrightarrow> cmd_id_at t b = cmd_id_at t a \<Longrightarrow> b = a"
    and pol: "policy \<noteq> TEN_RESULT_RETURN_POLICY_INVALID"
    and r: "ten_paths_create_group as policy t = Ret t1"
    and xs: "distinct (map fst xs)" "set (map fst xs) = set as" "for_group (\<lambda>a. the (path_at t1 a)) (set as) xs"
  shows "\<exists>t2. arrive_all h uuids n (map snd xs) t1 = Ret (answers (\<lambda>a. the (path_at t1 a)) policy xs, t2) \<and>
    set (out_paths t2) \<inter> set as = {}"
proof -
  let ?P = "\<lambda>a. the (path_at t1 a)" and ?s = "\<lparr>pending_policy = policy, waiting = as, arrived = []\<rparr>"
  have rep: "represents ?P (set as) (next_addr t) ?s t1"
    by (rule create_group_represents [OF t(1) as new ids pol r])
  have ok: "table_ok t1" by (rule create_group_ok [OF t(1) as _ r]) (use new in blast)
  have "\<forall>a \<in> set as. path_at t a \<noteq> None" using out_path_live [OF t(1)] as(1) by blast
  then have "t1 = grouped (next_addr t) as policy t"
    using r create_group_eq [of as t policy] by (auto simp: ten_paths_create_group_def split: if_splits)
  then have plain: "plain_in t1" using t(2) by (auto simp: plain_in_def grouped_def)
  have ne: "xs \<noteq> []" using r xs(2) by (auto simp: ten_paths_create_group_def split: if_splits)
  obtain t2 where t2: "arrive_all h uuids n (map snd xs) t1 =
      Ret (map (\<lambda>(a, m, c). restored (?P a) m c) (fst (receive_all ?s xs)), t2)"
    "represents ?P (set as) (next_addr t) (snd (receive_all ?s xs)) t2"
    using arrive_all_simulates [OF rep ok plain xs(3)] by blast
  have "members_of (snd (receive_all ?s xs)) = [] \<and>
    map (\<lambda>(a, m, c). restored (?P a) m c) (fst (receive_all ?s xs)) = answers ?P policy xs"
  proof (cases "policy = TEN_RESULT_RETURN_POLICY_EACH_OK_AND_ERROR")
    case True
    with receive_each [OF xs(1,2) as(2) ne, of ?s] show ?thesis
      by (auto simp: answers_def members_of_def split: prod.splits)
  next
    case False
    with receive_first [of "[]" xs as ?s] xs(1,2) as(2) ne show ?thesis
      by (auto simp: answers_def members_of_def split: prod.splits option.splits)
  qed
  with t2 representsD(8) [OF t2(2)] show ?thesis by (intro exI [of _ t2]) auto
qed

text \<open>C10: When OUT paths with ids of their own form a group and then every one of them gets its final
  result, in any order, handling the results neither aborts nor waits for ever: under the policies
  that give one result the extension gets exactly one - the first that is not OK if there is one, and
  else the first or the last - which is marked as completed; under the policy that gives each result it
  gets all of them in their order, and only the last one is marked.  No path of the group stays in the
  table.\<close>

theorem group_answers:
  assumes t: "table_ok t" "plain_in t" and as: "set as \<subseteq> set (out_paths t)" "distinct as"
    and new: "\<And>a p. a \<in> set as \<Longrightarrow> path_at t a = Some p \<Longrightarrow> path_group p = None \<and> cached_cmd_result p = None"
    and ids: "\<And>a b. a \<in> set as \<Longrightarrow> b \<in> set (out_paths t) \<Longrightarrow> cmd_id_at t b = cmd_id_at t a \<Longrightarrow> b = a"
    and pol: "policy \<noteq> TEN_RESULT_RETURN_POLICY_INVALID"
    and r: "ten_paths_create_group as policy t = Ret t1"
    and xs: "distinct (map fst xs)" "set (map fst xs) = set as" "for_group (\<lambda>a. the (path_at t1 a)) (set as) xs"
  shows "\<exists>t2. arrive_all h uuids n (map snd xs) t1 = Ret (answers (\<lambda>a. the (path_at t1 a)) policy xs, t2) \<and>
    set (out_paths t2) \<inter> set as = {}"
  by (rule group_answered [OF assms])

section \<open>An example\<close>

text \<open>A command with the id \<open>i\<close>, and the table of an engine after \<open>a\<close> and \<open>b\<close> have left.\<close>

definition example_cmd :: "string \<Rightarrow> message" where
  "example_cmd i = (ten_raw_cmd_init TEN_MSG_TYPE_CMD)\<lparr>msg_name := ''c'', cmd_id := i, dest_loc := [ten_loc_init_empty]\<rparr>"

definition example_result :: "string \<Rightarrow> message" where
  "example_result i = (ten_raw_cmd_result_create TEN_STATUS_CODE_OK)\<lparr>cmd_id := i\<rparr>"

definition example_path :: "string \<Rightarrow> ten_path" where
  "example_path i = path_for TEN_PATH_OUT (example_cmd i) ten_loc_init_empty None (- 1)"

definition example_table :: ten_path_table where
  "example_table = \<lparr>attached_target = OwnedByEngine, in_paths = [], out_paths = [0, 1],
     path_at = [0 \<mapsto> example_path ''a'', 1 \<mapsto> example_path ''b''], group_at = (\<lambda>_. None), msg_at = (\<lambda>_. None), next_addr = 2\<rparr>"

lemma example_cmd_simps [simp]:
  "msg_name (example_cmd i) = ''c''" "cmd_id (example_cmd i) = i" "parent_cmd_id (example_cmd i) = []"
  "src_loc (example_cmd i) = ten_loc_init_empty" "ten_loc_check_integrity ten_loc_init_empty"
  "is_result (example_result i)" "is_final (example_result i)" "cmd_id (example_result i) = i"
  "status_code (example_result i) = TEN_STATUS_CODE_OK"
  by (simp_all add: example_cmd_def example_result_def create_defs ten_loc_init_empty_def
      ten_loc_check_integrity_def is_result_def ten_raw_cmd_result_create_def)

lemma example_path_simps [simp]:
  "path_group (example_path i) = None" "cached_cmd_result (example_path i) = None"
  "path_cmd_id (example_path i) = i" "cmd_name (example_path i) = ''c''"
  "path_src_loc (example_path i) = ten_loc_init_empty" "path_dest_loc (example_path i) = ten_loc_init_empty"
  "path_type (example_path i) = TEN_PATH_OUT" "result_conversion (example_path i) = None"
  by (simp_all add: example_path_def path_for_def)

lemma example_table_ok: "table_ok example_table" "plain_in example_table"
  by (auto simp: table_ok_def path_ok_def group_ok_def example_table_def plain_in_def split: if_splits)

definition example_group :: "TEN_RESULT_RETURN_POLICY \<Rightarrow> ten_path_table" where
  "example_group policy = grouped 2 [0, 1] policy example_table"

lemma example_group_created:
  "ten_paths_create_group [0, 1] policy example_table = Ret (example_group policy)"
  using create_group_eq [of "[0, 1]" example_table policy] by (simp add: example_group_def example_table_def)

lemma example_for_group:
  "for_group (\<lambda>a. the (path_at (example_group policy) a)) (set [0, 1]) [(1, example_result ''b''), (0, example_result ''a'')]"
  by (simp add: for_group_def example_group_def example_table_def grouped_def)

theorem group_answers_witness:
  "\<exists>t2. arrive_all \<lparr>clone_other = \<lambda>m _. Ret m, set_other_property = \<lambda>m _ _. (False, m), peek_other_property = \<lambda>_ _. None\<rparr>
      (\<lambda>_. ''u'') 0 [example_result ''b'', example_result ''a'']
      (example_group TEN_RESULT_RETURN_POLICY_FIRST_ERROR_OR_FIRST_OK) =
    Ret ([restored (the (path_at (example_group TEN_RESULT_RETURN_POLICY_FIRST_ERROR_OR_FIRST_OK) 1)) (example_result ''b'') True], t2)"
proof -
  let ?pol = "TEN_RESULT_RETURN_POLICY_FIRST_ERROR_OR_FIRST_OK"
  have "\<exists>t2. arrive_all \<lparr>clone_other = \<lambda>m _. Ret m, set_other_property = \<lambda>m _ _. (False, m), peek_other_property = \<lambda>_ _. None\<rparr>
      (\<lambda>_. ''u'') 0 (map snd [(1 :: nat, example_result ''b''), (0, example_result ''a'')]) (example_group ?pol) =
    Ret (answers (\<lambda>a. the (path_at (example_group ?pol) a)) ?pol [(1, example_result ''b''), (0, example_result ''a'')], t2) \<and>
    set (out_paths t2) \<inter> set [0, 1] = {}"
    by (rule group_answers [OF example_table_ok _ _ _ _ _ example_group_created _ _ example_for_group])
      (auto simp: example_table_def cmd_id_at_def split: if_splits)
  then show ?thesis by (auto simp: answers_def)
qed


end
