(* ===== verification/Graph_Info.thy ===== *)
theory Graph_Info
  imports Path_Table
begin

text \<open>
  The description of a graph: its extensions and where their messages go
  (\<open>core/src/ten_runtime/extension/extension_info/\<close> and \<open>msg_dest_info/\<close>).  The descriptions of a graph
  are in one list that only grows, and a pointer to one of them is its position in the list.  An
  operation that fails puts its error into the context of the caller, and asserts when the caller
  passed none.
\<close>

abbreviation "TEN_STR_STAR \<equiv> ''*''"
abbreviation "TEN_STR_ADDON \<equiv> ''addon''"
abbreviation "TEN_STR_DEST \<equiv> ''dest''"
abbreviation "TEN_STR_MSG_CONVERSION \<equiv> ''msg_conversion''"

section \<open>Data\<close>

definition TEN_DEFAULT_RESULT_RETURN_POLICY :: TEN_RESULT_RETURN_POLICY where
  "TEN_DEFAULT_RESULT_RETURN_POLICY = TEN_RESULT_RETURN_POLICY_EACH_OK_AND_ERROR"

record ten_msg_dest_info =
  dest_msg_name :: string
  dest_policy :: TEN_RESULT_RETURN_POLICY
  dest_infos :: "nat list"

record ten_all_msg_type_dest_info =
  dest_cmd :: "ten_msg_dest_info list"
  dest_data :: "ten_msg_dest_info list"
  dest_video_frame :: "ten_msg_dest_info list"
  dest_audio_frame :: "ten_msg_dest_info list"
  dest_interface :: "ten_msg_dest_info list"

record ten_extension_info =
  extension_addon_name :: string
  info_loc :: ten_loc
  msg_dest_info :: ten_all_msg_type_dest_info
  info_property :: ten_value
  msg_conversion_contexts :: "msg_conversion_context list"

section \<open>Destinations of messages\<close>

definition ten_msg_dest_info_create :: "string \<Rightarrow> ten_msg_dest_info" where
  "ten_msg_dest_info_create name =
     \<lparr>dest_msg_name = name, dest_policy = TEN_DEFAULT_RESULT_RETURN_POLICY, dest_infos = []\<rparr>"

definition ten_msg_dest_info_qualified :: "ten_msg_dest_info \<Rightarrow> string \<Rightarrow> bool" where
  "ten_msg_dest_info_qualified self name \<longleftrightarrow> dest_msg_name self = name \<or> dest_msg_name self = TEN_STR_STAR"

definition ten_all_msg_type_dest_info_init :: ten_all_msg_type_dest_info where
  "ten_all_msg_type_dest_info_init =
     \<lparr>dest_cmd = [], dest_data = [], dest_video_frame = [], dest_audio_frame = [], dest_interface = []\<rparr>"

section \<open>Extensions of a graph\<close>

definition ten_extension_info_create :: ten_extension_info where
  "ten_extension_info_create =
     \<lparr>extension_addon_name = [], info_loc = ten_loc_init_empty,
      msg_dest_info = ten_all_msg_type_dest_info_init, info_property = VObject [], msg_conversion_contexts = []\<rparr>"

definition ten_extension_info_is_desired_extension_group :: "ten_extension_info \<Rightarrow> string \<Rightarrow> string \<Rightarrow> bool" where
  "ten_extension_info_is_desired_extension_group self uri group_name \<longleftrightarrow>
     app_uri (info_loc self) = uri \<and> extension_group_name (info_loc self) = group_name"

text \<open>A NULL argument is not compared.\<close>

definition given :: "'a option \<Rightarrow> 'a \<Rightarrow> bool" where
  "given x y \<longleftrightarrow> x = None \<or> x = Some y"

definition ten_extension_info_is_specified_extension ::
    "ten_extension_info \<Rightarrow> string option \<Rightarrow> string option \<Rightarrow> string option \<Rightarrow> string \<Rightarrow> bool" where
  "ten_extension_info_is_specified_extension self uri graph grp name \<longleftrightarrow>
     given uri (app_uri (info_loc self)) \<and> given graph (graph_id (info_loc self)) \<and>
     given grp (extension_group_name (info_loc self)) \<and> extension_name (info_loc self) = name"

fun find_index :: "('a \<Rightarrow> bool) \<Rightarrow> 'a list \<Rightarrow> nat option" where
  "find_index P [] = None"
| "find_index P (x # xs) = (if P x then Some 0 else map_option Suc (find_index P xs))"

text \<open>\<open>has_err\<close>: the caller passed an error context.\<close>

definition graph_error :: "bool \<Rightarrow> string \<Rightarrow> (ten_error option + 'a) run" where
  "graph_error has_err m =
     (if has_err then Ret (Inl (Some (ten_error_set ten_error_init TEN_ERRNO_INVALID_GRAPH m))) else Abort)"

text \<open>The messages print the name of the extension group with \<open>%s\<close>; a NULL there is undefined.\<close>

definition get_extension_info_in_extensions_info ::
    "bool \<Rightarrow> ten_extension_info list \<Rightarrow> string option \<Rightarrow> string option \<Rightarrow> string option \<Rightarrow> string option \<Rightarrow>
       string option \<Rightarrow> bool \<Rightarrow> (ten_error option + nat \<times> ten_extension_info list) run" where
  "get_extension_info_in_extensions_info has_err infos uri graph grp addon instance should_exist =
     (case instance of
        None \<Rightarrow> Abort
      | Some name \<Rightarrow>
          if \<not> should_exist \<and> addon = None then Abort
          else case find_index (\<lambda>i. ten_extension_info_is_specified_extension i uri graph grp name) infos of
                 Some i \<Rightarrow>
                   if c_str_or_empty addon \<noteq> [] \<and> extension_addon_name (infos ! i) \<noteq> c_str_or_empty addon
                   then graph_error has_err
                          (''extension '' @ [CHR 0x27] @ name @ [CHR 0x27] @ '' is associated with different addon '' @
                           [CHR 0x27] @ c_str_or_empty addon @ [CHR 0x27] @ '', '' @
                           [CHR 0x27] @ extension_addon_name (infos ! i) @ [CHR 0x27])
                   else if \<not> should_exist
                   then run_bind (required_string grp) (\<lambda>grp. graph_error has_err
                          (''The extension_info is duplicated, extension_group: '' @ grp @ '', extension : '' @
                           name @ ''.''))
                   else Ret (Inr (i, infos))
               | None \<Rightarrow>
                   if should_exist
                   then run_bind (required_string grp) (\<lambda>grp. graph_error has_err
                          (''The extension_info is not found, extension_group: '' @ grp @ '', extension: '' @
                           name @ ''.''))
                   else map_run (\<lambda>l. Inr (length infos, infos @
                          [ten_extension_info_create\<lparr>info_loc := l, extension_addon_name := c_str_or_empty addon\<rparr>]))
                          (ten_loc_set ten_loc_init_empty uri graph grp (Some name)))"

section \<open>Copies\<close>

text \<open>A copy must find every extension in the list it is made for.\<close>

definition must :: "(ten_error option + 'a) run \<Rightarrow> 'a run" where
  "must r = run_bind r (\<lambda>x. case x of Inl _ \<Rightarrow> Abort | Inr a \<Rightarrow> Ret a)"

definition find_copy :: "bool \<Rightarrow> ten_extension_info list \<Rightarrow> ten_loc \<Rightarrow> string option \<Rightarrow> nat run" where
  "find_copy has_err infos l addon =
     map_run fst (must (get_extension_info_in_extensions_info has_err infos (Some (app_uri l)) (Some (graph_id l))
       (Some (extension_group_name l)) addon (Some (extension_name l)) True))"

definition deref :: "'a list \<Rightarrow> nat \<Rightarrow> 'a run" where
  "deref xs i = (if i < length xs then Ret (xs ! i) else Undef)"

definition ten_msg_dest_info_clone ::
    "bool \<Rightarrow> ten_extension_info list \<Rightarrow> ten_msg_dest_info \<Rightarrow> ten_extension_info list \<Rightarrow> ten_msg_dest_info run" where
  "ten_msg_dest_info_clone has_err src self infos =
     map_run (\<lambda>ds. (ten_msg_dest_info_create (dest_msg_name self))\<lparr>dest_infos := ds\<rparr>)
       (run_map (\<lambda>i. run_bind (deref src i) (\<lambda>d. find_copy has_err infos (info_loc d) None)) (dest_infos self))"

definition copy_msg_dest ::
    "bool \<Rightarrow> ten_extension_info list \<Rightarrow> ten_msg_dest_info list \<Rightarrow> ten_msg_dest_info list \<Rightarrow>
       ten_extension_info list \<Rightarrow> ten_msg_dest_info list run" where
  "copy_msg_dest has_err src to_info from_info infos =
     map_run ((@) to_info) (run_map (\<lambda>d. ten_msg_dest_info_clone has_err src d infos) from_info)"

definition merge_contexts ::
    "msg_conversion_context list \<Rightarrow> msg_conversion_context list \<Rightarrow> msg_conversion_context list run" where
  "merge_contexts = run_fold (\<lambda>c cs. case ten_msg_conversion_context_merge cs c of Inl _ \<Rightarrow> Abort | Inr cs \<Rightarrow> Ret cs)"

definition ten_extension_info_clone_except_dest ::
    "bool \<Rightarrow> ten_extension_info \<Rightarrow> ten_extension_info list \<Rightarrow> ten_extension_info list run" where
  "ten_extension_info_clone_except_dest has_err self infos =
     run_bind (must (get_extension_info_in_extensions_info has_err infos (Some (app_uri (info_loc self)))
       (Some (graph_id (info_loc self))) (Some (extension_group_name (info_loc self)))
       (Some (extension_addon_name self)) (Some (extension_name (info_loc self))) False)) (\<lambda>(i, infos).
     run_bind (ten_value_object_merge_with_clone (info_property (infos ! i)) (info_property self)) (\<lambda>p.
     run_bind (merge_contexts (msg_conversion_contexts self) (msg_conversion_contexts (infos ! i))) (\<lambda>cs.
       Ret (infos[i := (infos ! i)\<lparr>info_property := p, msg_conversion_contexts := cs\<rparr>]))))"

definition ten_extension_info_clone_dest ::
    "bool \<Rightarrow> ten_extension_info list \<Rightarrow> ten_extension_info \<Rightarrow> ten_extension_info list \<Rightarrow> ten_extension_info list run" where
  "ten_extension_info_clone_dest has_err src self infos =
     run_bind (find_copy has_err infos (info_loc self) (Some (extension_addon_name self))) (\<lambda>i.
     let to_info = msg_dest_info (infos ! i); from_info = msg_dest_info self in
     run_bind (copy_msg_dest has_err src (dest_cmd to_info) (dest_cmd from_info) infos) (\<lambda>cmds.
     run_bind (copy_msg_dest has_err src (dest_data to_info) (dest_data from_info) infos) (\<lambda>datas.
     run_bind (copy_msg_dest has_err src (dest_audio_frame to_info) (dest_audio_frame from_info) infos) (\<lambda>audios.
     run_bind (copy_msg_dest has_err src (dest_video_frame to_info) (dest_video_frame from_info) infos) (\<lambda>videos.
     run_bind (copy_msg_dest has_err src (dest_interface to_info) (dest_interface from_info) infos) (\<lambda>interfaces.
       Ret (infos[i := (infos ! i)\<lparr>msg_dest_info :=
         \<lparr>dest_cmd = cmds, dest_data = datas, dest_video_frame = videos, dest_audio_frame = audios,
          dest_interface = interfaces\<rparr>\<rparr>])))))))"

definition ten_extensions_info_clone ::
    "bool \<Rightarrow> ten_extension_info list \<Rightarrow> ten_extension_info list \<Rightarrow> ten_extension_info list run" where
  "ten_extensions_info_clone has_err from_list to_list =
     run_bind (run_fold (ten_extension_info_clone_except_dest has_err) from_list to_list)
       (run_fold (ten_extension_info_clone_dest has_err from_list) from_list)"

section \<open>Locations\<close>

definition localhost_or_empty :: "string \<Rightarrow> bool" where
  "localhost_or_empty uri \<longleftrightarrow> uri = [] \<or> uri = TEN_STR_LOCALHOST"

definition ten_extension_info_translate_localhost_to_app_uri ::
    "string \<Rightarrow> ten_extension_info \<Rightarrow> ten_extension_info" where
  "ten_extension_info_translate_localhost_to_app_uri uri self =
     (if localhost_or_empty (app_uri (info_loc self))
      then self\<lparr>info_loc := (info_loc self)\<lparr>app_uri := uri\<rparr>\<rparr> else self)"

definition ten_msg_dest_info_translate_localhost_to_app_uri ::
    "string \<Rightarrow> ten_msg_dest_info \<Rightarrow> ten_extension_info list \<Rightarrow> ten_extension_info list run" where
  "ten_msg_dest_info_translate_localhost_to_app_uri uri self =
     run_fold (\<lambda>i infos. map_run
       (\<lambda>d. infos[i := ten_extension_info_translate_localhost_to_app_uri uri d]) (deref infos i)) (dest_infos self)"

definition ten_all_msg_type_dest_info_translate_localhost_to_app_uri ::
    "string \<Rightarrow> ten_all_msg_type_dest_info \<Rightarrow> ten_extension_info list \<Rightarrow> ten_extension_info list run" where
  "ten_all_msg_type_dest_info_translate_localhost_to_app_uri uri self =
     run_fold (ten_msg_dest_info_translate_localhost_to_app_uri uri)
       (dest_cmd self @ dest_data self @ dest_video_frame self @ dest_audio_frame self)"

definition ten_extension_info_fill_app_uri :: "string \<Rightarrow> ten_extension_info \<Rightarrow> ten_extension_info run" where
  "ten_extension_info_fill_app_uri uri self =
     (if ten_loc_is_empty (info_loc self) then Abort
      else Ret (self\<lparr>
        info_loc := (if app_uri (info_loc self) = [] then (info_loc self)\<lparr>app_uri := uri\<rparr> else info_loc self),
        msg_conversion_contexts := map (\<lambda>c. if app_uri (context_src_loc c) = []
          then c\<lparr>context_src_loc := (context_src_loc c)\<lparr>app_uri := uri\<rparr>\<rparr> else c) (msg_conversion_contexts self)\<rparr>))"

definition ten_extensions_info_fill_app_uri :: "string \<Rightarrow> ten_extension_info list \<Rightarrow> ten_extension_info list run" where
  "ten_extensions_info_fill_app_uri uri = run_map (ten_extension_info_fill_app_uri uri)"

text \<open>The URI is a format string here.  The loop over the contexts looks at the location of the
  extension once more, not at that of the context.\<close>

definition set_missing_uri :: "string \<Rightarrow> ten_extension_info \<Rightarrow> ten_extension_info run" where
  "set_missing_uri uri self =
     (if localhost_or_empty (app_uri (info_loc self))
      then map_run (\<lambda>uri. self\<lparr>info_loc := (info_loc self)\<lparr>app_uri := uri\<rparr>\<rparr>) (format_no_args uri) else Ret self)"

definition set_missing_graph_id :: "string \<Rightarrow> ten_loc \<Rightarrow> ten_loc" where
  "set_missing_graph_id graph l = (if graph_id l = [] then l\<lparr>graph_id := graph\<rparr> else l)"

definition ten_extension_info_fill_loc_info ::
    "string \<Rightarrow> string \<Rightarrow> ten_extension_info \<Rightarrow> ten_extension_info run" where
  "ten_extension_info_fill_loc_info uri graph self =
     run_bind (set_missing_uri uri (self\<lparr>info_loc := set_missing_graph_id graph (info_loc self)\<rparr>)) (\<lambda>self.
     map_run (\<lambda>self. self\<lparr>msg_conversion_contexts :=
                map (\<lambda>c. c\<lparr>context_src_loc := set_missing_graph_id graph (context_src_loc c)\<rparr>)
                  (msg_conversion_contexts self)\<rparr>)
       (run_fold (\<lambda>_. set_missing_uri uri) (msg_conversion_contexts self) self))"

definition check_dest_loc :: "string \<Rightarrow> ten_loc \<Rightarrow> unit run" where
  "check_dest_loc uri l =
     (if app_uri l = [] \<or> (app_uri l = TEN_STR_LOCALHOST \<and> app_uri l \<noteq> uri) \<or> graph_id l = [] then Abort else Ret ())"

definition ten_extensions_info_fill_loc_info ::
    "string \<Rightarrow> string \<Rightarrow> ten_extension_info list \<Rightarrow> ten_extension_info list run" where
  "ten_extensions_info_fill_loc_info uri graph infos =
     run_bind (run_map (ten_extension_info_fill_loc_info uri graph) infos) (\<lambda>infos.
     map_run (\<lambda>_. infos) (run_fold (\<lambda>info _. run_fold (\<lambda>d _. run_fold (\<lambda>i _.
       run_bind (deref infos i) (\<lambda>d. check_dest_loc uri (info_loc d))) (dest_infos d) ())
         (dest_cmd (msg_dest_info info)) ()) infos ()))"

section \<open>Well-formed graphs\<close>

text \<open>No extension is described twice, every destination is described, no message has two
  conversions, and the properties can be copied.\<close>

definition all_dests :: "ten_all_msg_type_dest_info \<Rightarrow> ten_msg_dest_info list" where
  "all_dests d = dest_cmd d @ dest_data d @ dest_video_frame d @ dest_audio_frame d @ dest_interface d"

definition context_key :: "msg_conversion_context \<Rightarrow> ten_loc \<times> string" where
  "context_key c = (context_src_loc c, context_msg_name c)"

definition info_ok :: "nat \<Rightarrow> ten_extension_info \<Rightarrow> bool" where
  "info_ok n i \<longleftrightarrow> ten_loc_check_integrity (info_loc i) \<and> copyable (info_property i) \<and>
     distinct (map context_key (msg_conversion_contexts i)) \<and>
     (\<forall>d \<in> set (all_dests (msg_dest_info i)). set (dest_infos d) \<subseteq> {..<n})"

definition graph_ok :: "ten_extension_info list \<Rightarrow> bool" where
  "graph_ok infos \<longleftrightarrow> distinct (map info_loc infos) \<and> (\<forall>i \<in> set infos. info_ok (length infos) i)"

lemma specified_all [simp]:
  "ten_extension_info_is_specified_extension i (Some (app_uri l)) (Some (graph_id l))
     (Some (extension_group_name l)) (extension_name l) \<longleftrightarrow> info_loc i = l"
  by (auto simp: ten_extension_info_is_specified_extension_def given_def intro: ten_loc.equality)

lemma find_index_map: "find_index (\<lambda>x. f x = y) xs = find_index (\<lambda>z. z = y) (map f xs)"
  by (induction xs) auto

lemma find_index_None [simp]: "find_index P xs = None \<longleftrightarrow> (\<forall>x \<in> set xs. \<not> P x)"
  by (induction xs) auto

lemma find_index_nth: "distinct xs \<Longrightarrow> i < length xs \<Longrightarrow> find_index (\<lambda>z. z = xs ! i) xs = Some i"
proof (induction xs arbitrary: i)
  case (Cons x xs)
  then show ?case by (cases i) auto
qed simp

lemma find_copy_eq:
  assumes "map info_loc infos = ls" and "distinct ls" and "i < length ls"
    and "c_str_or_empty addon = [] \<or> extension_addon_name (infos ! i) = c_str_or_empty addon"
  shows "find_copy has_err infos (ls ! i) addon = Ret i"
  using assms find_index_nth [of ls i]
  by (auto simp: find_copy_def must_def get_extension_info_in_extensions_info_def
      find_index_map [where f = info_loc])

text \<open>The policy of the destinations is not copied.\<close>

definition with_default_policy :: "ten_msg_dest_info \<Rightarrow> ten_msg_dest_info" where
  "with_default_policy d = d\<lparr>dest_policy := TEN_DEFAULT_RESULT_RETURN_POLICY\<rparr>"

definition map_dests ::
    "(ten_msg_dest_info \<Rightarrow> ten_msg_dest_info) \<Rightarrow> ten_all_msg_type_dest_info \<Rightarrow> ten_all_msg_type_dest_info" where
  "map_dests f d = \<lparr>dest_cmd = map f (dest_cmd d), dest_data = map f (dest_data d),
     dest_video_frame = map f (dest_video_frame d), dest_audio_frame = map f (dest_audio_frame d),
     dest_interface = map f (dest_interface d)\<rparr>"

definition copied_info :: "ten_extension_info \<Rightarrow> ten_extension_info" where
  "copied_info i = i\<lparr>msg_dest_info := map_dests with_default_policy (msg_dest_info i)\<rparr>"

definition without_dests :: "ten_extension_info \<Rightarrow> ten_extension_info" where
  "without_dests i = i\<lparr>msg_dest_info := ten_all_msg_type_dest_info_init\<rparr>"

lemma dest_info_clone_eq:
  assumes "map info_loc infos = map info_loc src" and "distinct (map info_loc src)"
    and "set (dest_infos d) \<subseteq> {..<length src}"
  shows "ten_msg_dest_info_clone has_err src d infos = Ret (with_default_policy d)"
proof -
  have "run_bind (deref src i) (\<lambda>d. find_copy has_err infos (info_loc d) None) = Ret i"
    if "i \<in> set (dest_infos d)" for i
    using that assms find_copy_eq [OF assms(1,2), of i None has_err]
    by (auto simp: deref_def c_str_or_empty_def)
  then have "run_map (\<lambda>i. run_bind (deref src i) (\<lambda>d. find_copy has_err infos (info_loc d) None)) (dest_infos d) =
      Ret (map (\<lambda>i. i) (dest_infos d))"
    by (rule run_map_all_Ret)
  then show ?thesis
    by (simp add: ten_msg_dest_info_clone_def ten_msg_dest_info_create_def with_default_policy_def)
qed

lemma copy_msg_dest_eq:
  assumes "map info_loc infos = map info_loc src" and "distinct (map info_loc src)"
    and "\<forall>d \<in> set ds. set (dest_infos d) \<subseteq> {..<length src}"
  shows "copy_msg_dest has_err src [] ds infos = Ret (map with_default_policy ds)"
  using run_map_all_Ret [of ds "\<lambda>d. ten_msg_dest_info_clone has_err src d infos" with_default_policy]
    dest_info_clone_eq [OF assms(1,2)] assms(3)
  by (simp add: copy_msg_dest_def)

lemma loc_is_equal [simp]: "ten_loc_is_equal a b \<longleftrightarrow> (a :: ten_loc) = b"
  by (auto simp: ten_loc_is_equal_def intro: ten_loc.equality)

lemma context_merge_new:
  "distinct (map context_key (cs @ [c])) \<Longrightarrow> ten_msg_conversion_context_merge cs c = Inr (cs @ [c])"
  by (auto simp: ten_msg_conversion_context_merge_def ten_msg_conversion_is_equal_def context_key_def image_iff)

lemma merge_contexts_eq:
  assumes "distinct (map context_key (acc @ cs))"
  shows "merge_contexts cs acc = Ret (acc @ cs)"
  using assms unfolding merge_contexts_def
proof (induction cs arbitrary: acc)
  case (Cons c cs)
  have "ten_msg_conversion_context_merge acc c = Inr (acc @ [c])"
    using Cons.prems by (intro context_merge_new) simp
  with Cons.IH [of "acc @ [c]"] Cons.prems show ?case by simp
qed simp

section \<open>Copies are faithful\<close>

lemma clone_nodes:
  assumes "distinct (map info_loc (acc @ xs))" and "\<forall>i \<in> set xs. info_ok n i"
  shows "run_fold (ten_extension_info_clone_except_dest has_err) xs (map without_dests acc) =
    Ret (map without_dests (acc @ xs))"
  using assms
proof (induction xs arbitrary: acc)
  case (Cons x xs)
  let ?to = "map without_dests acc" and ?l = "info_loc x"
  have x: "ten_loc_check_integrity ?l" "copyable (info_property x)"
    "distinct (map context_key ([] @ msg_conversion_contexts x))"
    using Cons.prems(2) by (auto simp: info_ok_def)
  have "find_index (\<lambda>i. info_loc i = ?l) ?to = None"
    using Cons.prems(1) by (auto simp: without_dests_def image_iff)
  moreover have "ten_loc_set ten_loc_init_empty (Some (app_uri ?l)) (Some (graph_id ?l)) (Some (extension_group_name ?l))
      (Some (extension_name ?l)) = Ret ?l"
    using x(1) by (simp add: ten_loc_set_def c_str_or_empty_def Let_def ten_loc_check_integrity_def)
  ultimately have "must (get_extension_info_in_extensions_info has_err ?to (Some (app_uri ?l)) (Some (graph_id ?l))
      (Some (extension_group_name ?l)) (Some (extension_addon_name x)) (Some (extension_name ?l)) False) =
    Ret (length ?to, ?to @ [ten_extension_info_create\<lparr>info_loc := ?l, extension_addon_name := extension_addon_name x\<rparr>])"
    by (simp add: must_def get_extension_info_in_extensions_info_def c_str_or_empty_def del: find_index_None)
  then have "ten_extension_info_clone_except_dest has_err x ?to = Ret (?to @ [without_dests x])"
    using merge_into_empty [OF x(2)] merge_contexts_eq [OF x(3)]
    by (auto simp: ten_extension_info_clone_except_dest_def ten_extension_info_create_def nth_append
        list_update_append without_dests_def intro!: ten_extension_info.equality)
  with Cons.IH [of "acc @ [x]"] Cons.prems show ?case by simp
qed simp

lemma copied_info_fields [simp]:
  "info_loc (copied_info i) = info_loc i" "info_loc (without_dests i) = info_loc i"
  "extension_addon_name (without_dests i) = extension_addon_name i"
  by (simp_all add: copied_info_def without_dests_def)

lemma clone_dests:
  assumes "graph_ok (acc @ xs)"
  shows "run_fold (ten_extension_info_clone_dest has_err (acc @ xs)) xs (map copied_info acc @ map without_dests xs) =
    Ret (map copied_info (acc @ xs))"
  using assms
proof (induction xs arbitrary: acc)
  case (Cons x xs)
  let ?src = "acc @ x # xs" and ?to = "map copied_info acc @ map without_dests (x # xs)"
  have g: "distinct (map info_loc ?src)" "info_ok (length ?src) x" using Cons.prems by (simp_all add: graph_ok_def)
  have l: "map info_loc ?to = map info_loc ?src" by simp
  have "find_copy has_err ?to (map info_loc ?src ! length acc) (Some (extension_addon_name x)) = Ret (length acc)"
    by (rule find_copy_eq [OF l g(1)]) (simp_all add: nth_append c_str_or_empty_def)
  then have f: "find_copy has_err ?to (info_loc x) (Some (extension_addon_name x)) = Ret (length acc)"
    by (simp add: nth_append)
  have "copy_msg_dest has_err ?src [] ds ?to = Ret (map with_default_policy ds)"
    if "set ds \<subseteq> set (all_dests (msg_dest_info x))" for ds
    using that g(2) by (intro copy_msg_dest_eq [OF l g(1)]) (auto simp: info_ok_def)
  then have c: "copy_msg_dest has_err ?src [] (sel (msg_dest_info x)) ?to = Ret (map with_default_policy (sel (msg_dest_info x)))"
    if "sel \<in> {dest_cmd, dest_data, dest_video_frame, dest_audio_frame, dest_interface}" for sel
    using that by (auto simp: all_dests_def)
  have empty: "msg_dest_info (?to ! length acc) = ten_all_msg_type_dest_info_init"
    by (simp add: nth_append without_dests_def)
  have "ten_extension_info_clone_dest has_err ?src x ?to =
      Ret (?to[length acc := (?to ! length acc)\<lparr>msg_dest_info := map_dests with_default_policy (msg_dest_info x)\<rparr>])"
    unfolding ten_extension_info_clone_dest_def f run_bind.simps Let_def empty
    using c [of dest_cmd] c [of dest_data] c [of dest_video_frame] c [of dest_audio_frame] c [of dest_interface]
    by (simp add: ten_all_msg_type_dest_info_init_def map_dests_def del: list.map map_append)
  also have "\<dots> = Ret (map copied_info (acc @ [x]) @ map without_dests xs)"
    by (simp add: nth_append list_update_append without_dests_def copied_info_def)
  finally have "ten_extension_info_clone_dest has_err ?src x ?to = Ret (map copied_info (acc @ [x]) @ map without_dests xs)" .
  then show ?case using Cons.IH [of "acc @ [x]"] Cons.prems by simp
qed simp

text \<open>C34: A copy of a graph into an empty list always succeeds, whatever error context is passed,
  keeps the order, the locations, the addons, the properties, the conversions and the destinations of
  its extensions - but every destination gets the default policy back.\<close>

theorem graph_clone_faithful:
  assumes "graph_ok infos"
  shows "ten_extensions_info_clone has_err infos [] = Ret (map copied_info infos)"
  using clone_nodes [of "[]" infos "length infos" has_err] clone_dests [of "[]" infos has_err] assms
  by (simp add: ten_extensions_info_clone_def graph_ok_def)

definition example_graph :: "ten_extension_info list" where
  "example_graph =
     (let l = (\<lambda>name. \<lparr>app_uri = [], graph_id = [], extension_group_name = ''g'', extension_name = name\<rparr>);
          x = ten_extension_info_create\<lparr>info_loc := l ''x'', extension_addon_name := ''p'',
                info_property := VObject [(''k'', VBool True)],
                msg_dest_info := ten_all_msg_type_dest_info_init\<lparr>dest_cmd :=
                  [\<lparr>dest_msg_name = ''c'', dest_policy = TEN_RESULT_RETURN_POLICY_FIRST_ERROR_OR_LAST_OK, dest_infos = [1]\<rparr>]\<rparr>\<rparr>;
          y = ten_extension_info_create\<lparr>info_loc := l ''y'', extension_addon_name := ''q'',
                msg_conversion_contexts := [\<lparr>context_msg_name = ''c'', context_src_loc = l ''x'', context_conversion = None\<rparr>]\<rparr>
      in [x, y])"

lemma example_graph_ok: "graph_ok example_graph"
  by (simp add: graph_ok_def example_graph_def info_ok_def Let_def copyable_def all_dests_def walkable_numeral
      ten_extension_info_create_def ten_all_msg_type_dest_info_init_def ten_loc_check_integrity_def plain_key_def)

theorem graph_clone_faithful_witness:
  "ten_extensions_info_clone True example_graph [] = Ret (map copied_info example_graph) \<and>
   map copied_info example_graph \<noteq> example_graph"
  using graph_clone_faithful [OF example_graph_ok, of True]
  by (simp add: example_graph_def copied_info_def map_dests_def with_default_policy_def Let_def
      TEN_DEFAULT_RESULT_RETURN_POLICY_def ten_extension_info_create_def ten_all_msg_type_dest_info_init_def)

section \<open>Locations are completed\<close>

definition filled_loc :: "string \<Rightarrow> string \<Rightarrow> ten_loc \<Rightarrow> ten_loc" where
  "filled_loc uri graph l =
     (set_missing_graph_id graph l)\<lparr>app_uri := (if localhost_or_empty (app_uri l) then uri else app_uri l)\<rparr>"

lemma fill_loc_info_eq:
  assumes "plain_key uri"
  shows "ten_extension_info_fill_loc_info uri graph i =
    Ret (i\<lparr>info_loc := filled_loc uri graph (info_loc i), msg_conversion_contexts :=
      map (\<lambda>c. c\<lparr>context_src_loc := set_missing_graph_id graph (context_src_loc c)\<rparr>) (msg_conversion_contexts i)\<rparr>)"
proof -
  let ?i = "i\<lparr>info_loc := filled_loc uri graph (info_loc i)\<rparr>"
  have "set_missing_uri uri (i\<lparr>info_loc := set_missing_graph_id graph (info_loc i)\<rparr>) = Ret ?i"
    using assms by (simp add: set_missing_uri_def filled_loc_def set_missing_graph_id_def)
  moreover have again: "set_missing_uri uri ?i = Ret ?i"
    using assms by (auto simp: set_missing_uri_def filled_loc_def)
  have "run_fold (\<lambda>_. set_missing_uri uri) cs ?i = Ret ?i" for cs :: "msg_conversion_context list"
    using again by (induction cs) simp_all
  ultimately show ?thesis by (simp add: ten_extension_info_fill_loc_info_def)
qed

lemma run_fold_checks:
  "(\<And>x. x \<in> set xs \<Longrightarrow> f x () = Ret ()) \<Longrightarrow> run_fold f xs () = Ret ()"
  by (induction xs) auto



end
