(* ===== verification/Graph_Value.thy ===== *)
theory Graph_Value
  imports Graph_Info
begin

text \<open>
  Graphs as values, as they stand in a \<open>start_graph\<close> command or in the properties of an app
  (\<open>extension/extension_info/value.c\<close>, \<open>extension/msg_dest_info/value.c\<close> and
  \<open>msg/cmd_base/cmd/start_graph/field/extension_info.c\<close> of \<open>core/src/ten_runtime\<close>): an array of nodes
  and an array of connections.  A failed operation gives the error it left in the context, or \<open>None\<close>
  when it left none; what it had read until then is thrown away by its callers.
\<close>

abbreviation "TEN_STR_NODES \<equiv> ''nodes''"
abbreviation "TEN_STR_CONNECTIONS \<equiv> ''connections''"

section \<open>Operations that may fail\<close>

definition try_bind :: "('e + 'a) run \<Rightarrow> ('a \<Rightarrow> ('e + 'b) run) \<Rightarrow> ('e + 'b) run" where
  "try_bind r f = run_bind r (\<lambda>x. case x of Inl e \<Rightarrow> Ret (Inl e) | Inr a \<Rightarrow> f a)"

fun try_fold :: "('x \<Rightarrow> 's \<Rightarrow> ('e + 's) run) \<Rightarrow> 'x list \<Rightarrow> 's \<Rightarrow> ('e + 's) run" where
  "try_fold f [] s = Ret (Inr s)"
| "try_fold f (x # xs) s = try_bind (f x s) (try_fold f xs)"

lemma try_bind_simps [simp, run_simps]:
  "try_bind (Ret (Inr a)) f = f a" "try_bind (Ret (Inl e)) f = Ret (Inl e)"
  "try_bind Abort f = Abort" "try_bind Undef f = Undef"
  by (simp_all add: try_bind_def)

section \<open>Nodes and connections from values\<close>

definition parse_msg_conversions_value ::
    "ten_value \<Rightarrow> ten_loc \<Rightarrow> string \<Rightarrow> msg_conversion_context list \<Rightarrow> (ten_error + msg_conversion_context list) run" where
  "parse_msg_conversions_value v src name cs =
     map_run (ten_msg_conversion_context_merge cs) (ten_msg_conversion_context_from_value v src name)"

definition ten_extension_info_node_from_value ::
    "bool \<Rightarrow> ten_value \<Rightarrow> ten_extension_info list \<Rightarrow> (ten_error option + nat \<times> ten_extension_info list) run" where
  "ten_extension_info_node_from_value has_err v infos =
     run_bind (ten_value_object_peek_string v TEN_STR_APP) (\<lambda>uri.
     run_bind (ten_value_object_peek_string v TEN_STR_GRAPH) (\<lambda>graph.
     run_bind (ten_value_object_peek_string v TEN_STR_EXTENSION_GROUP) (\<lambda>grp.
     run_bind (ten_value_object_peek_string v TEN_STR_ADDON) (\<lambda>addon.
     run_bind (ten_value_object_peek_string v TEN_STR_NAME) (\<lambda>name.
     try_bind (get_extension_info_in_extensions_info has_err infos uri graph grp addon name False) (\<lambda>(i, infos).
     run_bind (ten_value_object_peek v TEN_STR_PROPERTY) (\<lambda>props.
       case props of
         None \<Rightarrow> Ret (Inr (i, infos))
       | Some props \<Rightarrow>
           if \<not> ten_value_is_object props
           then if has_err
                then Ret (Inl (Some (generic_error ''The `property` in graph node should be an object.'')))
                else Abort
           else run_bind (ten_value_object_merge_with_clone (info_property (infos ! i)) props) (\<lambda>p.
                  Ret (Inr (i, infos[i := (infos ! i)\<lparr>info_property := p\<rparr>]))))))))))"

definition ten_extension_info_parse_connection_dest_part_from_value ::
    "bool \<Rightarrow> ten_value \<Rightarrow> nat \<Rightarrow> string \<Rightarrow> ten_extension_info list \<Rightarrow>
       (ten_error option + nat \<times> ten_extension_info list) run" where
  "ten_extension_info_parse_connection_dest_part_from_value has_err v src name infos =
     run_bind (ten_value_object_peek_string v TEN_STR_APP) (\<lambda>uri.
     run_bind (ten_value_object_peek_string v TEN_STR_GRAPH) (\<lambda>graph.
     run_bind (ten_value_object_peek_string v TEN_STR_EXTENSION) (\<lambda>ext.
       if c_str_or_empty ext = [] then graph_error has_err ''The extension in connection is required.''
       else try_bind (get_extension_info_in_extensions_info has_err infos uri graph None None ext True) (\<lambda>(i, infos).
       run_bind (ten_value_object_peek v TEN_STR_MSG_CONVERSION) (\<lambda>conv.
         case conv of
           None \<Rightarrow> Ret (Inr (i, infos))
         | Some conv \<Rightarrow>
             run_bind (deref infos src) (\<lambda>src.
             run_bind (parse_msg_conversions_value conv (info_loc src) name (msg_conversion_contexts (infos ! i))) (\<lambda>r.
               case r of
                 Inl _ \<Rightarrow> Abort
               | Inr cs \<Rightarrow> Ret (Inr (i, infos[i := (infos ! i)\<lparr>msg_conversion_contexts := cs\<rparr>])))))))))"

definition ten_msg_dest_info_from_value ::
    "bool \<Rightarrow> ten_value \<Rightarrow> nat \<Rightarrow> ten_extension_info list \<Rightarrow>
       (ten_error option + ten_msg_dest_info \<times> ten_extension_info list) run" where
  "ten_msg_dest_info_from_value has_err v src infos =
     run_bind (ten_value_object_peek v TEN_STR_NAME) (\<lambda>name_value.
     run_bind (case name_value of
                 None \<Rightarrow> Ret []
               | Some n \<Rightarrow> (case ten_value_peek_raw_str n of None \<Rightarrow> Abort | Some s \<Rightarrow> Ret s)) (\<lambda>name.
     run_bind (ten_value_object_peek v TEN_STR_DEST) (\<lambda>dests.
       case dests of
         None \<Rightarrow> Ret (Inr (ten_msg_dest_info_create name, infos))
       | Some dests \<Rightarrow>
           if \<not> ten_value_is_array dests then Ret (Inl None)
           else try_fold (\<lambda>d (self, infos).
                  if \<not> ten_value_is_object d then Ret (Inl None)
                  else try_bind (ten_extension_info_parse_connection_dest_part_from_value has_err d src name infos)
                         (\<lambda>(i, infos). Ret (Inr (self\<lparr>dest_infos := dest_infos self @ [i]\<rparr>, infos))))
                  (content_array dests) (ten_msg_dest_info_create name, infos))))"

text \<open>The list the destinations are put into is one of the five of the source.\<close>

definition parse_msg_dest_value ::
    "bool \<Rightarrow> ((ten_msg_dest_info list \<Rightarrow> ten_msg_dest_info list) \<Rightarrow> ten_all_msg_type_dest_info \<Rightarrow> ten_all_msg_type_dest_info) \<Rightarrow>
       ten_value \<Rightarrow> nat \<Rightarrow> ten_extension_info list \<Rightarrow> (ten_error option + ten_extension_info list) run" where
  "parse_msg_dest_value has_err upd v src infos =
     (if \<not> ten_value_is_array v then Abort
      else try_fold (\<lambda>item infos.
             if \<not> ten_value_is_object item then Ret (Inl None)
             else try_bind (ten_msg_dest_info_from_value has_err item src infos) (\<lambda>(d, infos).
                  run_bind (deref infos src) (\<lambda>s.
                    Ret (Inr (infos[src := s\<lparr>msg_dest_info := upd (\<lambda>ds. ds @ [d]) (msg_dest_info s)\<rparr>])))))
             (content_array v) infos)"

definition dest_sections ::
    "(string \<times> ((ten_msg_dest_info list \<Rightarrow> ten_msg_dest_info list) \<Rightarrow> ten_all_msg_type_dest_info \<Rightarrow>
        ten_all_msg_type_dest_info)) list" where
  "dest_sections =
     [(TEN_STR_CMD, dest_cmd_update), (TEN_STR_DATA, dest_data_update), (TEN_STR_VIDEO_FRAME, dest_video_frame_update),
      (TEN_STR_AUDIO_FRAME, dest_audio_frame_update), (TEN_STR_INTERFACE, dest_interface_update)]"

definition read_section ::
    "bool \<Rightarrow> ten_value \<Rightarrow> nat \<Rightarrow> string \<times> ((ten_msg_dest_info list \<Rightarrow> ten_msg_dest_info list) \<Rightarrow>
       ten_all_msg_type_dest_info \<Rightarrow> ten_all_msg_type_dest_info) \<Rightarrow> ten_extension_info list \<Rightarrow>
       (ten_error option + ten_extension_info list) run" where
  "read_section has_err v i = (\<lambda>(key, upd) infos.
     run_bind (ten_value_object_peek v key) (\<lambda>dests.
       case dests of None \<Rightarrow> Ret (Inr infos) | Some dests \<Rightarrow> parse_msg_dest_value has_err upd dests i infos))"

definition ten_extension_info_parse_connection_src_part_from_value ::
    "bool \<Rightarrow> ten_value \<Rightarrow> ten_extension_info list \<Rightarrow> (ten_error option + nat \<times> ten_extension_info list) run" where
  "ten_extension_info_parse_connection_src_part_from_value has_err v infos =
     run_bind (ten_value_object_peek_string v TEN_STR_APP) (\<lambda>uri.
     run_bind (ten_value_object_peek_string v TEN_STR_GRAPH) (\<lambda>graph.
     run_bind (ten_value_object_peek_string v TEN_STR_EXTENSION) (\<lambda>ext.
       if c_str_or_empty ext = [] then graph_error has_err ''The extension in connection is required.''
       else try_bind (get_extension_info_in_extensions_info has_err infos uri graph None None ext True) (\<lambda>(i, infos).
       try_bind (try_fold (read_section has_err v i) dest_sections infos) (\<lambda>infos. Ret (Inr (i, infos)))))))"

text \<open>The loops over the nodes and the connections.\<close>

definition nodes_from_value ::
    "bool \<Rightarrow> ten_value list \<Rightarrow> ten_extension_info list \<Rightarrow> (ten_error option + ten_extension_info list) run" where
  "nodes_from_value has_err = try_fold (\<lambda>v infos.
     if \<not> ten_value_is_object v then Ret (Inl None)
     else try_bind (ten_extension_info_node_from_value has_err v infos) (\<lambda>(_, infos). Ret (Inr infos)))"

definition connections_from_value ::
    "bool \<Rightarrow> ten_value list \<Rightarrow> ten_extension_info list \<Rightarrow> (ten_error option + ten_extension_info list) run" where
  "connections_from_value has_err = try_fold (\<lambda>v infos.
     if \<not> ten_value_is_object v then Ret (Inl None)
     else try_bind (ten_extension_info_parse_connection_src_part_from_value has_err v infos) (\<lambda>(_, infos). Ret (Inr infos)))"

text \<open>What the two loops make of a value, started from an empty list as in a new command.\<close>

definition graph_from_value :: "bool \<Rightarrow> ten_value \<Rightarrow> (ten_error option + ten_extension_info list) run" where
  "graph_from_value has_err v =
     run_bind (ten_value_object_peek v TEN_STR_NODES) (\<lambda>nodes.
     run_bind (ten_value_object_peek v TEN_STR_CONNECTIONS) (\<lambda>connections.
       case (nodes, connections) of
         (Some nodes, Some connections) \<Rightarrow>
           if \<not> ten_value_is_array nodes \<or> \<not> ten_value_is_array connections then Abort
           else try_bind (nodes_from_value has_err (content_array nodes) [])
                  (connections_from_value has_err (content_array connections))
       | _ \<Rightarrow> Abort))"

section \<open>Nodes and connections to values\<close>

definition ten_extension_info_node_to_value :: "ten_extension_info \<Rightarrow> ten_value run" where
  "ten_extension_info_node_to_value self =
     run_bind (run_map (\<lambda>(k, s). string_entry k s)
       [(TEN_STR_TYPE, TEN_STR_EXTENSION), (TEN_STR_NAME, extension_name (info_loc self)),
        (TEN_STR_ADDON, extension_addon_name self), (TEN_STR_EXTENSION_GROUP, extension_group_name (info_loc self)),
        (TEN_STR_GRAPH, graph_id (info_loc self)), (TEN_STR_APP, app_uri (info_loc self))]) (\<lambda>kvs.
     map_run (\<lambda>kv. VObject (kvs @ [kv])) (ten_value_kv_create TEN_STR_PROPERTY (info_property self)))"

definition loc_kvs :: "ten_loc \<Rightarrow> (string \<times> ten_value) list run" where
  "loc_kvs l = run_map (\<lambda>(k, s). string_entry k s)
     [(TEN_STR_APP, app_uri l), (TEN_STR_GRAPH, graph_id l), (TEN_STR_EXTENSION_GROUP, extension_group_name l),
      (TEN_STR_EXTENSION, extension_name l)]"

text \<open>The conversion of the message from the source, if the destination has one.\<close>

definition add_conversion ::
    "ten_loc \<Rightarrow> string \<Rightarrow> msg_conversion_context \<Rightarrow> bool \<times> (string \<times> ten_value) list \<Rightarrow>
       (bool \<times> (string \<times> ten_value) list) run" where
  "add_conversion src name c = (\<lambda>(found, kvs).
     if ten_loc_is_equal src (context_src_loc c) \<and> context_msg_name c = name
     then if found then Abort
          else (case context_conversion c of
              None \<Rightarrow> Abort
            | Some conv \<Rightarrow> run_bind (ten_msg_and_result_conversion_to_value conv) (\<lambda>v.
                map_run (\<lambda>kv. (True, kvs @ [kv])) (ten_value_kv_create TEN_STR_MSG_CONVERSION v)))
     else Ret (found, kvs))"

definition dest_to_value :: "ten_extension_info list \<Rightarrow> ten_loc \<Rightarrow> string \<Rightarrow> nat \<Rightarrow> ten_value run" where
  "dest_to_value infos src name i =
     run_bind (deref infos i) (\<lambda>info.
     run_bind (loc_kvs (info_loc info)) (\<lambda>kvs.
     map_run (VObject \<circ> snd) (run_fold (add_conversion src name) (msg_conversion_contexts info) (False, kvs))))"

definition ten_msg_dest_info_to_value :: "ten_extension_info list \<Rightarrow> ten_msg_dest_info \<Rightarrow> ten_loc \<Rightarrow> ten_value run" where
  "ten_msg_dest_info_to_value infos self src =
     run_bind (string_entry TEN_STR_NAME (dest_msg_name self)) (\<lambda>name_kv.
     run_bind (run_map (dest_to_value infos src (dest_msg_name self)) (dest_infos self)) (\<lambda>dests.
     map_run (\<lambda>dests_kv. VObject [name_kv, dests_kv]) (ten_value_kv_create TEN_STR_DEST (VArray dests))))"

definition pack_msg_dest ::
    "ten_extension_info list \<Rightarrow> ten_extension_info \<Rightarrow> ten_msg_dest_info list \<Rightarrow> ten_value run" where
  "pack_msg_dest infos self dests =
     map_run VArray (run_map (\<lambda>d. ten_msg_dest_info_to_value infos d (info_loc self)) dests)"

definition dest_lists :: "ten_all_msg_type_dest_info \<Rightarrow> (string \<times> ten_msg_dest_info list) list" where
  "dest_lists d =
     [(TEN_STR_CMD, dest_cmd d), (TEN_STR_DATA, dest_data d), (TEN_STR_VIDEO_FRAME, dest_video_frame d),
      (TEN_STR_AUDIO_FRAME, dest_audio_frame d), (TEN_STR_INTERFACE, dest_interface d)]"

definition section_kvs ::
    "ten_extension_info list \<Rightarrow> ten_extension_info \<Rightarrow> string \<times> ten_msg_dest_info list \<Rightarrow> (string \<times> ten_value) list run" where
  "section_kvs infos self = (\<lambda>(key, dests).
     if dests = [] then Ret []
     else run_bind (pack_msg_dest infos self dests) (\<lambda>v. map_run (\<lambda>kv. [kv]) (ten_value_kv_create key v)))"

definition ten_extension_info_connection_to_value ::
    "ten_extension_info list \<Rightarrow> ten_extension_info \<Rightarrow> ten_value option run" where
  "ten_extension_info_connection_to_value infos self =
     (if all_dests (msg_dest_info self) = [] \<and> msg_conversion_contexts self = [] then Ret None
      else run_bind (loc_kvs (info_loc self)) (\<lambda>kvs.
           map_run (\<lambda>sections. Some (VObject (kvs @ concat sections)))
             (run_map (section_kvs infos self) (dest_lists (msg_dest_info self)))))"

text \<open>The nodes, unless two locations print the same; \<open>None\<close> is the NULL of the error.\<close>

fun nodes_to_value :: "string list \<Rightarrow> ten_extension_info list \<Rightarrow> ten_value list option run" where
  "nodes_to_value seen [] = Ret (Some [])"
| "nodes_to_value seen (i # infos) =
     run_bind (ten_loc_to_string (info_loc i)) (\<lambda>loc_str.
       if loc_str \<in> set seen then Ret None
       else run_bind (ten_extension_info_node_to_value i) (\<lambda>v.
            map_run (map_option ((#) v)) (nodes_to_value (seen @ [loc_str]) infos)))"

definition ten_cmd_start_graph_extensions_info_to_value :: "ten_extension_info list \<Rightarrow> ten_value option run" where
  "ten_cmd_start_graph_extensions_info_to_value infos =
     run_bind (nodes_to_value [] infos) (\<lambda>nodes.
       case nodes of
         None \<Rightarrow> Ret None
       | Some nodes \<Rightarrow>
           run_bind (ten_value_kv_create TEN_STR_NODES (VArray nodes)) (\<lambda>nodes_kv.
           run_bind (run_map (ten_extension_info_connection_to_value infos) infos) (\<lambda>cs.
           map_run (\<lambda>kv. Some (VObject [nodes_kv, kv]))
             (ten_value_kv_create TEN_STR_CONNECTIONS (VArray (map the (filter (\<lambda>c. c \<noteq> None) cs)))))))"

section \<open>Graphs that values can express\<close>

text \<open>The conversions of the message \<open>name\<close> from \<open>src\<close> to the extension \<open>i\<close>: at most one if keys are
  distinct.\<close>

definition contexts_of :: "ten_extension_info list \<Rightarrow> ten_loc \<times> string \<times> nat \<Rightarrow> msg_conversion_context list" where
  "contexts_of infos = (\<lambda>(src, name, i).
     filter (\<lambda>c. context_key c = (src, name)) (msg_conversion_contexts (infos ! i)))"

text \<open>The connections in the order in which they are written.\<close>

definition events_of :: "ten_loc \<Rightarrow> ten_msg_dest_info list \<Rightarrow> (ten_loc \<times> string \<times> nat) list" where
  "events_of src ds = concat (map (\<lambda>d. map (\<lambda>i. (src, dest_msg_name d, i)) (dest_infos d)) ds)"

definition graph_events :: "ten_extension_info list \<Rightarrow> (ten_loc \<times> string \<times> nat) list" where
  "graph_events infos = concat (map (\<lambda>s. events_of (info_loc s) (all_dests (msg_dest_info s))) infos)"

definition contexts_in_order :: "ten_extension_info list \<Rightarrow> (ten_loc \<times> string \<times> nat) list \<Rightarrow> nat \<Rightarrow> msg_conversion_context list" where
  "contexts_in_order infos es k = concat (map (contexts_of infos) (filter (\<lambda>(_, _, i). i = k) es))"

text \<open>No two extensions differ only in their group, and every conversion belongs to a connection, in the
  order of the connections.\<close>

definition connection_key :: "ten_extension_info \<Rightarrow> string \<times> string \<times> string" where
  "connection_key i = (app_uri (info_loc i), graph_id (info_loc i), extension_name (info_loc i))"

definition context_expressible :: "msg_conversion_context \<Rightarrow> bool" where
  "context_expressible c \<longleftrightarrow> (\<exists>conv. context_conversion c = Some conv \<and> expressible (msg_conversion conv) \<and>
     (\<forall>r. result_conversion_of conv = Some r \<longrightarrow> expressible r))"

definition graph_expressible :: "ten_extension_info list \<Rightarrow> bool" where
  "graph_expressible infos \<longleftrightarrow> graph_ok infos \<and> distinct (map connection_key infos) \<and>
     distinct (map (ten_loc_to_string \<circ> info_loc) infos) \<and>
     (\<forall>i \<in> set infos. extension_name (info_loc i) \<noteq> [] \<and> (\<forall>c \<in> set (msg_conversion_contexts i). context_expressible c)) \<and>
     (\<forall>k < length infos. contexts_in_order infos (graph_events infos) k = msg_conversion_contexts (infos ! k))"

section \<open>What the values are\<close>

definition conversion_value :: "msg_conversion_context \<Rightarrow> ten_value" where
  "conversion_value c = (case ten_msg_and_result_conversion_to_value (the (context_conversion c)) of Ret v \<Rightarrow> v | _ \<Rightarrow> VNull)"

definition loc_values :: "ten_loc \<Rightarrow> (string \<times> ten_value) list" where
  "loc_values l = [(TEN_STR_APP, VString (app_uri l)), (TEN_STR_GRAPH, VString (graph_id l)),
     (TEN_STR_EXTENSION_GROUP, VString (extension_group_name l)), (TEN_STR_EXTENSION, VString (extension_name l))]"

definition dest_value :: "ten_extension_info list \<Rightarrow> ten_loc \<Rightarrow> string \<Rightarrow> nat \<Rightarrow> ten_value" where
  "dest_value infos src name i = VObject (loc_values (info_loc (infos ! i)) @
     map (\<lambda>c. (TEN_STR_MSG_CONVERSION, conversion_value c)) (contexts_of infos (src, name, i)))"

definition dest_info_value :: "ten_extension_info list \<Rightarrow> ten_loc \<Rightarrow> ten_msg_dest_info \<Rightarrow> ten_value" where
  "dest_info_value infos src d = VObject [(TEN_STR_NAME, VString (dest_msg_name d)),
     (TEN_STR_DEST, VArray (map (dest_value infos src (dest_msg_name d)) (dest_infos d)))]"

definition section_values :: "ten_extension_info list \<Rightarrow> ten_loc \<Rightarrow> string \<times> ten_msg_dest_info list \<Rightarrow> (string \<times> ten_value) list" where
  "section_values infos src = (\<lambda>(key, ds). if ds = [] then [] else [(key, VArray (map (dest_info_value infos src) ds))])"

definition connection_value :: "ten_extension_info list \<Rightarrow> ten_extension_info \<Rightarrow> ten_value" where
  "connection_value infos s = VObject (loc_values (info_loc s) @
     concat (map (section_values infos (info_loc s)) (dest_lists (msg_dest_info s))))"

definition node_value :: "ten_extension_info \<Rightarrow> ten_value" where
  "node_value i = VObject [(TEN_STR_TYPE, VString TEN_STR_EXTENSION), (TEN_STR_NAME, VString (extension_name (info_loc i))),
     (TEN_STR_ADDON, VString (extension_addon_name i)), (TEN_STR_EXTENSION_GROUP, VString (extension_group_name (info_loc i))),
     (TEN_STR_GRAPH, VString (graph_id (info_loc i))), (TEN_STR_APP, VString (app_uri (info_loc i))),
     (TEN_STR_PROPERTY, info_property i)]"

lemma plain_graph_keys [simp]:
  "plain_key TEN_STR_NAME" "plain_key TEN_STR_ADDON" "plain_key TEN_STR_EXTENSION_GROUP" "plain_key TEN_STR_GRAPH"
  "plain_key TEN_STR_APP" "plain_key TEN_STR_EXTENSION" "plain_key TEN_STR_PROPERTY" "plain_key TEN_STR_DEST"
  "plain_key TEN_STR_MSG_CONVERSION" "plain_key TEN_STR_CMD" "plain_key TEN_STR_DATA" "plain_key TEN_STR_VIDEO_FRAME"
  "plain_key TEN_STR_AUDIO_FRAME" "plain_key TEN_STR_INTERFACE" "plain_key TEN_STR_NODES" "plain_key TEN_STR_CONNECTIONS"
  by (simp_all add: plain_key_def)

lemma conversion_value:
  assumes "context_expressible c"
  shows "ten_msg_and_result_conversion_to_value (the (context_conversion c)) = Ret (conversion_value c)"
    and "ten_msg_and_result_conversion_from_value (conversion_value c) = Ret (context_conversion c)"
    and "ten_value_is_object (conversion_value c)"
  using assms both_conversions_roundtrip unfolding context_expressible_def conversion_value_def by fastforce+

lemma loc_kvs_eq [simp]: "loc_kvs l = Ret (loc_values l)"
  by (simp add: loc_kvs_def loc_values_def)

lemma add_conversions:
  assumes "\<forall>c \<in> set cs. context_expressible c" and "distinct (map context_key cs)"
    and "found \<longrightarrow> (src, name) \<notin> context_key ` set cs"
  shows "\<exists>f. run_fold (add_conversion src name) cs (found, kvs) = Ret (f, kvs @
    map (\<lambda>c. (TEN_STR_MSG_CONVERSION, conversion_value c)) (filter (\<lambda>c. context_key c = (src, name)) cs))"
  using assms
proof (induction cs arbitrary: found kvs)
  case (Cons c cs)
  obtain conv where conv: "context_conversion c = Some conv" using Cons.prems(1) by (auto simp: context_expressible_def)
  have v: "ten_msg_and_result_conversion_to_value conv = Ret (conversion_value c)"
    using conversion_value(1) [of c] Cons.prems(1) conv by simp
  show ?case
  proof (cases "context_key c = (src, name)")
    case True
    then have "add_conversion src name c (found, kvs) = Ret (True, kvs @ [(TEN_STR_MSG_CONVERSION, conversion_value c)])"
      using Cons.prems(3) conv v by (auto simp: add_conversion_def context_key_def)
    moreover have "(src, name) \<notin> context_key ` set cs" using Cons.prems(2) True by auto
    ultimately show ?thesis using Cons.IH [of True "kvs @ [(TEN_STR_MSG_CONVERSION, conversion_value c)]"] Cons.prems True by simp
  next
    case False
    then have "add_conversion src name c (found, kvs) = Ret (found, kvs)"
      by (auto simp: add_conversion_def context_key_def)
    with Cons.IH [of found kvs] Cons.prems False show ?thesis by simp
  qed
qed simp

lemma graph_expressibleD:
  assumes "graph_expressible infos"
  shows "graph_ok infos" "distinct (map connection_key infos)"
    "i < length infos \<Longrightarrow> info_ok (length infos) (infos ! i)"
    "i < length infos \<Longrightarrow> extension_name (info_loc (infos ! i)) \<noteq> []"
    "i < length infos \<Longrightarrow> c \<in> set (msg_conversion_contexts (infos ! i)) \<Longrightarrow> context_expressible c"
    "i < length infos \<Longrightarrow> distinct (map context_key (msg_conversion_contexts (infos ! i)))"
    "i < length infos \<Longrightarrow> ten_loc_check_integrity (info_loc (infos ! i))"
  using assms nth_mem [of i infos] unfolding graph_expressible_def graph_ok_def info_ok_def by blast+

lemma dest_to_value_eq:
  assumes g: "graph_expressible infos" and "i < length infos"
  shows "dest_to_value infos src name i = Ret (dest_value infos src name i)"
  using add_conversions [of "msg_conversion_contexts (infos ! i)" False src name "loc_values (info_loc (infos ! i))"]
    graph_expressibleD(5,6) [OF g] assms(2)
  by (auto simp: dest_to_value_def deref_def dest_value_def contexts_of_def)

lemma dest_info_to_value_eq:
  assumes "graph_expressible infos" and "set (dest_infos d) \<subseteq> {..<length infos}"
  shows "ten_msg_dest_info_to_value infos d src = Ret (dest_info_value infos src d)"
proof -
  have "run_map (dest_to_value infos src (dest_msg_name d)) (dest_infos d) =
      Ret (map (dest_value infos src (dest_msg_name d)) (dest_infos d))"
    using assms by (intro run_map_all_Ret dest_to_value_eq) auto
  then show ?thesis by (simp add: ten_msg_dest_info_to_value_def dest_info_value_def)
qed

lemma connection_to_value_eq:
  assumes g: "graph_expressible infos" and s: "s \<in> set infos"
  shows "ten_extension_info_connection_to_value infos s =
    Ret (if all_dests (msg_dest_info s) = [] \<and> msg_conversion_contexts s = [] then None else Some (connection_value infos s))"
proof -
  have pack: "pack_msg_dest infos s ds = Ret (VArray (map (dest_info_value infos (info_loc s)) ds))"
    if "set ds \<subseteq> set (all_dests (msg_dest_info s))" for ds
  proof -
    have "run_map (\<lambda>d. ten_msg_dest_info_to_value infos d (info_loc s)) ds = Ret (map (dest_info_value infos (info_loc s)) ds)"
      using that graph_expressibleD(1) [OF g] s
      by (intro run_map_all_Ret dest_info_to_value_eq [OF g]) (auto simp: graph_ok_def info_ok_def)
    then show ?thesis by (simp add: pack_msg_dest_def)
  qed
  have "section_kvs infos s x = Ret (section_values infos (info_loc s) x)"
    if "x \<in> set (dest_lists (msg_dest_info s))" for x
  proof -
    obtain key ds where x: "x = (key, ds)" by force
    with that have "set ds \<subseteq> set (all_dests (msg_dest_info s))" "plain_key key" by (auto simp: dest_lists_def all_dests_def)
    with x pack [of ds] show ?thesis by (simp add: section_kvs_def section_values_def)
  qed
  then have "run_map (section_kvs infos s) (dest_lists (msg_dest_info s)) =
      Ret (map (section_values infos (info_loc s)) (dest_lists (msg_dest_info s)))"
    by (rule run_map_all_Ret)
  then show ?thesis by (simp add: ten_extension_info_connection_to_value_def connection_value_def)
qed

lemma nodes_to_value_eq:
  assumes "distinct (map (ten_loc_to_string \<circ> info_loc) infos)" and "\<forall>i \<in> set infos. ten_loc_check_integrity (info_loc i)"
    and "\<forall>i \<in> set infos. ten_loc_to_string (info_loc i) \<notin> Ret ` set seen"
  shows "nodes_to_value seen infos = Ret (Some (map node_value infos))"
  using assms
proof (induction infos arbitrary: seen)
  case (Cons i infos)
  then obtain s where s: "ten_loc_to_string (info_loc i) = Ret s" by (auto simp: ten_loc_to_string_def)
  have "\<forall>j \<in> set infos. ten_loc_to_string (info_loc j) \<notin> Ret ` set (seen @ [s])"
    using Cons.prems s by force
  with Cons.IH [of "seen @ [s]"] Cons.prems s show ?case
    by (auto simp: ten_extension_info_node_to_value_def node_value_def)
qed simp

section \<open>Reading a graph\<close>

text \<open>The descriptions with the destinations and the conversions that were read until now.\<close>

definition read_state ::
    "ten_extension_info list \<Rightarrow> (nat \<Rightarrow> ten_all_msg_type_dest_info) \<Rightarrow> (nat \<Rightarrow> msg_conversion_context list) \<Rightarrow>
       ten_extension_info list" where
  "read_state infos D C =
     map (\<lambda>k. (infos ! k)\<lparr>msg_dest_info := D k, msg_conversion_contexts := C k\<rparr>) [0..<length infos]"

definition add_context :: "ten_extension_info list \<Rightarrow> ten_loc \<times> string \<times> nat \<Rightarrow>
    (nat \<Rightarrow> msg_conversion_context list) \<Rightarrow> nat \<Rightarrow> msg_conversion_context list" where
  "add_context infos e C = C(snd (snd e) := C (snd (snd e)) @ contexts_of infos e)"

lemma fold_add_context:
  "fold (add_context infos) es C k = C k @ contexts_in_order infos es k"
  by (induction es arbitrary: C) (auto simp: add_context_def contexts_in_order_def)

lemma read_state_nth [simp]:
  "length (read_state infos D C) = length infos"
  "k < length infos \<Longrightarrow> read_state infos D C ! k = (infos ! k)\<lparr>msg_dest_info := D k, msg_conversion_contexts := C k\<rparr>"
  by (simp_all add: read_state_def)

lemma read_state_update:
  "k < length infos \<Longrightarrow> (read_state infos D C)[k := (infos ! k)\<lparr>msg_dest_info := d, msg_conversion_contexts := c\<rparr>] =
     read_state infos (D(k := d)) (C(k := c))"
  by (rule nth_equalityI) (auto simp: nth_list_update)

lemma info_update_order:
  "(i :: ten_extension_info)\<lparr>msg_conversion_contexts := c, msg_dest_info := d\<rparr> =
     i\<lparr>msg_dest_info := d, msg_conversion_contexts := c\<rparr>"
  by (cases i) simp

lemma specified_connection [simp]:
  "ten_extension_info_is_specified_extension i (Some u) (Some g) None n \<longleftrightarrow> connection_key i = (u, g, n)"
  by (auto simp: ten_extension_info_is_specified_extension_def given_def connection_key_def)

lemma find_connection:
  assumes "graph_expressible infos" and "i < length infos"
  shows "get_extension_info_in_extensions_info has_err (read_state infos D C) (Some (app_uri (info_loc (infos ! i))))
    (Some (graph_id (info_loc (infos ! i)))) None None (Some (extension_name (info_loc (infos ! i)))) True =
    Ret (Inr (i, read_state infos D C))"
proof -
  have "map connection_key (read_state infos D C) = map connection_key infos"
    by (rule nth_equalityI) (simp_all add: connection_key_def)
  moreover have "find_index (\<lambda>z. z = connection_key (infos ! i)) (map connection_key infos) = Some i"
    using find_index_nth [of "map connection_key infos" i] assms graph_expressibleD(2) [OF assms(1)] by simp
  ultimately have "find_index (\<lambda>x. connection_key x = connection_key (infos ! i)) (read_state infos D C) = Some i"
    by (simp add: find_index_map [where f = connection_key])
  moreover have "connection_key (infos ! i) = (app_uri (info_loc (infos ! i)), graph_id (info_loc (infos ! i)),
      extension_name (info_loc (infos ! i)))"
    by (simp add: connection_key_def)
  ultimately show ?thesis
    by (simp add: get_extension_info_in_extensions_info_def c_str_or_empty_def)
qed

lemma loc_values_find:
  "find_entry TEN_STR_APP (loc_values l @ xs) = Some (VString (app_uri l))"
  "find_entry TEN_STR_GRAPH (loc_values l @ xs) = Some (VString (graph_id l))"
  "find_entry TEN_STR_EXTENSION (loc_values l @ xs) = Some (VString (extension_name l))"
  "k \<notin> {TEN_STR_APP, TEN_STR_GRAPH, TEN_STR_EXTENSION_GROUP, TEN_STR_EXTENSION} \<Longrightarrow>
     find_entry k (loc_values l @ xs) = find_entry k xs"
  by (auto simp: loc_values_def)

lemma contexts_of_cases:
  assumes "graph_expressible infos" and "i < length infos"
  obtains "contexts_of infos (src, name, i) = []"
  | c where "contexts_of infos (src, name, i) = [c]" "context_key c = (src, name)" "context_expressible c"
proof -
  let ?cs = "filter (\<lambda>c. context_key c = (src, name)) (msg_conversion_contexts (infos ! i))"
  have d: "distinct (map context_key ?cs)"
    using graph_expressibleD(6) [OF assms] by (rule distinct_map_filter)
  have m: "\<forall>c \<in> set ?cs. context_key c = (src, name) \<and> context_expressible c"
    using graph_expressibleD(5) [OF assms] by auto
  show thesis
  proof (cases ?cs)
    case Nil
    then show ?thesis using that(1) by (simp add: contexts_of_def)
  next
    case (Cons c cs)
    from m have c: "context_key c = (src, name)" "context_expressible c" unfolding Cons by simp_all
    from d m have "cs = []" unfolding Cons by (cases cs) auto
    with Cons have "contexts_of infos (src, name, i) = [c]" by (simp add: contexts_of_def)
    with c show ?thesis by (intro that(2))
  qed
qed

lemma walkable_dest_part:
  assumes "graph_expressible infos" and "i < length infos"
  shows "walkable (loc_values l @ map (\<lambda>c. (TEN_STR_MSG_CONVERSION, conversion_value c)) (contexts_of infos (src, name, i)))"
  by (cases rule: contexts_of_cases [OF assms, of src name]) (simp_all add: loc_values_def walkable_numeral)

lemma dest_part_eq:
  assumes g: "graph_expressible infos" and i: "i < length infos" and s: "s < length infos"
    and d: "distinct (map context_key (add_context infos (info_loc (infos ! s), name, i) C i))"
  shows "ten_extension_info_parse_connection_dest_part_from_value has_err
      (dest_value infos (info_loc (infos ! s)) name i) s name (read_state infos D C) =
    Ret (Inr (i, read_state infos D (add_context infos (info_loc (infos ! s), name, i) C)))"
proof -
  let ?src = "info_loc (infos ! s)"
  note found = find_connection [OF g i, of has_err D C]
  note name = graph_expressibleD(4) [OF g i]
  have v: "ten_extension_info_parse_connection_dest_part_from_value has_err (dest_value infos ?src name i) s name (read_state infos D C) =
     (case find_entry TEN_STR_MSG_CONVERSION (map (\<lambda>c. (TEN_STR_MSG_CONVERSION, conversion_value c)) (contexts_of infos (?src, name, i))) of
        None \<Rightarrow> Ret (Inr (i, read_state infos D C))
      | Some conv \<Rightarrow> run_bind (parse_msg_conversions_value conv ?src name (C i)) (\<lambda>r. case r of Inl _ \<Rightarrow> Abort
          | Inr cs \<Rightarrow> Ret (Inr (i, read_state infos D (C(i := cs))))))"
    using name found i s walkable_dest_part [OF g i, of "info_loc (infos ! i)" ?src name]
      read_state_update [OF i, where D = D and C = C and d = "D i"]
    by (simp add: ten_extension_info_parse_connection_dest_part_from_value_def dest_value_def
        ten_value_object_peek_string_def ten_value_object_peek_def ten_value_peek_raw_str_def loc_values_find
        c_str_or_empty_def deref_def cong: option.case_cong)
  show ?thesis
  proof (cases rule: contexts_of_cases [OF g i, of ?src name])
    case 1
    with v show ?thesis by (simp add: add_context_def fun_upd_idem)
  next
    case (2 c)
    from conversion_value [OF 2(3)] 2(3) obtain conv where conv: "context_conversion c = Some conv"
      "ten_msg_and_result_conversion_from_value (conversion_value c) = Ret (Some conv)" "ten_value_is_object (conversion_value c)"
      by (auto simp: context_expressible_def)
    have "c = \<lparr>context_msg_name = name, context_src_loc = ?src, context_conversion = Some conv\<rparr>"
      using 2(2) conv(1) by (cases c) (simp add: context_key_def)
    then have "ten_msg_conversion_context_from_value (conversion_value c) ?src name = Ret c"
      using conv(2,3) graph_expressibleD(7) [OF g s] by (simp add: ten_msg_conversion_context_from_value_def)
    moreover have "ten_msg_conversion_context_merge (C i) c = Inr (C i @ [c])"
      using d 2(1) by (intro context_merge_new) (simp add: add_context_def)
    ultimately show ?thesis using v 2(1) by (simp add: parse_msg_conversions_value_def add_context_def)
  qed
qed

text \<open>Conversions are only added, so what is distinct in the end was distinct on the way.\<close>

lemma distinct_on_the_way:
  assumes "distinct (map f (fold (add_context infos) (e # es) C k))"
  shows "distinct (map f (add_context infos e C k))"
  using assms by (simp add: fold_add_context)

lemma dest_infos_eq:
  assumes g: "graph_expressible infos" and s: "s < length infos" and "set is \<subseteq> {..<length infos}"
    and "\<forall>k. distinct (map context_key (fold (add_context infos) (map (\<lambda>i. (info_loc (infos ! s), name, i)) is) C k))"
  shows "try_fold (\<lambda>d (self, infos).
      if \<not> ten_value_is_object d then Ret (Inl None)
      else try_bind (ten_extension_info_parse_connection_dest_part_from_value has_err d s name infos)
             (\<lambda>(i, infos). Ret (Inr (self\<lparr>dest_infos := dest_infos self @ [i]\<rparr>, infos))))
      (map (dest_value infos (info_loc (infos ! s)) name) is) (self, read_state infos D C) =
    Ret (Inr (self\<lparr>dest_infos := dest_infos self @ is\<rparr>,
      read_state infos D (fold (add_context infos) (map (\<lambda>i. (info_loc (infos ! s), name, i)) is) C)))"
  using assms(3,4)
proof (induction "is" arbitrary: self C)
  case (Cons i "is")
  let ?e = "(info_loc (infos ! s), name, i)"
  have o: "ten_value_is_object (dest_value infos (info_loc (infos ! s)) name i)" by (simp add: dest_value_def)
  have "distinct (map context_key (add_context infos ?e C i))"
    using Cons.prems(2) distinct_on_the_way [of context_key infos ?e "map (\<lambda>i. (info_loc (infos ! s), name, i)) is" C i] by simp
  with dest_part_eq [OF g _ s, of i name C has_err D] Cons.prems(1) o
    Cons.IH [of "add_context infos ?e C" "self\<lparr>dest_infos := dest_infos self @ [i]\<rparr>"] Cons.prems(2)
  show ?case by simp
qed simp

lemma dest_info_from_value_eq:
  assumes "graph_expressible infos" and "s < length infos" and "set (dest_infos d) \<subseteq> {..<length infos}"
    and "\<forall>k. distinct (map context_key (fold (add_context infos) (events_of (info_loc (infos ! s)) [d]) C k))"
  shows "ten_msg_dest_info_from_value has_err (dest_info_value infos (info_loc (infos ! s)) d) s (read_state infos D C) =
    Ret (Inr (with_default_policy d,
      read_state infos D (fold (add_context infos) (events_of (info_loc (infos ! s)) [d]) C)))"
  using dest_infos_eq [OF assms(1-3), of "dest_msg_name d" C has_err "ten_msg_dest_info_create (dest_msg_name d)" D] assms(4)
  by (simp add: ten_msg_dest_info_from_value_def dest_info_value_def ten_value_object_peek_def ten_value_peek_raw_str_def
      events_of_def with_default_policy_def ten_msg_dest_info_create_def walkable_numeral)

lemma contexts_in_order_append:
  "contexts_in_order infos (es @ fs) k = contexts_in_order infos es k @ contexts_in_order infos fs k"
  by (simp add: contexts_in_order_def)

lemma fold_add_prefix:
  "distinct (map f (fold (add_context infos) (es @ fs) C k)) \<Longrightarrow> distinct (map f (fold (add_context infos) es C k))"
  unfolding fold_add_context contexts_in_order_append by (metis append_assoc distinct_append map_append)

lemma events_append [simp]: "events_of src (ds @ ds') = events_of src ds @ events_of src ds'"
  by (simp add: events_of_def)

text \<open>The updates of the five lists behave like record updates.\<close>

definition updates_field :: "(('a \<Rightarrow> 'a) \<Rightarrow> 'r \<Rightarrow> 'r) \<Rightarrow> bool" where
  "updates_field upd \<longleftrightarrow> (\<forall>f g x. upd f (upd g x) = upd (\<lambda>l. f (g l)) x) \<and> (\<forall>x. upd (\<lambda>l. l) x = x)"

lemma updates_fieldD:
  "updates_field upd \<Longrightarrow> upd f (upd g x) = upd (\<lambda>l. f (g l)) x"
  "updates_field upd \<Longrightarrow> upd (\<lambda>l. l) x = x"
  by (simp_all add: updates_field_def)

lemma dest_updates [simp]:
  "updates_field dest_cmd_update" "updates_field dest_data_update" "updates_field dest_video_frame_update"
  "updates_field dest_audio_frame_update" "updates_field dest_interface_update"
  by (simp_all add: updates_field_def)

lemma dest_infos_section:
  assumes g: "graph_expressible infos" and s: "s < length infos"
    and upd: "updates_field upd"
    and "\<forall>d \<in> set ds. set (dest_infos d) \<subseteq> {..<length infos}"
    and "\<forall>k. distinct (map context_key (fold (add_context infos) (events_of (info_loc (infos ! s)) ds) C k))"
  shows "parse_msg_dest_value has_err upd (VArray (map (dest_info_value infos (info_loc (infos ! s))) ds)) s (read_state infos D C) =
    Ret (Inr (read_state infos (D(s := upd (\<lambda>l. l @ map with_default_policy ds) (D s)))
      (fold (add_context infos) (events_of (info_loc (infos ! s)) ds) C)))"
  using assms(4,5) unfolding parse_msg_dest_value_def
proof (induction ds arbitrary: D C)
  case Nil
  then show ?case by (simp add: updates_fieldD(2) [OF upd] events_of_def)
next
  case (Cons d ds)
  let ?src = "info_loc (infos ! s)"
  let ?C = "fold (add_context infos) (events_of ?src [d]) C" and ?D = "D(s := upd (\<lambda>l. l @ [with_default_policy d]) (D s))"
  have e: "events_of ?src (d # ds) = events_of ?src [d] @ events_of ?src ds" using events_append [of ?src "[d]" ds] by simp
  have "\<forall>k. distinct (map context_key (?C k))"
    using Cons.prems(2) unfolding e by (blast intro: fold_add_prefix)
  then have d: "ten_msg_dest_info_from_value has_err (dest_info_value infos ?src d) s (read_state infos D C) =
      Ret (Inr (with_default_policy d, read_state infos D ?C))"
    using Cons.prems(1) by (intro dest_info_from_value_eq [OF g s]) simp_all
  have "(read_state infos D ?C)[s := (infos ! s)\<lparr>msg_conversion_contexts := ?C s,
      msg_dest_info := upd (\<lambda>l. l @ [with_default_policy d]) (D s)\<rparr>] = read_state infos ?D ?C"
    using read_state_update [OF s, where D = D and C = ?C and c = "?C s" and d = "upd (\<lambda>l. l @ [with_default_policy d]) (D s)"]
    by (simp add: info_update_order)
  moreover have "ten_value_is_object (dest_info_value infos ?src d)" by (simp add: dest_info_value_def)
  moreover have "?D(s := upd (\<lambda>l. l @ map with_default_policy ds) (?D s)) =
      D(s := upd (\<lambda>l. l @ map with_default_policy (d # ds)) (D s))"
    by (simp add: updates_fieldD(1) [OF upd])
  ultimately show ?case
    using Cons.IH [where C = ?C and D = ?D] Cons.prems d s unfolding e by (simp add: deref_def del: fun_upd_apply)
qed

lemma section_step:
  assumes "graph_expressible infos" and "s < length infos"
    and upd: "updates_field upd"
    and "\<forall>d \<in> set ds. set (dest_infos d) \<subseteq> {..<length infos}"
    and "\<forall>k. distinct (map context_key (fold (add_context infos) (es @ events_of (info_loc (infos ! s)) ds) C k))"
    and v: "v = (if ds = [] then None else Some (VArray (map (dest_info_value infos (info_loc (infos ! s))) ds)))"
  shows "(case v of None \<Rightarrow> Ret (Inr (read_state infos D (fold (add_context infos) es C)))
      | Some dests \<Rightarrow> parse_msg_dest_value has_err upd dests s (read_state infos D (fold (add_context infos) es C))) =
    Ret (Inr (read_state infos (D(s := upd (\<lambda>l. l @ map with_default_policy ds) (D s)))
      (fold (add_context infos) (es @ events_of (info_loc (infos ! s)) ds) C)))"
proof (cases "ds = []")
  case True
  then show ?thesis using updates_fieldD(2) [OF upd] by (simp add: v events_of_def)
next
  case False
  then show ?thesis
    using dest_infos_section [of infos s upd ds "fold (add_context infos) es C" has_err D, OF assms(1-4)] assms(5) by (simp add: v)
qed

text \<open>What the sections of a connection look up.\<close>

lemma find_section:
  "find_entry k (section_values infos src (k', ds) @ xs) =
     (if k' = k \<and> ds \<noteq> [] then Some (VArray (map (dest_info_value infos src) ds)) else find_entry k xs)"
  by (simp add: section_values_def)

lemma walkable_connection: "walkable (loc_values l @ concat (map (section_values infos src) (dest_lists d)))"
  by (simp add: dest_lists_def loc_values_def section_values_def walkable_numeral)

lemma peek_sections:
  assumes "(k, ds) \<in> set (dest_lists d)"
  shows "ten_value_object_peek (VObject (loc_values l @ concat (map (section_values infos src) (dest_lists d)))) k =
    Ret (if ds = [] then None else Some (VArray (map (dest_info_value infos src) ds)))"
  using assms walkable_connection [of l infos src d] unfolding dest_lists_def
  by (auto simp: ten_value_object_peek_def loc_values_find find_section find_section [where xs = "[]", simplified]
      simp del: find_entry_None_iff)

lemma all_dests_sections: "all_dests d = concat (map snd (dest_lists d))"
  by (simp add: all_dests_def dest_lists_def)

lemma sections_eq:
  assumes g: "graph_expressible infos" and s: "s < length infos"
    and v: "v = connection_value infos (infos ! s)"
    and xs: "\<forall>(key, upd, ds) \<in> set xs. updates_field upd \<and> (key, ds) \<in> set (dest_lists (msg_dest_info (infos ! s)))"
    and "\<forall>k. distinct (map context_key
      (fold (add_context infos) (es @ events_of (info_loc (infos ! s)) (concat (map (snd \<circ> snd) xs))) C k))"
  shows "try_fold (read_section has_err v s) (map (\<lambda>(key, upd, ds). (key, upd)) xs) (read_state infos D (fold (add_context infos) es C)) =
    Ret (Inr (read_state infos (D(s := fold (\<lambda>(key, upd, ds). upd (\<lambda>l. l @ map with_default_policy ds)) xs (D s)))
      (fold (add_context infos) (es @ events_of (info_loc (infos ! s)) (concat (map (snd \<circ> snd) xs))) C)))"
  using assms(4,5)
proof (induction xs arbitrary: D es)
  case Nil
  then show ?case by (simp add: events_of_def)
next
  case (Cons x xs)
  obtain key upd ds where x: "x = (key, upd, ds)" by (cases x)
  let ?ev = "events_of (info_loc (infos ! s))"
  have upd: "updates_field upd" and ds: "(key, ds) \<in> set (dest_lists (msg_dest_info (infos ! s)))"
    using Cons.prems(1) x by auto
  have "\<forall>k. distinct (map context_key (fold (add_context infos) ((es @ ?ev ds) @ ?ev (concat (map (snd \<circ> snd) xs))) C k))"
    using Cons.prems(2) by (simp add: x comp_def)
  then have C: "\<forall>k. distinct (map context_key (fold (add_context infos) (es @ ?ev ds) C k))"
    by (blast intro: fold_add_prefix)
  have peek: "ten_value_object_peek v key = Ret (if ds = [] then None else Some (VArray (map (dest_info_value infos (info_loc (infos ! s))) ds)))"
    unfolding v connection_value_def by (rule peek_sections [OF ds])
  have range: "\<forall>d \<in> set ds. set (dest_infos d) \<subseteq> {..<length infos}"
    using graph_expressibleD(3) [OF g s] ds by (force simp: info_ok_def all_dests_sections)
  have "read_section has_err v s (key, upd) (read_state infos D (fold (add_context infos) es C)) =
      Ret (Inr (read_state infos (D(s := upd (\<lambda>l. l @ map with_default_policy ds) (D s))) (fold (add_context infos) (es @ ?ev ds) C)))"
    using section_step [OF g s upd range C refl, of D has_err] unfolding read_section_def prod.case peek run_bind.simps .
  with Cons.IH [of "es @ ?ev ds" "D(s := upd (\<lambda>l. l @ map with_default_policy ds) (D s))"] Cons.prems
  show ?case by (simp add: x comp_def fun_upd_same del: fun_upd_apply)
qed

lemma src_part_eq:
  assumes g: "graph_expressible infos" and s: "s < length infos" and D: "D s = ten_all_msg_type_dest_info_init"
    and C: "\<forall>k. distinct (map context_key (fold (add_context infos)
      (events_of (info_loc (infos ! s)) (all_dests (msg_dest_info (infos ! s)))) C k))"
  shows "ten_extension_info_parse_connection_src_part_from_value has_err (connection_value infos (infos ! s)) (read_state infos D C) =
    Ret (Inr (s, read_state infos (D(s := map_dests with_default_policy (msg_dest_info (infos ! s))))
      (fold (add_context infos) (events_of (info_loc (infos ! s)) (all_dests (msg_dest_info (infos ! s)))) C)))"
proof -
  let ?d = "msg_dest_info (infos ! s)"
  let ?xs = "[(TEN_STR_CMD, dest_cmd_update, dest_cmd ?d), (TEN_STR_DATA, dest_data_update, dest_data ?d),
    (TEN_STR_VIDEO_FRAME, dest_video_frame_update, dest_video_frame ?d),
    (TEN_STR_AUDIO_FRAME, dest_audio_frame_update, dest_audio_frame ?d),
    (TEN_STR_INTERFACE, dest_interface_update, dest_interface ?d)]"
  have "concat (map (snd \<circ> snd) ?xs) = all_dests ?d" by (simp add: all_dests_def)
  moreover have "map (\<lambda>(key, upd, ds). (key, upd)) ?xs = dest_sections" by (simp add: dest_sections_def)
  moreover have "fold (\<lambda>(key, upd, ds). upd (\<lambda>l. l @ map with_default_policy ds)) ?xs (D s) = map_dests with_default_policy ?d"
    by (simp add: D ten_all_msg_type_dest_info_init_def map_dests_def)
  moreover have "\<forall>(key, upd, ds) \<in> set ?xs. updates_field upd \<and> (key, ds) \<in> set (dest_lists ?d)" by (simp add: dest_lists_def)
  ultimately have "try_fold (read_section has_err (connection_value infos (infos ! s)) s) dest_sections (read_state infos D C) =
      Ret (Inr (read_state infos (D(s := map_dests with_default_policy ?d))
        (fold (add_context infos) (events_of (info_loc (infos ! s)) (all_dests ?d)) C)))"
    using sections_eq [OF g s refl, of ?xs "[]" C has_err D] C by simp
  then show ?thesis
    using find_connection [OF g s, of has_err D C] graph_expressibleD(4) [OF g s]
    by (simp add: ten_extension_info_parse_connection_src_part_from_value_def connection_value_def walkable_connection
        ten_value_object_peek_string_def ten_value_object_peek_def ten_value_peek_raw_str_def loc_values_find c_str_or_empty_def)
qed

section \<open>Graphs survive the way through a value\<close>

definition connected :: "ten_extension_info \<Rightarrow> bool" where
  "connected i \<longleftrightarrow> all_dests (msg_dest_info i) \<noteq> [] \<or> msg_conversion_contexts i \<noteq> []"

definition events_at :: "ten_extension_info list \<Rightarrow> nat \<Rightarrow> (ten_loc \<times> string \<times> nat) list" where
  "events_at infos k = events_of (info_loc (infos ! k)) (all_dests (msg_dest_info (infos ! k)))"

lemma connections_from_value_eq:
  assumes g: "graph_expressible infos" and "distinct ks" and "set ks \<subseteq> {..<length infos}"
    and "\<forall>k \<in> set ks. D k = ten_all_msg_type_dest_info_init"
    and "\<forall>k. distinct (map context_key (fold (add_context infos) (concat (map (events_at infos) ks)) C k))"
  shows "connections_from_value has_err (map (\<lambda>k. connection_value infos (infos ! k)) (filter (\<lambda>k. connected (infos ! k)) ks))
      (read_state infos D C) =
    Ret (Inr (read_state infos (\<lambda>k. if k \<in> set ks then map_dests with_default_policy (msg_dest_info (infos ! k)) else D k)
      (fold (add_context infos) (concat (map (events_at infos) ks)) C)))"
  using assms(2-)
proof (induction ks arbitrary: D C)
  case Nil
  then show ?case by (simp add: connections_from_value_def)
next
  case (Cons k ks)
  let ?d = "map_dests with_default_policy (msg_dest_info (infos ! k))"
  let ?D = "D(k := ?d)" and ?C = "fold (add_context infos) (events_at infos k) C"
  have k: "k < length infos" "D k = ten_all_msg_type_dest_info_init" using Cons.prems by auto
  have C: "\<forall>k'. distinct (map context_key (?C k'))"
    using Cons.prems(4) fold_add_prefix [of context_key infos "events_at infos k" "concat (map (events_at infos) ks)" C] by simp
  have D: "(\<lambda>j. if j \<in> set ks then map_dests with_default_policy (msg_dest_info (infos ! j)) else ?D j) =
      (\<lambda>j. if j \<in> set (k # ks) then map_dests with_default_policy (msg_dest_info (infos ! j)) else D j)"
    by auto
  have "\<forall>j \<in> set ks. ?D j = ten_all_msg_type_dest_info_init" using Cons.prems by auto
  then have IH: "connections_from_value has_err (map (\<lambda>k. connection_value infos (infos ! k)) (filter (\<lambda>k. connected (infos ! k)) ks))
      (read_state infos ?D ?C) =
    Ret (Inr (read_state infos (\<lambda>j. if j \<in> set (k # ks) then map_dests with_default_policy (msg_dest_info (infos ! j)) else D j)
      (fold (add_context infos) (concat (map (events_at infos) (k # ks))) C)))"
    using Cons.IH [where D = ?D and C = ?C] Cons.prems unfolding D by (simp del: fun_upd_apply)
  show ?case
  proof (cases "connected (infos ! k)")
    case True
    have "ten_extension_info_parse_connection_src_part_from_value has_err (connection_value infos (infos ! k)) (read_state infos D C) =
        Ret (Inr (k, read_state infos ?D ?C))"
      using src_part_eq [where D = D and C = C, OF g k] C by (simp add: events_at_def)
    moreover have "ten_value_is_object (connection_value infos (infos ! k))" by (simp add: connection_value_def)
    ultimately show ?thesis using IH True by (simp add: connections_from_value_def)
  next
    case False
    then have none: "all_dests (msg_dest_info (infos ! k)) = []" by (simp add: connected_def)
    then have "?d = ten_all_msg_type_dest_info_init"
      by (simp add: all_dests_def map_dests_def ten_all_msg_type_dest_info_init_def)
    then have "?D = D" using k(2) by auto
    moreover have "?C = C" using none by (simp add: events_at_def events_of_def)
    ultimately show ?thesis using IH False by simp
  qed
qed

text \<open>Without its destinations and its conversions.\<close>

definition unconnected :: "ten_extension_info \<Rightarrow> ten_extension_info" where
  "unconnected i = i\<lparr>msg_dest_info := ten_all_msg_type_dest_info_init, msg_conversion_contexts := []\<rparr>"

lemma nodes_from_value_eq:
  assumes "distinct (map info_loc (acc @ xs))" and "\<forall>i \<in> set xs. ten_loc_check_integrity (info_loc i) \<and> copyable (info_property i)"
  shows "nodes_from_value has_err (map node_value xs) (map unconnected acc) = Ret (Inr (map unconnected (acc @ xs)))"
  using assms
proof (induction xs arbitrary: acc)
  case Nil
  then show ?case by (simp add: nodes_from_value_def)
next
  case (Cons x xs)
  let ?to = "map unconnected acc" and ?l = "info_loc x"
  have x: "ten_loc_check_integrity ?l" "copyable (info_property x)" using Cons.prems(2) by simp_all
  have "find_index (\<lambda>i. info_loc i = ?l) ?to = None"
    using Cons.prems(1) by (auto simp: unconnected_def image_iff)
  moreover have "ten_loc_set ten_loc_init_empty (Some (app_uri ?l)) (Some (graph_id ?l)) (Some (extension_group_name ?l))
      (Some (extension_name ?l)) = Ret ?l"
    using x(1) by (simp add: ten_loc_set_def c_str_or_empty_def Let_def ten_loc_check_integrity_def)
  ultimately have found: "get_extension_info_in_extensions_info has_err ?to (Some (app_uri ?l)) (Some (graph_id ?l))
      (Some (extension_group_name ?l)) (Some (extension_addon_name x)) (Some (extension_name ?l)) False =
    Ret (Inr (length ?to, ?to @ [ten_extension_info_create\<lparr>info_loc := ?l, extension_addon_name := extension_addon_name x\<rparr>]))"
    by (simp add: get_extension_info_in_extensions_info_def c_str_or_empty_def del: find_index_None)
  have "ten_extension_info_node_from_value has_err (node_value x) ?to = Ret (Inr (length ?to, ?to @ [unconnected x]))"
    using found merge_into_empty [OF x(2)] x(2)
    by (auto simp: ten_extension_info_node_from_value_def node_value_def ten_value_object_peek_string_def
        ten_value_object_peek_def ten_value_peek_raw_str_def ten_extension_info_create_def nth_append list_update_append
        unconnected_def copyable_def walkable_numeral intro!: ten_extension_info.equality)
  moreover have "ten_value_is_object (node_value x)" by (simp add: node_value_def)
  ultimately show ?case using Cons.IH [of "acc @ [x]"] Cons.prems by (simp add: nodes_from_value_def)
qed

text \<open>C36: A graph whose extensions have names and differ in more than their groups, and whose
  conversions values can express and are listed in the order of the connections they belong to, is the
  same after it was written to a value and read back - but for the policies of its destinations, which
  are the default then.\<close>

theorem graph_value_roundtrip:
  assumes g: "graph_expressible infos"
  shows "\<exists>v. ten_cmd_start_graph_extensions_info_to_value infos = Ret (Some v) \<and>
    graph_from_value has_err v = Ret (Inr (map copied_info infos))"
proof -
  let ?n = "length infos" and ?C = "\<lambda>_. []" and ?D = "\<lambda>_. ten_all_msg_type_dest_info_init"
  let ?ks = "[0..<?n]"
  let ?cs = "map (\<lambda>k. connection_value infos (infos ! k)) (filter (\<lambda>k. connected (infos ! k)) ?ks)"
  let ?v = "VObject [(TEN_STR_NODES, VArray (map node_value infos)), (TEN_STR_CONNECTIONS, VArray ?cs)]"
  have ok: "distinct (map info_loc infos)" "\<forall>i \<in> set infos. ten_loc_check_integrity (info_loc i) \<and> copyable (info_property i)"
    using graph_expressibleD(1) [OF g] by (auto simp: graph_ok_def info_ok_def)
  have "nodes_to_value [] infos = Ret (Some (map node_value infos))"
    using g ok by (intro nodes_to_value_eq) (auto simp: graph_expressible_def)
  moreover have "run_map (ten_extension_info_connection_to_value infos) infos =
      Ret (map (\<lambda>i. if connected i then Some (connection_value infos i) else None) infos)"
    using connection_to_value_eq [OF g] by (intro run_map_all_Ret) (simp add: connected_def)
  moreover have "map the (filter (\<lambda>c. c \<noteq> None) (map (\<lambda>i. if connected i then Some (connection_value infos i) else None) is)) =
      map (connection_value infos) (filter connected is)" for "is"
    by (induction "is") simp_all
  moreover have "map (connection_value infos) (filter connected infos) = ?cs"
    using filter_map [of connected "(!) infos" ?ks] by (simp add: map_nth comp_def)
  ultimately have to_value: "ten_cmd_start_graph_extensions_info_to_value infos = Ret (Some ?v)"
    by (simp add: ten_cmd_start_graph_extensions_info_to_value_def)
  have unc: "map unconnected infos = read_state infos ?D ?C"
    by (rule nth_equalityI) (simp_all add: unconnected_def)
  have events: "concat (map (events_at infos) ?ks) = graph_events infos"
    unfolding graph_events_def events_at_def
    by (subst (4) map_nth [symmetric]) (simp add: comp_def)
  have final: "fold (add_context infos) (graph_events infos) ?C k = msg_conversion_contexts (infos ! k)" if "k < ?n" for k
    using that g by (simp add: fold_add_context graph_expressible_def)
  have beyond: "fold (add_context infos) (graph_events infos) ?C k = []" if "\<not> k < ?n" for k
  proof -
    have "filter (\<lambda>(_, _, i). i = k) (graph_events infos) = []"
      using that graph_expressibleD(1) [OF g]
      by (force simp: filter_empty_conv graph_events_def events_of_def graph_ok_def info_ok_def)
    then show ?thesis by (simp add: fold_add_context contexts_in_order_def)
  qed
  have "\<forall>k. distinct (map context_key (fold (add_context infos) (graph_events infos) ?C k))"
    using final beyond graph_expressibleD(6) [OF g] by (metis distinct.simps(1) list.simps(8))
  then have "connections_from_value has_err ?cs (read_state infos ?D ?C) =
      Ret (Inr (read_state infos (\<lambda>k. if k \<in> set ?ks then map_dests with_default_policy (msg_dest_info (infos ! k)) else ?D k)
        (fold (add_context infos) (graph_events infos) ?C)))"
    using connections_from_value_eq [OF g, of ?ks ?D ?C has_err] unfolding events by (simp add: atLeast0LessThan)
  also have "read_state infos (\<lambda>k. if k \<in> set ?ks then map_dests with_default_policy (msg_dest_info (infos ! k)) else ?D k)
        (fold (add_context infos) (graph_events infos) ?C) = map copied_info infos"
    by (rule nth_equalityI) (simp_all add: final copied_info_def)
  finally have "graph_from_value has_err ?v = Ret (Inr (map copied_info infos))"
    using nodes_from_value_eq [of "[]" infos has_err] ok
    by (simp add: graph_from_value_def ten_value_object_peek_def unc walkable_numeral)
  with to_value show ?thesis by blast
qed

definition example_connected :: "ten_extension_info list" where
  "example_connected =
     (let conv = \<lparr>msg_conversion = PerProperty (Some \<lparr>rules = [], keep_original = True\<rparr>), result_conversion_of = None\<rparr>
      in map (\<lambda>i. if extension_name (info_loc i) = ''y''
           then i\<lparr>msg_conversion_contexts := map (\<lambda>c. c\<lparr>context_conversion := Some conv\<rparr>) (msg_conversion_contexts i)\<rparr>
           else i) example_graph)"

lemma example_expressible: "graph_expressible example_connected"
proof -
  have "graph_ok example_connected"
    using example_graph_ok unfolding graph_ok_def
    by (simp add: example_connected_def example_graph_def info_ok_def Let_def context_key_def)
  then show ?thesis
    by (simp add: graph_expressible_def example_connected_def example_graph_def Let_def connection_key_def
        ten_loc_to_string_def ten_loc_check_integrity_def context_expressible_def expressible_def
        ten_extension_info_create_def ten_all_msg_type_dest_info_init_def graph_events_def events_of_def all_dests_def
        contexts_in_order_def contexts_of_def context_key_def less_Suc_eq)
qed

theorem graph_value_roundtrip_witness:
  "\<exists>v. ten_cmd_start_graph_extensions_info_to_value example_connected = Ret (Some v) \<and>
     graph_from_value True v = Ret (Inr (map copied_info example_connected)) \<and>
     map (length \<circ> msg_conversion_contexts) example_connected = [0, 1]"
  using graph_value_roundtrip [OF example_expressible, of True]
  by (simp add: example_connected_def example_graph_def Let_def ten_extension_info_create_def)

end
