(* ===== verification/Schema_Store.thy ===== *)
theory Schema_Store
  imports Schema_Adjust Schema_Compat Cmd
begin

text \<open>
  The schemas of an extension or an app (\<open>core/src/ten_runtime/schema_store/\<close>), read from the section
  \<open>api\<close> of its manifest, and the checks of messages against them (\<open>ten_msg_validate_schema\<close> of
  \<open>msg/msg.c\<close>, \<open>ten_raw_cmd_result_validate_schema\<close> of \<open>msg/cmd_base/cmd_result/cmd.c\<close>).  The hash table
  of a section is the list of its schemas in the order they were added; a lookup finds the one added
  last, as long as no bucket has grown.  A check adjusts the properties of the message in place, so its
  outcome is the error, if any, and the message.
\<close>

abbreviation "TEN_STR_CMD_IN \<equiv> ''cmd_in''"
abbreviation "TEN_STR_CMD_OUT \<equiv> ''cmd_out''"
abbreviation "TEN_STR_DATA_IN \<equiv> ''data_in''"
abbreviation "TEN_STR_DATA_OUT \<equiv> ''data_out''"
abbreviation "TEN_STR_VIDEO_FRAME_IN \<equiv> ''video_frame_in''"
abbreviation "TEN_STR_VIDEO_FRAME_OUT \<equiv> ''video_frame_out''"
abbreviation "TEN_STR_AUDIO_FRAME_IN \<equiv> ''audio_frame_in''"
abbreviation "TEN_STR_AUDIO_FRAME_OUT \<equiv> ''audio_frame_out''"
abbreviation "TEN_STR_INTERFACE_IN \<equiv> ''interface_in''"
abbreviation "TEN_STR_INTERFACE_OUT \<equiv> ''interface_out''"
abbreviation "TEN_STR_MSG_NAME_TEN_EMPTY \<equiv> ''aptima:empty''"

section \<open>Schemas of properties, messages and commands\<close>

definition ten_schemas_parse_schema_object_for_property :: "ten_value \<Rightarrow> ten_schema option run" where
  "ten_schemas_parse_schema_object_for_property content =
     (if \<not> ten_value_is_object content then Abort
      else run_bind (ten_value_object_peek content TEN_STR_PROPERTY) (\<lambda>props.
        case props of
          None \<Rightarrow> Ret None
        | Some props \<Rightarrow>
            run_bind (ten_value_object_peek content str_required) (\<lambda>required.
              map_run Some (ten_schema_create_from_value (VObject
                ([(str_type, VString ''object''), (str_properties, props)] @
                 (case required of None \<Rightarrow> [] | Some r \<Rightarrow> [(str_required, r)])))))))"

record ten_msg_schema =
  schema_msg_name :: string
  schema_property :: "ten_schema option"

record ten_cmd_schema = ten_msg_schema +
  cmd_result_schema :: "ten_schema option"

definition ten_msg_schema_create :: "ten_value \<Rightarrow> ten_msg_schema run" where
  "ten_msg_schema_create v =
     (if \<not> ten_value_is_object v then Abort
      else run_bind (ten_value_object_peek_string v TEN_STR_NAME) (\<lambda>name.
           map_run (\<lambda>p. \<lparr>schema_msg_name = or_else name TEN_STR_MSG_NAME_TEN_EMPTY, schema_property = p\<rparr>)
             (ten_schemas_parse_schema_object_for_property v)))"

definition ten_cmd_schema_create :: "ten_value \<Rightarrow> ten_cmd_schema run" where
  "ten_cmd_schema_create v =
     (if \<not> ten_value_is_object v then Abort
      else run_bind (ten_msg_schema_create v) (\<lambda>hdr.
           run_bind (ten_value_object_peek v TEN_STR_RESULT) (\<lambda>result.
             case result of
               None \<Rightarrow> Ret (ten_msg_schema.extend hdr \<lparr>cmd_result_schema = None\<rparr>)
             | Some result \<Rightarrow>
                 if \<not> ten_value_is_object result then Abort
                 else map_run (\<lambda>s. ten_msg_schema.extend hdr \<lparr>cmd_result_schema = s\<rparr>)
                        (ten_schemas_parse_schema_object_for_property result))))"

text \<open>Checks of properties; everything goes without a schema.\<close>

definition adjust_optional ::
    "machine \<Rightarrow> ten_schema option \<Rightarrow> ten_value \<Rightarrow> (ten_error option \<times> ten_value) run" where
  "adjust_optional mach schema v = (case schema of
      None \<Rightarrow> Ret (None, v)
    | Some s \<Rightarrow> map_run (map_prod id the) (ten_schema_adjust_value_type mach s (Some v)))"

definition validate_optional :: "ten_schema option \<Rightarrow> ten_value \<Rightarrow> ten_error option run" where
  "validate_optional schema v = (case schema of
      None \<Rightarrow> Ret None
    | Some s \<Rightarrow> map_run (\<lambda>r. case r of Inl e \<Rightarrow> Some e | Inr _ \<Rightarrow> None) (ten_schema_validate_value s (Some v)))"

definition ten_msg_schema_adjust_properties ::
    "machine \<Rightarrow> 'a ten_msg_schema_scheme \<Rightarrow> ten_value \<Rightarrow> (ten_error option \<times> ten_value) run" where
  "ten_msg_schema_adjust_properties mach self = adjust_optional mach (schema_property self)"

definition ten_msg_schema_validate_properties :: "'a ten_msg_schema_scheme \<Rightarrow> ten_value \<Rightarrow> ten_error option run" where
  "ten_msg_schema_validate_properties self = validate_optional (schema_property self)"

definition ten_cmd_schema_adjust_cmd_result_properties ::
    "machine \<Rightarrow> ten_cmd_schema \<Rightarrow> ten_value \<Rightarrow> (ten_error option \<times> ten_value) run" where
  "ten_cmd_schema_adjust_cmd_result_properties mach self = adjust_optional mach (cmd_result_schema self)"

definition ten_cmd_schema_validate_cmd_result_properties :: "ten_cmd_schema \<Rightarrow> ten_value \<Rightarrow> ten_error option run" where
  "ten_cmd_schema_validate_cmd_result_properties self = validate_optional (cmd_result_schema self)"

section \<open>Interfaces\<close>

record ten_interface_schema =
  interface_name :: string
  interface_cmd :: "ten_cmd_schema list"
  interface_data :: "ten_msg_schema list"
  interface_video_frame :: "ten_msg_schema list"
  interface_audio_frame :: "ten_msg_schema list"

definition ten_interface_schema_parse_cmd_part :: "ten_value \<Rightarrow> ten_cmd_schema list run" where
  "ten_interface_schema_parse_cmd_part v =
     (if \<not> ten_value_is_array v then Abort
      else ten_list_foreach_of (content_array v)
             (run_map (\<lambda>c. if \<not> ten_value_is_object c then Abort else ten_cmd_schema_create c) (content_array v)))"

text \<open>The check is the wrong way round: an array fails the assertion.  The loop then runs over the memory
  of another value: the entries of an object, which are no values, or no list at all.\<close>

definition ten_interface_schema_parse_msg_part :: "ten_value \<Rightarrow> ten_msg_schema list run" where
  "ten_interface_schema_parse_msg_part v =
     (case v of VArray _ \<Rightarrow> Abort | VObject kvs \<Rightarrow> (if kvs = [] then Ret [] else Abort) | _ \<Rightarrow> Undef)"

definition optional_part :: "ten_value \<Rightarrow> string \<Rightarrow> (ten_value \<Rightarrow> 'a list run) \<Rightarrow> 'a list run" where
  "optional_part v key parse =
     run_bind (ten_value_object_peek v key) (\<lambda>part. case part of None \<Rightarrow> Ret [] | Some p \<Rightarrow> parse p)"

definition ten_interface_schema_create :: "ten_value \<Rightarrow> ten_interface_schema run" where
  "ten_interface_schema_create v =
     (if \<not> ten_value_is_object v then Abort
      else run_bind (ten_value_object_peek_string v TEN_STR_NAME) (\<lambda>name.
           run_bind (required_string name) (\<lambda>name.
           run_bind (optional_part v TEN_STR_CMD ten_interface_schema_parse_cmd_part) (\<lambda>cmds.
           run_bind (optional_part v TEN_STR_DATA ten_interface_schema_parse_msg_part) (\<lambda>datas.
           run_bind (optional_part v TEN_STR_VIDEO_FRAME ten_interface_schema_parse_msg_part) (\<lambda>videos.
           run_bind (optional_part v TEN_STR_AUDIO_FRAME ten_interface_schema_parse_msg_part) (\<lambda>audios.
             Ret \<lparr>interface_name = name, interface_cmd = cmds, interface_data = datas,
                  interface_video_frame = videos, interface_audio_frame = audios\<rparr>)))))))"

definition find_schema :: "string \<Rightarrow> 'a ten_msg_schema_scheme list \<Rightarrow> 'a ten_msg_schema_scheme option" where
  "find_schema name table = List.find (\<lambda>s. schema_msg_name s = name) (rev table)"

text \<open>The schemas that an interface adds to a table, up to the first name that is there already.\<close>

fun ten_interface_schema_merge_into_msg_schema ::
    "'a ten_msg_schema_scheme list \<Rightarrow> 'a ten_msg_schema_scheme list \<Rightarrow> ten_error option \<times> 'a ten_msg_schema_scheme list" where
  "ten_interface_schema_merge_into_msg_schema [] table = (None, table)"
| "ten_interface_schema_merge_into_msg_schema (s # ss) table =
     (case find_schema (schema_msg_name s) table of
        Some _ \<Rightarrow> (Some (generic_error (''Schema for '' @ schema_msg_name s @ '' is duplicated.'')), table)
      | None \<Rightarrow> ten_interface_schema_merge_into_msg_schema ss (table @ [s]))"

section \<open>The store\<close>

record ten_schema_store =
  store_property :: "ten_schema option"
  cmd_in :: "ten_cmd_schema list"
  cmd_out :: "ten_cmd_schema list"
  data_in :: "ten_msg_schema list"
  data_out :: "ten_msg_schema list"
  video_frame_in :: "ten_msg_schema list"
  video_frame_out :: "ten_msg_schema list"
  audio_frame_in :: "ten_msg_schema list"
  audio_frame_out :: "ten_msg_schema list"
  interface_in :: "ten_interface_schema list"
  interface_out :: "ten_interface_schema list"

definition ten_schema_store_init :: ten_schema_store where
  "ten_schema_store_init =
     \<lparr>store_property = None, cmd_in = [], cmd_out = [], data_in = [], data_out = [], video_frame_in = [],
      video_frame_out = [], audio_frame_in = [], audio_frame_out = [], interface_in = [], interface_out = []\<rparr>"

definition ten_schemas_parse_cmd_part :: "ten_value \<Rightarrow> ten_cmd_schema list \<Rightarrow> ten_cmd_schema list run" where
  "ten_schemas_parse_cmd_part v table =
     (if \<not> ten_value_is_array v then Abort
      else map_run ((@) table)
             (ten_list_foreach_of (content_array v) (run_map ten_cmd_schema_create (content_array v))))"

definition ten_schemas_parse_msg_part :: "ten_value \<Rightarrow> ten_msg_schema list \<Rightarrow> ten_msg_schema list run" where
  "ten_schemas_parse_msg_part v table =
     (if \<not> ten_value_is_array v then Abort
      else map_run ((@) table)
             (ten_list_foreach_of (content_array v) (run_map ten_msg_schema_create (content_array v))))"

definition read_part ::
    "ten_value \<Rightarrow> string \<Rightarrow> (ten_value \<Rightarrow> 'a list \<Rightarrow> 'a list run) \<Rightarrow> 'a list \<Rightarrow> 'a list run" where
  "read_part def key parse table =
     run_bind (ten_value_object_peek def key) (\<lambda>part. case part of None \<Rightarrow> Ret table | Some p \<Rightarrow> parse p table)"

text \<open>The eight sections of messages, read into their tables.\<close>

definition read_parts :: "ten_value \<Rightarrow> ten_schema_store \<Rightarrow> ten_schema_store run" where
  "read_parts def self =
     run_bind (read_part def TEN_STR_CMD_IN ten_schemas_parse_cmd_part (cmd_in self)) (\<lambda>ci.
     run_bind (read_part def TEN_STR_CMD_OUT ten_schemas_parse_cmd_part (cmd_out self)) (\<lambda>co.
     run_bind (read_part def TEN_STR_DATA_IN ten_schemas_parse_msg_part (data_in self)) (\<lambda>di.
     run_bind (read_part def TEN_STR_DATA_OUT ten_schemas_parse_msg_part (data_out self)) (\<lambda>do.
     run_bind (read_part def TEN_STR_VIDEO_FRAME_IN ten_schemas_parse_msg_part (video_frame_in self)) (\<lambda>vi.
     run_bind (read_part def TEN_STR_VIDEO_FRAME_OUT ten_schemas_parse_msg_part (video_frame_out self)) (\<lambda>vo.
     run_bind (read_part def TEN_STR_AUDIO_FRAME_IN ten_schemas_parse_msg_part (audio_frame_in self)) (\<lambda>ai.
     run_bind (read_part def TEN_STR_AUDIO_FRAME_OUT ten_schemas_parse_msg_part (audio_frame_out self)) (\<lambda>ao.
       Ret (self\<lparr>cmd_in := ci, cmd_out := co, data_in := di, data_out := do, video_frame_in := vi,
              video_frame_out := vo, audio_frame_in := ai, audio_frame_out := ao\<rparr>)))))))))"

text \<open>The errors come before anything of the store is changed.\<close>

definition ten_schema_store_set_schema_definition ::
    "ten_schema_store \<Rightarrow> ten_value \<Rightarrow> ten_schema_store fallible" where
  "ten_schema_store_set_schema_definition self def =
     (if \<not> ten_value_is_object def then Ret (Inl (generic_error ''The schema should be an object.''))
      else run_bind (ten_value_object_peek def str_required) (\<lambda>required.
        if required \<noteq> None
        then Ret (Inl (generic_error ''The schema keyword [required] is only supported in the msg schema.''))
        else run_bind (ten_value_object_peek def TEN_STR_PROPERTY) (\<lambda>props.
          case props of
            None \<Rightarrow> map_run Inr (read_parts def self)
          | Some props \<Rightarrow>
              if \<not> ten_value_is_object props
              then Ret (Inl (generic_error ''The schema [property] should be an object.''))
              else run_bind (ten_schemas_parse_schema_object_for_property def) (\<lambda>schema.
                   map_run Inr (read_parts def (self\<lparr>store_property := schema\<rparr>))))))"


text \<open>Interfaces are resolved by a library in Rust, between a conversion to JSON and one back: \<open>resolve\<close>
  gives the message of a failure or the array of resolved interfaces.\<close>

definition ten_interface_schema_info_resolve ::
    "(ten_value \<Rightarrow> string option \<Rightarrow> string + ten_value) \<Rightarrow> ten_value \<Rightarrow> string option \<Rightarrow> ten_value fallible" where
  "ten_interface_schema_info_resolve resolve v base_dir =
     (if \<not> ten_value_is_array v then Ret (Inl (generic_error ''The interface schema should be an array.''))
      else case resolve v base_dir of
             Inl msg \<Rightarrow> map_run (Inl \<circ> generic_error) (format_no_args msg)
           | Inr resolved \<Rightarrow> Ret (Inr resolved))"

definition ten_schemas_parse_interface_part ::
    "(ten_value \<Rightarrow> string option \<Rightarrow> string + ten_value) \<Rightarrow> ten_value \<Rightarrow> string option \<Rightarrow>
       ten_interface_schema list \<Rightarrow> ten_interface_schema list run" where
  "ten_schemas_parse_interface_part resolve v base_dir table =
     (if \<not> ten_value_is_array v then Abort
      else run_bind (ten_interface_schema_info_resolve resolve v base_dir) (\<lambda>resolved.
        case resolved of
          Inl _ \<Rightarrow> Ret table
        | Inr resolved \<Rightarrow>
            if \<not> ten_value_is_array resolved then Undef
            else map_run ((@) table)
                   (ten_list_foreach_of (content_array resolved) (run_map ten_interface_schema_create (content_array resolved)))))"

text \<open>A step of a check that reports at most one error: the rest is left out after an error.\<close>

definition and_then :: "'e option \<times> 's \<Rightarrow> ('s \<Rightarrow> 'e option \<times> 's) \<Rightarrow> 'e option \<times> 's" where
  "and_then r f = (case fst r of None \<Rightarrow> f (snd r) | Some _ \<Rightarrow> r)"

definition merge_part ::
    "'a ten_msg_schema_scheme list \<Rightarrow> ('s \<Rightarrow> 'a ten_msg_schema_scheme list) \<Rightarrow>
       (('a ten_msg_schema_scheme list \<Rightarrow> 'a ten_msg_schema_scheme list) \<Rightarrow> 's \<Rightarrow> 's) \<Rightarrow> 's \<Rightarrow> ten_error option \<times> 's" where
  "merge_part schemas table update self =
     map_prod id (\<lambda>t. update (\<lambda>_. t) self) (ten_interface_schema_merge_into_msg_schema schemas (table self))"

definition merge_interface ::
    "bool \<Rightarrow> ten_interface_schema \<Rightarrow> ten_schema_store \<Rightarrow> ten_error option \<times> ten_schema_store" where
  "merge_interface is_msg_out i self =
     (if is_msg_out
      then and_then (and_then (and_then (merge_part (interface_cmd i) cmd_out cmd_out_update self)
             (merge_part (interface_data i) data_out data_out_update))
             (merge_part (interface_video_frame i) video_frame_out video_frame_out_update))
             (merge_part (interface_audio_frame i) audio_frame_out audio_frame_out_update)
      else and_then (and_then (and_then (merge_part (interface_cmd i) cmd_in cmd_in_update self)
             (merge_part (interface_data i) data_in data_in_update))
             (merge_part (interface_video_frame i) video_frame_in video_frame_in_update))
             (merge_part (interface_audio_frame i) audio_frame_in audio_frame_in_update))"

definition ten_schema_store_merge_interface_schemas_into_msg_schemas ::
    "bool \<Rightarrow> ten_interface_schema list \<Rightarrow> ten_schema_store \<Rightarrow> ten_error option \<times> ten_schema_store" where
  "ten_schema_store_merge_interface_schemas_into_msg_schemas is_msg_out interfaces self =
     fold (\<lambda>i r. and_then r (merge_interface is_msg_out i)) interfaces (None, self)"

text \<open>One of the two sections of interfaces, if it is there.\<close>

definition add_interfaces ::
    "(ten_value \<Rightarrow> string option \<Rightarrow> string + ten_value) \<Rightarrow> bool \<Rightarrow> ten_value option \<Rightarrow> string option \<Rightarrow> ten_schema_store \<Rightarrow>
       (ten_error option \<times> ten_schema_store) run" where
  "add_interfaces resolve is_msg_out part base_dir self =
     (case part of
        None \<Rightarrow> Ret (None, self)
      | Some v \<Rightarrow>
          map_run (\<lambda>t. ten_schema_store_merge_interface_schemas_into_msg_schemas is_msg_out t
                     (if is_msg_out then self\<lparr>interface_out := t\<rparr> else self\<lparr>interface_in := t\<rparr>))
            (ten_schemas_parse_interface_part resolve v base_dir
               (if is_msg_out then interface_out self else interface_in self)))"

definition ten_schema_store_set_interface_schema_definition ::
    "(ten_value \<Rightarrow> string option \<Rightarrow> string + ten_value) \<Rightarrow> ten_schema_store \<Rightarrow> ten_value \<Rightarrow> string option \<Rightarrow>
       (ten_error option \<times> ten_schema_store) run" where
  "ten_schema_store_set_interface_schema_definition resolve self def base_dir =
     (if \<not> ten_value_is_object def then Ret (Some (generic_error ''The interface schema should be an object.''), self)
      else
        run_bind (ten_value_object_peek def TEN_STR_INTERFACE_IN) (\<lambda>part.
        run_bind (add_interfaces resolve False part base_dir self) (\<lambda>(e, self).
          if e \<noteq> None then Ret (e, self)
          else run_bind (ten_value_object_peek def TEN_STR_INTERFACE_OUT) (\<lambda>part.
               add_interfaces resolve True part base_dir self))))"

section \<open>Checks against the store\<close>

definition ten_schema_store_validate_properties :: "ten_schema_store \<Rightarrow> ten_value \<Rightarrow> ten_error option run" where
  "ten_schema_store_validate_properties self = validate_optional (store_property self)"

definition ten_schema_store_adjust_properties ::
    "machine \<Rightarrow> ten_schema_store \<Rightarrow> ten_value \<Rightarrow> (ten_error option \<times> ten_value) run" where
  "ten_schema_store_adjust_properties mach self = adjust_optional mach (store_property self)"

definition ten_schema_object_peek_property_schema :: "ten_schema \<Rightarrow> string \<Rightarrow> ten_schema option run" where
  "ten_schema_object_peek_property_schema self name =
     (case ten_schema_peek_keyword_by_type (schema_keywords self) TEN_SCHEMA_KEYWORD_PROPERTIES of
        Some (KProperties props) \<Rightarrow> ten_schema_keyword_properties_peek_property_schema props name
      | _ \<Rightarrow> Abort)"

definition peek_store_property :: "ten_schema_store \<Rightarrow> string \<Rightarrow> ten_schema option run" where
  "peek_store_property self name =
     (if name = [] then Abort
      else case store_property self of
             None \<Rightarrow> Ret None
           | Some s \<Rightarrow> ten_schema_object_peek_property_schema s name)"

definition ten_schema_store_validate_property_kv ::
    "ten_schema_store \<Rightarrow> string \<Rightarrow> ten_value \<Rightarrow> ten_error option run" where
  "ten_schema_store_validate_property_kv self name v =
     run_bind (peek_store_property self name) (\<lambda>schema. validate_optional schema v)"

definition ten_schema_store_adjust_property_kv ::
    "machine \<Rightarrow> ten_schema_store \<Rightarrow> string \<Rightarrow> ten_value \<Rightarrow> (ten_error option \<times> ten_value) run" where
  "ten_schema_store_adjust_property_kv mach self name v =
     run_bind (peek_store_property self name) (\<lambda>schema. adjust_optional mach schema v)"

text \<open>The schemas of a section, as the commands they may be the headers of.\<close>

definition as_cmd_schemas :: "ten_msg_schema list \<Rightarrow> ten_cmd_schema list" where
  "as_cmd_schemas = map (\<lambda>s. ten_msg_schema.extend s \<lparr>cmd_result_schema = None\<rparr>)"

definition schema_map :: "ten_schema_store \<Rightarrow> TEN_MSG_TYPE \<Rightarrow> bool \<Rightarrow> ten_cmd_schema list option" where
  "schema_map self t is_msg_out =
     (case t of
        TEN_MSG_TYPE_DATA \<Rightarrow> Some (as_cmd_schemas (if is_msg_out then data_out self else data_in self))
      | TEN_MSG_TYPE_VIDEO_FRAME \<Rightarrow>
          Some (as_cmd_schemas (if is_msg_out then video_frame_out self else video_frame_in self))
      | TEN_MSG_TYPE_AUDIO_FRAME \<Rightarrow>
          Some (as_cmd_schemas (if is_msg_out then audio_frame_out self else audio_frame_in self))
      | TEN_MSG_TYPE_CMD \<Rightarrow> Some (if is_msg_out then cmd_out self else cmd_in self)
      | TEN_MSG_TYPE_CMD_RESULT \<Rightarrow> Some (if is_msg_out then cmd_out self else cmd_in self)
      | _ \<Rightarrow> None)"

definition ten_schema_store_get_msg_schema ::
    "ten_schema_store \<Rightarrow> TEN_MSG_TYPE \<Rightarrow> string \<Rightarrow> bool \<Rightarrow> ten_cmd_schema option run" where
  "ten_schema_store_get_msg_schema self t name is_msg_out =
     (case schema_map self t is_msg_out of
        None \<Rightarrow> Abort
      | Some table \<Rightarrow>
          if t \<in> {TEN_MSG_TYPE_CMD, TEN_MSG_TYPE_CMD_RESULT} \<and> name = [] then Abort
          else Ret (find_schema (if name = [] then TEN_STR_MSG_NAME_TEN_EMPTY else name) table))"

definition ten_schema_store_get_all_msg_names_in_interface_out ::
    "ten_schema_store \<Rightarrow> TEN_MSG_TYPE \<Rightarrow> string \<Rightarrow> string list option run" where
  "ten_schema_store_get_all_msg_names_in_interface_out self t name =
     (case List.find (\<lambda>i. interface_name i = name) (rev (interface_out self)) of
        None \<Rightarrow> Ret None
      | Some i \<Rightarrow> (case t of
            TEN_MSG_TYPE_CMD \<Rightarrow> Ret (Some (map schema_msg_name (interface_cmd i)))
          | TEN_MSG_TYPE_DATA \<Rightarrow> Ret (Some (map schema_msg_name (interface_data i)))
          | TEN_MSG_TYPE_VIDEO_FRAME \<Rightarrow> Ret (Some (map schema_msg_name (interface_video_frame i)))
          | TEN_MSG_TYPE_AUDIO_FRAME \<Rightarrow> Ret (Some (map schema_msg_name (interface_audio_frame i)))
          | _ \<Rightarrow> Abort))"

section \<open>Checks of messages\<close>

definition check_properties ::
    "(ten_value \<Rightarrow> (ten_error option \<times> ten_value) run) \<Rightarrow> (ten_value \<Rightarrow> ten_error option run) \<Rightarrow>
       'a ten_msg_scheme \<Rightarrow> (ten_error option \<times> 'a ten_msg_scheme) run" where
  "check_properties adjust validate self =
     run_bind (adjust (properties self)) (\<lambda>(e, props).
       if e \<noteq> None then Ret (e, self\<lparr>properties := props\<rparr>)
       else map_run (\<lambda>e. (e, self\<lparr>properties := props\<rparr>)) (validate props))"

definition ten_raw_msg_validate_schema ::
    "machine \<Rightarrow> ten_schema_store \<Rightarrow> bool \<Rightarrow> 'a ten_msg_scheme \<Rightarrow> (ten_error option \<times> 'a ten_msg_scheme) run" where
  "ten_raw_msg_validate_schema mach store is_msg_out self =
     run_bind (ten_raw_msg_is_cmd_and_result self) (\<lambda>is_cmd.
       if is_cmd \<and> msg_name self = [] then Abort
       else run_bind (ten_schema_store_get_msg_schema store (msg_type self) (msg_name self) is_msg_out) (\<lambda>schema.
         case schema of
           None \<Rightarrow> Ret (None, self)
         | Some s \<Rightarrow> check_properties (ten_msg_schema_adjust_properties mach s) (ten_msg_schema_validate_properties s) self))"

text \<open>The schema of a result that goes out stands with the command that came in.\<close>

definition ten_raw_cmd_result_validate_schema ::
    "machine \<Rightarrow> ten_schema_store \<Rightarrow> bool \<Rightarrow> message \<Rightarrow> (ten_error option \<times> message) run" where
  "ten_raw_cmd_result_validate_schema mach store is_msg_out self =
     (if msg_type self \<noteq> TEN_MSG_TYPE_CMD_RESULT \<or> original_cmd_name self = [] then Abort
      else run_bind (ten_schema_store_get_msg_schema store (msg_type self) (original_cmd_name self) (\<not> is_msg_out)) (\<lambda>schema.
        case schema of
          None \<Rightarrow> Ret (None, self)
        | Some s \<Rightarrow> check_properties (ten_cmd_schema_adjust_cmd_result_properties mach s)
                      (ten_cmd_schema_validate_cmd_result_properties s) self))"

definition ten_msg_validate_schema ::
    "machine \<Rightarrow> ten_schema_store \<Rightarrow> bool \<Rightarrow> message \<Rightarrow> (ten_error option \<times> message) run" where
  "ten_msg_validate_schema mach store is_msg_out self =
     (case msg_type self of
        TEN_MSG_TYPE_CMD \<Rightarrow> ten_raw_msg_validate_schema mach store is_msg_out self
      | TEN_MSG_TYPE_DATA \<Rightarrow> ten_raw_msg_validate_schema mach store is_msg_out self
      | TEN_MSG_TYPE_VIDEO_FRAME \<Rightarrow> ten_raw_msg_validate_schema mach store is_msg_out self
      | TEN_MSG_TYPE_AUDIO_FRAME \<Rightarrow> ten_raw_msg_validate_schema mach store is_msg_out self
      | TEN_MSG_TYPE_CMD_RESULT \<Rightarrow> ten_raw_cmd_result_validate_schema mach store is_msg_out self
      | TEN_MSG_TYPE_LAST \<Rightarrow> Undef
      | _ \<Rightarrow> Ret (None, self))"


section \<open>Adjustment returns\<close>

lemma convert_by_type_returns: "\<exists>r. convert_by_type mach t v = Ret r \<and> (\<forall>e. r = Inl e \<longrightarrow> err_no e = TEN_ERRNO_GENERIC)"
proof (cases "TEN_IS_INTEGER_TYPE t")
  case True
  then show ?thesis
    by (auto simp: convert_by_type_int converted_def unsupported_conversion_def out_of_range_def split: option.splits)
next
  case False
  then show ?thesis
    by (cases t; cases v)
       (auto simp: convert_by_type_def TEN_IS_INTEGER_TYPE_def ten_value_convert_to_float32_def
          ten_value_convert_to_float64_def ten_type_is_compatible_iff TEN_IS_FLOAT_TYPE_def
          unsupported_conversion_def out_of_range_def)
qed

lemma converted_traversable:
  assumes "convert_by_type mach t v = Ret (Inr v')"
  shows "traversable v'"
proof -
  have "t \<noteq> TEN_TYPE_ARRAY \<and> t \<noteq> TEN_TYPE_OBJECT" using assms by (auto simp: convert_by_type_def)
  with convert_by_type_type [OF assms] show ?thesis by (cases v') auto
qed

definition adjust_ok :: "('a \<Rightarrow> (ten_schema_error option \<times> 'a) run) \<Rightarrow> ('a \<Rightarrow> bool) \<Rightarrow> 'a \<Rightarrow> bool" where
  "adjust_ok f P x \<longleftrightarrow> (\<exists>e y. f x = Ret (e, y) \<and> P y \<and> (\<forall>e'. e = Some e' \<longrightarrow> err_no (se_err e') = TEN_ERRNO_GENERIC))"

lemma adjust_each_ok:
  "\<forall>x \<in> set xs. P x \<and> adjust_ok f P x \<Longrightarrow> adjust_ok (adjust_each f) (\<lambda>ys. length ys = length xs \<and> (\<forall>y \<in> set ys. P y)) xs"
proof (induction xs)
  case (Cons x xs)
  then obtain e y where "f x = Ret (e, y)" "P y" "\<forall>e'. e = Some e' \<longrightarrow> err_no (se_err e') = TEN_ERRNO_GENERIC"
    by (auto simp: adjust_ok_def)
  with Cons show ?case by (cases e) (auto simp: adjust_ok_def)
qed (simp add: adjust_ok_def)

lemma adjust_steps_ok:
  "\<forall>k \<in> set ks. \<forall>v. P v \<longrightarrow> adjust_ok (f k) P v \<Longrightarrow> P v \<Longrightarrow> adjust_ok (adjust_steps f ks) P v"
proof (induction ks arbitrary: v)
  case (Cons k ks)
  have "adjust_ok (f k) P v" using Cons.prems by simp
  then obtain e y where y: "f k v = Ret (e, y)" "P y" "\<forall>e'. e = Some e' \<longrightarrow> err_no (se_err e') = TEN_ERRNO_GENERIC"
    unfolding adjust_ok_def by blast
  have "adjust_ok (adjust_steps f ks) P y" using Cons.IH Cons.prems(1) y(2) by simp
  with y show ?case by (cases e) (simp_all add: adjust_ok_def)
qed (simp add: adjust_ok_def)

lemma adjust_returns:
  "traversable v \<Longrightarrow> adjust_ok (ten_schema_adjust_value_type_with_schema_error mach s) traversable v"
  "traversable v \<Longrightarrow> adjust_ok (ten_schema_keyword_adjust_value mach k) traversable v"
proof (induction s and k arbitrary: v and v rule: ten_schema.induct ten_schema_keyword.induct)
  case (Schema ks)
  then have "adjust_ok (adjust_steps (\<lambda>k. ten_schema_keyword_adjust_value mach k) ks) traversable v"
    by (intro adjust_steps_ok) auto
  then show ?case by (simp add: adjust_ok_def)
next
  case (KType t)
  obtain r where r: "convert_by_type mach t v = Ret r" "\<forall>e. r = Inl e \<longrightarrow> err_no e = TEN_ERRNO_GENERIC"
    using convert_by_type_returns by blast
  have "adjust_ok (ten_schema_keyword_type_adjust_value mach t) traversable v"
  proof (cases "ten_value_get_type v = t")
    case False
    then show ?thesis
    proof (cases r)
      case (Inr v')
      with r(1) False converted_traversable [of mach t v v'] show ?thesis
        by (simp add: adjust_ok_def ten_schema_keyword_type_adjust_value_def)
    qed (use r False KType in \<open>simp add: adjust_ok_def ten_schema_keyword_type_adjust_value_def\<close>)
  qed (use KType in \<open>simp add: adjust_ok_def ten_schema_keyword_type_adjust_value_def\<close>)
  then show ?case by (simp add: adjust_ok_def)
next
  case (KProperties props)
  show ?case
  proof (cases v)
    case (VObject kvs)
    let ?P = "\<lambda>(k, x). k \<noteq> [] \<and> traversable x"
    have "?P kv \<and> adjust_ok (adjust_property (ten_schema_adjust_value_type_with_schema_error mach) props) ?P kv"
      if "kv \<in> set kvs" for kv
    proof -
      obtain k x where kv: "kv = (k, x)" by force
      with KProperties.prems VObject that have k: "k \<noteq> []" "traversable x" by auto
      have "adjust_ok (ten_schema_adjust_value_type_with_schema_error mach s) traversable x" if "map_of (rev props) k = Some s" for s
      proof -
        from that have "(k, s) \<in> set props" by (metis map_of_SomeD set_rev)
        then show ?thesis using KProperties.IH [of "(k, s)" s x] k by simp
      qed
      with kv k show ?thesis
        by (cases "map_of (rev props) k")
           (fastforce simp: adjust_ok_def adjust_property_def ten_schema_keyword_properties_peek_property_schema_def)+
    qed
    then have "adjust_ok (adjust_each (adjust_property (ten_schema_adjust_value_type_with_schema_error mach) props))
        (\<lambda>ys. length ys = length kvs \<and> (\<forall>y \<in> set ys. ?P y)) kvs"
      by (intro adjust_each_ok) blast
    moreover have "walkable kvs" using KProperties.prems VObject by simp
    ultimately show ?thesis
      unfolding VObject ten_schema_keyword_adjust_value.simps adjust_defs by (auto simp: adjust_ok_def walkable_def)
  qed (use KProperties.prems in \<open>auto simp: adjust_ok_def adjust_defs object_expected_def\<close>)
next
  case (KItems s)
  show ?case
  proof (cases v)
    case (VArray vs)
    let ?P = "\<lambda>(i :: nat, x). traversable x"
    have "?P ix \<and> adjust_ok (adjust_item (ten_schema_adjust_value_type_with_schema_error mach s)) ?P ix"
      if "ix \<in> set (enumerate 0 vs)" for ix
    proof -
      obtain i x where ix: "ix = (i, x)" by force
      with KItems.prems VArray snd_in_enumerate [OF that] have "traversable x" by auto
      with KItems.IH [of x] ix show ?thesis by (fastforce simp: adjust_ok_def adjust_item_def)
    qed
    then have "adjust_ok (adjust_each (adjust_item (ten_schema_adjust_value_type_with_schema_error mach s)))
        (\<lambda>ys. length ys = length (enumerate 0 vs) \<and> (\<forall>y \<in> set ys. ?P y)) (enumerate 0 vs)"
      by (intro adjust_each_ok) blast
    moreover have "walkable vs" using KItems.prems VArray by simp
    ultimately show ?thesis
      unfolding VArray ten_schema_keyword_adjust_value.simps adjust_defs by (fastforce simp: adjust_ok_def walkable_def)
  qed (use KItems.prems in \<open>auto simp: adjust_ok_def adjust_defs array_expected_def\<close>)
next
  case (KRequired rs)
  then show ?case by (simp add: adjust_ok_def adjust_defs)
qed


section \<open>Well-typed stores\<close>

text \<open>Every schema for properties is a well-formed schema of an object.\<close>

definition object_schema :: "ten_schema option \<Rightarrow> bool" where
  "object_schema s \<longleftrightarrow> (\<forall>x. s = Some x \<longrightarrow> wf_schema x \<and> KType TEN_TYPE_OBJECT \<in> set (schema_keywords x))"

definition msg_schema_ok :: "'a ten_msg_schema_scheme \<Rightarrow> bool" where
  "msg_schema_ok s \<longleftrightarrow> object_schema (schema_property s)"

definition cmd_schema_ok :: "ten_cmd_schema \<Rightarrow> bool" where
  "cmd_schema_ok s \<longleftrightarrow> msg_schema_ok s \<and> object_schema (cmd_result_schema s)"

definition cmds_ok :: "ten_cmd_schema list \<Rightarrow> bool" where
  "cmds_ok cs \<longleftrightarrow> (\<forall>c \<in> set cs. cmd_schema_ok c)"

definition msgs_ok :: "ten_msg_schema list \<Rightarrow> bool" where
  "msgs_ok ms \<longleftrightarrow> (\<forall>m \<in> set ms. msg_schema_ok m)"

definition interface_ok :: "ten_interface_schema \<Rightarrow> bool" where
  "interface_ok i \<longleftrightarrow> cmds_ok (interface_cmd i) \<and> msgs_ok (interface_data i) \<and>
     msgs_ok (interface_video_frame i) \<and> msgs_ok (interface_audio_frame i)"

definition store_ok :: "ten_schema_store \<Rightarrow> bool" where
  "store_ok self \<longleftrightarrow> object_schema (store_property self) \<and> cmds_ok (cmd_in self) \<and> cmds_ok (cmd_out self) \<and>
     msgs_ok (data_in self) \<and> msgs_ok (data_out self) \<and> msgs_ok (video_frame_in self) \<and>
     msgs_ok (video_frame_out self) \<and> msgs_ok (audio_frame_in self) \<and> msgs_ok (audio_frame_out self) \<and>
     (\<forall>i \<in> set (interface_in self) \<union> set (interface_out self). interface_ok i)"

lemma sections_ok_append [simp]:
  "cmds_ok (cs @ cs') \<longleftrightarrow> cmds_ok cs \<and> cmds_ok cs'" "msgs_ok (ms @ ms') \<longleftrightarrow> msgs_ok ms \<and> msgs_ok ms'"
  by (auto simp: cmds_ok_def msgs_ok_def)

lemma create_object_type:
  assumes "ten_schema_create_from_value (VObject ((str_type, VString ''object'') # kvs)) = Ret s"
  shows "KType TEN_TYPE_OBJECT \<in> set (schema_keywords s)"
proof -
  obtain self ks where k: "list_all2 (\<lambda>kv k. create_keyword self kv = Ret k) ((str_type, VString ''object'') # kvs) ks"
    and s: "s = Schema ks" by (rule create_from_object [OF assms])
  have "ten_type_from_string ''object'' = TEN_TYPE_OBJECT" by code_simp
  then have "create_keyword self (str_type, VString ''object'') = Ret (KType TEN_TYPE_OBJECT)"
    by (simp add: create_keyword_def ten_schema_keyword_info_get_by_name_def keyword_from_value_def
        ten_schema_keyword_type_create_from_value_def ten_value_peek_raw_str_def)
  with k s show ?thesis by (auto simp: list_all2_Cons1)
qed

lemma find_entry_keys_distinct: "keys_distinct (VObject kvs) \<Longrightarrow> find_entry k kvs = Some v \<Longrightarrow> keys_distinct v"
  by (force simp: entries_distinct_def dest: find_entry_SomeD)

lemma peek_keys_distinct: "keys_distinct v \<Longrightarrow> ten_value_object_peek v k = Ret (Some x) \<Longrightarrow> keys_distinct x"
  by (cases v) (auto simp: ten_value_object_peek_def simp del: keys_distinct_object intro: find_entry_keys_distinct)

lemma parse_property_ok:
  assumes "keys_distinct v" and "ten_schemas_parse_schema_object_for_property v = Ret s"
  shows "object_schema s"
proof (cases s)
  case (Some x)
  with assms(2) obtain props required where
    p: "ten_value_object_peek v TEN_STR_PROPERTY = Ret (Some props)" "ten_value_object_peek v str_required = Ret required" and
    c: "ten_schema_create_from_value (VObject ((str_type, VString ''object'') # (str_properties, props) #
          (case required of None \<Rightarrow> [] | Some r \<Rightarrow> [(str_required, r)]))) = Ret x"
    by (auto simp: ten_schemas_parse_schema_object_for_property_def split: if_splits option.splits)
  have "keys_distinct (VObject ((str_type, VString ''object'') # (str_properties, props) #
          (case required of None \<Rightarrow> [] | Some r \<Rightarrow> [(str_required, r)])))"
    using assms(1) p peek_keys_distinct
    by (cases required) (auto simp: entries_distinct_def str_type_def str_properties_def str_required_def)
  from create_wf [OF this c] create_object_type [OF c] Some show ?thesis by (simp add: object_schema_def)
qed (simp add: object_schema_def)

lemma msg_schema_create_ok:
  assumes "keys_distinct v" and "ten_msg_schema_create v = Ret s"
  shows "msg_schema_ok s"
  using assms parse_property_ok [OF assms(1)] by (auto simp: ten_msg_schema_create_def msg_schema_ok_def split: if_splits)

lemma cmd_schema_create_ok:
  assumes "keys_distinct v" and "ten_cmd_schema_create v = Ret s"
  shows "cmd_schema_ok s"
proof -
  from assms(2) obtain hdr r where hdr: "ten_msg_schema_create v = Ret hdr" and s: "s = ten_msg_schema.extend hdr \<lparr>cmd_result_schema = r\<rparr>"
    and r: "r = None \<or> (\<exists>x. ten_value_object_peek v TEN_STR_RESULT = Ret (Some x) \<and>
      ten_schemas_parse_schema_object_for_property x = Ret r)"
    by (auto simp: ten_cmd_schema_create_def split: if_splits option.splits)
  from r have "object_schema r"
  proof
    assume "r = None" then show ?thesis by (simp add: object_schema_def)
  qed (use peek_keys_distinct [OF assms(1)] parse_property_ok in blast)
  with msg_schema_create_ok [OF assms(1) hdr] s show ?thesis
    by (simp add: cmd_schema_ok_def msg_schema_ok_def ten_msg_schema.defs)
qed

lemma run_map_ok:
  assumes "run_map f xs = Ret ys" and "\<And>x y. x \<in> set xs \<Longrightarrow> f x = Ret y \<Longrightarrow> P y"
  shows "\<forall>y \<in> set ys. P y"
proof
  note all = run_map_eq_RetD [OF assms(1)]
  fix y assume "y \<in> set ys"
  then obtain i where i: "i < length ys" "ys ! i = y" by (auto simp: in_set_conv_nth)
  with list_all2_nthD2 [OF all i(1)] list_all2_lengthD [OF all] assms(2) [of "xs ! i" y] show "P y" by simp
qed

lemma array_keys_distinct: "keys_distinct v \<Longrightarrow> ten_value_is_array v \<Longrightarrow> x \<in> set (content_array v) \<Longrightarrow> keys_distinct x"
  by (cases v) auto

lemma parse_cmds_ok:
  assumes "run_map ten_cmd_schema_create (content_array p) = Ret ys" and "keys_distinct p" and "ten_value_is_array p"
  shows "cmds_ok ys"
  unfolding cmds_ok_def
  by (rule run_map_ok [OF assms(1)]) (rule cmd_schema_create_ok [OF array_keys_distinct [OF assms(2,3)]])

lemma parse_msgs_ok:
  assumes "run_map ten_msg_schema_create (content_array p) = Ret ys" and "keys_distinct p" and "ten_value_is_array p"
  shows "msgs_ok ys"
  unfolding msgs_ok_def
  by (rule run_map_ok [OF assms(1)]) (rule msg_schema_create_ok [OF array_keys_distinct [OF assms(2,3)]])

lemma read_cmd_part_ok:
  assumes "read_part def key ten_schemas_parse_cmd_part table = Ret table'" and "keys_distinct def" and "cmds_ok table"
  shows "cmds_ok table'"
proof -
  obtain part where part: "ten_value_object_peek def key = Ret part" using assms(1) by (auto simp: read_part_def)
  show ?thesis
  proof (cases part)
    case (Some v)
    with assms(1) part obtain new where "ten_value_is_array v" "run_map ten_cmd_schema_create (content_array v) = Ret new"
      "table' = table @ new"
      by (auto simp: read_part_def ten_schemas_parse_cmd_part_def split: if_splits)
    with assms(3) peek_keys_distinct [OF assms(2)] part Some show ?thesis by (auto intro!: parse_cmds_ok)
  qed (use assms(1,3) part in \<open>simp add: read_part_def\<close>)
qed

lemma read_msg_part_ok:
  assumes "read_part def key ten_schemas_parse_msg_part table = Ret table'" and "keys_distinct def" and "msgs_ok table"
  shows "msgs_ok table'"
proof -
  obtain part where part: "ten_value_object_peek def key = Ret part" using assms(1) by (auto simp: read_part_def)
  show ?thesis
  proof (cases part)
    case (Some v)
    with assms(1) part obtain new where "ten_value_is_array v" "run_map ten_msg_schema_create (content_array v) = Ret new"
      "table' = table @ new"
      by (auto simp: read_part_def ten_schemas_parse_msg_part_def split: if_splits)
    with assms(3) peek_keys_distinct [OF assms(2)] part Some show ?thesis by (auto intro!: parse_msgs_ok)
  qed (use assms(1,3) part in \<open>simp add: read_part_def\<close>)
qed

lemma read_partsD:
  assumes "read_parts def self = Ret self'"
  shows "read_part def TEN_STR_CMD_IN ten_schemas_parse_cmd_part (cmd_in self) = Ret (cmd_in self')"
    "read_part def TEN_STR_CMD_OUT ten_schemas_parse_cmd_part (cmd_out self) = Ret (cmd_out self')"
    "read_part def TEN_STR_DATA_IN ten_schemas_parse_msg_part (data_in self) = Ret (data_in self')"
    "read_part def TEN_STR_DATA_OUT ten_schemas_parse_msg_part (data_out self) = Ret (data_out self')"
    "read_part def TEN_STR_VIDEO_FRAME_IN ten_schemas_parse_msg_part (video_frame_in self) = Ret (video_frame_in self')"
    "read_part def TEN_STR_VIDEO_FRAME_OUT ten_schemas_parse_msg_part (video_frame_out self) = Ret (video_frame_out self')"
    "read_part def TEN_STR_AUDIO_FRAME_IN ten_schemas_parse_msg_part (audio_frame_in self) = Ret (audio_frame_in self')"
    "read_part def TEN_STR_AUDIO_FRAME_OUT ten_schemas_parse_msg_part (audio_frame_out self) = Ret (audio_frame_out self')"
    "store_property self' = store_property self" "interface_in self' = interface_in self" "interface_out self' = interface_out self"
  using assms unfolding read_parts_def run_bind_eq_Ret by auto

lemma read_parts_ok:
  assumes "read_parts def self = Ret self'" and "keys_distinct def" and "store_ok self"
  shows "store_ok self'"
proof -
  note cmds = read_cmd_part_ok [OF _ assms(2)] and msgs = read_msg_part_ok [OF _ assms(2)] and parts = read_partsD [OF assms(1)]
  show ?thesis
    using assms(3) cmds [OF parts(1)] cmds [OF parts(2)] msgs [OF parts(3)] msgs [OF parts(4)] msgs [OF parts(5)]
      msgs [OF parts(6)] msgs [OF parts(7)] msgs [OF parts(8)] parts(9-11)
    unfolding store_ok_def by simp
qed

lemma set_definition_ok:
  assumes "ten_schema_store_set_schema_definition self def = Ret (Inr self')" and "keys_distinct def" and "store_ok self"
  shows "store_ok self'"
proof -
  obtain self0 where r: "read_parts def self0 = Ret self'" and self0: "self0 = self \<or>
      (\<exists>s. ten_schemas_parse_schema_object_for_property def = Ret s \<and> self0 = self\<lparr>store_property := s\<rparr>)"
    using assms(1) by (auto simp: ten_schema_store_set_schema_definition_def split: if_splits option.splits)
  from self0 have "store_ok self0"
    using assms(3) parse_property_ok [OF assms(2)] by (auto simp: store_ok_def)
  with r assms(2) show ?thesis by (rule read_parts_ok)
qed

lemma optional_partD:
  "optional_part v key parse = Ret ys \<Longrightarrow> ys = [] \<or> (\<exists>p. ten_value_object_peek v key = Ret (Some p) \<and> parse p = Ret ys)"
  by (auto simp: optional_part_def split: option.splits)

lemma parse_msg_part_empty: "ten_interface_schema_parse_msg_part p = Ret ms \<Longrightarrow> ms = [] \<and> p = VObject []"
  by (cases p) (auto simp: ten_interface_schema_parse_msg_part_def split: if_splits)

lemma parse_interface_cmds_ok:
  assumes "ten_interface_schema_parse_cmd_part p = Ret cs" and "keys_distinct p"
  shows "cmds_ok cs"
proof -
  from assms(1) have p: "ten_value_is_array p"
    and m: "run_map (\<lambda>c. if \<not> ten_value_is_object c then Abort else ten_cmd_schema_create c) (content_array p) = Ret cs"
    by (auto simp: ten_interface_schema_parse_cmd_part_def split: if_splits)
  show ?thesis
    unfolding cmds_ok_def
    by (rule run_map_ok [OF m])
       (use assms(2) p in \<open>auto split: if_splits intro: cmd_schema_create_ok array_keys_distinct\<close>)
qed

lemma interface_schema_createD:
  assumes "ten_interface_schema_create v = Ret i"
  shows "optional_part v TEN_STR_CMD ten_interface_schema_parse_cmd_part = Ret (interface_cmd i)"
    "optional_part v TEN_STR_DATA ten_interface_schema_parse_msg_part = Ret (interface_data i)"
    "optional_part v TEN_STR_VIDEO_FRAME ten_interface_schema_parse_msg_part = Ret (interface_video_frame i)"
    "optional_part v TEN_STR_AUDIO_FRAME ten_interface_schema_parse_msg_part = Ret (interface_audio_frame i)"
  using assms by (auto simp: ten_interface_schema_create_def split: if_splits)

lemma interface_schema_create_msgs:
  assumes "ten_interface_schema_create v = Ret i"
  shows "interface_data i = []" "interface_video_frame i = []" "interface_audio_frame i = []"
  using interface_schema_createD [OF assms] by (auto dest!: optional_partD parse_msg_part_empty)

lemma interface_schema_create_ok:
  assumes "keys_distinct v" and "ten_interface_schema_create v = Ret i"
  shows "interface_ok i"
  using optional_partD [OF interface_schema_createD(1) [OF assms(2)]] peek_keys_distinct [OF assms(1)]
    parse_interface_cmds_ok interface_schema_create_msgs [OF assms(2)]
  by (auto simp: interface_ok_def msgs_ok_def cmds_ok_def)

definition resolver_ok :: "(ten_value \<Rightarrow> string option \<Rightarrow> string + ten_value) \<Rightarrow> bool" where
  "resolver_ok resolve \<longleftrightarrow> (\<forall>v b r. resolve v b = Inr r \<longrightarrow> keys_distinct r)"

lemma parse_interface_part_ok:
  assumes "ten_schemas_parse_interface_part resolve v b table = Ret table'" and "resolver_ok resolve"
    and "\<forall>i \<in> set table. interface_ok i"
  shows "\<forall>i \<in> set table'. interface_ok i"
proof -
  have new: "\<forall>i \<in> set is. interface_ok i" if "resolve v b = Inr r" "ten_value_is_array r"
      "run_map ten_interface_schema_create (content_array r) = Ret is" for r "is"
  proof -
    from that(1) assms(2) have "keys_distinct r" by (auto simp: resolver_ok_def)
    then show ?thesis
      by (intro run_map_ok [OF that(3)]) (auto intro: interface_schema_create_ok array_keys_distinct that(2))
  qed
  from assms(1) consider (old) "table' = table"
    | (new) r "is" where "resolve v b = Inr r" "ten_value_is_array r"
        "run_map ten_interface_schema_create (content_array r) = Ret is" "table' = table @ is"
    by (cases "resolve v b")
       (auto simp: ten_schemas_parse_interface_part_def ten_interface_schema_info_resolve_def split: if_splits)
  then show ?thesis using new assms(3) by cases auto
qed

lemma merge_set:
  "set (snd (ten_interface_schema_merge_into_msg_schema ss table)) \<subseteq> set table \<union> set ss"
  by (induction ss table rule: ten_interface_schema_merge_into_msg_schema.induct) (auto split: option.splits)

lemma merge_cmds_ok:
  "cmds_ok table \<Longrightarrow> cmds_ok ss \<Longrightarrow> cmds_ok (snd (ten_interface_schema_merge_into_msg_schema ss table))"
  using merge_set [of ss table] by (auto simp: cmds_ok_def)

lemma merge_msgs_ok:
  "msgs_ok table \<Longrightarrow> msgs_ok ss \<Longrightarrow> msgs_ok (snd (ten_interface_schema_merge_into_msg_schema ss table))"
  using merge_set [of ss table] by (auto simp: msgs_ok_def)

lemma and_then_ok: "P (snd r) \<Longrightarrow> (\<And>s. P s \<Longrightarrow> P (snd (f s))) \<Longrightarrow> P (snd (and_then r f))"
  by (auto simp: and_then_def split: option.splits)

lemma merge_interface_ok:
  assumes "interface_ok i" and "store_ok self"
  shows "store_ok (snd (merge_interface out i self))"
proof -
  note parts = merge_part_def store_ok_def interface_ok_def merge_cmds_ok merge_msgs_ok
  have "store_ok (snd (merge_part (interface_cmd i) cmd_out cmd_out_update s))"
    "store_ok (snd (merge_part (interface_data i) data_out data_out_update s))"
    "store_ok (snd (merge_part (interface_video_frame i) video_frame_out video_frame_out_update s))"
    "store_ok (snd (merge_part (interface_audio_frame i) audio_frame_out audio_frame_out_update s))"
    "store_ok (snd (merge_part (interface_cmd i) cmd_in cmd_in_update s))"
    "store_ok (snd (merge_part (interface_data i) data_in data_in_update s))"
    "store_ok (snd (merge_part (interface_video_frame i) video_frame_in video_frame_in_update s))"
    "store_ok (snd (merge_part (interface_audio_frame i) audio_frame_in audio_frame_in_update s))" if "store_ok s" for s
    using assms(1) that by (simp_all add: parts)
  with assms(2) show ?thesis unfolding merge_interface_def by (simp add: and_then_ok [where P = store_ok])
qed

lemma merge_interfaces_ok:
  assumes "\<forall>i \<in> set is. interface_ok i" and "store_ok (snd r)"
  shows "store_ok (snd (fold (\<lambda>i r. and_then r (merge_interface out i)) is r))"
  using assms
proof (induction "is" arbitrary: r)
  case (Cons i "is")
  have "store_ok (snd (and_then r (merge_interface out i)))"
    using Cons.prems by (intro and_then_ok [where P = store_ok] merge_interface_ok) auto
  with Cons show ?case by simp
qed simp

lemma add_interfaces_ok:
  assumes "add_interfaces resolve out part b self = Ret r" and "resolver_ok resolve" and "store_ok self"
  shows "store_ok (snd r)"
proof (cases part)
  case (Some v)
  let ?put = "\<lambda>t. if out then self\<lparr>interface_out := t\<rparr> else self\<lparr>interface_in := t\<rparr>"
  from assms(1) Some obtain t where
    t: "ten_schemas_parse_interface_part resolve v b (if out then interface_out self else interface_in self) = Ret t" and
    r: "r = ten_schema_store_merge_interface_schemas_into_msg_schemas out t (?put t)"
    by (auto simp: add_interfaces_def)
  have "\<forall>i \<in> set t. interface_ok i"
    using parse_interface_part_ok [OF t assms(2)] assms(3) by (auto simp: store_ok_def)
  moreover from this assms(3) have "store_ok (?put t)" by (auto simp: store_ok_def)
  ultimately show ?thesis
    unfolding r ten_schema_store_merge_interface_schemas_into_msg_schemas_def by (intro merge_interfaces_ok) simp_all
qed (use assms(1,3) in \<open>auto simp: add_interfaces_def\<close>)

lemma set_interface_definition_ok:
  assumes "ten_schema_store_set_interface_schema_definition resolve self def b = Ret r"
    and "resolver_ok resolve" and "store_ok self"
  shows "store_ok (snd r)"
proof (cases "ten_value_is_object def")
  case True
  then have w: "walkable (content_object def)" using assms(1)
    by (auto simp: ten_schema_store_set_interface_schema_definition_def ten_value_object_peek_def)
  from True w obtain part part' where p: "ten_value_object_peek def TEN_STR_INTERFACE_IN = Ret part"
      "ten_value_object_peek def TEN_STR_INTERFACE_OUT = Ret part'"
    by (auto simp: ten_value_object_peek_def)
  have "run_bind (add_interfaces resolve False part b self) (\<lambda>(e, self). if e \<noteq> None then Ret (e, self)
      else add_interfaces resolve True part' b self) = Ret r"
    using assms(1)
    by (simp only: ten_schema_store_set_interface_schema_definition_def True p not_True_eq_False if_False run_bind.simps)
  then obtain e1 s1 where s1: "add_interfaces resolve False part b self = Ret (e1, s1)"
    and r: "(if e1 \<noteq> None then Ret (e1, s1) else add_interfaces resolve True part' b s1) = Ret r"
    unfolding run_bind_eq_Ret by auto
  have "store_ok s1" using add_interfaces_ok [OF s1 assms(2,3)] by simp
  with r add_interfaces_ok [OF _ assms(2)] show ?thesis by (auto split: if_splits)
qed (use assms(1,3) in \<open>auto simp: ten_schema_store_set_interface_schema_definition_def\<close>)

text \<open>C37: A store that is set from a manifest whose objects have distinct keys holds only well-formed
  schemas of objects for properties, messages, commands and results, and so does one that takes in
  interfaces, whether the operations succeed or report an error.\<close>

theorem schema_store_well_typed:
  assumes "ten_schema_store_set_schema_definition ten_schema_store_init def = Ret (Inr store)" and "keys_distinct def"
    and "ten_schema_store_set_interface_schema_definition resolve store def b = Ret (e, store')" and "resolver_ok resolve"
  shows "store_ok store \<and> store_ok store'"
proof -
  have "store_ok ten_schema_store_init"
    by (simp add: store_ok_def ten_schema_store_init_def object_schema_def cmds_ok_def msgs_ok_def)
  with set_definition_ok [OF assms(1,2)] set_interface_definition_ok [OF assms(3,4)] show ?thesis by simp
qed

definition example_api :: ten_value where
  "example_api =
     (let props = VObject [(''n'', VObject [(''type'', VString ''uint8'')])]
      in VObject [(TEN_STR_CMD_IN, VArray [VObject [(TEN_STR_NAME, VString ''c''), (TEN_STR_PROPERTY, props),
              (''required'', VArray [VString ''n'']), (TEN_STR_RESULT, VObject [(TEN_STR_PROPERTY, props)])]]),
           (TEN_STR_DATA_OUT, VArray [VObject [(TEN_STR_PROPERTY, props)]]),
           (TEN_STR_INTERFACE_IN, VArray [VObject [(TEN_STR_NAME, VString ''i'')]])])"

definition example_schema :: ten_schema where
  "example_schema = Schema [KType TEN_TYPE_OBJECT, KProperties [(''n'', Schema [KType TEN_TYPE_UINT8])]]"

definition example_required :: ten_schema where
  "example_required =
     Schema [KType TEN_TYPE_OBJECT, KProperties [(''n'', Schema [KType TEN_TYPE_UINT8])], KRequired [''n'']]"

definition example_store :: ten_schema_store where
  "example_store = ten_schema_store_init\<lparr>
     cmd_in := [\<lparr>schema_msg_name = ''c'', schema_property = Some example_required, cmd_result_schema = Some example_schema\<rparr>],
     data_out := [\<lparr>schema_msg_name = TEN_STR_MSG_NAME_TEN_EMPTY, schema_property = Some example_schema\<rparr>]\<rparr>"

definition example_resolve :: "ten_value \<Rightarrow> string option \<Rightarrow> string + ten_value" where
  "example_resolve v b = Inr (VArray [VObject [(TEN_STR_NAME, VString ''i''),
     (TEN_STR_CMD, VArray [VObject [(TEN_STR_NAME, VString ''d'')], VObject [(TEN_STR_NAME, VString ''c'')]])]])"

lemma example_api_set:
  "ten_schema_store_set_schema_definition ten_schema_store_init example_api = Ret (Inr example_store)"
  "keys_distinct example_api"
  by code_simp (simp add: example_api_def Let_def entries_distinct_def)

theorem schema_store_well_typed_witness:
  "\<exists>e store'. ten_schema_store_set_interface_schema_definition example_resolve example_store example_api None = Ret (Some e, store') \<and>
     store_ok example_store \<and> store_ok store' \<and> map schema_msg_name (cmd_in store') = [''c'', ''d'']"
proof -
  have r: "resolver_ok example_resolve" by (auto simp: resolver_ok_def example_resolve_def entries_distinct_def)
  have "ten_schema_store_set_interface_schema_definition example_resolve example_store example_api None =
    Ret (Some (generic_error ''Schema for c is duplicated.''), example_store\<lparr>cmd_in := cmd_in example_store @
      [\<lparr>schema_msg_name = ''d'', schema_property = None, cmd_result_schema = None\<rparr>],
      interface_in := [\<lparr>interface_name = ''i'', interface_cmd =
        [\<lparr>schema_msg_name = ''d'', schema_property = None, cmd_result_schema = None\<rparr>,
         \<lparr>schema_msg_name = ''c'', schema_property = None, cmd_result_schema = None\<rparr>],
        interface_data = [], interface_video_frame = [], interface_audio_frame = []\<rparr>]\<rparr>)"
    by code_simp
  from schema_store_well_typed [OF example_api_set this r] this show ?thesis by (simp add: example_store_def)
qed

section \<open>The schemas of a manifest are found\<close>

definition schema_section :: "TEN_MSG_TYPE \<Rightarrow> bool \<Rightarrow> string option" where
  "schema_section t is_msg_out = (case t of
      TEN_MSG_TYPE_CMD \<Rightarrow> Some (if is_msg_out then TEN_STR_CMD_OUT else TEN_STR_CMD_IN)
    | TEN_MSG_TYPE_DATA \<Rightarrow> Some (if is_msg_out then TEN_STR_DATA_OUT else TEN_STR_DATA_IN)
    | TEN_MSG_TYPE_VIDEO_FRAME \<Rightarrow> Some (if is_msg_out then TEN_STR_VIDEO_FRAME_OUT else TEN_STR_VIDEO_FRAME_IN)
    | TEN_MSG_TYPE_AUDIO_FRAME \<Rightarrow> Some (if is_msg_out then TEN_STR_AUDIO_FRAME_OUT else TEN_STR_AUDIO_FRAME_IN)
    | _ \<Rightarrow> None)"

text \<open>The name under which a description stands, and the one under which a message looks.\<close>

definition described_name :: "ten_value \<Rightarrow> string" where
  "described_name v = (case ten_value_object_peek_string v TEN_STR_NAME of Ret (Some n) \<Rightarrow> n | _ \<Rightarrow> TEN_STR_MSG_NAME_TEN_EMPTY)"

definition looked_up_name :: "string \<Rightarrow> string" where
  "looked_up_name n = (if n = [] then TEN_STR_MSG_NAME_TEN_EMPTY else n)"

lemma msg_schema_create_name: "ten_msg_schema_create v = Ret s \<Longrightarrow> schema_msg_name s = described_name v"
  by (auto simp: ten_msg_schema_create_def described_name_def or_else_def split: if_splits option.splits)

lemma cmd_schema_create_name:
  assumes "ten_cmd_schema_create v = Ret s"
  shows "schema_msg_name s = described_name v"
proof -
  from assms obtain hdr r where "ten_msg_schema_create v = Ret hdr" "s = ten_msg_schema.extend hdr \<lparr>cmd_result_schema = r\<rparr>"
    by (auto simp: ten_cmd_schema_create_def split: if_splits option.splits)
  then show ?thesis using msg_schema_create_name [of v hdr] by (simp add: ten_msg_schema.defs)
qed

lemma find_distinct: "distinct (map f xs) \<Longrightarrow> x \<in> set xs \<Longrightarrow> List.find (\<lambda>y. f y = f x) xs = Some x"
  by (induction xs) auto

lemma find_schema_distinct:
  "distinct (map schema_msg_name table) \<Longrightarrow> s \<in> set table \<Longrightarrow> find_schema (schema_msg_name s) table = Some s"
  using find_distinct [of schema_msg_name "rev table" s] by (simp add: find_schema_def rev_map [symmetric])

lemma find_schema_None [simp]: "find_schema n table = None \<longleftrightarrow> n \<notin> schema_msg_name ` set table"
  by (auto simp: find_schema_def find_None_iff)

lemma find_created:
  assumes "run_map create vs = Ret ys" and "\<And>v s. create v = Ret s \<Longrightarrow> schema_msg_name s = described_name v"
    and "distinct (map described_name vs)"
  shows "(find_schema n ys = None \<longleftrightarrow> n \<notin> described_name ` set vs) \<and>
    (\<forall>v \<in> set vs. described_name v = n \<longrightarrow> (\<exists>s. find_schema n ys = Some s \<and> create v = Ret s))"
proof -
  note all = run_map_eq_RetD [OF assms(1)]
  from all have names: "map schema_msg_name ys = map described_name vs"
    by (induction rule: list_all2_induct) (auto dest: assms(2))
  have "\<exists>s. find_schema n ys = Some s \<and> create v = Ret s" if v: "v \<in> set vs" "described_name v = n" for v
  proof -
    from v(1) obtain i where i: "i < length vs" "vs ! i = v" by (auto simp: in_set_conv_nth)
    with list_all2_nthD [OF all i(1)] list_all2_lengthD [OF all] have s: "create v = Ret (ys ! i)" "ys ! i \<in> set ys" by auto
    with find_schema_distinct [of ys "ys ! i"] assms(2) [OF s(1)] assms(3) names v(2) show ?thesis by auto
  qed
  moreover have "schema_msg_name ` set ys = described_name ` set vs" using names by (metis list.set_map)
  ultimately show ?thesis by simp
qed

lemma find_as_cmd_schemas:
  "find_schema n (as_cmd_schemas t) = map_option (\<lambda>s. ten_msg_schema.extend s \<lparr>cmd_result_schema = None\<rparr>) (find_schema n t)"
proof -
  have "List.find (\<lambda>s. schema_msg_name s = n) (map (\<lambda>s. ten_msg_schema.extend s \<lparr>cmd_result_schema = None\<rparr>) xs) =
      map_option (\<lambda>s. ten_msg_schema.extend s \<lparr>cmd_result_schema = None\<rparr>) (List.find (\<lambda>s. schema_msg_name s = n) xs)" for xs
    by (induction xs) (auto simp: ten_msg_schema.defs)
  then show ?thesis by (simp add: find_schema_def as_cmd_schemas_def rev_map)
qed

text \<open>What a lookup has to find.\<close>

definition right_schema :: "TEN_MSG_TYPE \<Rightarrow> ten_value list \<Rightarrow> string \<Rightarrow> ten_cmd_schema option \<Rightarrow> bool" where
  "right_schema t vs n r \<longleftrightarrow> (r = None \<longleftrightarrow> n \<notin> described_name ` set vs) \<and>
     (\<forall>v \<in> set vs. described_name v = n \<longrightarrow> (\<exists>s. r = Some s \<and>
        (if t = TEN_MSG_TYPE_CMD then ten_cmd_schema_create v = Ret s
         else ten_msg_schema_create v = Ret (ten_msg_schema.truncate s))))"

lemma cmd_part_found:
  assumes "read_part def key ten_schemas_parse_cmd_part [] = Ret table"
    and "ten_value_object_peek def key = Ret (Some part)" and "distinct (map described_name (content_array part))"
  shows "right_schema TEN_MSG_TYPE_CMD (content_array part) n (find_schema n table)"
proof -
  have "run_map ten_cmd_schema_create (content_array part) = Ret table"
    using assms(1,2) by (auto simp: read_part_def ten_schemas_parse_cmd_part_def split: if_splits)
  from find_created [OF this cmd_schema_create_name assms(3), of n] show ?thesis by (simp add: right_schema_def)
qed

lemma msg_part_found:
  assumes "read_part def key ten_schemas_parse_msg_part [] = Ret table"
    and "ten_value_object_peek def key = Ret (Some part)" and "distinct (map described_name (content_array part))"
    and "t \<noteq> TEN_MSG_TYPE_CMD"
  shows "right_schema t (content_array part) n (find_schema n (as_cmd_schemas table))"
proof -
  have "run_map ten_msg_schema_create (content_array part) = Ret table"
    using assms(1,2) by (auto simp: read_part_def ten_schemas_parse_msg_part_def split: if_splits)
  from find_created [OF this msg_schema_create_name assms(3), of n] assms(4) show ?thesis
    by (fastforce simp: right_schema_def find_as_cmd_schemas ten_msg_schema.defs)
qed

text \<open>C38: After a manifest was read into an empty store, the schema of a message in a direction is the
  one that its section describes under the name of the message, or for a message without a name the
  one without a name; there is none if the section has no such description.\<close>

theorem manifest_schemas_found:
  assumes "ten_schema_store_set_schema_definition ten_schema_store_init def = Ret (Inr store)"
    and "schema_section t is_msg_out = Some key" and "ten_value_object_peek def key = Ret (Some part)"
    and "distinct (map described_name (content_array part))" and "t = TEN_MSG_TYPE_CMD \<Longrightarrow> n \<noteq> []"
  shows "\<exists>r. ten_schema_store_get_msg_schema store t n is_msg_out = Ret r \<and>
    right_schema t (content_array part) (looked_up_name n) r"
proof -
  obtain self where r: "read_parts def self = Ret store" and "self = ten_schema_store_init \<or>
      (\<exists>s. self = ten_schema_store_init\<lparr>store_property := s\<rparr>)"
    using assms(1) by (auto simp: ten_schema_store_set_schema_definition_def split: if_splits option.splits)
  then have empty: "cmd_in self = []" "cmd_out self = []" "data_in self = []" "data_out self = []"
      "video_frame_in self = []" "video_frame_out self = []" "audio_frame_in self = []" "audio_frame_out self = []"
    by (auto simp: ten_schema_store_init_def)
  note parts = read_partsD(1-8) [OF r, unfolded empty]
  note found = cmd_part_found [OF _ assms(3,4)] msg_part_found [OF _ assms(3,4)]
  obtain table where "schema_map store t is_msg_out = Some table"
    and "right_schema t (content_array part) (looked_up_name n) (find_schema (looked_up_name n) table)"
    using assms(2) parts found
    by (cases t; cases is_msg_out) (auto simp: schema_section_def schema_map_def)
  with assms(2,5) show ?thesis
    by (auto simp: ten_schema_store_get_msg_schema_def looked_up_name_def schema_section_def split: TEN_MSG_TYPE.splits)
qed

theorem manifest_schemas_found_witness:
  "ten_schema_store_get_msg_schema example_store TEN_MSG_TYPE_DATA [] True =
     Ret (Some \<lparr>schema_msg_name = TEN_STR_MSG_NAME_TEN_EMPTY, schema_property = Some example_schema, cmd_result_schema = None\<rparr>) \<and>
   (\<exists>r. ten_schema_store_get_msg_schema example_store TEN_MSG_TYPE_CMD ''c'' False = Ret r \<and> r \<noteq> None)"
proof -
  let ?part = "VArray [VObject [(TEN_STR_NAME, VString ''c''), (TEN_STR_PROPERTY, VObject [(''n'', VObject [(''type'', VString ''uint8'')])]),
      (''required'', VArray [VString ''n'']),
      (TEN_STR_RESULT, VObject [(TEN_STR_PROPERTY, VObject [(''n'', VObject [(''type'', VString ''uint8'')])])])]]"
  have "schema_section TEN_MSG_TYPE_CMD False = Some TEN_STR_CMD_IN" by (simp add: schema_section_def)
  moreover have "ten_value_object_peek example_api TEN_STR_CMD_IN = Ret (Some ?part)"
    by (simp add: example_api_def Let_def ten_value_object_peek_def walkable_numeral)
  ultimately have "\<exists>r. ten_schema_store_get_msg_schema example_store TEN_MSG_TYPE_CMD ''c'' False = Ret r \<and>
      right_schema TEN_MSG_TYPE_CMD (content_array ?part) (looked_up_name ''c'') r"
    by (rule manifest_schemas_found [OF example_api_set(1)]) simp_all
  then have "\<exists>r. ten_schema_store_get_msg_schema example_store TEN_MSG_TYPE_CMD ''c'' False = Ret r \<and> r \<noteq> None"
    by (auto simp: right_schema_def looked_up_name_def described_name_def ten_value_object_peek_string_def
        ten_value_object_peek_def ten_value_peek_raw_str_def walkable_numeral)
  moreover have "ten_schema_store_get_msg_schema example_store TEN_MSG_TYPE_DATA [] True =
     Ret (Some \<lparr>schema_msg_name = TEN_STR_MSG_NAME_TEN_EMPTY, schema_property = Some example_schema, cmd_result_schema = None\<rparr>)"
    by code_simp
  ultimately show ?thesis by blast
qed

section \<open>Checks of messages decide\<close>

text \<open>The schema that the properties of a message have to meet, if there is one; that of a result stands
  with its command, in the other direction.\<close>

definition schema_for :: "ten_schema_store \<Rightarrow> bool \<Rightarrow> message \<Rightarrow> ten_schema option" where
  "schema_for store is_msg_out m =
     (let property = (\<lambda>table. Option.bind (find_schema (looked_up_name (msg_name m)) table) schema_property)
      in case msg_type m of
           TEN_MSG_TYPE_CMD \<Rightarrow> Option.bind (find_schema (msg_name m) (if is_msg_out then cmd_out store else cmd_in store)) schema_property
         | TEN_MSG_TYPE_CMD_RESULT \<Rightarrow>
             Option.bind (find_schema (original_cmd_name m) (if is_msg_out then cmd_in store else cmd_out store)) cmd_result_schema
         | TEN_MSG_TYPE_DATA \<Rightarrow> property (if is_msg_out then data_out store else data_in store)
         | TEN_MSG_TYPE_VIDEO_FRAME \<Rightarrow> property (if is_msg_out then video_frame_out store else video_frame_in store)
         | TEN_MSG_TYPE_AUDIO_FRAME \<Rightarrow> property (if is_msg_out then audio_frame_out store else audio_frame_in store)
         | _ \<Rightarrow> None)"

definition checkable_msg :: "message \<Rightarrow> bool" where
  "checkable_msg m \<longleftrightarrow> traversable (properties m) \<and> msg_type m \<noteq> TEN_MSG_TYPE_LAST \<and>
     (msg_type m = TEN_MSG_TYPE_CMD \<longrightarrow> msg_name m \<noteq> []) \<and>
     (msg_type m = TEN_MSG_TYPE_CMD_RESULT \<longrightarrow> original_cmd_name m \<noteq> [])"

text \<open>What a check by the schema \<open>s\<close> leads to.\<close>

definition decided :: "ten_schema option \<Rightarrow> ten_value \<Rightarrow> ten_error option \<Rightarrow> ten_value \<Rightarrow> bool" where
  "decided s v e v' \<longleftrightarrow> (case s of
      None \<Rightarrow> e = None \<and> v' = v
    | Some s \<Rightarrow> (e = None \<longrightarrow> accepts s v' \<and> exact s v') \<and>
        (accepts s v \<and> exact s v \<longrightarrow> e = None \<and> v' = v) \<and>
        (\<forall>e'. e = Some e' \<longrightarrow> err_no e' = TEN_ERRNO_GENERIC)) \<and> traversable v'"

lemma checked_properties:
  assumes "object_schema s" and "traversable (properties m)"
  shows "\<exists>e v. check_properties (adjust_optional mach s) (validate_optional s) m = Ret (e, m\<lparr>properties := v\<rparr>) \<and>
    decided s (properties m) e v"
proof (cases s)
  case None
  with assms(2) show ?thesis
    by (auto simp: check_properties_def adjust_optional_def validate_optional_def decided_def intro: exI [of _ "properties m"])
next
  case (Some x)
  with assms(1) have wf: "wf_schema x" by (simp add: object_schema_def)
  from adjust_returns(1) [OF assms(2), of mach x] obtain e v where
    a: "ten_schema_adjust_value_type_with_schema_error mach x (properties m) = Ret (e, v)" and v: "traversable v" and
    g: "\<forall>e'. e = Some e' \<longrightarrow> err_no (se_err e') = TEN_ERRNO_GENERIC"
    unfolding adjust_ok_def by blast
  obtain r where r: "ten_schema_validate_value x (Some v) = Ret r" "r = Inr () \<longleftrightarrow> accepts x v"
      "\<forall>e. r = Inl e \<longrightarrow> err_no e = TEN_ERRNO_GENERIC"
    using validate_value_decides [OF wf_checkable(1) [OF wf v]] by blast
  have id: "e = None \<and> v = properties m" if "exact x (properties m)"
    using adjust_idempotent(1) [OF that, of mach] a by simp
  show ?thesis
  proof (cases e)
    case (Some e')
    with a id g v show ?thesis
      by (auto simp: check_properties_def adjust_optional_def \<open>s = Some x\<close> ten_schema_adjust_value_type_def decided_def
          ten_error_prepend_errmsg_def)
  next
    case None
    have "exact x v" using adjust_exact(1) [OF wf] a None by blast
    then have "decided s (properties m) (case r of Inl e \<Rightarrow> Some e | Inr _ \<Rightarrow> None) v"
      using r(2,3) id v by (cases r) (auto simp: decided_def \<open>s = Some x\<close>)
    with a None r(1) show ?thesis
      by (auto simp: check_properties_def adjust_optional_def validate_optional_def \<open>s = Some x\<close>
          ten_schema_adjust_value_type_def)
  qed
qed

lemma find_schemaD: "find_schema n table = Some s \<Longrightarrow> s \<in> set table"
  by (auto simp: find_schema_def find_Some_iff rev_nth)

lemma map_schema_ok:
  assumes "store_ok store" and "schema_map store t is_msg_out = Some table" and "find_schema n table = Some s"
  shows "cmd_schema_ok s"
proof -
  have "cmds_ok (as_cmd_schemas ms)" if "msgs_ok ms" for ms
    using that by (auto simp: cmds_ok_def msgs_ok_def as_cmd_schemas_def cmd_schema_ok_def msg_schema_ok_def
        object_schema_def ten_msg_schema.defs)
  with assms(1,2) have "cmds_ok table"
    by (cases t) (auto simp: schema_map_def store_ok_def split: if_splits)
  with find_schemaD [OF assms(3)] show ?thesis by (simp add: cmds_ok_def)
qed

lemma checked_optional:
  assumes "\<forall>s. r = Some s \<longrightarrow> object_schema (sel s)" and "traversable (properties m)"
  shows "\<exists>e v. (case r of None \<Rightarrow> Ret (None, m)
       | Some s \<Rightarrow> check_properties (adjust_optional mach (sel s)) (validate_optional (sel s)) m) = Ret (e, m\<lparr>properties := v\<rparr>) \<and>
    decided (Option.bind r sel) (properties m) e v"
proof (cases r)
  case None
  have "m = m\<lparr>properties := properties m\<rparr>" "decided None (properties m) None (properties m)"
    using assms(2) by (simp_all add: decided_def)
  with None show ?thesis by (intro exI [of _ None] exI [of _ "properties m"]) simp
qed (use checked_properties [OF _ assms(2)] assms(1) in simp)

lemma raw_check_eq:
  assumes "schema_map store (msg_type m) is_msg_out = Some table" and "checkable_msg m" and
    "msg_type m \<in> {TEN_MSG_TYPE_CMD, TEN_MSG_TYPE_DATA, TEN_MSG_TYPE_VIDEO_FRAME, TEN_MSG_TYPE_AUDIO_FRAME}"
  shows "ten_raw_msg_validate_schema mach store is_msg_out m =
    (case find_schema (looked_up_name (msg_name m)) table of
       None \<Rightarrow> Ret (None, m)
     | Some s \<Rightarrow> check_properties (adjust_optional mach (schema_property s)) (validate_optional (schema_property s)) m)"
proof -
  have "ten_schema_store_get_msg_schema store (msg_type m) (msg_name m) is_msg_out =
      Ret (find_schema (looked_up_name (msg_name m)) table)"
    using assms by (auto simp: ten_schema_store_get_msg_schema_def checkable_msg_def looked_up_name_def)
  moreover have "\<exists>b. ten_raw_msg_is_cmd_and_result m = Ret b \<and> \<not> (b \<and> msg_name m = [])"
    using assms(2,3) by (auto simp: ten_raw_msg_is_cmd_and_result_def checkable_msg_def)
  then obtain b where "ten_raw_msg_is_cmd_and_result m = Ret b" "\<not> (b \<and> msg_name m = [])" by blast
  ultimately show ?thesis
    unfolding ten_raw_msg_validate_schema_def ten_msg_schema_adjust_properties_def ten_msg_schema_validate_properties_def
    by auto
qed

lemma result_check_eq:
  assumes "msg_type m = TEN_MSG_TYPE_CMD_RESULT" and "checkable_msg m"
  shows "ten_raw_cmd_result_validate_schema mach store is_msg_out m =
    (case find_schema (original_cmd_name m) (if is_msg_out then cmd_in store else cmd_out store) of
       None \<Rightarrow> Ret (None, m)
     | Some s \<Rightarrow> check_properties (adjust_optional mach (cmd_result_schema s)) (validate_optional (cmd_result_schema s)) m)"
  using assms
  by (simp add: ten_raw_cmd_result_validate_schema_def checkable_msg_def ten_schema_store_get_msg_schema_def
      schema_map_def ten_cmd_schema_adjust_cmd_result_properties_def ten_cmd_schema_validate_cmd_result_properties_def)

lemma schema_for_map:
  assumes "schema_map store (msg_type m) is_msg_out = Some table" and "checkable_msg m" and
    "msg_type m \<in> {TEN_MSG_TYPE_CMD, TEN_MSG_TYPE_DATA, TEN_MSG_TYPE_VIDEO_FRAME, TEN_MSG_TYPE_AUDIO_FRAME}"
  shows "schema_for store is_msg_out m = Option.bind (find_schema (looked_up_name (msg_name m)) table) schema_property"
proof -
  have "Option.bind (map_option (\<lambda>s. ten_msg_schema.extend s \<lparr>cmd_result_schema = None\<rparr>) r) schema_property =
      Option.bind r schema_property" for r
    by (cases r) (simp_all add: ten_msg_schema.defs)
  with assms show ?thesis
    by (auto simp: schema_for_def schema_map_def checkable_msg_def looked_up_name_def find_as_cmd_schemas Let_def)
qed


definition example_result_msg :: message where
  "example_result_msg = ten_raw_cmd_result_create_empty
     \<lparr>original_cmd_name := ''c'', properties := VObject [(''n'', VInt64 200)]\<rparr>"

lemma example_store_ok: "store_ok example_store"
  by (rule set_definition_ok [OF example_api_set])
     (simp add: store_ok_def ten_schema_store_init_def object_schema_def cmds_ok_def msgs_ok_def)

lemma example_result_fields [simp]:
  "msg_type example_result_msg = TEN_MSG_TYPE_CMD_RESULT" "properties example_result_msg = VObject [(''n'', VInt64 200)]"
  "original_cmd_name example_result_msg = ''c''"
  by (simp_all add: example_result_msg_def ten_raw_cmd_result_create_empty_def ten_raw_cmd_base_init_def
      ten_raw_msg_init_def ten_cmd_base.defs ten_msg.defs)


section \<open>Errors of interfaces\<close>

text \<open>The interface adds schemas of new names only.\<close>

definition new_names :: "'a ten_msg_schema_scheme list \<Rightarrow> 'a ten_msg_schema_scheme list \<Rightarrow> bool" where
  "new_names ss table \<longleftrightarrow> distinct (map schema_msg_name ss) \<and> schema_msg_name ` set ss \<inter> schema_msg_name ` set table = {}"

lemma new_names_Cons: "new_names (s # ss) table \<longleftrightarrow> schema_msg_name s \<notin> schema_msg_name ` set table \<and> new_names ss (table @ [s])"
  by (auto simp: new_names_def)

lemma merge_new: "new_names ss table \<Longrightarrow> ten_interface_schema_merge_into_msg_schema ss table = (None, table @ ss)"
  by (induction ss arbitrary: table) (simp_all add: new_names_Cons split: option.split)

lemma merge_clash:
  assumes "new_names pre table" and "schema_msg_name s \<in> schema_msg_name ` set (table @ pre)"
  shows "ten_interface_schema_merge_into_msg_schema (pre @ s # post) table =
    (Some (generic_error (''Schema for '' @ schema_msg_name s @ '' is duplicated.'')), table @ pre)"
  using assms
proof (induction pre arbitrary: table)
  case Nil
  then obtain x where "find_schema (schema_msg_name s) table = Some x" by (metis append_Nil2 find_schema_None option.exhaust)
  then show ?case by simp
next
  case (Cons x pre)
  then have "find_schema (schema_msg_name x) table = None" by (auto simp: new_names_Cons)
  moreover from Cons.prems Cons.IH [of "table @ [x]"] have "ten_interface_schema_merge_into_msg_schema (pre @ s # post) (table @ [x]) =
      (Some (generic_error (''Schema for '' @ schema_msg_name s @ '' is duplicated.'')), (table @ [x]) @ pre)"
    by (simp add: new_names_Cons)
  ultimately show ?case by (simp del: find_schema_None)
qed

lemma first_clash:
  "new_names ss table \<or> (\<exists>pre s post. ss = pre @ s # post \<and> new_names pre table \<and>
     schema_msg_name s \<in> schema_msg_name ` set (table @ pre))"
proof (induction ss arbitrary: table)
  case (Cons s ss)
  show ?case
  proof (cases "schema_msg_name s \<in> schema_msg_name ` set table")
    case True
    then have "s # ss = [] @ s # ss \<and> new_names [] table \<and> schema_msg_name s \<in> schema_msg_name ` set (table @ [])"
      by (simp add: new_names_def)
    then show ?thesis by blast
  next
    case False
    from Cons.IH [of "table @ [s]"] consider (new) "new_names ss (table @ [s])"
      | (clash) pre x post where "ss = pre @ x # post" "new_names pre (table @ [s])"
          "schema_msg_name x \<in> schema_msg_name ` set ((table @ [s]) @ pre)" by blast
    then show ?thesis
    proof cases
      case clash
      with False have "s # ss = (s # pre) @ x # post \<and> new_names (s # pre) table \<and>
          schema_msg_name x \<in> schema_msg_name ` set (table @ s # pre)" by (auto simp: new_names_Cons)
      then show ?thesis by blast
    qed (use False in \<open>simp add: new_names_Cons\<close>)
  qed
qed (simp add: new_names_def)

text \<open>C39: The schemas of an interface are all added behind those of the table, or the first of them whose
  name is there already is reported by that name, and exactly those before it are added.\<close>

theorem interface_names_clash:
  "(new_names ss table \<and> ten_interface_schema_merge_into_msg_schema ss table = (None, table @ ss)) \<or>
   (\<exists>pre s post. ss = pre @ s # post \<and> new_names pre table \<and> schema_msg_name s \<in> schema_msg_name ` set (table @ pre) \<and>
      ten_interface_schema_merge_into_msg_schema ss table =
        (Some (generic_error (''Schema for '' @ schema_msg_name s @ '' is duplicated.'')), table @ pre))"
  using first_clash [of ss table] merge_new merge_clash by blast

text \<open>No interface with a section for data, video frames or audio frames can be read: the description
  is refused by a failed assertion or undefined behaviour unless the section is an empty object, which
  no manifest has in place of an array.\<close>

theorem interface_messages_unreadable:
  assumes "ten_interface_schema_create v = Ret i"
    and "key \<in> {TEN_STR_DATA, TEN_STR_VIDEO_FRAME, TEN_STR_AUDIO_FRAME}"
  shows "ten_value_object_peek v key \<in> {Ret None, Ret (Some (VObject []))} \<and>
    interface_data i = [] \<and> interface_video_frame i = [] \<and> interface_audio_frame i = []"
proof -
  have "ten_value_object_peek v k \<in> {Ret None, Ret (Some (VObject []))}"
    if "optional_part v k ten_interface_schema_parse_msg_part = Ret ms" for k ms
  proof (cases "ten_value_object_peek v k")
    case (Ret part)
    with that parse_msg_part_empty show ?thesis by (cases part) (auto simp: optional_part_def)
  qed (use that in \<open>simp_all add: optional_part_def\<close>)
  with interface_schema_createD(2-4) [OF assms(1)] assms(2) interface_schema_create_msgs [OF assms(1)]
  show ?thesis by blast
qed

theorem interface_messages_unreadable_witness:
  "\<exists>i. ten_interface_schema_create (VObject [(TEN_STR_NAME, VString ''i'')]) = Ret i \<and> interface_data i = [] \<and>
     ten_interface_schema_create (VObject [(TEN_STR_NAME, VString ''i''), (TEN_STR_DATA, VArray [])]) = Abort"
proof -
  let ?i = "\<lparr>interface_name = ''i'', interface_cmd = [], interface_data = [], interface_video_frame = [], interface_audio_frame = []\<rparr>"
  have "ten_interface_schema_create (VObject [(TEN_STR_NAME, VString ''i'')]) = Ret ?i" by code_simp
  moreover from interface_messages_unreadable [OF this, of TEN_STR_DATA] have "interface_data ?i = []" by simp
  moreover have "ten_interface_schema_create (VObject [(TEN_STR_NAME, VString ''i''), (TEN_STR_DATA, VArray [])]) = Abort" by code_simp
  ultimately show ?thesis by blast
qed

end
