(* ===== verification/Extension_Out.thy ===== *)
theory Extension_Out
  imports Path_Group Graph_Info Schema_Store
begin

text \<open>
  How messages leave an extension (\<open>core/src/ten_runtime/extension/extension.c\<close>,
  \<open>ten_env/internal/return.c\<close>): the source is set, the destinations are completed, the schema is
  checked, the destinations are looked up - in the message, in the graph, or for a result in the IN
  path of its command - and every destination gets a copy of its own; the OUT paths of a command are
  there before the first copy is dispatched.

  The extensions of an extension group share a thread, and a message to another extension of the
  thread is handled before the call that sent it returns.  So every operation works on the state of
  the thread, and what it calls back - the code of the extensions, and the dispatching of a message -
  is found in an environment.
\<close>

section \<open>State\<close>

datatype TEN_EXTENSION_STATE =
    TEN_EXTENSION_STATE_INIT
  | TEN_EXTENSION_STATE_ON_CONFIGURE_DONE
  | TEN_EXTENSION_STATE_ON_INIT_DONE
  | TEN_EXTENSION_STATE_ON_START
  | TEN_EXTENSION_STATE_ON_START_DONE
  | TEN_EXTENSION_STATE_ON_STOP_DONE
  | TEN_EXTENSION_STATE_ON_DEINIT
  | TEN_EXTENSION_STATE_ON_DEINIT_DONE

text \<open>The enumeration is ordered by its numbers.\<close>

fun state_number :: "TEN_EXTENSION_STATE \<Rightarrow> nat" where
  "state_number TEN_EXTENSION_STATE_INIT = 0"
| "state_number TEN_EXTENSION_STATE_ON_CONFIGURE_DONE = 1"
| "state_number TEN_EXTENSION_STATE_ON_INIT_DONE = 2"
| "state_number TEN_EXTENSION_STATE_ON_START = 3"
| "state_number TEN_EXTENSION_STATE_ON_START_DONE = 4"
| "state_number TEN_EXTENSION_STATE_ON_STOP_DONE = 5"
| "state_number TEN_EXTENSION_STATE_ON_DEINIT = 6"
| "state_number TEN_EXTENSION_STATE_ON_DEINIT_DONE = 7"

lemma state_number_inject: "state_number s = state_number t \<Longrightarrow> s = t"
  by (cases s; cases t) simp_all

instantiation TEN_EXTENSION_STATE :: linorder
begin

definition less_eq_TEN_EXTENSION_STATE :: "TEN_EXTENSION_STATE \<Rightarrow> TEN_EXTENSION_STATE \<Rightarrow> bool" where
  "less_eq_TEN_EXTENSION_STATE s t \<longleftrightarrow> state_number s \<le> state_number t"

definition less_TEN_EXTENSION_STATE :: "TEN_EXTENSION_STATE \<Rightarrow> TEN_EXTENSION_STATE \<Rightarrow> bool" where
  "less_TEN_EXTENSION_STATE s t \<longleftrightarrow> state_number s < state_number t"

instance
  by standard (auto simp: less_eq_TEN_EXTENSION_STATE_def less_TEN_EXTENSION_STATE_def intro: state_number_inject)

end

lemmas state_order = less_eq_TEN_EXTENSION_STATE_def less_TEN_EXTENSION_STATE_def

text \<open>What an extension keeps of the handler that a caller of \<open>send_cmd\<close> passed.\<close>

record send_cmd_ctx =
  ctx_result_handler :: nat
  ctx_result_handler_user_data :: "nat option"

text \<open>\<open>extension_info\<close> is the position of the extension in the description of the graph; the addresses
  of paths, groups, messages and contexts are all drawn from the path table.  Timers and proxies are
  only counted.\<close>

record ten_extension =
  instance_name :: string
  extension_state :: TEN_EXTENSION_STATE
  extension_info :: "nat option"
  schema_store :: ten_schema_store
  path_table :: ten_path_table
  pending_msgs :: "nat list"
  not_connected_counts :: "(string \<times> 64 word) list"
  send_cmd_ctx_at :: "nat \<Rightarrow> send_cmd_ctx option"
  path_timers :: nat
  ten_proxies :: nat

text \<open>The thread of an extension group, with the part of its engine and of the description of the graph
  that it reads, and the queues of the engine and of the app that it fills.  \<open>user_state\<close> is whatever
  the code of the extensions keeps.\<close>

datatype TEN_EXTENSION_THREAD_STATE =
    TEN_EXTENSION_THREAD_STATE_INIT
  | TEN_EXTENSION_THREAD_STATE_CREATING_EXTENSIONS
  | TEN_EXTENSION_THREAD_STATE_NORMAL
  | TEN_EXTENSION_THREAD_STATE_PREPARE_TO_CLOSE
  | TEN_EXTENSION_THREAD_STATE_CLOSED

record 'u extension_thread =
  thread_state :: TEN_EXTENSION_THREAD_STATE
  is_close_triggered :: bool
  extensions_cnt_of_deleted :: nat
  thread_engine :: ten_engine
  group_name :: string
  extensions_info :: "ten_extension_info list"
  extensions :: "nat list"
  extension_store :: "(string \<times> nat) list"
  extension_at :: "nat \<Rightarrow> ten_extension option"
  thread_pending_msgs :: "message list"
  engine_msgs :: "message list"
  app_msgs :: "message list"
  ids_drawn :: nat
  clock_reads :: nat
  user_state :: 'u

section \<open>Steps\<close>

text \<open>An operation with a result that works on the state of the thread.\<close>

type_synonym ('a, 'u) step = "('a, 'u extension_thread) stateful"

definition on_extension :: "nat \<Rightarrow> (ten_extension \<Rightarrow> ('a \<times> ten_extension) run) \<Rightarrow> ('a, 'u) step" where
  "on_extension self f w =
     run_bind (load (extension_at w) self) (\<lambda>e.
       map_run (\<lambda>(x, e). (x, w\<lparr>extension_at := (extension_at w)(self \<mapsto> e)\<rparr>)) (f e))"

definition of_extension :: "nat \<Rightarrow> (ten_extension \<Rightarrow> 'a) \<Rightarrow> ('a, 'u) step" where
  "of_extension self f w = run_bind (load (extension_at w) self) (\<lambda>e. Ret (f e, w))"

definition on_paths :: "nat \<Rightarrow> (ten_path_table \<Rightarrow> ('a \<times> ten_path_table) run) \<Rightarrow> ('a, 'u) step" where
  "on_paths self f = on_extension self (\<lambda>e. map_run (\<lambda>(x, t). (x, e\<lparr>path_table := t\<rparr>)) (f (path_table e)))"

definition with_msg :: "nat \<Rightarrow> nat \<Rightarrow> (message \<Rightarrow> ('a \<times> message) run) \<Rightarrow> ('a, 'u) step" where
  "with_msg self r f =
     on_paths self (\<lambda>t. run_bind (load (msg_at t) r) (\<lambda>m. map_run (\<lambda>(x, m). (x, put_msg r m t)) (f m)))"

definition read_msg :: "nat \<Rightarrow> nat \<Rightarrow> (message, 'u) step" where
  "read_msg self r w =
     run_bind (load (extension_at w) self) (\<lambda>e. map_run (\<lambda>m. (m, w)) (load (msg_at (path_table e)) r))"

definition new_msg :: "nat \<Rightarrow> message \<Rightarrow> (nat, 'u) step" where
  "new_msg self m = on_paths self (\<lambda>t. Ret (alloc_msg m t))"

section \<open>Environment\<close>

datatype callback = OnCmd | OnData | OnVideoFrame | OnAudioFrame | OnInit | OnStart | OnStop | OnDeinit

text \<open>What the code of an extension is called for; \<open>OnResult\<close> is the call of a handler, with a result or
  with none.\<close>

datatype event =
    OnEvent callback "nat option"
  | OnResult nat "nat option" "nat option"

text \<open>The ids and times that are drawn, the handlers of the kinds of messages that are not modelled, the
  compiler, the build, the callbacks each extension has, and the two calls that come back.\<close>

record 'u environment =
  id_at :: "nat \<Rightarrow> string"
  time_at :: "nat \<Rightarrow> int"
  msg_handlers_of :: msg_handlers
  compiled_on :: machine
  debug_build :: bool
  has_callback :: "nat \<Rightarrow> callback \<Rightarrow> bool"
  invoke :: "nat \<Rightarrow> event \<Rightarrow> (unit, 'u) step"
  dispatch :: "message \<Rightarrow> (unit, 'u) step"

definition draw_id :: "'u environment \<Rightarrow> (string, 'u) step" where
  "draw_id env w = Ret (id_at env (ids_drawn w), w\<lparr>ids_drawn := ids_drawn w + 1\<rparr>)"

definition read_clock :: "'u environment \<Rightarrow> (int, 'u) step" where
  "read_clock env w = Ret (time_at env (clock_reads w), w\<lparr>clock_reads := clock_reads w + 1\<rparr>)"

section \<open>Destinations\<close>

definition need_to_clone_msg_when_sending :: "nat \<Rightarrow> bool" where
  "need_to_clone_msg_when_sending dest_index \<longleftrightarrow> dest_index > 0"

text \<open>The loops over the destinations: the message itself goes to the first one.  A type without a clone
  function gives NULL, and the next use of it asserts.\<close>

definition send_copy :: "'u environment \<Rightarrow> nat \<Rightarrow> nat \<Rightarrow> nat \<Rightarrow> ten_loc run \<Rightarrow> (nat, 'u) step" where
  "send_copy env self r i dest =
     and_with (lift dest) (\<lambda>dest.
     and_with
       (if need_to_clone_msg_when_sending i
        then and_with (draw_id env) (\<lambda>uuid.
             and_with (read_msg self r) (\<lambda>m.
             and_with (lift (ten_msg_clone (clone_other (msg_handlers_of env)) uuid m [])) (\<lambda>c.
               case c of None \<Rightarrow> lift Abort | Some c \<Rightarrow> new_msg self c)))
        else ok r) (\<lambda>curr.
     and_with (with_msg self curr (\<lambda>m. map_run (Pair ()) (ten_raw_msg_clear_and_set_dest_to_loc m dest))) (\<lambda>_.
       ok curr)))"

fun send_copies :: "'u environment \<Rightarrow> nat \<Rightarrow> nat \<Rightarrow> nat \<Rightarrow> ten_loc run list \<Rightarrow> (nat list, 'u) step" where
  "send_copies env self r i [] = ok []"
| "send_copies env self r i (d # ds) =
     and_with (send_copy env self r i d) (\<lambda>curr.
     and_with (send_copies env self r (i + 1) ds) (\<lambda>rs. ok (curr # rs)))"

definition ten_extension_determine_out_msg_dest_from_msg ::
    "'u environment \<Rightarrow> nat \<Rightarrow> nat \<Rightarrow> (nat list, 'u) step" where
  "ten_extension_determine_out_msg_dest_from_msg env self r =
     and_with (with_msg self r (\<lambda>m. if dest_loc m = [] then Abort else Ret (dest_loc m, m\<lparr>dest_loc := []\<rparr>))) (\<lambda>dests.
       send_copies env self r 0 (map (\<lambda>l. if ten_loc_check_integrity l then Ret l else Abort) dests))"

definition ten_extension_get_msg_dests_from_graph_internal ::
    "ten_msg_dest_info list \<Rightarrow> 'a ten_msg_scheme \<Rightarrow> ten_msg_dest_info option" where
  "ten_extension_get_msg_dests_from_graph_internal dests msg =
     List.find (\<lambda>d. ten_msg_dest_info_qualified d (msg_name msg)) dests"

text \<open>An extension that no description of the graph belongs to has no destinations to look at.\<close>

definition ten_extension_get_msg_dests_from_graph ::
    "ten_extension_info list \<Rightarrow> nat option \<Rightarrow> 'a ten_msg_scheme \<Rightarrow> ten_msg_dest_info option run" where
  "ten_extension_get_msg_dests_from_graph infos info msg =
     run_bind (ten_raw_msg_is_cmd_and_result msg) (\<lambda>is_cmd.
     run_bind (case info of None \<Rightarrow> Undef | Some i \<Rightarrow> deref infos i) (\<lambda>info.
       if is_cmd
       then Ret (ten_extension_get_msg_dests_from_graph_internal (dest_cmd (msg_dest_info info)) msg)
       else (case msg_type msg of
           TEN_MSG_TYPE_DATA \<Rightarrow>
             Ret (ten_extension_get_msg_dests_from_graph_internal (dest_data (msg_dest_info info)) msg)
         | TEN_MSG_TYPE_VIDEO_FRAME \<Rightarrow>
             Ret (ten_extension_get_msg_dests_from_graph_internal (dest_video_frame (msg_dest_info info)) msg)
         | TEN_MSG_TYPE_AUDIO_FRAME \<Rightarrow>
             Ret (ten_extension_get_msg_dests_from_graph_internal (dest_audio_frame (msg_dest_info info)) msg)
         | _ \<Rightarrow> Abort)))"

definition TEN_ERRNO_MSG_NOT_CONNECTED :: int where "TEN_ERRNO_MSG_NOT_CONNECTED = 7"

definition not_connected_error :: "'a ten_msg_scheme \<Rightarrow> ten_error run" where
  "not_connected_error msg =
     map_run (\<lambda>type. ten_error_set ten_error_init TEN_ERRNO_MSG_NOT_CONNECTED
         (''Failed to find destination of a '' @ [CHR 0x27] @ type @ [CHR 0x27] @ '' message '' @
          [CHR 0x27] @ msg_name msg @ [CHR 0x27] @ '' from graph.''))
       (required_string (ten_msg_type_to_string (msg_type msg)))"

definition ten_extension_determine_out_msg_dest_from_graph ::
    "'u environment \<Rightarrow> nat \<Rightarrow> nat \<Rightarrow> (ten_error + nat list \<times> TEN_RESULT_RETURN_POLICY, 'u) step" where
  "ten_extension_determine_out_msg_dest_from_graph env self r =
     and_with (read_msg self r) (\<lambda>m.
     and_with (of_extension self extension_info) (\<lambda>info.
     and_with (reading extensions_info) (\<lambda>infos.
       if dest_loc m \<noteq> [] then lift Abort
       else and_with (lift (ten_extension_get_msg_dests_from_graph infos info m)) (\<lambda>found.
         case found of
           Some d \<Rightarrow>
             if dest_infos d \<noteq> []
             then and_with (send_copies env self r 0 (map (\<lambda>i. map_run info_loc (deref infos i)) (dest_infos d)))
                    (\<lambda>rs. ok (Inr (rs, dest_policy d)))
             else and_with (lift (not_connected_error m)) (\<lambda>e. ok (Inl e))
         | None \<Rightarrow> and_with (lift (not_connected_error m)) (\<lambda>e. ok (Inl e))))))"

datatype determined =
    DETERMINE_OUT_MSGS_SUCCESS "nat list" TEN_RESULT_RETURN_POLICY
  | DETERMINE_OUT_MSGS_NOT_FOUND_IN_GRAPH ten_error
  | DETERMINE_OUT_MSGS_DROPPING
  | DETERMINE_OUT_MSGS_CACHING_IN_PATH_IN_GROUP

text \<open>The policy is the one the caller starts with unless the graph gives another.\<close>

definition ten_extension_determine_out_msgs ::
    "'u environment \<Rightarrow> nat \<Rightarrow> nat \<Rightarrow> nat option \<Rightarrow> (determined, 'u) step" where
  "ten_extension_determine_out_msgs env self r in_path =
     and_with (read_msg self r) (\<lambda>m.
       if ten_raw_msg_get_dest_cnt m > 0
       then and_with (ten_extension_determine_out_msg_dest_from_msg env self r) (\<lambda>rs.
              ok (DETERMINE_OUT_MSGS_SUCCESS rs TEN_RESULT_RETURN_POLICY_INVALID))
       else and_with (lift (ten_raw_msg_is_cmd_and_result m)) (\<lambda>is_cmd.
         if is_cmd \<and> is_result m
         then (case in_path of
             None \<Rightarrow> ok DETERMINE_OUT_MSGS_DROPPING
           | Some a \<Rightarrow>
               and_with (lift (ten_raw_cmd_result_is_final m)) (\<lambda>final.
               and_with (on_paths self (\<lambda>t. ten_path_table_determine_actual_cmd_result t TEN_PATH_IN a final)) (\<lambda>res.
                 case res of
                   None \<Rightarrow> ok DETERMINE_OUT_MSGS_CACHING_IN_PATH_IN_GROUP
                 | Some res \<Rightarrow>
                     and_with (ten_extension_determine_out_msg_dest_from_msg env self res) (\<lambda>rs.
                       ok (DETERMINE_OUT_MSGS_SUCCESS rs TEN_RESULT_RETURN_POLICY_INVALID)))))
         else and_with (ten_extension_determine_out_msg_dest_from_graph env self r) (\<lambda>found.
                ok (case found of
                      Inl e \<Rightarrow> DETERMINE_OUT_MSGS_NOT_FOUND_IN_GRAPH e
                    | Inr (rs, policy) \<Rightarrow> DETERMINE_OUT_MSGS_SUCCESS rs policy))))"

section \<open>Messages leave\<close>

definition ten_msg_set_src_to_extension :: "nat \<Rightarrow> nat \<Rightarrow> (unit, 'u) step" where
  "ten_msg_set_src_to_extension self r =
     and_with (reading thread_engine) (\<lambda>engine.
     and_with (reading group_name) (\<lambda>grp.
     and_with (of_extension self instance_name) (\<lambda>name.
       with_msg self r (\<lambda>m. map_run (Pair ())
         (ten_raw_msg_set_src m (Some (engine_app_uri engine)) (Some (engine_graph_id engine)) (Some grp) (Some name))))))"

text \<open>The first part of \<open>ten_extension_validate_msg_schema\<close>, and all of it for a message that goes out.\<close>

definition check_msg_schema :: "'u environment \<Rightarrow> nat \<Rightarrow> bool \<Rightarrow> nat \<Rightarrow> (ten_error option, 'u) step" where
  "check_msg_schema env self is_msg_out r =
     and_with (of_extension self schema_store) (\<lambda>store.
       with_msg self r (ten_msg_validate_schema (compiled_on env) store is_msg_out))"

text \<open>The OUT paths of a command, one for each destination, and their group.\<close>

fun add_out_paths :: "(nat \<Rightarrow> int) \<Rightarrow> nat \<Rightarrow> nat list \<Rightarrow> ten_path_table \<Rightarrow> (nat list \<times> ten_path_table) run" where
  "add_out_paths clock n [] t = Ret ([], t)"
| "add_out_paths clock n (r # rs) t =
     run_bind (load (msg_at t) r) (\<lambda>m.
     run_bind (ten_path_table_add_out_path (clock n) t m) (\<lambda>(a, m, t).
       map_run (\<lambda>(as, t). (a # as, t)) (add_out_paths clock (n + 1) rs (put_msg r m t))))"

definition register_out_paths ::
    "(nat \<Rightarrow> int) \<Rightarrow> nat \<Rightarrow> TEN_RESULT_RETURN_POLICY \<Rightarrow> nat list \<Rightarrow> ten_path_table \<Rightarrow> (unit \<times> ten_path_table) run" where
  "register_out_paths clock n policy rs t =
     run_bind (add_out_paths clock n rs t) (\<lambda>(as, t).
       map_run (Pair ()) (if length as > 1 then ten_paths_create_group as policy t else Ret t))"

definition ten_extension_dispatch_msg :: "'u environment \<Rightarrow> nat \<Rightarrow> nat \<Rightarrow> (unit, 'u) step" where
  "ten_extension_dispatch_msg env self r = and_with (read_msg self r) (dispatch env)"

text \<open>What follows when the destinations of a message are known.\<close>

definition dispatch_all ::
    "'u environment \<Rightarrow> nat \<Rightarrow> bool \<Rightarrow> TEN_RESULT_RETURN_POLICY \<Rightarrow> nat list \<Rightarrow> (unit, 'u) step" where
  "dispatch_all env self has_paths policy rs =
     and_with
       (if has_paths
        then and_with (reading clock_reads) (\<lambda>n.
             and_with (\<lambda>w. Ret ((), w\<lparr>clock_reads := n + length rs\<rparr>)) (\<lambda>_.
               on_paths self (register_out_paths (time_at env) n policy rs)))
        else ok ()) (\<lambda>_.
       each (ten_extension_dispatch_msg env self) rs)"

definition send_checked ::
    "'u environment \<Rightarrow> nat \<Rightarrow> nat \<Rightarrow> bool \<Rightarrow> nat option \<Rightarrow> (ten_error option, 'u) step" where
  "send_checked env self r has_paths in_path =
     and_with (check_msg_schema env self True r) (\<lambda>err.
       case err of
         Some e \<Rightarrow> ok (Some e)
       | None \<Rightarrow>
           and_with (ten_extension_determine_out_msgs env self r in_path) (\<lambda>d.
             case d of
               DETERMINE_OUT_MSGS_NOT_FOUND_IN_GRAPH e \<Rightarrow> ok (Some e)
             | DETERMINE_OUT_MSGS_CACHING_IN_PATH_IN_GROUP \<Rightarrow> ok None
             | DETERMINE_OUT_MSGS_DROPPING \<Rightarrow> ok None
             | DETERMINE_OUT_MSGS_SUCCESS rs policy \<Rightarrow>
                 and_with (dispatch_all env self has_paths policy rs) (\<lambda>_. ok None)))"

text \<open>\<open>None\<close> is success.  The id is drawn for the conversion of a result.\<close>

definition ten_extension_handle_out_msg :: "'u environment \<Rightarrow> nat \<Rightarrow> nat \<Rightarrow> (ten_error option, 'u) step" where
  "ten_extension_handle_out_msg env self r =
     and_with (ten_msg_set_src_to_extension self r) (\<lambda>_.
     and_with (read_msg self r) (\<lambda>m.
     and_with (lift (ten_raw_msg_is_cmd_and_result m)) (\<lambda>msg_is_cmd.
     and_with (reading thread_engine) (\<lambda>engine.
     and_with (with_msg self r (\<lambda>m. map_run (Pair ())
         (ten_msg_correct_dest (if is_result m then ten_raw_msg_clear_dest m else m) engine))) (\<lambda>_.
       if is_result m
       then and_with (draw_id env) (\<lambda>uuid.
            and_with (on_paths self (\<lambda>t. ten_path_table_set_result (msg_handlers_of env) uuid t TEN_PATH_IN r)) (\<lambda>in_path.
              case in_path of
                None \<Rightarrow> ok None
              | Some a \<Rightarrow>
                  and_with (on_paths self (\<lambda>t. map_run (\<lambda>p. (cmd_name p, t)) (load (path_at t) a))) (\<lambda>name.
                  and_with (with_msg self r (\<lambda>m. map_run (Pair ()) (ten_raw_cmd_result_set_original_cmd_name m name))) (\<lambda>_.
                    send_checked env self r False (Some a)))))
       else send_checked env self r msg_is_cmd None)))))"

section \<open>Results are returned\<close>

text \<open>The error that an error handler is called with is always NULL.\<close>

definition ten_env_return_result_internal ::
    "'u environment \<Rightarrow> nat \<Rightarrow> nat \<Rightarrow> string option \<Rightarrow> string option \<Rightarrow> (nat \<times> nat option) option \<Rightarrow>
       (ten_error option, 'u) step" where
  "ten_env_return_result_internal env self r new_cmd_id new_seq_id error_handler =
     and_with (with_msg self r (\<lambda>m.
         if \<not> is_result m then Abort
         else let m = (case new_cmd_id of None \<Rightarrow> m | Some i \<Rightarrow> ten_raw_cmd_base_set_cmd_id m i);
                  m = (case new_seq_id of None \<Rightarrow> m | Some i \<Rightarrow> ten_raw_cmd_base_set_seq_id m i)
              in Ret ((), m))) (\<lambda>_.
     and_with (ten_extension_handle_out_msg env self r) (\<lambda>err.
     and_with (case (err, error_handler) of
           (None, Some (h, d)) \<Rightarrow> invoke env self (OnResult h d None)
         | _ \<Rightarrow> ok ()) (\<lambda>_.
       ok err)))"

definition ten_env_return_result_directly ::
    "'u environment \<Rightarrow> nat \<Rightarrow> nat \<Rightarrow> (nat \<times> nat option) option \<Rightarrow> (ten_error option, 'u) step" where
  "ten_env_return_result_directly env self r error_handler =
     ten_env_return_result_internal env self r None None error_handler"

definition ten_env_return_result ::
    "'u environment \<Rightarrow> nat \<Rightarrow> nat \<Rightarrow> nat \<Rightarrow> (nat \<times> nat option) option \<Rightarrow> (ten_error option, 'u) step" where
  "ten_env_return_result env self r target error_handler =
     and_with (read_msg self target) (\<lambda>m.
     and_with (lift (ten_cmd_base_check_integrity m)) (\<lambda>is_cmd.
       if \<not> is_cmd \<or> is_result m then lift Abort
       else ten_env_return_result_internal env self r (Some (cmd_id m)) (Some (seq_id m)) error_handler))"

end
