(* ===== verification/Extension_In.thy ===== *)
theory Extension_In
  imports Extension_Out
begin

text \<open>
  How an extension sends messages (\<open>core/src/ten_runtime/ten_env/internal/send.c\<close>), how messages come
  to it (\<open>extension/msg_handling.c\<close>, \<open>extension_thread/msg_interface/common.c\<close>), and how it starts and
  stops (\<open>extension/ten_env/on_xxx.c\<close>, \<open>extension/internal/close.c\<close>).
\<close>

section \<open>Messages are sent\<close>

definition TEN_MSG_NOT_CONNECTED_COUNT_RESET_THRESHOLD :: "64 word" where
  "TEN_MSG_NOT_CONNECTED_COUNT_RESET_THRESHOLD = 1000"

text \<open>Whether the failure is to be logged, and the counts.\<close>

definition ten_extension_increment_msg_not_connected_count ::
    "(string \<times> 64 word) list \<Rightarrow> string \<Rightarrow> bool \<times> (string \<times> 64 word) list" where
  "ten_extension_increment_msg_not_connected_count counts name =
     (let (count, counts) = (case find_entry name counts of
            None \<Rightarrow> (0, counts @ [(name, 0)])
          | Some count \<Rightarrow> (count + 1, update_entry name (count + 1) counts))
      in if count mod TEN_MSG_NOT_CONNECTED_COUNT_RESET_THRESHOLD = 0
         then (True, update_entry name 0 counts) else (False, counts))"

text \<open>Everything an extension sends goes through this function; \<open>None\<close> is success.\<close>

definition ten_send_msg_internal ::
    "'u environment \<Rightarrow> nat \<Rightarrow> nat \<Rightarrow> nat option \<Rightarrow> nat option \<Rightarrow> (ten_error option, 'u) step" where
  "ten_send_msg_internal env self r handler user_data =
     and_with (read_msg self r) (\<lambda>m.
     and_with (lift (ten_raw_msg_is_cmd m)) (\<lambda>msg_is_cmd.
     and_with
       (if is_result m
        then ok (Some (generic_error (''Result commands should be delivered through '' @ [CHR 0x27] @
               ''returning'' @ [CHR 0x27] @ ''.'')))
        else if ten_raw_msg_has_locked_res m
        then ok (Some (generic_error ''Locked resources are not allowed in messages sent from an extension.''))
        else and_with
          (if msg_is_cmd
           then and_with (draw_id env) (\<lambda>uuid.
                  with_msg self r (\<lambda>m. Ret ((), ten_raw_cmd_base_gen_cmd_id_if_empty uuid
                    (ten_raw_cmd_base_set_result_handler m handler user_data))))
           else ok ()) (\<lambda>_.
          ten_extension_handle_out_msg env self r)) (\<lambda>err.
     and_with (case err of
           Some e \<Rightarrow>
             if err_no e = TEN_ERRNO_MSG_NOT_CONNECTED
             then on_extension self (\<lambda>x. Ret ((), x\<lparr>not_connected_counts :=
                    snd (ten_extension_increment_msg_not_connected_count (not_connected_counts x) (msg_name m))\<rparr>))
             else ok ()
         | None \<Rightarrow>
             (case handler of
                Some h \<Rightarrow> if msg_is_cmd then ok () else invoke env self (OnResult h user_data None)
              | None \<Rightarrow> ok ())) (\<lambda>_.
       ok err))))"

text \<open>The handler that \<open>send_cmd\<close> puts before the one of its caller: a function of the library, and its
  context.\<close>

definition cmd_result_handler_for_send_cmd_fn :: nat where
  "cmd_result_handler_for_send_cmd_fn = 0"

definition ten_cmd_result_handler_for_send_cmd_ctx_create :: "nat \<Rightarrow> nat \<Rightarrow> nat option \<Rightarrow> (nat, 'u) step" where
  "ten_cmd_result_handler_for_send_cmd_ctx_create self handler user_data =
     on_extension self (\<lambda>e. let a = next_addr (path_table e) in
       Ret (a, e\<lparr>path_table := (path_table e)\<lparr>next_addr := a + 1\<rparr>,
                 send_cmd_ctx_at := (send_cmd_ctx_at e)(a \<mapsto>
                   \<lparr>ctx_result_handler = handler, ctx_result_handler_user_data = user_data\<rparr>)\<rparr>))"

definition ten_cmd_result_handler_for_send_cmd_ctx_destroy :: "nat \<Rightarrow> nat \<Rightarrow> (unit, 'u) step" where
  "ten_cmd_result_handler_for_send_cmd_ctx_destroy self ctx =
     on_extension self (\<lambda>e. Ret ((), e\<lparr>send_cmd_ctx_at := (send_cmd_ctx_at e)(ctx := None)\<rparr>))"

definition cmd_result_handler_for_send_cmd :: "'u environment \<Rightarrow> nat \<Rightarrow> nat \<Rightarrow> nat \<Rightarrow> (unit, 'u) step" where
  "cmd_result_handler_for_send_cmd env self r ctx =
     and_with (of_extension self (\<lambda>e. send_cmd_ctx_at e ctx)) (\<lambda>c.
     case c of
       None \<Rightarrow> lift Undef
     | Some c \<Rightarrow>
         and_with (read_msg self r) (\<lambda>m.
         and_with (lift (ten_raw_cmd_result_is_completed m)) (\<lambda>completed.
           if completed
           then and_with (invoke env self (OnResult (ctx_result_handler c) (ctx_result_handler_user_data c) (Some r))) (\<lambda>_.
                  ten_cmd_result_handler_for_send_cmd_ctx_destroy self ctx)
           else ok ())))"

definition ten_env_send_cmd ::
    "'u environment \<Rightarrow> nat \<Rightarrow> nat \<Rightarrow> nat option \<Rightarrow> nat option \<Rightarrow> (ten_error option, 'u) step" where
  "ten_env_send_cmd env self r handler user_data =
     (case handler of
        Some h \<Rightarrow>
          and_with (ten_cmd_result_handler_for_send_cmd_ctx_create self h user_data) (\<lambda>ctx.
          and_with (ten_send_msg_internal env self r (Some cmd_result_handler_for_send_cmd_fn) (Some ctx)) (\<lambda>err.
          and_with (if err \<noteq> None then ten_cmd_result_handler_for_send_cmd_ctx_destroy self ctx else ok ()) (\<lambda>_.
            ok err)))
      | None \<Rightarrow> ten_send_msg_internal env self r None user_data)"

definition ten_env_send_cmd_ex ::
    "'u environment \<Rightarrow> nat \<Rightarrow> nat \<Rightarrow> nat option \<Rightarrow> nat option \<Rightarrow> (ten_error option, 'u) step" where
  "ten_env_send_cmd_ex = ten_send_msg_internal"

definition ten_env_send_data ::
    "'u environment \<Rightarrow> nat \<Rightarrow> nat \<Rightarrow> nat option \<Rightarrow> nat option \<Rightarrow> (ten_error option, 'u) step" where
  "ten_env_send_data = ten_send_msg_internal"

definition ten_env_send_video_frame ::
    "'u environment \<Rightarrow> nat \<Rightarrow> nat \<Rightarrow> nat option \<Rightarrow> nat option \<Rightarrow> (ten_error option, 'u) step" where
  "ten_env_send_video_frame = ten_send_msg_internal"

definition ten_env_send_audio_frame ::
    "'u environment \<Rightarrow> nat \<Rightarrow> nat \<Rightarrow> nat option \<Rightarrow> nat option \<Rightarrow> (ten_error option, 'u) step" where
  "ten_env_send_audio_frame = ten_send_msg_internal"

section \<open>The extension is called\<close>

text \<open>An extension without a callback answers commands and passes on everything else.\<close>

definition ten_extension_on_cmd :: "'u environment \<Rightarrow> nat \<Rightarrow> nat \<Rightarrow> (unit, 'u) step" where
  "ten_extension_on_cmd env self r =
     (if has_callback env self OnCmd then invoke env self (OnEvent OnCmd (Some r))
      else and_with (read_msg self r) (\<lambda>m.
           and_with (lift (ten_raw_cmd_result_create_from_raw_cmd TEN_STATUS_CODE_OK (Some m))) (\<lambda>res.
           and_with (new_msg self res) (\<lambda>res.
           and_with (ten_env_return_result env self res r None) (\<lambda>_. ok ())))))"

definition ten_extension_on_data :: "'u environment \<Rightarrow> nat \<Rightarrow> nat \<Rightarrow> (unit, 'u) step" where
  "ten_extension_on_data env self r =
     (if has_callback env self OnData then invoke env self (OnEvent OnData (Some r))
      else and_with (ten_env_send_data env self r None None) (\<lambda>_. ok ()))"

definition ten_extension_on_video_frame :: "'u environment \<Rightarrow> nat \<Rightarrow> nat \<Rightarrow> (unit, 'u) step" where
  "ten_extension_on_video_frame env self r =
     (if has_callback env self OnVideoFrame then invoke env self (OnEvent OnVideoFrame (Some r))
      else and_with (ten_env_send_video_frame env self r None None) (\<lambda>_. ok ()))"

definition ten_extension_on_audio_frame :: "'u environment \<Rightarrow> nat \<Rightarrow> nat \<Rightarrow> (unit, 'u) step" where
  "ten_extension_on_audio_frame env self r =
     (if has_callback env self OnAudioFrame then invoke env self (OnEvent OnAudioFrame (Some r))
      else and_with (ten_env_send_audio_frame env self r None None) (\<lambda>_. ok ()))"

definition call_result_handler ::
    "'u environment \<Rightarrow> nat \<Rightarrow> nat \<Rightarrow> nat option \<Rightarrow> nat \<Rightarrow> (unit, 'u) step" where
  "call_result_handler env self handler user_data r =
     (if handler = cmd_result_handler_for_send_cmd_fn
      then (case user_data of None \<Rightarrow> lift Abort | Some ctx \<Rightarrow> cmd_result_handler_for_send_cmd env self r ctx)
      else invoke env self (OnResult handler user_data (Some r)))"

section \<open>Messages arrive at an extension\<close>

definition error_result :: "string \<Rightarrow> msg_handlers \<Rightarrow> message \<Rightarrow> message run" where
  "error_result detail h cmd =
     run_bind (ten_raw_cmd_result_create_from_raw_cmd TEN_STATUS_CODE_ERROR (Some cmd)) (\<lambda>res.
       map_run snd (ten_raw_msg_set_property (set_other_property h) res ''detail'' (ten_value_create_string detail)))"

text \<open>Whether the message goes on.\<close>

definition ten_extension_validate_msg_schema :: "'u environment \<Rightarrow> nat \<Rightarrow> nat \<Rightarrow> (bool, 'u) step" where
  "ten_extension_validate_msg_schema env self r =
     and_with (check_msg_schema env self False r) (\<lambda>err.
     case err of
       None \<Rightarrow> ok True
     | Some e \<Rightarrow>
         and_with (read_msg self r) (\<lambda>m.
           if msg_type m \<in> {TEN_MSG_TYPE_CMD_TIMER, TEN_MSG_TYPE_CMD_TIMEOUT, TEN_MSG_TYPE_CMD_STOP_GRAPH,
                TEN_MSG_TYPE_CMD_CLOSE_APP, TEN_MSG_TYPE_CMD_START_GRAPH, TEN_MSG_TYPE_CMD}
           then and_with (lift (error_result (err_msg e) (msg_handlers_of env) m)) (\<lambda>res.
                and_with (new_msg self res) (\<lambda>res.
                and_with (ten_env_return_result env self res r None) (\<lambda>_. ok False)))
           else if is_result m
           then and_with (with_msg self r (\<lambda>m. map_run (Pair ())
                  (ten_raw_cmd_result_set_status_code m TEN_STATUS_CODE_ERROR))) (\<lambda>_. ok True)
           else if msg_type m \<in> {TEN_MSG_TYPE_DATA, TEN_MSG_TYPE_VIDEO_FRAME, TEN_MSG_TYPE_AUDIO_FRAME}
           then ok False else lift Abort))"

fun all_valid :: "'u environment \<Rightarrow> nat \<Rightarrow> nat list \<Rightarrow> (bool, 'u) step" where
  "all_valid env self [] = ok True"
| "all_valid env self (r # rs) =
     and_with (ten_extension_validate_msg_schema env self r) (\<lambda>valid. if valid then all_valid env self rs else ok False)"

text \<open>The messages that the extension gets for one that arrived, with the conversions of their results.
  A message that no context wants is in a new cell as well; nothing points to the old one any more.\<close>

definition convertible :: "TEN_MSG_TYPE \<Rightarrow> bool" where
  "convertible t \<longleftrightarrow>
     t \<in> {TEN_MSG_TYPE_CMD, TEN_MSG_TYPE_DATA, TEN_MSG_TYPE_VIDEO_FRAME, TEN_MSG_TYPE_AUDIO_FRAME}"

fun new_msgs :: "nat \<Rightarrow> (message \<times> 'x) list \<Rightarrow> ((nat \<times> 'x) list, 'u) step" where
  "new_msgs self [] = ok []"
| "new_msgs self ((m, x) # ms) =
     and_with (new_msg self m) (\<lambda>r. and_with (new_msgs self ms) (\<lambda>rs. ok ((r, x) # rs)))"

definition convert_msg :: "'u environment \<Rightarrow> nat \<Rightarrow> nat \<Rightarrow> ((nat \<times> ten_msg_conversion option) list, 'u) step" where
  "convert_msg env self r =
     and_with (read_msg self r) (\<lambda>m.
     and_with (of_extension self extension_info) (\<lambda>info.
     and_with (reading extensions_info) (\<lambda>infos.
       case info of
         None \<Rightarrow> ok [(r, None)]
       | Some i \<Rightarrow>
           if \<not> convertible (msg_type m) then ok [(r, None)]
           else and_with (lift (deref infos i)) (\<lambda>x.
             if msg_conversion_contexts x = [] then ok [(r, None)]
             else and_with (reading ids_drawn) (\<lambda>n.
                  and_with (lift (ten_extension_convert_msg (msg_handlers_of env) (id_at env) n
                     (msg_conversion_contexts x) m)) (\<lambda>(cs, outs, success, n).
                  and_with (\<lambda>w. Ret ((), w\<lparr>ids_drawn := n,
                     extensions_info := infos[i := x\<lparr>msg_conversion_contexts := cs\<rparr>]\<rparr>)) (\<lambda>_.
                    new_msgs self outs)))))))"

definition add_in_path :: "'u environment \<Rightarrow> nat \<Rightarrow> nat \<times> ten_msg_conversion option \<Rightarrow> (unit, 'u) step" where
  "add_in_path env self = (\<lambda>(r, conv).
     and_with (read_msg self r) (\<lambda>m.
     and_with (lift (ten_raw_msg_is_cmd m)) (\<lambda>is_cmd.
       if is_cmd \<and> create_in_path (ten_msg_info (msg_type m))
       then and_with (read_clock env) (\<lambda>now.
            and_with (draw_id env) (\<lambda>uuid.
              on_paths self (\<lambda>t. run_bind (load (msg_at t) r) (\<lambda>m. map_run (\<lambda>(a, m, t). ((), put_msg r m t))
                (ten_path_table_add_in_path now uuid t m conv)))))
       else ok ())))"

definition deliver_msg :: "'u environment \<Rightarrow> nat \<Rightarrow> TEN_MSG_TYPE \<Rightarrow> nat \<Rightarrow> (unit, 'u) step" where
  "deliver_msg env self type r =
     and_with (with_msg self r (\<lambda>m. Ret (m, ten_raw_msg_clear_dest m))) (\<lambda>m.
       if is_result m
       then (case result_handler m of
           Some h \<Rightarrow> call_result_handler env self h (result_handler_data m) r
         | None \<Rightarrow> and_with (ten_env_return_result_directly env self r None) (\<lambda>_. ok ()))
       else (case type of
           TEN_MSG_TYPE_CMD \<Rightarrow> ten_extension_on_cmd env self r
         | TEN_MSG_TYPE_CMD_TIMEOUT \<Rightarrow> ten_extension_on_cmd env self r
         | TEN_MSG_TYPE_DATA \<Rightarrow> ten_extension_on_data env self r
         | TEN_MSG_TYPE_AUDIO_FRAME \<Rightarrow> ten_extension_on_audio_frame env self r
         | TEN_MSG_TYPE_VIDEO_FRAME \<Rightarrow> ten_extension_on_video_frame env self r
         | _ \<Rightarrow> lift Abort))"

text \<open>What happens to a message that the extension is ready for.\<close>

definition process_msg :: "'u environment \<Rightarrow> nat \<Rightarrow> bool \<Rightarrow> nat \<Rightarrow> (unit, 'u) step" where
  "process_msg env self msg_is_cmd_result r =
     and_with (convert_msg env self r) (\<lambda>msgs.
     and_with (if msg_is_cmd_result then ok () else each (add_in_path env self) msgs) (\<lambda>_.
     and_with (all_valid env self (map fst msgs)) (\<lambda>pass_schema_check.
     and_with (read_msg self r) (\<lambda>m.
       if pass_schema_check then each (deliver_msg env self (msg_type m)) (map fst msgs) else ok ()))))"

definition ten_extension_handle_in_msg :: "'u environment \<Rightarrow> nat \<Rightarrow> nat \<Rightarrow> (unit, 'u) step" where
  "ten_extension_handle_in_msg env self r =
     and_with (read_msg self r) (\<lambda>m.
     and_with (lift (ten_raw_msg_is_cmd_result m)) (\<lambda>msg_is_cmd_result.
     and_with (of_extension self extension_state) (\<lambda>state.
       if state < TEN_EXTENSION_STATE_ON_START_DONE \<and> \<not> msg_is_cmd_result
       then on_extension self (\<lambda>e. Ret ((), e\<lparr>pending_msgs := pending_msgs e @ [r]\<rparr>))
       else if state \<ge> TEN_EXTENSION_STATE_ON_DEINIT then ok ()
       else if msg_is_cmd_result
       then and_with (draw_id env) (\<lambda>uuid.
            and_with (on_paths self (\<lambda>t. handle_in_result (msg_handlers_of env) uuid t r)) (\<lambda>out.
              case out of None \<Rightarrow> ok () | Some r \<Rightarrow> process_msg env self True r))
       else process_msg env self False r)))"

definition arrive_at :: "'u environment \<Rightarrow> nat \<Rightarrow> message \<Rightarrow> (unit, 'u) step" where
  "arrive_at env self m = and_with (new_msg self m) (ten_extension_handle_in_msg env self)"

section \<open>Messages arrive at the thread\<close>

definition invalid_extension_error :: "string \<Rightarrow> string" where
  "invalid_extension_error name = ''The extension['' @ name @ ''] is invalid.''"

definition ten_extension_thread_handle_in_msg_sync :: "'u environment \<Rightarrow> message \<Rightarrow> (unit, 'u) step" where
  "ten_extension_thread_handle_in_msg_sync env m =
     (case dest_loc m of
        [l] \<Rightarrow>
          and_with (reading extension_store) (\<lambda>store.
          case find_entry (extension_name l) store of
            None \<Rightarrow>
              if msg_type m = TEN_MSG_TYPE_CMD
              then and_with (lift (error_result (invalid_extension_error (extension_name l)) (msg_handlers_of env) m))
                     (dispatch env)
              else if debug_build env then lift Abort else ok ()
          | Some self \<Rightarrow> arrive_at env self m)
      | _ \<Rightarrow> lift Abort)"

definition ten_engine_push_to_extension_msgs_queue :: "message \<Rightarrow> (unit, 'u) step" where
  "ten_engine_push_to_extension_msgs_queue m w = Ret ((), w\<lparr>engine_msgs := engine_msgs w @ [m]\<rparr>)"

definition ten_app_push_to_in_msgs_queue :: "message \<Rightarrow> (unit, 'u) step" where
  "ten_app_push_to_in_msgs_queue m w = Ret ((), w\<lparr>app_msgs := app_msgs w @ [m]\<rparr>)"

definition ten_extension_thread_dispatch_msg :: "'u environment \<Rightarrow> message \<Rightarrow> (unit, 'u) step" where
  "ten_extension_thread_dispatch_msg env m =
     (case dest_loc m of
        [l] \<Rightarrow>
          if \<not> ten_loc_check_integrity l then lift Abort
          else and_with (reading thread_engine) (\<lambda>engine.
               and_with (reading group_name) (\<lambda>grp.
                 if app_uri l \<noteq> engine_app_uri engine
                 then (if app_uri l = [] then lift Abort else ten_engine_push_to_extension_msgs_queue m)
                 else if graph_id l = [] \<or> graph_id l \<noteq> engine_graph_id engine
                 then ten_app_push_to_in_msgs_queue m
                 else if extension_group_name l = [] then ten_engine_push_to_extension_msgs_queue m
                 else if extension_group_name l \<noteq> grp then ten_engine_push_to_extension_msgs_queue m
                 else ten_extension_thread_handle_in_msg_sync env m))
      | _ \<Rightarrow> lift Abort)"

definition ten_extension_thread_handle_in_msg_task :: "'u environment \<Rightarrow> message \<Rightarrow> (unit, 'u) step" where
  "ten_extension_thread_handle_in_msg_task env m =
     (if ten_raw_msg_get_dest_cnt m \<noteq> 1 then lift Abort
      else and_with (reading thread_state) (\<lambda>state.
        case state of
          TEN_EXTENSION_THREAD_STATE_INIT \<Rightarrow>
            (\<lambda>w. Ret ((), w\<lparr>thread_pending_msgs := thread_pending_msgs w @ [m]\<rparr>))
        | TEN_EXTENSION_THREAD_STATE_CREATING_EXTENSIONS \<Rightarrow>
            (\<lambda>w. Ret ((), w\<lparr>thread_pending_msgs := thread_pending_msgs w @ [m]\<rparr>))
        | TEN_EXTENSION_THREAD_STATE_NORMAL \<Rightarrow> ten_extension_thread_handle_in_msg_sync env m
        | TEN_EXTENSION_THREAD_STATE_PREPARE_TO_CLOSE \<Rightarrow> ten_extension_thread_handle_in_msg_sync env m
        | TEN_EXTENSION_THREAD_STATE_CLOSED \<Rightarrow> ok ()))"

text \<open>Which messages still enter the queue of the thread.\<close>

definition EXTENSION_THREAD_QUEUE_SIZE :: nat where
  "EXTENSION_THREAD_QUEUE_SIZE = 12800"

definition ten_extension_thread_handle_in_msg_async :: "message list \<Rightarrow> message \<Rightarrow> message list run" where
  "ten_extension_thread_handle_in_msg_async queue m =
     (if ten_raw_msg_get_dest_cnt m \<noteq> 1 then Abort
      else run_bind (if length queue \<ge> EXTENSION_THREAD_QUEUE_SIZE then ten_raw_msg_is_cmd_and_result m else Ret True)
        (\<lambda>enters. Ret (if enters then queue @ [m] else queue)))"

section \<open>An extension starts\<close>

definition flush_thread_msg :: "'u environment \<Rightarrow> nat \<Rightarrow> message \<Rightarrow> (unit, 'u) step" where
  "flush_thread_msg env self m =
     and_with (lift (ten_raw_msg_get_first_dest_loc m)) (\<lambda>l.
     and_with (of_extension self instance_name) (\<lambda>name.
       if extension_name l = name
       then and_with (arrive_at env self m) (\<lambda>_ w.
              Ret ((), w\<lparr>thread_pending_msgs := remove1 m (thread_pending_msgs w)\<rparr>))
       else ok ()))"

definition ten_extension_flush_all_pending_msgs :: "'u environment \<Rightarrow> nat \<Rightarrow> (unit, 'u) step" where
  "ten_extension_flush_all_pending_msgs env self =
     and_with (reading thread_pending_msgs) (\<lambda>ms.
     and_with (each (flush_thread_msg env self) ms) (\<lambda>_.
     and_with (of_extension self pending_msgs) (\<lambda>rs.
     and_with (each (ten_extension_handle_in_msg env self) rs) (\<lambda>_.
       on_extension self (\<lambda>e. Ret ((), e\<lparr>pending_msgs := []\<rparr>))))))"

definition set_state :: "nat \<Rightarrow> TEN_EXTENSION_STATE \<Rightarrow> (unit, 'u) step" where
  "set_state self s = on_extension self (\<lambda>e. Ret ((), e\<lparr>extension_state := s\<rparr>))"

text \<open>Each \<open>on_xxx_done\<close> only works at its own time.\<close>

definition ten_extension_on_start_done :: "'u environment \<Rightarrow> nat \<Rightarrow> (bool, 'u) step" where
  "ten_extension_on_start_done env self =
     and_with (of_extension self extension_state) (\<lambda>state.
       if state \<noteq> TEN_EXTENSION_STATE_ON_START then ok False
       else and_with (set_state self TEN_EXTENSION_STATE_ON_START_DONE) (\<lambda>_.
            and_with (ten_extension_flush_all_pending_msgs env self) (\<lambda>_. ok True)))"

definition ten_extension_on_start :: "'u environment \<Rightarrow> nat \<Rightarrow> (unit, 'u) step" where
  "ten_extension_on_start env self =
     and_with (set_state self TEN_EXTENSION_STATE_ON_START) (\<lambda>_.
       if has_callback env self OnStart then invoke env self (OnEvent OnStart None)
       else and_with (ten_extension_on_start_done env self) (\<lambda>_. ok ()))"

definition ten_extension_on_init_done :: "'u environment \<Rightarrow> nat \<Rightarrow> (bool, 'u) step" where
  "ten_extension_on_init_done env self =
     and_with (of_extension self extension_state) (\<lambda>state.
       if state \<noteq> TEN_EXTENSION_STATE_ON_CONFIGURE_DONE then ok False
       else and_with (set_state self TEN_EXTENSION_STATE_ON_INIT_DONE) (\<lambda>_.
            and_with (reading is_close_triggered) (\<lambda>closing.
              if closing then ok True
              else and_with (ten_extension_on_start env self) (\<lambda>_. ok True))))"

definition ten_extension_on_init :: "'u environment \<Rightarrow> nat \<Rightarrow> (unit, 'u) step" where
  "ten_extension_on_init env self =
     (if has_callback env self OnInit then invoke env self (OnEvent OnInit None)
      else and_with (ten_extension_on_init_done env self) (\<lambda>_. ok ()))"

text \<open>The interfaces of an extension stand for all messages they describe.\<close>

definition ten_extension_check_if_msg_dests_have_msg_names :: "ten_msg_dest_info list \<Rightarrow> string list \<Rightarrow> unit run" where
  "ten_extension_check_if_msg_dests_have_msg_names dests names =
     (if \<exists>d \<in> set dests. dest_msg_name d \<in> set names then Abort else Ret ())"

definition ten_extension_merge_interface_dest_to_msg ::
    "ten_schema_store \<Rightarrow> ten_msg_dest_info \<Rightarrow> TEN_MSG_TYPE \<Rightarrow> ten_msg_dest_info list \<Rightarrow> ten_msg_dest_info list run" where
  "ten_extension_merge_interface_dest_to_msg store interface_dest t dests =
     (if dest_msg_name interface_dest = [] then Abort
      else run_bind (ten_schema_store_get_all_msg_names_in_interface_out store t (dest_msg_name interface_dest)) (\<lambda>names.
        case names of
          None \<Rightarrow> Abort
        | Some names \<Rightarrow>
            if names = [] then Ret dests
            else map_run (\<lambda>_. dests @ map (\<lambda>name. (ten_msg_dest_info_create name)\<lparr>dest_infos := dest_infos interface_dest\<rparr>) names)
                   (ten_extension_check_if_msg_dests_have_msg_names dests names)))"

definition merge_interface_dest ::
    "ten_schema_store \<Rightarrow> ten_msg_dest_info \<Rightarrow> ten_all_msg_type_dest_info \<Rightarrow> ten_all_msg_type_dest_info run" where
  "merge_interface_dest store interface_dest self =
     run_bind (ten_extension_merge_interface_dest_to_msg store interface_dest TEN_MSG_TYPE_CMD (dest_cmd self)) (\<lambda>cmds.
     run_bind (ten_extension_merge_interface_dest_to_msg store interface_dest TEN_MSG_TYPE_DATA (dest_data self)) (\<lambda>datas.
     run_bind (ten_extension_merge_interface_dest_to_msg store interface_dest TEN_MSG_TYPE_VIDEO_FRAME (dest_video_frame self)) (\<lambda>videos.
     run_bind (ten_extension_merge_interface_dest_to_msg store interface_dest TEN_MSG_TYPE_AUDIO_FRAME (dest_audio_frame self)) (\<lambda>audios.
       Ret (self\<lparr>dest_cmd := cmds, dest_data := datas, dest_video_frame := videos, dest_audio_frame := audios\<rparr>)))))"

definition ten_extension_determine_and_merge_all_interface_dest_extension :: "nat \<Rightarrow> (unit, 'u) step" where
  "ten_extension_determine_and_merge_all_interface_dest_extension self =
     and_with (of_extension self extension_state) (\<lambda>state.
     and_with (of_extension self extension_info) (\<lambda>info.
     and_with (of_extension self schema_store) (\<lambda>store.
     and_with (reading extensions_info) (\<lambda>infos.
       if state \<noteq> TEN_EXTENSION_STATE_ON_CONFIGURE_DONE then lift Abort
       else case info of
         None \<Rightarrow> ok ()
       | Some i \<Rightarrow>
           and_with (lift (deref infos i)) (\<lambda>x.
           and_with (lift (run_fold (merge_interface_dest store) (dest_interface (msg_dest_info x)) (msg_dest_info x))) (\<lambda>d w.
             Ret ((), w\<lparr>extensions_info := infos[i := x\<lparr>msg_dest_info := d\<rparr>]\<rparr>)))))))"

text \<open>\<open>store\<close> holds the schemas of the manifest; the timers of the path table are created.\<close>

definition ten_extension_on_configure_done :: "'u environment \<Rightarrow> nat \<Rightarrow> ten_schema_store \<Rightarrow> (bool, 'u) step" where
  "ten_extension_on_configure_done env self store =
     and_with (of_extension self extension_state) (\<lambda>state.
       if state \<noteq> TEN_EXTENSION_STATE_INIT then ok False
       else and_with (set_state self TEN_EXTENSION_STATE_ON_CONFIGURE_DONE) (\<lambda>_.
            and_with (reading is_close_triggered) (\<lambda>closing.
              if closing then ok True
              else and_with (on_extension self (\<lambda>e. Ret ((), e\<lparr>schema_store := store, path_timers := path_timers e + 2\<rparr>))) (\<lambda>_.
                   and_with (ten_extension_determine_and_merge_all_interface_dest_extension self) (\<lambda>_.
                   and_with (ten_extension_on_init env self) (\<lambda>_. ok True))))))"

section \<open>An extension stops\<close>

definition ten_extension_on_deinit_done :: "nat \<Rightarrow> (bool, 'u) step" where
  "ten_extension_on_deinit_done self =
     and_with (of_extension self extension_state) (\<lambda>state.
       if state \<noteq> TEN_EXTENSION_STATE_ON_DEINIT then ok False
       else and_with (of_extension self ten_proxies) (\<lambda>proxies.
         if proxies > 0 then ok True
         else and_with (set_state self TEN_EXTENSION_STATE_ON_DEINIT_DONE) (\<lambda>_.
              and_with (\<lambda>w. Ret ((), w\<lparr>extension_store := filter (\<lambda>(_, x). x \<noteq> self) (extension_store w),
                  extensions_cnt_of_deleted := extensions_cnt_of_deleted w + 1\<rparr>)) (\<lambda>_. ok True))))"

definition ten_extension_on_deinit :: "'u environment \<Rightarrow> nat \<Rightarrow> (unit, 'u) step" where
  "ten_extension_on_deinit env self =
     and_with (set_state self TEN_EXTENSION_STATE_ON_DEINIT) (\<lambda>_.
       if has_callback env self OnDeinit then invoke env self (OnEvent OnDeinit None)
       else and_with (ten_extension_on_deinit_done self) (\<lambda>_. ok ()))"

text \<open>The errors that stand for the results of all OUT paths that are left; the success of setting the
  property is not looked at.\<close>

definition leftover_result :: "msg_handlers \<Rightarrow> ten_path \<Rightarrow> message run" where
  "leftover_result h p =
     map_run (\<lambda>(_, m). ten_raw_cmd_base_set_cmd_id m (path_cmd_id p))
       (ten_raw_msg_set_property (set_other_property h) (ten_raw_cmd_result_create TEN_STATUS_CODE_ERROR)
          ''detail'' (ten_value_create_string (path_cmd_id p)))"

definition clear_in_paths :: "ten_path_table \<Rightarrow> ten_path_table" where
  "clear_in_paths t = fold (drop_path TEN_PATH_IN) (in_paths t) t"

definition ten_extension_thread_process_remaining_paths :: "'u environment \<Rightarrow> nat \<Rightarrow> (unit, 'u) step" where
  "ten_extension_thread_process_remaining_paths env self =
     and_with (on_paths self (\<lambda>t. Ret ((), clear_in_paths t))) (\<lambda>_.
     and_with (of_extension self path_table) (\<lambda>t.
     and_with (lift (run_map (\<lambda>a. run_bind (load (path_at t) a) (leftover_result (msg_handlers_of env))) (out_paths t)))
       (each (arrive_at env self))))"

definition ten_extension_do_close :: "'u environment \<Rightarrow> nat \<Rightarrow> (unit, 'u) step" where
  "ten_extension_do_close env self =
     and_with (ten_extension_thread_process_remaining_paths env self) (\<lambda>_. ten_extension_on_deinit env self)"

definition ten_extension_could_be_closed :: "ten_extension \<Rightarrow> bool" where
  "ten_extension_could_be_closed self \<longleftrightarrow> path_timers self = 0"

definition ten_extension_on_timer_closed :: "'u environment \<Rightarrow> nat \<Rightarrow> (unit, 'u) step" where
  "ten_extension_on_timer_closed env self =
     and_with (on_extension self (\<lambda>e. Ret ((), e\<lparr>path_timers := path_timers e - 1\<rparr>))) (\<lambda>_.
     and_with (of_extension self ten_extension_could_be_closed) (\<lambda>closable.
       if closable then ten_extension_do_close env self else ok ()))"

text \<open>The timers are closed asynchronously; \<open>ten_extension_on_timer_closed\<close> is called for each of them.\<close>

definition ten_extension_do_pre_close_action :: "'u environment \<Rightarrow> nat \<Rightarrow> (unit, 'u) step" where
  "ten_extension_do_pre_close_action env self =
     and_with (of_extension self ten_extension_could_be_closed) (\<lambda>closable.
       if closable then ten_extension_do_close env self else ok ())"

definition ten_extension_on_stop_done :: "'u environment \<Rightarrow> nat \<Rightarrow> (bool, 'u) step" where
  "ten_extension_on_stop_done env self =
     and_with (of_extension self extension_state) (\<lambda>state.
       if state \<noteq> TEN_EXTENSION_STATE_ON_START_DONE then ok False
       else and_with (set_state self TEN_EXTENSION_STATE_ON_STOP_DONE) (\<lambda>_.
            and_with (ten_extension_do_pre_close_action env self) (\<lambda>_. ok True)))"

definition ten_extension_on_stop :: "'u environment \<Rightarrow> nat \<Rightarrow> (unit, 'u) step" where
  "ten_extension_on_stop env self =
     (if has_callback env self OnStop then invoke env self (OnEvent OnStop None)
      else and_with (ten_extension_on_stop_done env self) (\<lambda>_. ok ()))"

definition ten_extension_thread_stop_life_cycle_of_all_extensions :: "'u environment \<Rightarrow> (unit, 'u) step" where
  "ten_extension_thread_stop_life_cycle_of_all_extensions env =
     and_with (\<lambda>w. Ret (extensions w, w\<lparr>thread_state := TEN_EXTENSION_THREAD_STATE_PREPARE_TO_CLOSE\<rparr>))
       (each (ten_extension_on_stop env))"

text \<open>In the first state the extension group goes down without its extensions.\<close>

definition ten_extension_thread_on_triggering_close :: "'u environment \<Rightarrow> (unit, 'u) step" where
  "ten_extension_thread_on_triggering_close env =
     and_with (reading is_close_triggered) (\<lambda>triggered.
       if triggered then ok ()
       else and_with (\<lambda>w. Ret (thread_state w, w\<lparr>is_close_triggered := True\<rparr>)) (\<lambda>state.
         case state of
           TEN_EXTENSION_THREAD_STATE_INIT \<Rightarrow> ok ()
         | TEN_EXTENSION_THREAD_STATE_CREATING_EXTENSIONS \<Rightarrow> ok ()
         | TEN_EXTENSION_THREAD_STATE_NORMAL \<Rightarrow> ten_extension_thread_stop_life_cycle_of_all_extensions env
         | _ \<Rightarrow> lift Abort))"

section \<open>Timers of an extension\<close>

definition in_path_timer_on_triggered :: "'u environment \<Rightarrow> nat \<Rightarrow> (unit, 'u) step" where
  "in_path_timer_on_triggered env self =
     and_with (read_clock env) (\<lambda>now.
       on_paths self (\<lambda>t. map_run (Pair ()) (ten_extension_in_path_timer_on_triggered now t)))"

definition out_path_timer_on_triggered :: "'u environment \<Rightarrow> nat \<Rightarrow> (unit, 'u) step" where
  "out_path_timer_on_triggered env self =
     and_with (read_clock env) (\<lambda>now.
     and_with (of_extension self path_table) (\<lambda>t.
     and_with (lift (timeout_results (msg_handlers_of env) (word_of_int now) t (out_paths t)))
       (each (arrive_at env self))))"

end
