(* ===== verification/Extension_Safe.thy ===== *)
theory Extension_Safe
  imports Extension_In
begin

text \<open>
  What every operation of an extension keeps, whatever the code of the extensions does: the path tables
  stay consistent, every message that waits is there, what leaves the thread names one place, and the
  life of an extension only goes forward.
\<close>

section \<open>Tables\<close>

text \<open>A table after an operation: it is consistent and no message has gone.\<close>

definition extends :: "ten_path_table \<Rightarrow> ten_path_table \<Rightarrow> bool" where
  "extends t t' \<longleftrightarrow> table_ok t' \<and> (\<forall>r. msg_at t r \<noteq> None \<longrightarrow> msg_at t' r \<noteq> None)"

lemma extends_refl: "table_ok t \<Longrightarrow> extends t t"
  by (simp add: extends_def)

lemma extends_trans: "extends t t1 \<Longrightarrow> extends t1 t2 \<Longrightarrow> extends t t2"
  by (simp add: extends_def)

lemma extends_ok: "extends t t' \<Longrightarrow> table_ok t'"
  by (simp add: extends_def)

definition good_on_tables :: "(ten_path_table \<Rightarrow> ('a \<times> ten_path_table) run) \<Rightarrow> bool" where
  "good_on_tables f \<longleftrightarrow> (\<forall>t x t'. table_ok t \<longrightarrow> f t = Ret (x, t') \<longrightarrow> extends t t')"

named_theorems good_intros \<comment> \<open>operations on path tables that extend them\<close>

lemma extends_alloc: "table_ok t \<Longrightarrow> alloc_msg m t = (r, t') \<Longrightarrow> extends t t'"
  using table_ok_alloc [of t m r t'] by (auto simp: extends_def alloc_msg_def)

lemma extends_put_msg:
  assumes "table_ok t" and "msg_at t r = Some m'" and "is_result m' \<Longrightarrow> is_result m"
  shows "extends t (put_msg r m t)"
proof -
  have "r < next_addr t" using assms(1,2) by (auto simp: table_ok_def)
  then have "table_ok (put_msg r m t)" by (rule table_ok_put_msg [OF assms(1)]) (use assms(2,3) in auto)
  then show ?thesis by (simp add: extends_def put_msg_def)
qed

lemma good_alloc [good_intros]: "good_on_tables (\<lambda>t. Ret (alloc_msg m t))"
  by (auto simp: good_on_tables_def intro: extends_alloc)

lemma good_put_msg:
  assumes "\<And>m x m'. f m = Ret (x, m') \<Longrightarrow> is_result m \<Longrightarrow> is_result m'"
  shows "good_on_tables (\<lambda>t. run_bind (load (msg_at t) r) (\<lambda>m. map_run (\<lambda>(x, m). (x, put_msg r m t)) (f m)))"
  using assms by (fastforce simp: good_on_tables_def intro: extends_put_msg)

lemma set_result_msgs:
  assumes "ten_path_set_result h uuid a r t = Ret t'" and "msg_at t q \<noteq> None"
  shows "msg_at t' q \<noteq> None"
  using assms(1)
proof (cases rule: set_result_cases)
  case (1 p m r1 t1)
  then have "msg_at t1 q \<noteq> None" using assms(2) by (auto simp: alloc_msg_def)
  with 1(5) show ?thesis by (auto simp: put_path_def put_members_def)
qed

lemma good_set_result [good_intros]: "good_on_tables (\<lambda>t. ten_path_table_set_result h uuid t ty r)"
proof -
  have "extends t t'" if "table_ok t" "ten_path_table_set_result h uuid t ty r = Ret (x, t')" for t x t'
    using that table_set_result_ok [OF that] set_result_msgs
    by (fastforce simp: extends_def ten_path_table_set_result_def split: if_splits option.splits)
  then show ?thesis by (auto simp: good_on_tables_def)
qed

lemma remove_msgs:
  "ten_path_table_remove_path_from_group t ty a = Ret (l, t') \<Longrightarrow> msg_at t' = msg_at t"
  "run_fold (remove_member ty) as t = Ret t' \<Longrightarrow> msg_at t' = msg_at t"
  "ten_path_table_remove_group_and_all_its_paths t ty a = Ret t' \<Longrightarrow> msg_at t' = msg_at t"
proof -
  show "ten_path_table_remove_path_from_group t ty a = Ret (l, t') \<Longrightarrow> msg_at t' = msg_at t"
    by (auto simp: ten_path_table_remove_path_from_group_def put_members_def split: if_splits option.splits)
  have *: "run_fold (remove_member ty) as t = Ret t' \<Longrightarrow> msg_at t' = msg_at t" for as
  proof (induction as arbitrary: t)
    case (Cons a as)
    then obtain t1 where "remove_member ty a t = Ret t1" "run_fold (remove_member ty) as t1 = Ret t'" by auto
    then show ?case using Cons.IH [of t1] remove_memberD [of ty a t t1] by simp
  qed simp
  then show "run_fold (remove_member ty) as t = Ret t' \<Longrightarrow> msg_at t' = msg_at t" by blast
  show "ten_path_table_remove_group_and_all_its_paths t ty a = Ret t' \<Longrightarrow> msg_at t' = msg_at t"
    using * by (fastforce simp: ten_path_table_remove_group_and_all_its_paths_def)
qed

lemma leave_table_msgs:
  assumes "leave_table ty rm a p m t = Ret (c, t')"
  shows "msg_at t' = msg_at t"
proof (cases "ten_path_is_in_a_group p")
  case False
  with assms show ?thesis by (auto simp: leave_table_def)
next
  case True
  with assms have "\<exists>G. ten_path_get_group t p = Ret G \<and> (case group_policy G of
          TEN_RESULT_RETURN_POLICY_EACH_OK_AND_ERROR \<Rightarrow> ten_path_table_remove_path_from_group t ty a
        | TEN_RESULT_RETURN_POLICY_INVALID \<Rightarrow> Abort
        | _ \<Rightarrow> map_run (Pair True) (ten_path_table_remove_group_and_all_its_paths t ty a)) = Ret (c, t')"
    by (simp add: leave_table_def)
  then obtain G where "ten_path_get_group t p = Ret G \<and> (case group_policy G of
          TEN_RESULT_RETURN_POLICY_EACH_OK_AND_ERROR \<Rightarrow> ten_path_table_remove_path_from_group t ty a
        | TEN_RESULT_RETURN_POLICY_INVALID \<Rightarrow> Abort
        | _ \<Rightarrow> map_run (Pair True) (ten_path_table_remove_group_and_all_its_paths t ty a)) = Ret (c, t')" ..
  then show ?thesis by (cases "group_policy G") (auto simp: remove_msgs)
qed

lemma determine_msgs:
  assumes "ten_path_table_determine_actual_cmd_result t ty a rm = Ret (x, t')" and "msg_at t q \<noteq> None"
  shows "msg_at t' q \<noteq> None"
proof -
  have "deliver_result ty rm b t = Ret (y, t1) \<Longrightarrow> msg_at t1 q \<noteq> None" for b y t1
    using assms(2) by (auto simp: deliver_result_def put_msg_def dest!: leave_table_msgs split: option.splits)
  then show ?thesis
    using assms by (auto simp: ten_path_table_determine_actual_cmd_result_def split: if_splits option.splits)
qed

lemma good_determine [good_intros]: "good_on_tables (\<lambda>t. ten_path_table_determine_actual_cmd_result t ty a rm)"
  using determine_ok determine_msgs by (fastforce simp: good_on_tables_def extends_def)

lemma good_handle_in_result [good_intros]: "good_on_tables (\<lambda>t. handle_in_result h uuid t r)"
proof -
  have cache: "extends t t'"
    if "table_ok t" "ten_extension_cache_cmd_result_to_in_path_for_auto_return h uuid t q = Ret t'" for t q t'
    using that cache_result_ok [OF that] set_result_msgs
    by (fastforce simp: extends_def ten_extension_cache_cmd_result_to_in_path_for_auto_return_def
        split: if_splits option.splits)
  have "extends t t'" if t: "table_ok t" and r: "handle_in_result h uuid t r = Ret (x, t')" for t x t'
  proof -
    obtain a t1 where 1: "ten_path_table_set_result h uuid t TEN_PATH_OUT r = Ret (a, t1)"
      using r by (auto simp: handle_in_result_def)
    then have t1: "extends t t1" using good_set_result [of h uuid TEN_PATH_OUT r] t by (auto simp: good_on_tables_def)
    show ?thesis
    proof (cases a)
      case None
      with 1 r t1 show ?thesis by (simp add: handle_in_result_def)
    next
      case (Some b)
      with 1 r obtain final q t2 where
        2: "ten_path_table_determine_actual_cmd_result t1 TEN_PATH_OUT b final = Ret (q, t2)"
        and 3: "(case q of None \<Rightarrow> Ret (None, t2) | Some r \<Rightarrow>
          map_run (Pair (Some r)) (ten_extension_cache_cmd_result_to_in_path_for_auto_return h uuid t2 r)) = Ret (x, t')"
        by (auto simp: handle_in_result_def split: if_splits)
      have t2: "extends t t2"
        using good_determine 2 t1 extends_ok [OF t1] by (fastforce simp: good_on_tables_def intro: extends_trans)
      with 3 cache [OF extends_ok [OF t2]] show ?thesis
        by (auto split: option.splits intro: extends_trans)
    qed
  qed
  then show ?thesis by (auto simp: good_on_tables_def)
qed

lemma good_add_in_path [good_intros]:
  "good_on_tables (\<lambda>t. run_bind (load (msg_at t) r) (\<lambda>m. map_run (\<lambda>(a, m, t). ((), put_msg r m t))
     (ten_path_table_add_in_path now uuid t m conv)))"
proof -
  have "extends t (put_msg r m' t')"
    if t: "table_ok t" and m: "msg_at t r = Some m"
      and a: "ten_path_table_add_in_path now uuid t m conv = Ret (a, m', t')" for t m a m' t'
  proof -
    from a have t': "table_ok t'" by (rule add_in_path_ok [OF t])
    from a have ms: "msg_at t' = msg_at t" by (elim add_in_path_eq) (simp add: put_path_def)
    from a have "msg_type m' = msg_type m" by (elim add_in_path_eq) auto
    then have "extends t' (put_msg r m' t')"
      using m ms by (intro extends_put_msg [OF t']) (auto simp: is_result_def)
    with ms show ?thesis by (simp add: extends_def)
  qed
  then show ?thesis by (auto simp: good_on_tables_def)
qed

lemma add_out_paths_ok:
  assumes "table_ok t" and "add_out_paths clock n rs t = Ret (as, t')"
  shows "extends t t' \<and> set as \<inter> set (out_paths t) = {} \<and> out_paths t' = out_paths t @ as \<and> distinct as \<and>
    (\<forall>a \<in> set as. \<exists>p. path_at t' a = Some p \<and> path_group p = None) \<and>
    (\<forall>a. a \<notin> set as \<longrightarrow> path_at t' a = path_at t a)"
  using assms
proof (induction rs arbitrary: n t as)
  case Nil
  then show ?case by (simp add: extends_refl)
next
  case (Cons r rs)
  then obtain m a m' t1 as' where m: "msg_at t r = Some m"
    and a: "ten_path_table_add_out_path (clock n) t m = Ret (a, m', t1)"
    and rest: "add_out_paths clock (n + 1) rs (put_msg r m' t1) = Ret (as', t')" and as: "as = a # as'"
    by auto
  from a obtain p where t1: "a = next_addr t" "m' = m\<lparr>parent_cmd_id := [], result_handler := None, result_handler_data := None\<rparr>"
    "t1 = put_path (next_addr t) p t\<lparr>out_paths := out_paths t @ [next_addr t], next_addr := next_addr t + 1\<rparr>"
    "path_group p = None"
    by (elim add_out_path_eq) (auto simp: path_for_def)
  have ok: "table_ok t1" by (rule add_out_path_ok [OF Cons.prems(1) a])
  have "extends t1 (put_msg r m' t1)"
    using m by (intro extends_put_msg [OF ok]) (auto simp: t1(2,3) put_path_def is_result_def)
  then have e: "extends t (put_msg r m' t1)" by (simp add: extends_def t1(3) put_path_def)
  have fresh: "a \<notin> set (out_paths t)" using table_ok_fresh(5) [OF Cons.prems(1)] t1(1) by simp
  from Cons.IH [OF extends_ok [OF e] rest] e fresh show ?case
    by (auto simp: as t1(1,3,4) put_msg_def put_path_def intro: extends_trans split: if_splits)
qed

lemma good_register [good_intros]: "good_on_tables (register_out_paths clock n policy rs)"
proof -
  have "extends t t'" if t: "table_ok t" and r: "register_out_paths clock n policy rs t = Ret (x, t')" for t x t'
  proof -
    from r obtain as t1 where 1: "add_out_paths clock n rs t = Ret (as, t1)"
      and 2: "(if length as > 1 then ten_paths_create_group as policy t1 else Ret t1) = Ret t'"
      by (auto simp: register_out_paths_def)
    note as = add_out_paths_ok [OF t 1]
    show ?thesis
    proof (cases "length as > 1")
      case False
      with 2 as show ?thesis by simp
    next
      case True
      with 2 have c: "ten_paths_create_group as policy t1 = Ret t'" by simp
      have "table_ok t'" by (rule create_group_ok [OF extends_ok _ _ _ c]) (use as in auto)
      moreover have "msg_at t' = msg_at t1"
        using c True as create_group_eq [of as t1 policy] by (force simp: grouped_def)
      ultimately show ?thesis using as by (simp add: extends_def)
    qed
  qed
  then show ?thesis by (auto simp: good_on_tables_def)
qed

lemma good_in_timer [good_intros]: "good_on_tables (\<lambda>t. map_run (Pair ()) (ten_extension_in_path_timer_on_triggered now t))"
proof -
  have "extends t t'" if t: "table_ok t" and r: "ten_extension_in_path_timer_on_triggered now t = Ret t'" for t t'
  proof -
    have "distinct (in_paths t)" using t by (simp add: table_ok_def)
    with expire_fold [OF t, of "in_paths t" "word_of_int now"] r have "table_ok t'"
      by (auto simp: ten_extension_in_path_timer_on_triggered_def)
    moreover have "run_fold (expire_in_path n) as t1 = Ret t2 \<Longrightarrow> msg_at t2 = msg_at t1" for n as t1 t2
      by (induction as arbitrary: t1) (fastforce simp: expire_in_path_def split: if_splits)+
    ultimately show ?thesis using r by (auto simp: extends_def ten_extension_in_path_timer_on_triggered_def)
  qed
  then show ?thesis by (auto simp: good_on_tables_def)
qed

definition without_in_paths :: "ten_path_table \<Rightarrow> ten_path_table \<Rightarrow> bool" where
  "without_in_paths t t' \<longleftrightarrow> extends t t' \<and> in_paths t' = [] \<and> out_paths t' = out_paths t \<and>
     (\<forall>a \<in> set (out_paths t). path_at t' a = path_at t a) \<and> group_at t' = group_at t \<and> next_addr t' = next_addr t"

lemma clear_in_paths_ok:
  assumes "table_ok t"
  shows "without_in_paths t (clear_in_paths t)"
proof -
  have "table_ok t \<Longrightarrow> in_paths t = as \<Longrightarrow> without_in_paths t (fold (drop_path TEN_PATH_IN) as t)" for as
  proof (induction as arbitrary: t)
    case Nil
    then show ?case by (simp add: extends_refl without_in_paths_def)
  next
    case (Cons a as)
    let ?t = "drop_path TEN_PATH_IN a t"
    from Cons.prems obtain p where p: "path_at t a = Some p" "path_group p = None" "a \<notin> set (out_paths t)"
      by (fastforce simp: table_ok_def path_ok_def)
    have "table_ok ?t"
      by (rule drop_alone_ok [OF Cons.prems(1) p(1,2)]) (simp add: Cons.prems(2) paths_of_def)
    moreover have "in_paths ?t = as" by (simp add: Cons.prems(2))
    ultimately have "without_in_paths ?t (fold (drop_path TEN_PATH_IN) as ?t)" by (rule Cons.IH)
    then show ?case
      using p(3) by (simp add: without_in_paths_def extends_def split: if_splits)
  qed
  then show ?thesis using assms by (simp add: clear_in_paths_def)
qed

lemma good_clear [good_intros]: "good_on_tables (\<lambda>t. Ret ((), clear_in_paths t))"
  using clear_in_paths_ok by (simp add: good_on_tables_def without_in_paths_def)

section \<open>Threads\<close>

definition extension_ok :: "ten_extension \<Rightarrow> bool" where
  "extension_ok e \<longleftrightarrow> table_ok (path_table e) \<and> (\<forall>r \<in> set (pending_msgs e). msg_at (path_table e) r \<noteq> None)"

definition names_one_place :: "message \<Rightarrow> bool" where
  "names_one_place m \<longleftrightarrow> (\<exists>l. dest_loc m = [l] \<and> ten_loc_check_integrity l)"

definition thread_ok :: "'u extension_thread \<Rightarrow> bool" where
  "thread_ok w \<longleftrightarrow> (\<forall>a e. extension_at w a = Some e \<longrightarrow> extension_ok e) \<and>
     (\<forall>(n, a) \<in> set (extension_store w). extension_at w a \<noteq> None) \<and>
     (\<forall>m \<in> set (engine_msgs w) \<union> set (app_msgs w). names_one_place m)"

text \<open>The states of an extension only grow, what happens while it flushes its paths does not end the
  flushing, and in a thread that is closing it does not start any more.\<close>

definition state_step :: "bool \<Rightarrow> TEN_EXTENSION_STATE \<Rightarrow> TEN_EXTENSION_STATE \<Rightarrow> bool" where
  "state_step closing s s' \<longleftrightarrow> s \<le> s' \<and>
     (s = TEN_EXTENSION_STATE_ON_STOP_DONE \<longrightarrow> s' = TEN_EXTENSION_STATE_ON_STOP_DONE) \<and>
     (closing \<and> s < TEN_EXTENSION_STATE_ON_START \<longrightarrow> s' < TEN_EXTENSION_STATE_ON_START)"

definition later :: "bool \<Rightarrow> ten_extension \<Rightarrow> ten_extension \<Rightarrow> bool" where
  "later closing e e' \<longleftrightarrow> instance_name e' = instance_name e \<and> extension_info e' = extension_info e \<and>
     state_step closing (extension_state e) (extension_state e') \<and>
     (\<forall>r. msg_at (path_table e) r \<noteq> None \<longrightarrow> msg_at (path_table e') r \<noteq> None)"

definition leads :: "'u extension_thread \<Rightarrow> 'u extension_thread \<Rightarrow> bool" where
  "leads w w' \<longleftrightarrow> thread_engine w' = thread_engine w \<and> group_name w' = group_name w \<and>
     (is_close_triggered w \<longrightarrow> is_close_triggered w') \<and>
     (\<forall>a. extension_at w a = None \<longrightarrow> extension_at w' a = None) \<and>
     (\<forall>a e. extension_at w a = Some e \<longrightarrow> (\<exists>e'. extension_at w' a = Some e' \<and> later (is_close_triggered w) e e'))"

lemma state_step_refl [simp]: "state_step c s s"
  by (simp add: state_step_def)

lemma later_refl [simp]: "later c e e"
  by (simp add: later_def)

lemma later_weaken: "later c e e' \<Longrightarrow> (c' \<longrightarrow> c) \<Longrightarrow> later c' e e'"
  by (auto simp: later_def state_step_def)

lemma later_trans: "later c e e1 \<Longrightarrow> later c e1 e2 \<Longrightarrow> later c e e2"
  by (auto simp: later_def state_step_def)

lemma leadsD: "leads w w' \<Longrightarrow> extension_at w a = Some e \<Longrightarrow>
    \<exists>e'. extension_at w' a = Some e' \<and> later (is_close_triggered w) e e'"
  unfolding leads_def by blast

lemma leads_refl [simp]: "leads w w"
  by (simp add: leads_def)

lemma leads_trans:
  assumes "leads w w1" and "leads w1 w2"
  shows "leads w w2"
  unfolding leads_def
proof (intro conjI allI impI)
  fix a e
  assume "extension_at w a = Some e"
  from leadsD [OF assms(1) this] obtain e1 where 1: "extension_at w1 a = Some e1" "later (is_close_triggered w) e e1" by blast
  from leadsD [OF assms(2) 1(1)] obtain e2 where "extension_at w2 a = Some e2" "later (is_close_triggered w1) e1 e2" by blast
  moreover have "is_close_triggered w \<longrightarrow> is_close_triggered w1" using assms(1) by (simp add: leads_def)
  ultimately show "\<exists>e'. extension_at w2 a = Some e' \<and> later (is_close_triggered w) e e'"
    using 1(2) by (blast intro: later_trans later_weaken)
qed (use assms in \<open>auto simp: leads_def\<close>)

lemma leads_eq: "extension_at w' = extension_at w \<Longrightarrow> thread_engine w' = thread_engine w \<Longrightarrow>
    group_name w' = group_name w \<Longrightarrow> (is_close_triggered w \<Longrightarrow> is_close_triggered w') \<Longrightarrow> leads w w'"
  by (simp add: leads_def)

lemma leads_put:
  "extension_at w a = Some e \<Longrightarrow> later (is_close_triggered w) e e' \<Longrightarrow>
   leads w (w\<lparr>extension_at := (extension_at w)(a \<mapsto> e')\<rparr>)"
  by (auto simp: leads_def)

lemma thread_ok_put:
  "thread_ok w \<Longrightarrow> extension_ok e' \<Longrightarrow> thread_ok (w\<lparr>extension_at := (extension_at w)(a \<mapsto> e')\<rparr>)"
  by (fastforce simp: thread_ok_def)

section \<open>Safe steps\<close>

definition safe :: "('a, 'u) step \<Rightarrow> bool" where
  "safe f \<longleftrightarrow> (\<forall>w x w'. thread_ok w \<longrightarrow> f w = Ret (x, w') \<longrightarrow> thread_ok w' \<and> leads w w')"

named_theorems safe_intros \<comment> \<open>rules for safe steps, one for each way to put steps together\<close>

lemma safeI: "(\<And>w x w'. thread_ok w \<Longrightarrow> f w = Ret (x, w') \<Longrightarrow> thread_ok w' \<and> leads w w') \<Longrightarrow> safe f"
  by (simp add: safe_def)

lemma safeD: "safe f \<Longrightarrow> thread_ok w \<Longrightarrow> f w = Ret (x, w') \<Longrightarrow> thread_ok w' \<and> leads w w'"
  by (simp add: safe_def)

lemma safe_basic [safe_intros]:
  "safe (ok x)" "safe (lift r)" "safe (reading g)" "safe (of_extension self g')" "safe (read_msg self r')"
  by (auto simp: safe_def ok_def lift_def reading_def of_extension_def read_msg_def)

lemma safe_and_with [safe_intros]:
  assumes "safe f" and "\<And>x. safe (g x)"
  shows "safe (and_with f g)"
proof (rule safeI)
  fix w y w'
  assume w: "thread_ok w" and "and_with f g w = Ret (y, w')"
  then obtain x w1 where f: "f w = Ret (x, w1)" and g: "g x w1 = Ret (y, w')" by (auto simp: and_with_def)
  from safeD [OF assms(1) w f] safeD [OF assms(2) _ g] show "thread_ok w' \<and> leads w w'"
    by (blast intro: leads_trans)
qed

lemma safe_each [safe_intros]: "(\<And>x. safe (f x)) \<Longrightarrow> safe (each f xs)"
  by (induction xs) (auto intro: safe_intros)

lemma safe_cases [safe_intros]:
  "safe f \<Longrightarrow> safe f' \<Longrightarrow> safe (if b then f else f')"
  "safe f \<Longrightarrow> (\<And>x. safe (h x)) \<Longrightarrow> safe (case opt of None \<Rightarrow> f | Some x \<Rightarrow> h x)"
  "safe f \<Longrightarrow> (\<And>x xs. safe (k x xs)) \<Longrightarrow> safe (case lst of [] \<Rightarrow> f | x # xs \<Rightarrow> k x xs)"
  "(\<And>x y. safe (p x y)) \<Longrightarrow> safe (case pr of (x, y) \<Rightarrow> p x y)"
  by (auto split: option.split list.split prod.split)

lemma safe_on_extension:
  assumes "\<And>e x e'. extension_ok e \<Longrightarrow> f e = Ret (x, e') \<Longrightarrow> extension_ok e' \<and> later True e e'"
  shows "safe (on_extension self f)"
proof (rule safeI)
  fix w x w'
  assume w: "thread_ok w" and "on_extension self f w = Ret (x, w')"
  then obtain e e' where e: "extension_at w self = Some e" and f: "f e = Ret (x, e')"
    and w': "w' = w\<lparr>extension_at := (extension_at w)(self \<mapsto> e')\<rparr>"
    by (auto simp: on_extension_def)
  from w e have "extension_ok e" by (auto simp: thread_ok_def)
  from assms [OF this f] w e show "thread_ok w' \<and> leads w w'"
    unfolding w' by (blast intro: thread_ok_put leads_put later_weaken)
qed

lemma safe_on_paths [safe_intros]:
  assumes "good_on_tables f"
  shows "safe (on_paths self f)"
  unfolding on_paths_def
proof (rule safe_on_extension)
  fix e x e'
  assume e: "extension_ok e" and "map_run (\<lambda>(x, t). (x, e\<lparr>path_table := t\<rparr>)) (f (path_table e)) = Ret (x, e')"
  then obtain t where f: "f (path_table e) = Ret (x, t)" and e': "e' = e\<lparr>path_table := t\<rparr>" by auto
  from e f assms have "extends (path_table e) t" by (auto simp: good_on_tables_def extension_ok_def)
  with e show "extension_ok e' \<and> later True e e'"
    by (auto simp: e' extension_ok_def later_def extends_def state_step_def)
qed

lemma safe_with_msg:
  "(\<And>m x m'. f m = Ret (x, m') \<Longrightarrow> is_result m \<Longrightarrow> is_result m') \<Longrightarrow> safe (with_msg self r f)"
  unfolding with_msg_def by (intro safe_intros good_put_msg)

lemma safe_new_msg [safe_intros]: "safe (new_msg self m)"
  unfolding new_msg_def by (intro safe_intros good_intros)

lemma safe_counters [safe_intros]:
  "safe (draw_id env)" "safe (read_clock env)" "safe (\<lambda>w. Ret ((), w\<lparr>clock_reads := n\<rparr>))"
  by (auto simp: safe_def draw_id_def read_clock_def thread_ok_def intro!: leads_eq)

text \<open>The calls that come back must be safe themselves.\<close>

definition env_safe :: "'u environment \<Rightarrow> bool" where
  "env_safe env \<longleftrightarrow> (\<forall>self ev. safe (invoke env self ev)) \<and> (\<forall>m. safe (dispatch env m))"

lemma env_safeD: "env_safe env \<Longrightarrow> safe (invoke env self ev)" "env_safe env \<Longrightarrow> safe (dispatch env m)"
  by (auto simp: env_safe_def)

section \<open>Messages leave\<close>

lemma set_dest_type: "ten_raw_msg_clear_and_set_dest_to_loc m l = Ret m' \<Longrightarrow> msg_type m' = msg_type m"
  by (auto simp: ten_raw_msg_clear_and_set_dest_to_loc_def ten_raw_msg_clear_and_set_dest_def split: if_splits)

lemma correct_dest_type: "ten_msg_correct_dest m e = Ret m' \<Longrightarrow> msg_type m' = msg_type m"
proof -
  have step: "correct_dest_step e i m = Ret m1 \<Longrightarrow> msg_type m1 = msg_type m" for i m1 and m :: "'a ten_msg_scheme"
    by (auto simp: correct_dest_step_def Let_def ten_msg_clear_dest_graph_id_def
        ten_msg_set_dest_engine_if_unspecified_or_predefined_graph_name_def split: if_splits)
  have "run_fold (correct_dest_step e) is m = Ret m' \<Longrightarrow> msg_type m' = msg_type m" for "is" and m :: "'a ten_msg_scheme"
    by (induction "is" arbitrary: m) (auto dest: step)
  then show "ten_msg_correct_dest m e = Ret m' \<Longrightarrow> msg_type m' = msg_type m"
    by (simp add: ten_msg_correct_dest_def)
qed

lemma validate_schema_type: "ten_msg_validate_schema mach s out m = Ret (e, m') \<Longrightarrow> msg_type m' = msg_type m"
  by (auto simp: ten_msg_validate_schema_def ten_raw_msg_validate_schema_def ten_raw_cmd_result_validate_schema_def
      check_properties_def split: TEN_MSG_TYPE.splits if_splits option.splits)

lemma safe_check [safe_intros]: "safe (check_msg_schema env self out r)"
  unfolding check_msg_schema_def
  by (intro safe_intros safe_with_msg) (auto simp: is_result_def dest: validate_schema_type)

lemma safe_send_copy [safe_intros]: "safe (send_copy env self r i l)"
  unfolding send_copy_def
  by (intro safe_intros safe_with_msg) (auto simp: is_result_def dest: set_dest_type)

lemma safe_send_copies [safe_intros]: "safe (send_copies env self r i ls)"
  by (induction ls arbitrary: i) (auto intro: safe_intros)

lemma safe_from_msg [safe_intros]: "safe (ten_extension_determine_out_msg_dest_from_msg env self r)"
  unfolding ten_extension_determine_out_msg_dest_from_msg_def
  by (intro safe_intros safe_with_msg) (auto simp: is_result_def split: if_splits)

lemma safe_from_graph [safe_intros]: "safe (ten_extension_determine_out_msg_dest_from_graph env self r)"
  unfolding ten_extension_determine_out_msg_dest_from_graph_def by (intro safe_intros)

lemma safe_determine [safe_intros]: "safe (ten_extension_determine_out_msgs env self r in_path)"
  unfolding ten_extension_determine_out_msgs_def by (intro safe_intros good_intros)

lemma safe_dispatch_all:
  "env_safe env \<Longrightarrow> safe (dispatch_all env self has_paths policy rs)"
  unfolding dispatch_all_def ten_extension_dispatch_msg_def by (intro safe_intros good_intros env_safeD)

lemma safe_send_checked: "env_safe env \<Longrightarrow> safe (send_checked env self r has_paths in_path)"
  unfolding send_checked_def
  by (intro safe_intros) (auto split: determined.split intro!: safe_intros safe_dispatch_all)

lemma safe_set_src [safe_intros]: "safe (ten_msg_set_src_to_extension self r)"
  unfolding ten_msg_set_src_to_extension_def
  by (intro safe_intros safe_with_msg) (auto simp: ten_raw_msg_set_src_def is_result_def)

lemma good_path_name: "good_on_tables (\<lambda>t. map_run (\<lambda>p. (g p, t)) (load (path_at t) a))"
  by (auto simp: good_on_tables_def intro: extends_refl)

lemma safe_handle_out: "env_safe env \<Longrightarrow> safe (ten_extension_handle_out_msg env self r)"
  unfolding ten_extension_handle_out_msg_def
  by (intro safe_intros good_intros good_path_name safe_with_msg safe_send_checked)
    (auto simp: is_result_def ten_raw_msg_clear_dest_def ten_raw_cmd_result_set_original_cmd_name_def
      dest!: correct_dest_type split: if_splits)

lemma safe_return_internal: "env_safe env \<Longrightarrow> safe (ten_env_return_result_internal env self r i s h)"
  unfolding ten_env_return_result_internal_def
  by (intro safe_intros safe_with_msg safe_handle_out env_safeD)
    (auto simp: is_result_def ten_raw_cmd_base_set_cmd_id_def ten_raw_cmd_base_set_seq_id_def Let_def split: if_splits option.splits)

lemma safe_return:
  "env_safe env \<Longrightarrow> safe (ten_env_return_result env self r target h)"
  "env_safe env \<Longrightarrow> safe (ten_env_return_result_directly env self r h)"
  unfolding ten_env_return_result_def ten_env_return_result_directly_def
  by (intro safe_intros safe_return_internal; assumption)+

section \<open>Messages are sent and arrive\<close>

lemma later_same:
  "path_table e' = path_table e \<Longrightarrow> extension_state e' = extension_state e \<Longrightarrow> instance_name e' = instance_name e \<Longrightarrow>
   extension_info e' = extension_info e \<Longrightarrow> later c e e'"
  by (simp add: later_def state_step_def)

lemma safe_send:
  assumes "env_safe env"
  shows "safe (ten_send_msg_internal env self r h d)"
  unfolding ten_send_msg_internal_def
  by (intro safe_intros safe_handle_out env_safeD assms safe_with_msg safe_on_extension)
    (auto simp: is_result_def ten_raw_cmd_base_gen_cmd_id_if_empty_def ten_raw_cmd_base_set_result_handler_def
      extension_ok_def intro: later_same)

lemma safe_ctx [safe_intros]:
  "safe (ten_cmd_result_handler_for_send_cmd_ctx_create self h d)"
  "safe (ten_cmd_result_handler_for_send_cmd_ctx_destroy self ctx)"
  unfolding ten_cmd_result_handler_for_send_cmd_ctx_create_def ten_cmd_result_handler_for_send_cmd_ctx_destroy_def
  by (intro safe_on_extension; auto simp: extension_ok_def later_def state_step_def Let_def
      intro: table_ok_next [where n = 1, simplified])+

lemma safe_send_cmd: "env_safe env \<Longrightarrow> safe (ten_env_send_cmd env self r h d)"
  unfolding ten_env_send_cmd_def by (intro safe_intros safe_send)

lemmas safe_sends = safe_send [folded ten_env_send_cmd_ex_def] safe_send [folded ten_env_send_data_def]
  safe_send [folded ten_env_send_video_frame_def] safe_send [folded ten_env_send_audio_frame_def]

lemma safe_on_msg:
  assumes "env_safe env"
  shows "safe (ten_extension_on_cmd env self r)" "safe (ten_extension_on_data env self r)"
    "safe (ten_extension_on_video_frame env self r)" "safe (ten_extension_on_audio_frame env self r)"
  unfolding ten_extension_on_cmd_def ten_extension_on_data_def ten_extension_on_video_frame_def
    ten_extension_on_audio_frame_def
  by (intro safe_intros safe_sends safe_return env_safeD assms)+

lemma safe_call_handler: "env_safe env \<Longrightarrow> safe (call_result_handler env self h d r)"
  unfolding call_result_handler_def cmd_result_handler_for_send_cmd_def
  by (intro safe_intros env_safeD)

lemma safe_validate: "env_safe env \<Longrightarrow> safe (ten_extension_validate_msg_schema env self r)"
  unfolding ten_extension_validate_msg_schema_def
  by (intro safe_intros safe_return safe_with_msg)
    (auto simp: ten_raw_cmd_result_set_status_code_def is_result_def split: if_splits)

lemma safe_all_valid: "env_safe env \<Longrightarrow> safe (all_valid env self rs)"
  by (induction rs) (auto intro: safe_intros safe_validate)

lemma safe_new_msgs [safe_intros]: "safe (new_msgs self ms)"
  by (induction self ms rule: new_msgs.induct) (auto intro!: safe_intros)

lemma safe_convert [safe_intros]: "safe (convert_msg env self r)"
proof -
  have [safe_intros]: "safe (\<lambda>w. Ret ((), w\<lparr>ids_drawn := n, extensions_info := xs\<rparr>))" for n xs
    by (auto simp: safe_def thread_ok_def intro!: leads_eq)
  show ?thesis unfolding convert_msg_def by (intro safe_intros)
qed

lemma safe_add_in_path [safe_intros]: "safe (add_in_path env self x)"
  unfolding add_in_path_def by (intro safe_intros good_intros)

lemma safe_on_type:
  assumes "env_safe env"
  shows "safe (case t of
           TEN_MSG_TYPE_CMD \<Rightarrow> ten_extension_on_cmd env self r
         | TEN_MSG_TYPE_CMD_TIMEOUT \<Rightarrow> ten_extension_on_cmd env self r
         | TEN_MSG_TYPE_DATA \<Rightarrow> ten_extension_on_data env self r
         | TEN_MSG_TYPE_AUDIO_FRAME \<Rightarrow> ten_extension_on_audio_frame env self r
         | TEN_MSG_TYPE_VIDEO_FRAME \<Rightarrow> ten_extension_on_video_frame env self r
         | _ \<Rightarrow> lift Abort)"
  using safe_on_msg [OF assms] by (cases t) (simp_all add: safe_basic)

lemma safe_deliver: "env_safe env \<Longrightarrow> safe (deliver_msg env self t r)"
  unfolding deliver_msg_def
  by (intro safe_intros safe_with_msg safe_call_handler safe_return safe_on_type)
    (auto simp: is_result_def ten_raw_msg_clear_dest_def)

lemma safe_process: "env_safe env \<Longrightarrow> safe (process_msg env self b r)"
  unfolding process_msg_def by (intro safe_intros safe_all_valid safe_deliver)

text \<open>A message that is put off has been read.\<close>

lemma safe_handle_in:
  assumes "env_safe env"
  shows "safe (ten_extension_handle_in_msg env self r)"
proof (rule safeI)
  fix w x w'
  assume w: "thread_ok w" and h: "ten_extension_handle_in_msg env self r w = Ret (x, w')"
  then obtain e m is_res where e: "extension_at w self = Some e" and m: "msg_at (path_table e) r = Some m"
    and h: "(if extension_state e < TEN_EXTENSION_STATE_ON_START_DONE \<and> \<not> is_res
       then on_extension self (\<lambda>e. Ret ((), e\<lparr>pending_msgs := pending_msgs e @ [r]\<rparr>))
       else if extension_state e \<ge> TEN_EXTENSION_STATE_ON_DEINIT then ok ()
       else if is_res
       then and_with (draw_id env) (\<lambda>uuid.
            and_with (on_paths self (\<lambda>t. handle_in_result (msg_handlers_of env) uuid t r)) (\<lambda>out.
              case out of None \<Rightarrow> ok () | Some r \<Rightarrow> process_msg env self True r))
       else process_msg env self False r) w = Ret (x, w')"
    by (auto simp: ten_extension_handle_in_msg_def and_with_def read_msg_def lift_def of_extension_def)
  show "thread_ok w' \<and> leads w w'"
  proof (cases "extension_state e < TEN_EXTENSION_STATE_ON_START_DONE \<and> \<not> is_res")
    case True
    with h e have w': "w' = w\<lparr>extension_at := (extension_at w)(self \<mapsto> e\<lparr>pending_msgs := pending_msgs e @ [r]\<rparr>)\<rparr>"
      by (simp add: on_extension_def)
    have "extension_ok e" using w e by (auto simp: thread_ok_def)
    then have "extension_ok (e\<lparr>pending_msgs := pending_msgs e @ [r]\<rparr>)" using m by (auto simp: extension_ok_def)
    then show ?thesis
      unfolding w' using w e by (simp add: thread_ok_put leads_put later_same)
  next
    case False
    have "safe (if extension_state e \<ge> TEN_EXTENSION_STATE_ON_DEINIT then ok ()
       else if is_res
       then and_with (draw_id env) (\<lambda>uuid.
            and_with (on_paths self (\<lambda>t. handle_in_result (msg_handlers_of env) uuid t r)) (\<lambda>out.
              case out of None \<Rightarrow> ok () | Some r \<Rightarrow> process_msg env self True r))
       else process_msg env self False r)"
      by (intro safe_intros good_intros safe_process assms)
    then show ?thesis by (rule safeD [OF _ w]) (use h False in simp)
  qed
qed

lemma safe_arrive: "env_safe env \<Longrightarrow> safe (arrive_at env self m)"
  unfolding arrive_at_def by (intro safe_intros safe_handle_in)

lemma safe_in_msg_sync: "env_safe env \<Longrightarrow> safe (ten_extension_thread_handle_in_msg_sync env m)"
  unfolding ten_extension_thread_handle_in_msg_sync_def
  by (intro safe_intros safe_arrive env_safeD)

lemma safe_push [safe_intros]:
  "names_one_place m \<Longrightarrow> safe (ten_engine_push_to_extension_msgs_queue m)"
  "names_one_place m \<Longrightarrow> safe (ten_app_push_to_in_msgs_queue m)"
  by (auto simp: safe_def ten_engine_push_to_extension_msgs_queue_def ten_app_push_to_in_msgs_queue_def thread_ok_def
      intro!: leads_eq)

lemma safe_dispatch:
  assumes "env_safe env"
  shows "safe (ten_extension_thread_dispatch_msg env m)"
proof (cases "\<exists>l. dest_loc m = [l] \<and> ten_loc_check_integrity l")
  case True
  then obtain l where l: "dest_loc m = [l]" "ten_loc_check_integrity l" by blast
  then have "names_one_place m" by (simp add: names_one_place_def)
  then show ?thesis
    unfolding ten_extension_thread_dispatch_msg_def l
    by (simp only: list.case) (intro safe_intros safe_in_msg_sync assms)
next
  case False
  then show ?thesis
    by (auto simp: ten_extension_thread_dispatch_msg_def intro: safe_intros split: list.split)
qed

lemma safe_in_msg_task: "env_safe env \<Longrightarrow> safe (ten_extension_thread_handle_in_msg_task env m)"
proof -
  have pend: "safe (\<lambda>w. Ret ((), w\<lparr>thread_pending_msgs := thread_pending_msgs w @ [m]\<rparr>))"
    by (auto simp: safe_def thread_ok_def intro!: leads_eq)
  assume "env_safe env"
  then have "safe (case s of
          TEN_EXTENSION_THREAD_STATE_INIT \<Rightarrow> (\<lambda>w. Ret ((), w\<lparr>thread_pending_msgs := thread_pending_msgs w @ [m]\<rparr>))
        | TEN_EXTENSION_THREAD_STATE_CREATING_EXTENSIONS \<Rightarrow>
            (\<lambda>w. Ret ((), w\<lparr>thread_pending_msgs := thread_pending_msgs w @ [m]\<rparr>))
        | TEN_EXTENSION_THREAD_STATE_NORMAL \<Rightarrow> ten_extension_thread_handle_in_msg_sync env m
        | TEN_EXTENSION_THREAD_STATE_PREPARE_TO_CLOSE \<Rightarrow> ten_extension_thread_handle_in_msg_sync env m
        | TEN_EXTENSION_THREAD_STATE_CLOSED \<Rightarrow> ok ())" for s
    by (cases s) (auto intro: pend safe_in_msg_sync safe_intros)
  then show ?thesis
    unfolding ten_extension_thread_handle_in_msg_task_def by (intro safe_intros)
qed

section \<open>An extension lives\<close>

lemma safe_flush:
  assumes "env_safe env"
  shows "safe (ten_extension_flush_all_pending_msgs env self)"
proof -
  have [safe_intros]: "safe (\<lambda>w. Ret ((), w\<lparr>thread_pending_msgs := f w\<rparr>))" for f
    by (auto simp: safe_def thread_ok_def intro!: leads_eq)
  show ?thesis
    unfolding ten_extension_flush_all_pending_msgs_def flush_thread_msg_def
    by (intro safe_intros safe_arrive safe_handle_in assms safe_on_extension)
      (auto simp: extension_ok_def intro: later_same)
qed

text \<open>A new state is safe when it follows the one it was checked for.\<close>

lemma set_state_eq:
  "set_state self s w = Ret (x, w') \<longleftrightarrow> (\<exists>e. extension_at w self = Some e \<and>
     w' = w\<lparr>extension_at := (extension_at w)(self \<mapsto> e\<lparr>extension_state := s\<rparr>)\<rparr>)"
  by (auto simp: set_state_def on_extension_def)

lemma set_state_ok:
  assumes "thread_ok w" and "extension_at w self = Some e" and "state_step (is_close_triggered w) (extension_state e) s"
  shows "thread_ok (w\<lparr>extension_at := (extension_at w)(self \<mapsto> e\<lparr>extension_state := s\<rparr>)\<rparr>) \<and>
    leads w (w\<lparr>extension_at := (extension_at w)(self \<mapsto> e\<lparr>extension_state := s\<rparr>)\<rparr>)"
proof -
  have "extension_ok e" using assms(1,2) by (auto simp: thread_ok_def)
  then have "extension_ok (e\<lparr>extension_state := s\<rparr>)" by (simp add: extension_ok_def)
  moreover have "later (is_close_triggered w) e (e\<lparr>extension_state := s\<rparr>)" using assms(3) by (simp add: later_def)
  ultimately show ?thesis using assms by (auto intro: thread_ok_put leads_put)
qed

lemma safe_advance:
  assumes "state_step True from to" and "safe f" and "safe g"
  shows "safe (and_with (of_extension self extension_state) (\<lambda>s.
    if s \<noteq> from then f else and_with (set_state self to) (\<lambda>_. g)))"
proof (rule safeI)
  fix w x w'
  assume w: "thread_ok w" and r: "and_with (of_extension self extension_state) (\<lambda>s.
    if s \<noteq> from then f else and_with (set_state self to) (\<lambda>_. g)) w = Ret (x, w')"
  then obtain e where e: "extension_at w self = Some e"
    and r: "(if extension_state e \<noteq> from then f else and_with (set_state self to) (\<lambda>_. g)) w = Ret (x, w')"
    by (auto simp: and_with_def of_extension_def)
  show "thread_ok w' \<and> leads w w'"
  proof (cases "extension_state e = from")
    case False
    with r safeD [OF assms(2) w] show ?thesis by simp
  next
    case True
    let ?w = "w\<lparr>extension_at := (extension_at w)(self \<mapsto> e\<lparr>extension_state := to\<rparr>)\<rparr>"
    from True r e have g: "g ?w = Ret (x, w')" by (auto simp: and_with_def set_state_eq)
    have "state_step (is_close_triggered w) (extension_state e) to" using assms(1) True by (simp add: state_step_def)
    from set_state_ok [OF w e this] have "thread_ok ?w" "leads w ?w" by auto
    with safeD [OF assms(3) _ g] show ?thesis by (blast intro: leads_trans)
  qed
qed

lemma safe_on_start_done: "env_safe env \<Longrightarrow> safe (ten_extension_on_start_done env self)"
  unfolding ten_extension_on_start_done_def
  by (intro safe_advance safe_intros safe_flush) (simp add: state_step_def state_order)

lemma start_from:
  assumes "env_safe env" and "thread_ok w" and "extension_at w self = Some e"
    and "state_step (is_close_triggered w) (extension_state e) TEN_EXTENSION_STATE_ON_START"
    and "ten_extension_on_start env self w = Ret (x, w')"
  shows "thread_ok w' \<and> leads w w'"
proof -
  let ?w = "w\<lparr>extension_at := (extension_at w)(self \<mapsto> e\<lparr>extension_state := TEN_EXTENSION_STATE_ON_START\<rparr>)\<rparr>"
  let ?g = "if has_callback env self OnStart then invoke env self (OnEvent OnStart None)
    else and_with (ten_extension_on_start_done env self) (\<lambda>_. ok ())"
  have g: "?g ?w = Ret (x, w')"
    using assms(3,5) by (auto simp: ten_extension_on_start_def and_with_def set_state_eq)
  have "safe ?g" by (intro safe_intros safe_on_start_done env_safeD assms(1))
  from safeD [OF this _ g] set_state_ok [OF assms(2-4)] show ?thesis by (blast intro: leads_trans)
qed

lemma safe_on_init_done:
  assumes "env_safe env"
  shows "safe (ten_extension_on_init_done env self)"
proof (rule safeI)
  fix w x w'
  assume w: "thread_ok w" and r: "ten_extension_on_init_done env self w = Ret (x, w')"
  then obtain e where e: "extension_at w self = Some e" by (auto simp: ten_extension_on_init_done_def and_with_def of_extension_def)
  let ?e = "e\<lparr>extension_state := TEN_EXTENSION_STATE_ON_INIT_DONE\<rparr>"
  let ?w = "w\<lparr>extension_at := (extension_at w)(self \<mapsto> ?e)\<rparr>"
  show "thread_ok w' \<and> leads w w'"
  proof (cases "extension_state e = TEN_EXTENSION_STATE_ON_CONFIGURE_DONE")
    case False
    with r e w show ?thesis
      by (auto simp: ten_extension_on_init_done_def and_with_def of_extension_def ok_def)
  next
    case True
    have 1: "thread_ok ?w \<and> leads w ?w"
      by (rule set_state_ok [OF w e]) (simp add: True state_step_def state_order)
    have "w' = ?w \<or> \<not> is_close_triggered w \<and> (\<exists>y. ten_extension_on_start env self ?w = Ret (y, w'))"
      using r e True by (auto simp: ten_extension_on_init_done_def and_with_def of_extension_def ok_def
          set_state_eq reading_def split: if_splits)
    with 1 show ?thesis
      using start_from [OF assms, of ?w self ?e] by (auto simp: state_step_def state_order intro: leads_trans)
  qed
qed

lemma safe_on_init: "env_safe env \<Longrightarrow> safe (ten_extension_on_init env self)"
  unfolding ten_extension_on_init_def by (intro safe_intros safe_on_init_done env_safeD)

lemma safe_merge_interfaces [safe_intros]: "safe (ten_extension_determine_and_merge_all_interface_dest_extension self)"
proof -
  have [safe_intros]: "safe (\<lambda>w. Ret ((), w\<lparr>extensions_info := xs\<rparr>))" for xs
    by (auto simp: safe_def thread_ok_def intro!: leads_eq)
  show ?thesis
    unfolding ten_extension_determine_and_merge_all_interface_dest_extension_def by (intro safe_intros)
qed

lemma safe_on_configure_done: "env_safe env \<Longrightarrow> safe (ten_extension_on_configure_done env self store)"
  unfolding ten_extension_on_configure_done_def
  by (intro safe_advance safe_intros safe_on_init safe_on_extension)
    (auto simp: state_step_def state_order extension_ok_def intro: later_same)

lemma safe_on_deinit_done [safe_intros]: "safe (ten_extension_on_deinit_done self)"
proof (rule safeI)
  fix w x w'
  assume w: "thread_ok w" and r: "ten_extension_on_deinit_done self w = Ret (x, w')"
  then obtain e where e: "extension_at w self = Some e" by (auto simp: ten_extension_on_deinit_done_def and_with_def of_extension_def)
  let ?w = "w\<lparr>extension_at := (extension_at w)(self \<mapsto> e\<lparr>extension_state := TEN_EXTENSION_STATE_ON_DEINIT_DONE\<rparr>)\<rparr>"
  let ?w' = "?w\<lparr>extension_store := filter (\<lambda>(_, x). x \<noteq> self) (extension_store w),
     extensions_cnt_of_deleted := extensions_cnt_of_deleted w + 1\<rparr>"
  have "w' = w \<or> w' = ?w' \<and> extension_state e = TEN_EXTENSION_STATE_ON_DEINIT"
    using r e by (auto simp: ten_extension_on_deinit_done_def and_with_def of_extension_def ok_def set_state_eq split: if_splits)
  then show "thread_ok w' \<and> leads w w'"
  proof
    assume "w' = ?w' \<and> extension_state e = TEN_EXTENSION_STATE_ON_DEINIT"
    moreover from this have "thread_ok ?w \<and> leads w ?w"
      by (intro set_state_ok [OF w e]) (simp add: state_step_def state_order)
    moreover have "thread_ok ?w'" if "thread_ok ?w" using that by (auto simp: thread_ok_def)
    moreover have "leads ?w ?w'" by (rule leads_eq) simp_all
    ultimately show ?thesis by (blast intro: leads_trans)
  qed (use w in simp)
qed

lemma safe_remaining_paths: "env_safe env \<Longrightarrow> safe (ten_extension_thread_process_remaining_paths env self)"
  unfolding ten_extension_thread_process_remaining_paths_def
  by (intro safe_intros good_intros safe_arrive)

end
