(* ===== verification/Extension_Run.thy ===== *)
theory Extension_Run
  imports Extension_Safe
begin

text \<open>
  The threads of extension groups as a whole: the code of the extensions is a program over the calls of
  \<open>ten_env\<close>, the calls that come back are tied to it up to a depth of the stack, and a thread runs the
  tasks of its loop.  Whatever the code does, what \<open>Extension_Safe\<close> says of single operations holds of
  every state a thread can reach.
\<close>

section \<open>The end of an extension\<close>

lemma leads_restate:
  assumes "leads (w\<lparr>extension_at := (extension_at w)(a \<mapsto> e\<lparr>extension_state := s\<rparr>)\<rparr>) w1"
    and "extension_at w a = Some e" and "extension_at w1 a = Some e1" and "state_step (is_close_triggered w) (extension_state e) s1"
  shows "leads w (w1\<lparr>extension_at := (extension_at w1)(a \<mapsto> e1\<lparr>extension_state := s1\<rparr>)\<rparr>)"
  unfolding leads_def
proof (intro conjI allI impI)
  fix b eb
  assume b: "extension_at w b = Some eb"
  show "\<exists>e'. extension_at (w1\<lparr>extension_at := (extension_at w1)(a \<mapsto> e1\<lparr>extension_state := s1\<rparr>)\<rparr>) b = Some e' \<and> later (is_close_triggered w) eb e'"
  proof (cases "b = a")
    case True
    have "later (is_close_triggered w) (e\<lparr>extension_state := s\<rparr>) e1" using leadsD [OF assms(1), of a] assms(3) by auto
    then show ?thesis using True b assms(2,4) by (auto simp: later_def)
  next
    case False
    then show ?thesis using b leadsD [OF assms(1), of b] by auto
  qed
next
  show "extension_at (w1\<lparr>extension_at := (extension_at w1)(a \<mapsto> e1\<lparr>extension_state := s1\<rparr>)\<rparr>) b = None"
    if "extension_at w b = None" for b
  proof -
    have "b \<noteq> a" using that assms(2) by auto
    with that assms(1) show ?thesis unfolding leads_def by auto
  qed
qed (use assms(1) in \<open>auto simp: leads_def\<close>)

lemma state_stays:
  assumes "leads w w'" and "extension_at w a = Some e" and "extension_state e = TEN_EXTENSION_STATE_ON_STOP_DONE"
  obtains e' where "extension_at w' a = Some e'" "extension_state e' = TEN_EXTENSION_STATE_ON_STOP_DONE"
proof -
  from leadsD [OF assms(1,2)] obtain e' where "extension_at w' a = Some e'" "later (is_close_triggered w) e e'" by blast
  with that assms(3) show thesis by (auto simp: later_def state_step_def)
qed

text \<open>The paths are flushed while the extension is in the state \<open>ON_STOP_DONE\<close>; seen from any earlier
  state, the end of the extension is a step forward.\<close>

lemma close_from:
  assumes env: "env_safe env" and w: "thread_ok w" and e: "extension_at w self = Some e"
    and early: "extension_state e = TEN_EXTENSION_STATE_ON_START_DONE"
    and close: "ten_extension_do_close env self
      (w\<lparr>extension_at := (extension_at w)(self \<mapsto> e\<lparr>extension_state := TEN_EXTENSION_STATE_ON_STOP_DONE\<rparr>)\<rparr>) = Ret (x, w')"
  shows "thread_ok w' \<and> leads w w' \<and>
    (\<exists>e'. extension_at w' self = Some e' \<and> TEN_EXTENSION_STATE_ON_DEINIT \<le> extension_state e')"
proof -
  let ?w = "w\<lparr>extension_at := (extension_at w)(self \<mapsto> e\<lparr>extension_state := TEN_EXTENSION_STATE_ON_STOP_DONE\<rparr>)\<rparr>"
  have "extension_ok e" using w e by (auto simp: thread_ok_def)
  then have w0: "thread_ok ?w" using w by (intro thread_ok_put) (auto simp: extension_ok_def)
  from close obtain y w1 where p: "ten_extension_thread_process_remaining_paths env self ?w = Ret (y, w1)"
    and d: "ten_extension_on_deinit env self w1 = Ret (x, w')"
    by (auto simp: ten_extension_do_close_def and_with_def)
  from safeD [OF safe_remaining_paths [OF env] w0 p] have w1: "thread_ok w1" "leads ?w w1" by auto
  from state_stays [OF w1(2), of self "e\<lparr>extension_state := TEN_EXTENSION_STATE_ON_STOP_DONE\<rparr>"]
  obtain e1 where e1: "extension_at w1 self = Some e1" "extension_state e1 = TEN_EXTENSION_STATE_ON_STOP_DONE" by auto
  let ?w2 = "w1\<lparr>extension_at := (extension_at w1)(self \<mapsto> e1\<lparr>extension_state := TEN_EXTENSION_STATE_ON_DEINIT\<rparr>)\<rparr>"
  have "extension_ok e1" using w1 e1 by (auto simp: thread_ok_def)
  then have w2: "thread_ok ?w2" using w1(1) by (intro thread_ok_put) (auto simp: extension_ok_def)
  have l: "leads w ?w2"
    by (rule leads_restate [OF w1(2) e e1(1)]) (use early in \<open>auto simp: state_step_def state_order\<close>)
  let ?g = "if has_callback env self OnDeinit then invoke env self (OnEvent OnDeinit None)
    else and_with (ten_extension_on_deinit_done self) (\<lambda>_. ok ())"
  have g: "?g ?w2 = Ret (x, w')" using d e1 by (auto simp: ten_extension_on_deinit_def and_with_def set_state_eq)
  have "safe ?g" by (intro safe_intros env_safeD env)
  from safeD [OF this w2 g] have w': "thread_ok w'" "leads ?w2 w'" by auto
  from leadsD [OF w'(2), of self] have "\<exists>e'. extension_at w' self = Some e' \<and> TEN_EXTENSION_STATE_ON_DEINIT \<le> extension_state e'"
    by (auto simp: later_def state_step_def)
  with w' l show ?thesis by (blast intro: leads_trans)
qed

lemma safe_on_stop_done:
  assumes env: "env_safe env"
  shows "safe (ten_extension_on_stop_done env self)"
proof (rule safeI)
  fix w x w'
  assume w: "thread_ok w" and r: "ten_extension_on_stop_done env self w = Ret (x, w')"
  then obtain e where e: "extension_at w self = Some e" by (auto simp: ten_extension_on_stop_done_def and_with_def of_extension_def)
  let ?w = "w\<lparr>extension_at := (extension_at w)(self \<mapsto> e\<lparr>extension_state := TEN_EXTENSION_STATE_ON_STOP_DONE\<rparr>)\<rparr>"
  show "thread_ok w' \<and> leads w w'"
  proof (cases "extension_state e = TEN_EXTENSION_STATE_ON_START_DONE")
    case False
    with r e w show ?thesis by (auto simp: ten_extension_on_stop_done_def and_with_def of_extension_def ok_def)
  next
    case True
    have "w' = ?w \<or> (\<exists>y. ten_extension_do_close env self ?w = Ret (y, w'))"
      using r e True by (auto simp: ten_extension_on_stop_done_def and_with_def of_extension_def ok_def set_state_eq
          ten_extension_do_pre_close_action_def split: if_splits)
    moreover have "thread_ok ?w \<and> leads w ?w"
      by (rule set_state_ok [OF w e]) (simp add: True state_step_def state_order)
    ultimately show ?thesis using close_from [OF env w e True] by blast
  qed
qed

lemma safe_on_stop: "env_safe env \<Longrightarrow> safe (ten_extension_on_stop env self)"
  unfolding ten_extension_on_stop_def by (intro safe_intros safe_on_stop_done env_safeD)

section \<open>The code of extensions\<close>

text \<open>The calls an extension may make while it runs, their answers, and programs over them.  \<open>Change\<close> is
  whatever an extension does to a message of its own but for the type of it.\<close>

datatype api_call =
    SendMsg nat "nat option" "nat option"
  | SendCmd nat "nat option" "nat option"
  | ReturnResult nat nat "(nat \<times> nat option) option"
  | ReturnResultDirectly nat "(nat \<times> nat option) option"
  | OnConfigureDone ten_schema_store
  | OnInitDone | OnStartDone | OnStopDone | OnDeinitDone
  | NewMessage message
  | Look nat
  | Change nat "message \<Rightarrow> message"

datatype answer = Success | Failure "ten_error option" | Address nat | Contents message

definition answer_of :: "(ten_error option, 'u) step \<Rightarrow> (answer, 'u) step" where
  "answer_of f = and_with f (\<lambda>e. ok (if e = None then Success else Failure e))"

definition answer_bool :: "(bool, 'u) step \<Rightarrow> (answer, 'u) step" where
  "answer_bool f = and_with f (\<lambda>b. ok (if b then Success else Failure None))"

fun run_call :: "'u environment \<Rightarrow> nat \<Rightarrow> api_call \<Rightarrow> (answer, 'u) step" where
  "run_call env self (SendMsg r h d) = answer_of (ten_env_send_cmd_ex env self r (map_option Suc h) d)"
| "run_call env self (SendCmd r h d) = answer_of (ten_env_send_cmd env self r (map_option Suc h) d)"
| "run_call env self (ReturnResult r target h) = answer_of (ten_env_return_result env self r target h)"
| "run_call env self (ReturnResultDirectly r h) = answer_of (ten_env_return_result_directly env self r h)"
| "run_call env self (OnConfigureDone store) = answer_bool (ten_extension_on_configure_done env self store)"
| "run_call env self OnInitDone = answer_bool (ten_extension_on_init_done env self)"
| "run_call env self OnStartDone = answer_bool (ten_extension_on_start_done env self)"
| "run_call env self OnStopDone = answer_bool (ten_extension_on_stop_done env self)"
| "run_call env self OnDeinitDone = answer_bool (ten_extension_on_deinit_done self)"
| "run_call env self (NewMessage m) = and_with (new_msg self m) (\<lambda>r. ok (Address r))"
| "run_call env self (Look r) = and_with (read_msg self r) (\<lambda>m. ok (Contents m))"
| "run_call env self (Change r f) =
     and_with (with_msg self r (\<lambda>m. Ret ((), (f m)\<lparr>msg_type := msg_type m\<rparr>))) (\<lambda>_. ok Success)"

datatype (dead 'u) program =
    Finish
  | Call api_call "answer \<Rightarrow> 'u program"
  | Local "'u \<Rightarrow> 'u" "'u \<Rightarrow> 'u program"

primrec run_program :: "'u environment \<Rightarrow> nat \<Rightarrow> 'u program \<Rightarrow> (unit, 'u) step" where
  "run_program env self Finish = ok ()"
| "run_program env self (Call c k) = and_with (run_call env self c) (\<lambda>a. run_program env self (k a))"
| "run_program env self (Local f k) =
     (let rest = (\<lambda>u. run_program env self (k u))
      in (\<lambda>w. rest (f (user_state w)) (w\<lparr>user_state := f (user_state w)\<rparr>)))"

text \<open>The depth of the stack: every call of the code of an extension and every message that is handled
  while it is sent takes a frame, and without frames nothing is defined any more.\<close>

fun stack :: "'u environment \<Rightarrow> (nat \<Rightarrow> event \<Rightarrow> 'u program) \<Rightarrow> nat \<Rightarrow> 'u environment" where
  "stack base code 0 = base\<lparr>invoke := \<lambda>_ _. lift Undef, dispatch := \<lambda>_. lift Undef\<rparr>"
| "stack base code (Suc n) = base\<lparr>
     invoke := \<lambda>self ev. run_program (stack base code n) self (code self ev),
     dispatch := ten_extension_thread_dispatch_msg (stack base code n)\<rparr>"

lemma safe_call: "env_safe env \<Longrightarrow> safe (run_call env self c)"
  by (cases c; simp add: answer_of_def answer_bool_def;
      intro safe_intros safe_sends safe_send_cmd safe_return safe_on_configure_done safe_on_init_done
        safe_on_start_done safe_on_stop_done safe_with_msg; auto simp: is_result_def)

lemma safe_program: "env_safe env \<Longrightarrow> safe (run_program env self p)"
proof (induction p)
  case (Local f k)
  show ?case
  proof (rule safeI)
    fix w x w'
    assume w: "thread_ok w" and r: "run_program env self (Local f k) w = Ret (x, w')"
    let ?w = "w\<lparr>user_state := f (user_state w)\<rparr>"
    have s: "safe (run_program env self (k (f (user_state w))))" by (rule Local.IH [OF rangeI Local.prems])
    have "thread_ok ?w" using w by (simp add: thread_ok_def)
    moreover have "leads w ?w" by (rule leads_eq) simp_all
    ultimately show "thread_ok w' \<and> leads w w'"
      using safeD [OF s, of ?w x w'] r by (auto intro: leads_trans)
  qed
qed (auto intro: safe_intros safe_call)

lemma stack_safe: "env_safe (stack base code n)"
proof (induction n)
  case (Suc n)
  then show ?case by (simp add: env_safe_def safe_program safe_dispatch)
qed (simp add: env_safe_def safe_basic)

section \<open>Tasks of a thread\<close>

datatype 'u task =
    Arrive message
  | Start nat
  | InPathTimer nat
  | OutPathTimer nat
  | TimerClosed nat
  | Close
  | RunCode nat "'u program"

fun run_task :: "'u environment \<Rightarrow> 'u task \<Rightarrow> (unit, 'u) step" where
  "run_task env (Arrive m) = ten_extension_thread_handle_in_msg_task env m"
| "run_task env (Start self) = ten_extension_on_init env self"
| "run_task env (InPathTimer self) = in_path_timer_on_triggered env self"
| "run_task env (OutPathTimer self) = out_path_timer_on_triggered env self"
| "run_task env (TimerClosed self) = ten_extension_on_timer_closed env self"
| "run_task env Close = ten_extension_thread_on_triggering_close env"
| "run_task env (RunCode self p) = run_program env self p"

text \<open>The timers of an extension are closed by \<open>ten_extension_do_pre_close_action\<close> only.\<close>

fun enabled :: "'u task \<Rightarrow> 'u extension_thread \<Rightarrow> bool" where
  "enabled (TimerClosed self) w \<longleftrightarrow> (case extension_at w self of
     None \<Rightarrow> False
   | Some e \<Rightarrow> extension_state e = TEN_EXTENSION_STATE_ON_STOP_DONE \<and> path_timers e > 0)"
| "enabled _ w \<longleftrightarrow> True"

text \<open>A new extension, and a new thread with some of them.\<close>

definition new_extension :: "ten_extension \<Rightarrow> bool" where
  "new_extension e \<longleftrightarrow> extension_state e = TEN_EXTENSION_STATE_INIT \<and> pending_msgs e = [] \<and>
     path_table e = ten_path_table_create (attached_target (path_table e))"

definition new_thread :: "'u extension_thread \<Rightarrow> bool" where
  "new_thread w \<longleftrightarrow> (\<forall>a e. extension_at w a = Some e \<longrightarrow> new_extension e) \<and>
     (\<forall>(n, a) \<in> set (extension_store w). extension_at w a \<noteq> None) \<and> engine_msgs w = [] \<and> app_msgs w = []"

inductive runs :: "'u environment \<Rightarrow> (nat \<Rightarrow> event \<Rightarrow> 'u program) \<Rightarrow> 'u extension_thread \<Rightarrow> 'u extension_thread \<Rightarrow> bool"
  for base :: "'u environment" and code :: "nat \<Rightarrow> event \<Rightarrow> 'u program" where
  stays: "runs base code w w"
| goes: "runs base code w w1 \<Longrightarrow> enabled t w1 \<Longrightarrow> run_task (stack base code depth) t w1 = Ret ((), w2) \<Longrightarrow>
    runs base code w w2"

text \<open>How a run changes the states of the extensions.\<close>

definition forward :: "'u extension_thread \<Rightarrow> 'u extension_thread \<Rightarrow> bool" where
  "forward w w' \<longleftrightarrow> (is_close_triggered w \<longrightarrow> is_close_triggered w') \<and>
     (\<forall>a e. extension_at w a = Some e \<longrightarrow> (\<exists>e'. extension_at w' a = Some e' \<and> instance_name e' = instance_name e \<and>
        extension_state e \<le> extension_state e' \<and>
        (is_close_triggered w \<and> extension_state e < TEN_EXTENSION_STATE_ON_START \<longrightarrow>
         extension_state e' < TEN_EXTENSION_STATE_ON_START)))"

lemma forward_refl [simp]: "forward w w"
  by (simp add: forward_def)

lemma forwardD: "forward w w' \<Longrightarrow> extension_at w a = Some e \<Longrightarrow> \<exists>e'. extension_at w' a = Some e' \<and>
    instance_name e' = instance_name e \<and> extension_state e \<le> extension_state e' \<and>
    (is_close_triggered w \<and> extension_state e < TEN_EXTENSION_STATE_ON_START \<longrightarrow>
     extension_state e' < TEN_EXTENSION_STATE_ON_START)"
  unfolding forward_def by blast

lemma forward_trans:
  assumes "forward w w1" and "forward w1 w2"
  shows "forward w w2"
  unfolding forward_def
proof (intro conjI allI impI)
  fix a e
  assume "extension_at w a = Some e"
  from forwardD [OF assms(1) this] obtain e1 where 1: "extension_at w1 a = Some e1" "instance_name e1 = instance_name e"
    "extension_state e \<le> extension_state e1" "is_close_triggered w \<and> extension_state e < TEN_EXTENSION_STATE_ON_START \<longrightarrow>
     extension_state e1 < TEN_EXTENSION_STATE_ON_START" by blast
  from forwardD [OF assms(2) 1(1)] obtain e2 where 2: "extension_at w2 a = Some e2" "instance_name e2 = instance_name e1"
    "extension_state e1 \<le> extension_state e2" "is_close_triggered w1 \<and> extension_state e1 < TEN_EXTENSION_STATE_ON_START \<longrightarrow>
     extension_state e2 < TEN_EXTENSION_STATE_ON_START" by blast
  have "is_close_triggered w \<longrightarrow> is_close_triggered w1" using assms(1) by (simp add: forward_def)
  with 1 2 show "\<exists>e'. extension_at w2 a = Some e' \<and> instance_name e' = instance_name e \<and>
      extension_state e \<le> extension_state e' \<and>
      (is_close_triggered w \<and> extension_state e < TEN_EXTENSION_STATE_ON_START \<longrightarrow>
       extension_state e' < TEN_EXTENSION_STATE_ON_START)"
    by (intro exI [of _ e2]) (auto intro: order_trans)
qed (use assms in \<open>auto simp: forward_def\<close>)

lemma leads_forward: "leads w w' \<Longrightarrow> forward w w'"
  unfolding leads_def forward_def later_def state_step_def by blast

lemma timer_closed_ok:
  assumes env: "env_safe env" and w: "thread_ok w" and e: "extension_at w self = Some e"
    and stopped: "extension_state e = TEN_EXTENSION_STATE_ON_STOP_DONE"
    and r: "ten_extension_on_timer_closed env self w = Ret (x, w')"
  shows "thread_ok w' \<and> forward w w'"
proof -
  let ?e = "e\<lparr>path_timers := path_timers e - 1\<rparr>"
  let ?w = "w\<lparr>extension_at := (extension_at w)(self \<mapsto> ?e)\<rparr>"
  let ?s = "TEN_EXTENSION_STATE_ON_START_DONE"
  let ?v = "w\<lparr>extension_at := (extension_at w)(self \<mapsto> ?e\<lparr>extension_state := ?s\<rparr>)\<rparr>"
  have ok: "extension_ok e" using w e by (auto simp: thread_ok_def)
  have "w' = ?w \<or> (\<exists>y. ten_extension_do_close env self ?w = Ret (y, w'))"
    using r e by (auto simp: ten_extension_on_timer_closed_def and_with_def on_extension_def of_extension_def ok_def split: if_splits)
  then show ?thesis
  proof
    assume "w' = ?w"
    moreover have "thread_ok ?w" using ok by (intro thread_ok_put w) (simp add: extension_ok_def)
    moreover have "leads w ?w" by (rule leads_put [OF e]) (simp add: later_same)
    ultimately show ?thesis by (simp add: leads_forward)
  next
    assume "\<exists>y. ten_extension_do_close env self ?w = Ret (y, w')"
    then obtain y where c: "ten_extension_do_close env self ?w = Ret (y, w')" ..
    have v: "thread_ok ?v" using ok by (intro thread_ok_put w) (simp add: extension_ok_def)
    have "?e\<lparr>extension_state := ?s, extension_state := TEN_EXTENSION_STATE_ON_STOP_DONE\<rparr> = ?e"
      using stopped by (cases e) simp
    then have "?v\<lparr>extension_at := (extension_at ?v)(self \<mapsto>
        ?e\<lparr>extension_state := ?s, extension_state := TEN_EXTENSION_STATE_ON_STOP_DONE\<rparr>)\<rparr> = ?w"
      by simp
    with c have c: "ten_extension_do_close env self (?v\<lparr>extension_at := (extension_at ?v)(self \<mapsto>
        ?e\<lparr>extension_state := ?s, extension_state := TEN_EXTENSION_STATE_ON_STOP_DONE\<rparr>)\<rparr>) = Ret (y, w')" by simp
    have "thread_ok w' \<and> leads ?v w' \<and>
        (\<exists>e'. extension_at w' self = Some e' \<and> TEN_EXTENSION_STATE_ON_DEINIT \<le> extension_state e')"
      by (rule close_from [OF env v _ _ c]) simp_all
    then obtain e' where w': "thread_ok w'" "leads ?v w'" "extension_at w' self = Some e'"
      "TEN_EXTENSION_STATE_ON_DEINIT \<le> extension_state e'" by blast
    have "forward w w'"
      unfolding forward_def
    proof (intro conjI allI impI)
      fix a ea
      assume a: "extension_at w a = Some ea"
      show "\<exists>e'. extension_at w' a = Some e' \<and> instance_name e' = instance_name ea \<and> extension_state ea \<le> extension_state e' \<and>
        (is_close_triggered w \<and> extension_state ea < TEN_EXTENSION_STATE_ON_START \<longrightarrow>
         extension_state e' < TEN_EXTENSION_STATE_ON_START)"
      proof (cases "a = self")
        case True
        from leadsD [OF w'(2), of self] w'(3) have "instance_name e' = instance_name e" by (auto simp: later_def)
        with True a e stopped w'(3,4) show ?thesis by (auto simp: state_order)
      next
        case False
        with leadsD [OF w'(2), of a] a show ?thesis by (auto simp: later_def state_step_def)
      qed
    next
      show "is_close_triggered w'" if "is_close_triggered w" using that w'(2) by (simp add: leads_def)
    qed
    with w'(1) show ?thesis by simp
  qed
qed

lemma safe_close:
  assumes "env_safe env"
  shows "safe (ten_extension_thread_on_triggering_close env)"
proof -
  have stop: "safe (ten_extension_thread_stop_life_cycle_of_all_extensions env)"
  proof -
    have [safe_intros]: "safe (\<lambda>w. Ret (extensions w, w\<lparr>thread_state := s\<rparr>))" for s
      by (auto simp: safe_def thread_ok_def intro!: leads_eq)
    show ?thesis
      unfolding ten_extension_thread_stop_life_cycle_of_all_extensions_def
      by (intro safe_intros safe_on_stop assms)
  qed
  have close [safe_intros]: "safe (\<lambda>w. Ret (thread_state w, w\<lparr>is_close_triggered := True\<rparr>))"
    by (auto simp: safe_def thread_ok_def intro!: leads_eq)
  have "safe (case state of
           TEN_EXTENSION_THREAD_STATE_INIT \<Rightarrow> ok ()
         | TEN_EXTENSION_THREAD_STATE_CREATING_EXTENSIONS \<Rightarrow> ok ()
         | TEN_EXTENSION_THREAD_STATE_NORMAL \<Rightarrow> ten_extension_thread_stop_life_cycle_of_all_extensions env
         | _ \<Rightarrow> lift Abort)" for state
    by (cases state) (simp_all add: stop safe_basic)
  then show ?thesis
    unfolding ten_extension_thread_on_triggering_close_def by (intro safe_intros)
qed

lemma safe_timers:
  "safe (in_path_timer_on_triggered env self)"
  "env_safe env \<Longrightarrow> safe (out_path_timer_on_triggered env self)"
  unfolding in_path_timer_on_triggered_def out_path_timer_on_triggered_def
  by (intro safe_intros good_intros safe_arrive; assumption?)+

lemma task_ok:
  assumes env: "env_safe env" and w: "thread_ok w" and on: "enabled t w" and r: "run_task env t w = Ret (x, w')"
  shows "thread_ok w' \<and> forward w w'"
proof (cases t)
  case (TimerClosed self)
  with on obtain e where "extension_at w self = Some e" "extension_state e = TEN_EXTENSION_STATE_ON_STOP_DONE"
    by (auto split: option.splits)
  from timer_closed_ok [OF env w this] r TimerClosed show ?thesis by simp
next
  case (Start self)
  with r safeD [OF safe_on_init [OF env] w] show ?thesis by (auto intro: leads_forward)
next
  case (Arrive m)
  with r safeD [OF safe_in_msg_task [OF env] w] show ?thesis by (auto intro: leads_forward)
next
  case (InPathTimer self)
  with r safeD [OF safe_timers(1) w] show ?thesis by (auto intro: leads_forward)
next
  case (OutPathTimer self)
  with r safeD [OF safe_timers(2) [OF env] w] show ?thesis by (auto intro: leads_forward)
next
  case Close
  with r safeD [OF safe_close [OF env] w] show ?thesis by (auto intro: leads_forward)
next
  case (RunCode self p)
  with r safeD [OF safe_program [OF env] w] show ?thesis by (auto intro: leads_forward)
qed

lemma runs_ok:
  assumes "runs base code w w'" and "thread_ok w"
  shows "thread_ok w' \<and> forward w w'"
  using assms
proof induction
  case (goes w w1 t depth w2)
  with task_ok [OF stack_safe _ goes.hyps(2,3)] show ?case by (blast intro: forward_trans)
qed simp

lemma new_thread_ok:
  assumes "new_thread w"
  shows "thread_ok w"
proof -
  have "extension_ok e" if "new_extension e" for e
  proof -
    have "table_ok (path_table e)" using that table_ok_create [of "attached_target (path_table e)"] by (simp add: new_extension_def)
    with that show ?thesis by (simp add: new_extension_def extension_ok_def)
  qed
  with assms show ?thesis by (auto simp: new_thread_def thread_ok_def)
qed

section \<open>Every state that a thread reaches\<close>

text \<open>C1: Whatever the extensions of a thread do, whichever messages arrive and timers fire in whichever
  order, in every state the thread reaches the path table of each extension is consistent - paths are
  listed once, ids of IN paths differ, a group lists exactly its paths and each cached result is there -
  and every message that waits for the start of an extension is there; each message that was handed to
  the engine or to the app names exactly one place.\<close>

theorem thread_stays_consistent:
  assumes "new_thread w" and "runs base code w w'" and "extension_at w' a = Some e"
  shows "table_ok (path_table e) \<and> (\<forall>r \<in> set (pending_msgs e). msg_at (path_table e) r \<noteq> None) \<and>
    (\<forall>m \<in> set (engine_msgs w') \<union> set (app_msgs w'). \<exists>l. dest_loc m = [l] \<and> ten_loc_check_integrity l)"
proof -
  have "thread_ok w'" using runs_ok [OF assms(2) new_thread_ok [OF assms(1)]] by simp
  with assms(3) show ?thesis
    unfolding thread_ok_def extension_ok_def names_one_place_def by blast
qed

text \<open>C4: Whatever their code calls, no extension of a thread is lost or renamed and none goes back to an
  earlier state: between any two moments of a run the state of every extension stays or goes forward.
  And an extension that has not come to its \<open>on_start\<close> when the thread is told to close never starts and
  never stops: its state stays before \<open>ON_START\<close>, in which \<open>on_stop_done\<close> and \<open>on_deinit_done\<close> are
  refused and change nothing, so the thread waits for it for ever.\<close>

theorem closing_before_start_never_ends:
  assumes "new_thread w0" and "runs base code w0 w" and "runs base code w w'" and "extension_at w a = Some e"
  shows "\<exists>e'. extension_at w' a = Some e' \<and> instance_name e' = instance_name e \<and>
    extension_state e \<le> extension_state e' \<and>
    (is_close_triggered w \<and> extension_state e < TEN_EXTENSION_STATE_ON_START \<longrightarrow>
       extension_state e' < TEN_EXTENSION_STATE_ON_START \<and>
       ten_extension_on_stop_done env a w' = Ret (False, w') \<and> ten_extension_on_deinit_done a w' = Ret (False, w'))"
proof -
  have "thread_ok w" using runs_ok [OF assms(2) new_thread_ok [OF assms(1)]] by simp
  then have "forward w w'" using runs_ok [OF assms(3)] by simp
  from forwardD [OF this assms(4)] obtain e' where e': "extension_at w' a = Some e'"
    "instance_name e' = instance_name e" "extension_state e \<le> extension_state e'"
    "is_close_triggered w \<and> extension_state e < TEN_EXTENSION_STATE_ON_START \<longrightarrow>
       extension_state e' < TEN_EXTENSION_STATE_ON_START" by blast
  have "ten_extension_on_stop_done env a w' = Ret (False, w') \<and> ten_extension_on_deinit_done a w' = Ret (False, w')"
    if "extension_state e' < TEN_EXTENSION_STATE_ON_START"
    using that e'(1) by (auto simp: ten_extension_on_stop_done_def ten_extension_on_deinit_done_def and_with_def
        of_extension_def ok_def state_order)
  with e' show ?thesis by blast
qed

text \<open>A thread with one extension that has no code, told to close before the extension is configured.\<close>

definition example_environment :: "unit environment" where
  "example_environment = \<lparr>id_at = (\<lambda>n. ''id'' @ show_nat n), time_at = int,
     msg_handlers_of = \<lparr>clone_other = (\<lambda>m _. Ret m), set_other_property = (\<lambda>m _ _. (False, m)), peek_other_property = (\<lambda>_ _. None)\<rparr>,
     compiled_on = indefinite_machine, debug_build = False, has_callback = (\<lambda>_ _. False),
     invoke = (\<lambda>_ _. lift Undef), dispatch = (\<lambda>_. lift Undef)\<rparr>"

definition example_extension :: ten_extension where
  "example_extension = \<lparr>instance_name = ''e'', extension_state = TEN_EXTENSION_STATE_INIT, extension_info = None,
     schema_store = ten_schema_store_init, path_table = ten_path_table_create (OwnedByExtension 10 20), pending_msgs = [],
     not_connected_counts = [], send_cmd_ctx_at = (\<lambda>_. None), path_timers = 0, ten_proxies = 0\<rparr>"

definition example_thread :: "unit extension_thread" where
  "example_thread = \<lparr>thread_state = TEN_EXTENSION_THREAD_STATE_NORMAL, is_close_triggered = False, extensions_cnt_of_deleted = 0,
     thread_engine = \<lparr>engine_addr = 0, engine_graph_id = ''G'', engine_app_uri = ''here'', predefined_graph_infos = []\<rparr>,
     group_name = ''g'', extensions_info = [], extensions = [0], extension_store = [(''e'', 0)],
     extension_at = [0 \<mapsto> example_extension], thread_pending_msgs = [], engine_msgs = [], app_msgs = [],
     ids_drawn = 0, clock_reads = 0, user_state = ()\<rparr>"

lemma example_new: "new_thread example_thread"
  by (simp add: new_thread_def example_thread_def new_extension_def example_extension_def ten_path_table_create_def)

definition example_closing :: "unit extension_thread" where
  "example_closing = example_thread\<lparr>is_close_triggered := True, thread_state := TEN_EXTENSION_THREAD_STATE_PREPARE_TO_CLOSE\<rparr>"

lemma example_closes: "runs example_environment (\<lambda>_ _. Finish) example_thread example_closing"
proof -
  have "run_task (stack example_environment (\<lambda>_ _. Finish) 0) Close example_thread = Ret ((), example_closing)"
    by (simp add: ten_extension_thread_on_triggering_close_def ten_extension_thread_stop_life_cycle_of_all_extensions_def
        ten_extension_on_stop_def ten_extension_on_stop_done_def and_with_def reading_def of_extension_def ok_def
        example_thread_def example_closing_def example_environment_def example_extension_def)
  from runs.goes [OF runs.stays _ this] show ?thesis by simp
qed

theorem thread_stays_consistent_witness:
  "table_ok (path_table (the (extension_at example_closing 0)))"
  using thread_stays_consistent [OF example_new example_closes, of 0 example_extension]
  by (simp add: example_closing_def example_thread_def)

theorem closing_before_start_never_ends_witness:
  "\<exists>e'. extension_at example_closing 0 = Some e' \<and> TEN_EXTENSION_STATE_INIT \<le> extension_state e' \<and>
     extension_state e' < TEN_EXTENSION_STATE_ON_START \<and>
     ten_extension_on_stop_done example_environment 0 example_closing = Ret (False, example_closing) \<and>
     ten_extension_on_deinit_done 0 example_closing = Ret (False, example_closing)"
proof -
  have e: "extension_at example_closing 0 = Some example_extension"
    by (simp add: example_closing_def example_thread_def)
  have s: "is_close_triggered example_closing \<and> extension_state example_extension < TEN_EXTENSION_STATE_ON_START"
    "extension_state example_extension = TEN_EXTENSION_STATE_INIT"
    by (simp_all add: example_closing_def example_extension_def state_order)
  from closing_before_start_never_ends [OF example_new example_closes runs.stays e, of example_environment] s
  show ?thesis by auto
qed

end
