(* ===== verification/Extension_Send.thy ===== *)
theory Extension_Send
  imports Extension_Run
begin

text \<open>
  What becomes of a command that an extension sends: which messages leave, where they go, and which
  paths wait for their results.
\<close>

section \<open>Steps on the table of one extension\<close>

definition put_table :: "nat \<Rightarrow> ten_path_table \<Rightarrow> 'u extension_thread \<Rightarrow> 'u extension_thread" where
  "put_table self t w = w\<lparr>extension_at := (extension_at w)(self \<mapsto> (the (extension_at w self))\<lparr>path_table := t\<rparr>)\<rparr>"

lemma put_table_fields [simp]:
  "thread_engine (put_table self t w) = thread_engine w" "group_name (put_table self t w) = group_name w"
  "extensions_info (put_table self t w) = extensions_info w" "ids_drawn (put_table self t w) = ids_drawn w"
  "clock_reads (put_table self t w) = clock_reads w" "extension_store (put_table self t w) = extension_store w"
  "put_table self t w\<lparr>ids_drawn := n\<rparr> = put_table self t (w\<lparr>ids_drawn := n\<rparr>)"
  "put_table self t w\<lparr>clock_reads := n\<rparr> = put_table self t (w\<lparr>clock_reads := n\<rparr>)"
  "engine_msgs (put_table self t w) = engine_msgs w" "app_msgs (put_table self t w) = app_msgs w"
  by (simp_all add: put_table_def)

lemma put_table_at [simp]:
  "extension_at (put_table self t w) a =
     (if a = self then Some ((the (extension_at w self))\<lparr>path_table := t\<rparr>) else extension_at w a)"
  "put_table self t2 (put_table self t1 w) = put_table self t2 w"
  by (simp_all add: put_table_def)

lemma put_table_same: "extension_at w self = Some e \<Longrightarrow> put_table self (path_table e) w = w"
  by (simp add: put_table_def fun_upd_idem)

lemma step_simps [simp]:
  "and_with (ok x) g w = g x w" "and_with (reading f) g w = g (f w) w" "and_with (lift (Ret x)) g w = g x w"
  "and_with (lift Abort) g w = Abort" "and_with (lift Undef) g w = Undef"
  by (simp_all add: and_with_def ok_def reading_def lift_def)

lemma and_with_assoc [simp]: "and_with (and_with f g) h w = and_with f (\<lambda>x. and_with (g x) h) w"
  by (cases "f w") (auto simp: and_with_def)

lemma and_with_stop: "f w = Abort \<Longrightarrow> and_with f g w = Abort"
  by (simp add: and_with_def)

lemma with_put [simp]:
  "and_with (read_msg self r) g (put_table self t w) =
     (case msg_at t r of None \<Rightarrow> Undef | Some m \<Rightarrow> g m (put_table self t w))"
  "and_with (new_msg self m) k (put_table self t w) = k (next_addr t) (put_table self (snd (alloc_msg m t)) w)"
  by (simp_all add: and_with_def read_msg_def new_msg_def on_paths_def on_extension_def
      load_def alloc_msg_def put_table_def split: option.split)

lemma draws_put [simp]:
  "and_with (draw_id env) j (put_table self t w) =
     j (id_at env (ids_drawn w)) (put_table self t (w\<lparr>ids_drawn := Suc (ids_drawn w)\<rparr>))"
  "and_with (read_clock env) h (put_table self t w) =
     h (time_at env (clock_reads w)) (put_table self t (w\<lparr>clock_reads := Suc (clock_reads w)\<rparr>))"
  by (simp_all add: and_with_def draw_id_def read_clock_def)

lemma on_paths_put [simp]:
  "and_with (on_paths self f) g (put_table self t w) = run_bind (f t) (\<lambda>(x, t'). g x (put_table self t' w))"
  by (cases "f t") (auto simp: and_with_def on_paths_def on_extension_def load_def put_table_def)

lemma with_msg_put [simp]:
  "and_with (with_msg self r f) g (put_table self t w) =
     (case msg_at t r of None \<Rightarrow> Undef
      | Some m \<Rightarrow> run_bind (f m) (\<lambda>(x, m'). g x (put_table self (put_msg r m' t) w)))"
  by (cases "msg_at t r"; cases "f (the (msg_at t r))") (auto simp: with_msg_def load_def)

lemma of_extension_put [simp]:
  "and_with (of_extension self f) g (put_table self t w) =
     g (f ((the (extension_at w self))\<lparr>path_table := t\<rparr>)) (put_table self t w)"
  by (simp add: and_with_def of_extension_def load_def)

section \<open>Copies for all destinations\<close>

lemma set_dest_eq:
  "ten_loc_check_integrity l \<Longrightarrow> ten_raw_msg_clear_and_set_dest_to_loc m l = Ret (m\<lparr>dest_loc := [l]\<rparr>)"
  by (auto simp: ten_raw_msg_clear_and_set_dest_to_loc_def ten_raw_msg_clear_and_set_dest_def ten_loc_create_def
      ten_loc_set_def ten_loc_init_empty_def c_str_or_empty_def Let_def ten_loc_check_integrity_def)

text \<open>The copy of \<open>m\<close> with the id \<open>uuid\<close> for the destination \<open>l\<close>.\<close>

definition copy_for :: "message \<Rightarrow> string \<Rightarrow> ten_loc \<Rightarrow> message \<Rightarrow> bool" where
  "copy_for m uuid l c \<longleftrightarrow> dest_loc c = [l] \<and> src_loc c = src_loc m \<and> msg_name c = msg_name m \<and>
     msg_type c = msg_type m \<and> properties c = properties m \<and> cmd_id c = uuid \<and> parent_cmd_id c = cmd_id m \<and>
     seq_id c = seq_id m \<and> result_handler c = result_handler m \<and> result_handler_data c = result_handler_data m"

text \<open>A table with new messages only.\<close>

definition more_msgs :: "ten_path_table \<Rightarrow> ten_path_table \<Rightarrow> bool" where
  "more_msgs t t' \<longleftrightarrow> in_paths t' = in_paths t \<and> out_paths t' = out_paths t \<and> path_at t' = path_at t \<and>
     group_at t' = group_at t \<and> attached_target t' = attached_target t \<and> next_addr t \<le> next_addr t' \<and>
     (\<forall>q < next_addr t. msg_at t' q = msg_at t q)"

lemma more_msgs_trans: "more_msgs t t1 \<Longrightarrow> more_msgs t1 t2 \<Longrightarrow> more_msgs t t2"
  by (auto simp: more_msgs_def)

lemma clone_for:
  assumes "clonable m" and "msg_type m = TEN_MSG_TYPE_CMD"
  obtains c where "ten_msg_clone other uuid m [] = Ret (Some c)" "copy_for m uuid l (c\<lparr>dest_loc := [l]\<rparr>)"
proof -
  from clone_command [OF assms(1) _ assms(2), of "[]" other uuid] obtain c where
    c: "ten_msg_clone other uuid m [] = Ret (Some c)" "ten_cmd_base.truncate c = copied_cmd uuid True m" by auto
  from c(2) have "copy_for m uuid l (c\<lparr>dest_loc := [l]\<rparr>)"
    by (cases c; cases m) (simp add: copied_cmd_def ten_cmd_base.defs copy_for_def)
  with c(1) that show thesis by blast
qed

lemma send_more_copies:
  assumes "extension_at w self = Some e" and "msg_at t r = Some m" and "table_ok t"
    and "clonable m" and "msg_type m = TEN_MSG_TYPE_CMD" and "i > 0" and "\<forall>l \<in> set ls. ten_loc_check_integrity l"
  shows "\<exists>t'. send_copies env self r i (map Ret ls) (put_table self t w) =
      Ret ([next_addr t..<next_addr t + length ls], put_table self t' (w\<lparr>ids_drawn := ids_drawn w + length ls\<rparr>)) \<and>
    more_msgs t t' \<and> table_ok t' \<and> next_addr t' = next_addr t + length ls \<and>
    (\<forall>k < length ls. \<exists>c. msg_at t' (next_addr t + k) = Some c \<and> copy_for m (id_at env (ids_drawn w + k)) (ls ! k) c)"
  using assms
proof (induction ls arbitrary: t w i e)
  case Nil
  then show ?case by (auto simp: ok_def more_msgs_def intro!: exI [of _ t])
next
  case (Cons l ls)
  let ?uuid = "id_at env (ids_drawn w)"
  from clone_for [OF Cons.prems(4,5)] obtain c where
    c: "ten_msg_clone (clone_other (msg_handlers_of env)) ?uuid m [] = Ret (Some c)" "copy_for m ?uuid l (c\<lparr>dest_loc := [l]\<rparr>)" .
  let ?t1 = "snd (alloc_msg c t)" and ?w1 = "w\<lparr>ids_drawn := Suc (ids_drawn w)\<rparr>"
  let ?t2 = "put_msg (next_addr t) (c\<lparr>dest_loc := [l]\<rparr>) ?t1"
  have r: "r < next_addr t" using Cons.prems(2,3) by (auto simp: table_ok_def)
  have "table_ok ?t1" using table_ok_alloc [OF Cons.prems(3), of c] by (simp add: alloc_msg_def)
  then have ok2: "table_ok ?t2" by (rule table_ok_put_msg) (auto simp: alloc_msg_def is_result_def)
  have copy: "send_copy env self r i (Ret l) (put_table self t w) = Ret (next_addr t, put_table self ?t2 ?w1)"
    using Cons.prems r c(1)
    by (simp add: send_copy_def need_to_clone_msg_when_sending_def set_dest_eq alloc_msg_def ok_def put_msg_def)
  have m2: "msg_at ?t2 r = Some m" using Cons.prems(2) r by (simp add: put_msg_def alloc_msg_def)
  have e2: "extension_at ?w1 self = Some e" using Cons.prems(1) by simp
  from Cons.IH [OF e2 m2 ok2 Cons.prems(4,5), of "i + 1"] Cons.prems(7) obtain t' where
    t': "send_copies env self r (i + 1) (map Ret ls) (put_table self ?t2 ?w1) =
      Ret ([next_addr ?t2..<next_addr ?t2 + length ls], put_table self t' (?w1\<lparr>ids_drawn := ids_drawn ?w1 + length ls\<rparr>))"
      "more_msgs ?t2 t'" "table_ok t'" "next_addr t' = next_addr ?t2 + length ls"
      "\<forall>k < length ls. \<exists>c. msg_at t' (next_addr ?t2 + k) = Some c \<and> copy_for m (id_at env (ids_drawn ?w1 + k)) (ls ! k) c"
    by auto
  have n: "next_addr ?t2 = Suc (next_addr t)" by (simp add: put_msg_def alloc_msg_def)
  have more: "more_msgs t ?t2" by (auto simp: more_msgs_def put_msg_def alloc_msg_def)
  have here: "msg_at t' (next_addr t) = Some (c\<lparr>dest_loc := [l]\<rparr>)"
    using t'(2) n by (auto simp: more_msgs_def put_msg_def)
  have "\<exists>c. msg_at t' (next_addr t + k) = Some c \<and> copy_for m (id_at env (ids_drawn w + k)) ((l # ls) ! k) c"
    if "k < length (l # ls)" for k
  proof (cases k)
    case 0
    then show ?thesis using here c(2) by simp
  next
    case (Suc j)
    with t'(5) that n show ?thesis by auto
  qed
  moreover have "send_copies env self r i (map Ret (l # ls)) (put_table self t w) =
      Ret ([next_addr t..<next_addr t + length (l # ls)], put_table self t' (w\<lparr>ids_drawn := ids_drawn w + length (l # ls)\<rparr>))"
    using t'(1) n by (simp add: and_with_def copy ok_def upt_conv_Cons del: upt_Suc)
  ultimately show ?case
    using t'(3,4) n more_msgs_trans [OF more t'(2)] by (intro exI [of _ t']) auto
qed


text \<open>The message itself goes to the first destination, and copies with the ids that are drawn next go to
  the others.\<close>

definition copies :: "'u environment \<Rightarrow> nat \<Rightarrow> message \<Rightarrow> ten_loc list \<Rightarrow> message list \<Rightarrow> bool" where
  "copies env n m ls cs \<longleftrightarrow> length cs = length ls \<and>
     (\<forall>k < length ls. if k = 0 then cs ! k = m\<lparr>dest_loc := [ls ! k]\<rparr>
                      else copy_for m (id_at env (n + (k - 1))) (ls ! k) (cs ! k))"

lemma send_all_copies:
  assumes w: "extension_at w self = Some e" "msg_at t r = Some m" "table_ok t"
    and m: "clonable m" "msg_type m = TEN_MSG_TYPE_CMD"
    and ls: "ls \<noteq> []" "\<forall>l \<in> set ls. ten_loc_check_integrity l"
  obtains t' cs where
    "send_copies env self r 0 (map Ret ls) (put_table self t w) =
      Ret (r # [next_addr t..<next_addr t + (length ls - 1)],
        put_table self t' (w\<lparr>ids_drawn := ids_drawn w + (length ls - 1)\<rparr>))"
    "more_msgs (put_msg r (hd cs) t) t'" "table_ok t'" "copies env (ids_drawn w) m ls cs"
    "list_all2 (\<lambda>q c. msg_at t' q = Some c) (r # [next_addr t..<next_addr t + (length ls - 1)]) cs"
proof -
  obtain l ls' where l: "ls = l # ls'" using ls(1) by (cases ls) auto
  let ?m = "m\<lparr>dest_loc := [l]\<rparr>"
  let ?t1 = "put_msg r ?m t"
  have r: "r < next_addr t" using w(2,3) by (auto simp: table_ok_def)
  have ok1: "table_ok ?t1" using r w(2) m(2) by (intro table_ok_put_msg w(3)) (auto simp: is_result_def)
  have m1: "msg_at ?t1 r = Some ?m" "clonable ?m" "msg_type ?m = TEN_MSG_TYPE_CMD"
    using m ls(2) l by (auto simp: put_msg_def clonable_def)
  have first: "send_copy env self r 0 (Ret l) (put_table self t w) = Ret (r, put_table self ?t1 w)"
    using w(2) ls(2) l by (simp add: send_copy_def need_to_clone_msg_when_sending_def set_dest_eq ok_def)
  from send_more_copies [OF w(1) m1(1) ok1 m1(2,3), of 1 ls' env] ls(2) l obtain t' where
    t': "send_copies env self r 1 (map Ret ls') (put_table self ?t1 w) =
      Ret ([next_addr t..<next_addr t + length ls'], put_table self t' (w\<lparr>ids_drawn := ids_drawn w + length ls'\<rparr>))"
      "more_msgs ?t1 t'" "table_ok t'" "next_addr t' = next_addr t + length ls'"
      "\<forall>k < length ls'. \<exists>c. msg_at t' (next_addr t + k) = Some c \<and> copy_for ?m (id_at env (ids_drawn w + k)) (ls' ! k) c"
    by (auto simp: put_msg_def)
  let ?c = "\<lambda>k. the (msg_at t' (next_addr t + k))"
  let ?cs = "?m # map ?c [0..<length ls']"
  have "copies env (ids_drawn w) m ls ?cs"
    unfolding copies_def
  proof (intro conjI allI impI)
    fix k
    assume k: "k < length ls"
    show "if k = 0 then ?cs ! k = m\<lparr>dest_loc := [ls ! k]\<rparr> else copy_for m (id_at env (ids_drawn w + (k - 1))) (ls ! k) (?cs ! k)"
    proof (cases k)
      case (Suc j)
      with k t'(5) show ?thesis by (fastforce simp: l copy_for_def)
    qed (simp add: l)
  qed (simp add: l)
  moreover have "list_all2 (\<lambda>q c. msg_at t' q = Some c) (r # [next_addr t..<next_addr t + (length ls - 1)]) ?cs"
    using t'(2,5) m1(1) r by (fastforce simp: l list_all2_conv_all_nth more_msgs_def put_msg_def)
  moreover have "more_msgs (put_msg r (hd ?cs) t) t'" using t'(2) by simp
  moreover have "send_copies env self r 0 (map Ret ls) (put_table self t w) =
      Ret (r # [next_addr t..<next_addr t + (length ls - 1)],
        put_table self t' (w\<lparr>ids_drawn := ids_drawn w + (length ls - 1)\<rparr>))"
    using t'(1) by (simp add: l and_with_def first ok_def)
  ultimately show thesis using that t'(3) by blast
qed

section \<open>OUT paths for all copies\<close>

text \<open>A command that may leave, and what is left of it when its OUT path holds the rest.\<close>

definition leaving :: "message \<Rightarrow> bool" where
  "leaving c \<longleftrightarrow> msg_type c = TEN_MSG_TYPE_CMD \<and> msg_name c \<noteq> [] \<and> ten_loc_check_integrity (src_loc c) \<and>
     (\<exists>l. dest_loc c = [l] \<and> ten_loc_check_integrity l)"

definition on_its_way :: "message \<Rightarrow> message" where
  "on_its_way c = c\<lparr>parent_cmd_id := [], result_handler := None, result_handler_data := None\<rparr>"

definition out_path_for :: "message \<Rightarrow> ten_path \<Rightarrow> bool" where
  "out_path_for c p \<longleftrightarrow> (\<exists>x. p = path_for TEN_PATH_OUT c (hd (dest_loc c)) None x)"

lemma add_out_path_leaving:
  assumes "leaving c" and "0 \<le> now"
  obtains p where "out_path_for c p"
    "ten_path_table_add_out_path now t c = Ret (next_addr t, on_its_way c,
       put_path (next_addr t) p t\<lparr>out_paths := out_paths t @ [next_addr t], next_addr := next_addr t + 1\<rparr>)"
proof -
  have "\<exists>x. get_expired_time now (ten_path_table_get_path_timeout_duration t TEN_PATH_OUT) = Ret x"
    using assms(2) by (simp add: get_expired_time_def Let_def)
  then obtain x where x: "get_expired_time now (ten_path_table_get_path_timeout_duration t TEN_PATH_OUT) = Ret x" ..
  let ?p = "path_for TEN_PATH_OUT c (hd (dest_loc c)) None x"
  have "ten_path_table_add_out_path now t c = Ret (next_addr t, on_its_way c,
       put_path (next_addr t) ?p t\<lparr>out_paths := out_paths t @ [next_addr t], next_addr := next_addr t + 1\<rparr>)"
    using assms x
    by (auto simp: leaving_def ten_path_table_add_out_path_def ten_path_out_create_def Let_def put_path_def
        ten_path_set_expired_time_def path_for_def ten_raw_cmd_base_set_result_handler_def on_its_way_def
        ten_raw_cmd_base_reset_parent_cmd_id_def ten_raw_msg_is_cmd_and_result_def
        ten_raw_msg_get_first_dest_loc_def ten_raw_msg_get_dest_cnt_def)
  with that show thesis by (auto simp: out_path_for_def)
qed


text \<open>\<open>t'\<close> is \<open>t\<close> with new OUT paths for the commands \<open>cs\<close> at \<open>rs\<close>.\<close>

definition registered :: "ten_path_table \<Rightarrow> nat list \<Rightarrow> message list \<Rightarrow> ten_path_table \<Rightarrow> bool" where
  "registered t rs cs t' \<longleftrightarrow>
     list_all2 (\<lambda>a c. \<exists>p. path_at t' a = Some p \<and> out_path_for c p) [next_addr t..<next_addr t + length rs] cs \<and>
     list_all2 (\<lambda>q c. msg_at t' q = Some (on_its_way c)) rs cs \<and>
     out_paths t' = out_paths t @ [next_addr t..<next_addr t + length rs] \<and> in_paths t' = in_paths t \<and>
     group_at t' = group_at t \<and> attached_target t' = attached_target t \<and> next_addr t' = next_addr t + length rs \<and>
     (\<forall>a < next_addr t. path_at t' a = path_at t a) \<and> (\<forall>q. q \<notin> set rs \<longrightarrow> msg_at t' q = msg_at t q)"

lemma add_out_paths_eq:
  assumes "list_all2 (\<lambda>q c. msg_at t q = Some c) rs cs" and "distinct rs" and "list_all leaving cs"
    and "\<forall>n. 0 \<le> clock n" and "table_ok t"
  shows "\<exists>t'. add_out_paths clock n rs t = Ret ([next_addr t..<next_addr t + length rs], t') \<and>
    registered t rs cs t' \<and> table_ok t'"
  using assms(1-3,5)
proof (induction rs arbitrary: cs n t)
  case Nil
  then show ?case by (auto simp: registered_def)
next
  case (Cons r rs ccs)
  from Cons.prems(1) obtain c cs where ccs: "ccs = c # cs" "msg_at t r = Some c" "list_all2 (\<lambda>q c. msg_at t q = Some c) rs cs"
    by (auto simp: list_all2_Cons1)
  note prems = Cons.prems(2-4) [unfolded ccs(1)]
  from prems(2) assms(4) obtain p where p: "out_path_for c p"
    "ten_path_table_add_out_path (clock n) t c = Ret (next_addr t, on_its_way c,
       put_path (next_addr t) p t\<lparr>out_paths := out_paths t @ [next_addr t], next_addr := next_addr t + 1\<rparr>)"
    using add_out_path_leaving [of c "clock n" t thesis] by auto
  let ?t1 = "put_path (next_addr t) p t\<lparr>out_paths := out_paths t @ [next_addr t], next_addr := next_addr t + 1\<rparr>"
  let ?t2 = "put_msg r (on_its_way c) ?t1"
  have r: "msg_at t r = Some c" "r < next_addr t" using ccs(2) prems(3) by (auto simp: table_ok_def)
  have ok2: "table_ok ?t2"
    by (rule table_ok_put_msg [OF add_out_path_ok [OF prems(3) p(2)]])
      (use r in \<open>auto simp: is_result_def on_its_way_def put_path_def\<close>)
  have at2: "list_all2 (\<lambda>q c. msg_at ?t2 q = Some c) rs cs"
    using ccs(3) prems(1) by (auto simp: put_msg_def put_path_def list_all2_conv_all_nth)
  from Cons.IH [OF at2 _ _ ok2, of "n + 1"] prems(1,2) obtain t' where
    t': "add_out_paths clock (n + 1) rs ?t2 = Ret ([next_addr ?t2..<next_addr ?t2 + length rs], t')"
      "registered ?t2 rs cs t'" "table_ok t'" by auto
  have n2: "next_addr ?t2 = Suc (next_addr t)" by (simp add: put_msg_def put_path_def)
  have "path_at t' (next_addr t) = Some p" using t'(2) by (auto simp: registered_def put_msg_def put_path_def)
  moreover have "msg_at t' r = Some (on_its_way c)"
    using t'(2) prems(1) by (auto simp: registered_def put_msg_def)
  moreover have "[next_addr t..<next_addr t + length (r # rs)] = next_addr t # [Suc (next_addr t)..<Suc (next_addr t) + length rs]"
    by (simp add: upt_conv_Cons del: upt_Suc)
  ultimately have "registered t (r # rs) ccs t'"
    using t'(2) p(1) n2 ccs(1) by (auto simp: registered_def put_msg_def put_path_def)
  with t' p(2) r(1) n2 show ?case
    by (intro exI [of _ t']) (auto simp: load_def upt_conv_Cons simp del: upt_Suc)
qed


section \<open>A command leaves\<close>

definition loc_of :: "'u extension_thread \<Rightarrow> ten_extension \<Rightarrow> ten_loc" where
  "loc_of w e = \<lparr>app_uri = engine_app_uri (thread_engine w), graph_id = engine_graph_id (thread_engine w),
     extension_group_name = group_name w, extension_name = instance_name e\<rparr>"

text \<open>The extension sends the command at \<open>r\<close>, which passes the schema check as \<open>m\<close>.\<close>

definition sends :: "'u environment \<Rightarrow> 'u extension_thread \<Rightarrow> nat \<Rightarrow> nat \<Rightarrow> message \<Rightarrow> bool" where
  "sends env w self r m \<longleftrightarrow> (\<exists>e m0 m1. extension_at w self = Some e \<and> table_ok (path_table e) \<and>
     ten_loc_check_integrity (loc_of w e) \<and> msg_at (path_table e) r = Some m0 \<and> msg_type m0 = TEN_MSG_TYPE_CMD \<and>
     ten_msg_correct_dest (m0\<lparr>src_loc := loc_of w e\<rparr>) (thread_engine w) = Ret m1 \<and>
     ten_msg_validate_schema (compiled_on env) (schema_store e) True m1 = Ret (None, m) \<and>
     msg_type m = TEN_MSG_TYPE_CMD \<and> msg_name m \<noteq> [] \<and> src_loc m = loc_of w e \<and> copyable (properties m))"

text \<open>The destinations of the command \<open>m\<close> in the graph, and the policy for their results.\<close>

definition graph_route :: "'u extension_thread \<Rightarrow> nat \<Rightarrow> message \<Rightarrow> (ten_loc list \<times> TEN_RESULT_RETURN_POLICY) option" where
  "graph_route w self m =
     (case extension_at w self of
        None \<Rightarrow> None
      | Some e \<Rightarrow>
          (case extension_info e of
             None \<Rightarrow> None
           | Some i \<Rightarrow>
               if i \<ge> length (extensions_info w) then None
               else (case List.find (\<lambda>d. ten_msg_dest_info_qualified d (msg_name m))
                            (dest_cmd (msg_dest_info (extensions_info w ! i))) of
                       None \<Rightarrow> None
                     | Some d \<Rightarrow>
                         if dest_infos d = [] \<or> (\<exists>j \<in> set (dest_infos d). j \<ge> length (extensions_info w)) then None
                         else Some (map (\<lambda>j. info_loc (extensions_info w ! j)) (dest_infos d), dest_policy d))))"

lemma step_with [simp]: "and_with (\<lambda>w. Ret (x, f w)) g w = g x (f w)"
  by (simp add: and_with_def)

text \<open>The commands \<open>cs\<close> are at \<open>rs\<close> and their OUT paths, in a group if there are several, in \<open>t'\<close>; all
  else is as in \<open>t\<close>.\<close>

definition sent_from :: "ten_path_table \<Rightarrow> TEN_RESULT_RETURN_POLICY \<Rightarrow> nat list \<Rightarrow> message list \<Rightarrow> ten_path_table \<Rightarrow> bool" where
  "sent_from t policy rs cs t' \<longleftrightarrow> (\<exists>t0 t1. table_ok t0 \<and> more_msgs (put_msg (hd rs) (hd cs) t) t0 \<and> table_ok t1 \<and>
     registered t0 rs cs t1 \<and>
     t' = (if length rs > 1 then grouped (next_addr t1) [next_addr t0..<next_addr t0 + length rs] policy t1 else t1))"

lemma register_eq:
  assumes "list_all2 (\<lambda>q c. msg_at t0 q = Some c) rs cs" and "distinct rs" and "list_all leaving cs"
    and "\<forall>n. 0 \<le> clock n" and "table_ok t0" and "more_msgs (put_msg (hd rs) (hd cs) t) t0"
  shows "\<exists>t'. register_out_paths clock n policy rs t0 = Ret ((), t') \<and> sent_from t policy rs cs t'"
proof -
  from add_out_paths_eq [OF assms(1-5), of n] obtain t1 where
    t1: "add_out_paths clock n rs t0 = Ret ([next_addr t0..<next_addr t0 + length rs], t1)" "registered t0 rs cs t1" "table_ok t1"
    by blast
  let ?as = "[next_addr t0..<next_addr t0 + length rs]"
  have "\<forall>a \<in> set ?as. path_at t1 a \<noteq> None"
    using t1(2) by (auto simp: registered_def list_all2_conv_all_nth) (metis le_add_diff_inverse less_diff_conv2 nat_add_left_cancel_less nth_upt option.distinct(1))
  then have "length rs > 1 \<Longrightarrow> ten_paths_create_group ?as policy t1 = Ret (grouped (next_addr t1) ?as policy t1)"
    by (intro create_group_eq) auto
  then have "register_out_paths clock n policy rs t0 =
      Ret ((), if length rs > 1 then grouped (next_addr t1) ?as policy t1 else t1)"
    using t1(1) by (simp add: register_out_paths_def)
  with t1 assms(5,6) show ?thesis by (auto simp: sent_from_def)
qed


lemma put_msg_twice [simp]: "put_msg r m (put_msg r m' t) = put_msg r m t" "msg_at (put_msg r m t) r = Some m"
  by (simp_all add: put_msg_def)

lemma copies_leaving:
  assumes "copies env n m ls cs" and "msg_type m = TEN_MSG_TYPE_CMD" and "msg_name m \<noteq> []"
    and "ten_loc_check_integrity (src_loc m)" and "\<forall>l \<in> set ls. ten_loc_check_integrity l"
  shows "list_all leaving cs"
  unfolding list_all_length
proof (intro allI impI)
  fix k
  assume "k < length cs"
  with assms show "leaving (cs ! k)"
    by (cases "k = 0") (auto simp: copies_def leaving_def copy_for_def)
qed

text \<open>The steps of sending.\<close>

lemma set_src_eq:
  "ten_loc_check_integrity (loc_of w e) \<Longrightarrow> ten_raw_msg_set_src m (Some (engine_app_uri (thread_engine w)))
     (Some (engine_graph_id (thread_engine w))) (Some (group_name w)) (Some (instance_name e)) = Ret (m\<lparr>src_loc := loc_of w e\<rparr>)"
  by (cases "src_loc m") (auto simp: ten_raw_msg_set_src_def ten_loc_set_def Let_def
      loc_of_def ten_loc_check_integrity_def c_str_or_empty_def)

lemma set_src_put [simp]:
  assumes "extension_at w self = Some e" and "ten_loc_check_integrity (loc_of w e)" and "msg_at t r = Some m"
  shows "and_with (ten_msg_set_src_to_extension self r) g (put_table self t w) =
     g () (put_table self (put_msg r (m\<lparr>src_loc := loc_of w e\<rparr>) t) w)"
  using assms by (simp add: ten_msg_set_src_to_extension_def set_src_eq)

lemma check_schema_put [simp]:
  assumes "extension_at w self = Some e" and "msg_at t r = Some m"
  shows "and_with (check_msg_schema env self out r) g (put_table self t w) =
     run_bind (ten_msg_validate_schema (compiled_on env) (schema_store e) out m)
       (\<lambda>(err, m'). g err (put_table self (put_msg r m' t) w))"
  using assms by (simp add: check_msg_schema_def)

lemma dests_of_route:
  assumes "graph_route w self m = Some (ls, policy)" and "extension_at w self = Some e" and "msg_type m = TEN_MSG_TYPE_CMD"
  obtains i d where "extension_info e = Some i" "ten_extension_get_msg_dests_from_graph (extensions_info w) (Some i) m = Ret (Some d)"
    "dest_infos d \<noteq> []" "map (\<lambda>i. map_run info_loc (deref (extensions_info w) i)) (dest_infos d) = map Ret ls" "dest_policy d = policy"
proof -
  obtain i where i: "extension_info e = Some i" using assms(1,2) by (auto simp: graph_route_def split: option.splits)
  with assms(1,2) obtain d where d: "extension_info e = Some i" "i < length (extensions_info w)"
    "List.find (\<lambda>d. ten_msg_dest_info_qualified d (msg_name m)) (dest_cmd (msg_dest_info (extensions_info w ! i))) = Some d"
    "dest_infos d \<noteq> []" "\<forall>j \<in> set (dest_infos d). j < length (extensions_info w)"
    "ls = map (\<lambda>j. info_loc (extensions_info w ! j)) (dest_infos d)" "policy = dest_policy d"
    by (auto simp: graph_route_def not_less not_le split: option.splits if_splits)
  moreover from this have "ten_extension_get_msg_dests_from_graph (extensions_info w) (Some i) m = Ret (Some d)"
    using assms(3) by (simp add: ten_extension_get_msg_dests_from_graph_def ten_raw_msg_is_cmd_and_result_def deref_def
        ten_extension_get_msg_dests_from_graph_internal_def)
  moreover have "map (\<lambda>i. map_run info_loc (deref (extensions_info w) i)) (dest_infos d) = map Ret ls"
    using d(5,6) by (simp add: deref_def)
  ultimately show thesis using that by blast
qed

lemma determine_routed:
  assumes e: "extension_at w self = Some e" and m: "msg_at t r = Some m" "msg_type m = TEN_MSG_TYPE_CMD" "dest_loc m = []"
    and route: "graph_route w self m = Some (ls, policy)"
    and sent: "send_copies env self r 0 (map Ret ls) (put_table self t w) = Ret (rs, w')"
  shows "ten_extension_determine_out_msgs env self r in_path (put_table self t w) = Ret (DETERMINE_OUT_MSGS_SUCCESS rs policy, w')"
proof -
  from dests_of_route [OF route e m(2)] obtain i d where
    d: "extension_info e = Some i" "ten_extension_get_msg_dests_from_graph (extensions_info w) (Some i) m = Ret (Some d)"
    "dest_infos d \<noteq> []" "map (\<lambda>i. map_run info_loc (deref (extensions_info w) i)) (dest_infos d) = map Ret ls" "dest_policy d = policy" .
  have "ten_extension_determine_out_msg_dest_from_graph env self r (put_table self t w) =
      and_with (send_copies env self r 0 (map Ret ls)) (\<lambda>rs. ok (Inr (rs, policy))) (put_table self t w)"
    using e m(1,3) d by (simp add: ten_extension_determine_out_msg_dest_from_graph_def)
  also have "\<dots> = Ret (Inr (rs, policy), w')" by (simp add: and_with_def sent ok_def)
  finally have "ten_extension_determine_out_msg_dest_from_graph env self r (put_table self t w) = Ret (Inr (rs, policy), w')" .
  then show ?thesis
    using m by (simp add: ten_extension_determine_out_msgs_def ten_raw_msg_get_dest_cnt_def
        ten_raw_msg_is_cmd_and_result_def is_result_def
        and_with_Ret [of "ten_extension_determine_out_msg_dest_from_graph env self r"] ok_def)
qed

lemma dispatch_all_put:
  assumes "register_out_paths (time_at env) (clock_reads w) policy rs t = Ret ((), t')"
  shows "and_with (dispatch_all env self True policy rs) g (put_table self t w) =
    and_with (each (ten_extension_dispatch_msg env self) rs) g (put_table self t' (w\<lparr>clock_reads := clock_reads w + length rs\<rparr>))"
  using assms by (simp add: dispatch_all_def)

lemma send_checked_routed:
  assumes "extension_at w self = Some e" and "msg_at t r = Some m0"
    and "ten_msg_validate_schema (compiled_on env) (schema_store e) True m0 = Ret (None, m)"
    and "ten_extension_determine_out_msgs env self r None (put_table self (put_msg r m t) w) =
      Ret (DETERMINE_OUT_MSGS_SUCCESS rs policy, put_table self t0 w0)"
    and "register_out_paths (time_at env) (clock_reads w0) policy rs t0 = Ret ((), t')"
  shows "send_checked env self r True None (put_table self t w) =
    and_with (each (ten_extension_dispatch_msg env self) rs) (\<lambda>_. ok None)
      (put_table self t' (w0\<lparr>clock_reads := clock_reads w0 + length rs\<rparr>))"
  using assms(1-3) by (simp add: send_checked_def and_with_Ret [of "ten_extension_determine_out_msgs env self r None", OF assms(4)] dispatch_all_put [OF assms(5)])

lemma handle_out_sends:
  assumes s: "sends env w self r m" and e: "extension_at w self = Some e"
    and dest: "ten_extension_determine_out_msgs env self r None (put_table self (put_msg r m (path_table e)) w) =
      Ret (DETERMINE_OUT_MSGS_SUCCESS rs policy, put_table self t0 w0)"
    and reg: "register_out_paths (time_at env) (clock_reads w0) policy rs t0 = Ret ((), t')"
  shows "ten_extension_handle_out_msg env self r w =
    and_with (each (ten_extension_dispatch_msg env self) rs) (\<lambda>_. ok None)
      (put_table self t' (w0\<lparr>clock_reads := clock_reads w0 + length rs\<rparr>))"
proof -
  let ?t = "path_table e"
  from s e obtain m0 m1 where l: "ten_loc_check_integrity (loc_of w e)"
    and m0: "msg_at ?t r = Some m0" "msg_type m0 = TEN_MSG_TYPE_CMD"
    and corr: "ten_msg_correct_dest (m0\<lparr>src_loc := loc_of w e\<rparr>) (thread_engine w) = Ret m1"
    and check: "ten_msg_validate_schema (compiled_on env) (schema_store e) True m1 = Ret (None, m)"
    by (auto simp: sends_def)
  have "ten_extension_handle_out_msg env self r (put_table self ?t w) =
      send_checked env self r True None (put_table self (put_msg r m1 ?t) w)"
    using e l m0 corr by (simp add: ten_extension_handle_out_msg_def ten_raw_msg_is_cmd_and_result_def is_result_def)
  also have "\<dots> = and_with (each (ten_extension_dispatch_msg env self) rs) (\<lambda>_. ok None)
      (put_table self t' (w0\<lparr>clock_reads := clock_reads w0 + length rs\<rparr>))"
    by (rule send_checked_routed [OF e put_msg_twice(2) check _ reg]) (simp add: dest)
  finally show ?thesis using put_table_same [OF e] by simp
qed

text \<open>The clock does not show times before 1970.\<close>

lemma copies_registered:
  assumes s: "sends env w self r m" and e: "extension_at w self = Some e"
    and ls: "ls \<noteq> []" "\<forall>l \<in> set ls. ten_loc_check_integrity l" and now: "\<forall>n. 0 \<le> time_at env n"
    and m: "m' = m\<lparr>dest_loc := []\<rparr>"
  obtains rs cs t0 t' where
    "send_copies env self r 0 (map Ret ls) (put_table self (put_msg r m' (path_table e)) w) =
       Ret (rs, put_table self t0 (w\<lparr>ids_drawn := ids_drawn w + (length ls - 1)\<rparr>))"
    "register_out_paths (time_at env) (clock_reads w) policy rs t0 = Ret ((), t')"
    "copies env (ids_drawn w) m' ls cs" "hd rs = r" "length rs = length ls" "sent_from (path_table e) policy rs cs t'"
proof -
  let ?t = "path_table e"
  from s e obtain m0 where t: "table_ok ?t" and l: "ten_loc_check_integrity (loc_of w e)"
    and m0: "msg_at ?t r = Some m0" "msg_type m0 = TEN_MSG_TYPE_CMD"
    and ty: "msg_type m' = TEN_MSG_TYPE_CMD" "msg_name m' \<noteq> []" "src_loc m' = loc_of w e" "copyable (properties m')"
    by (auto simp: sends_def m)
  have r: "r < next_addr ?t" using t m0(1) by (auto simp: table_ok_def)
  have ok1: "table_ok (put_msg r m' ?t)"
    using r m0 by (intro table_ok_put_msg t) (auto simp: is_result_def)
  have cl: "clonable m'" using ty l by (simp add: clonable_def m)
  let ?rs = "r # [next_addr ?t..<next_addr ?t + (length ls - 1)]"
  have nx: "next_addr (put_msg r m' ?t) = next_addr ?t" by (simp add: put_msg_def)
  from send_all_copies [OF e put_msg_twice(2) ok1 cl ty(1) ls] obtain t0 cs where
    t0: "send_copies env self r 0 (map Ret ls) (put_table self (put_msg r m' ?t) w) =
      Ret (r # [next_addr (put_msg r m' ?t)..<next_addr (put_msg r m' ?t) + (length ls - 1)],
        put_table self t0 (w\<lparr>ids_drawn := ids_drawn w + (length ls - 1)\<rparr>))"
    "more_msgs (put_msg r (hd cs) (put_msg r m' ?t)) t0" "table_ok t0" "copies env (ids_drawn w) m' ls cs"
    "list_all2 (\<lambda>q c. msg_at t0 q = Some c) (r # [next_addr (put_msg r m' ?t)..<next_addr (put_msg r m' ?t) + (length ls - 1)]) cs" .
  from copies_leaving [OF t0(4) ty(1,2)] ty(3) l ls(2) have lv: "list_all leaving cs" by simp
  have "distinct ?rs" using r by auto
  from register_eq [OF t0(5) [unfolded nx] this lv now t0(3), of ?t "clock_reads w" policy] t0(2) obtain t' where
    t': "register_out_paths (time_at env) (clock_reads w) policy ?rs t0 = Ret ((), t')" "sent_from ?t policy ?rs cs t'"
    by auto
  have "length ?rs = length ls" using ls(1) by (cases ls) auto
  with that [OF t0(1) [unfolded nx] t'(1) t0(4) _ _ t'(2)] show thesis by simp
qed

lemma handle_out_routed:
  assumes s: "sends env w self r m" "dest_loc m = []" "graph_route w self m = Some (ls, policy)"
    and ls: "\<forall>l \<in> set ls. ten_loc_check_integrity l" and now: "\<forall>n. 0 \<le> time_at env n"
  shows "\<exists>rs cs t. ten_extension_handle_out_msg env self r w =
      and_with (each (ten_extension_dispatch_msg env self) rs) (\<lambda>_. ok None)
        (put_table self t (w\<lparr>ids_drawn := ids_drawn w + (length ls - 1), clock_reads := clock_reads w + length ls\<rparr>)) \<and>
    copies env (ids_drawn w) m ls cs \<and> hd rs = r \<and> length rs = length ls \<and>
    sent_from (path_table (the (extension_at w self))) policy rs cs t"
proof -
  from s(1) obtain e where e: "extension_at w self = Some e" and ty: "msg_type m = TEN_MSG_TYPE_CMD" by (auto simp: sends_def)
  have ne: "ls \<noteq> []" using s(3) by (auto simp: graph_route_def split: option.splits if_splits)
  have m: "m = m\<lparr>dest_loc := []\<rparr>" using s(2) by simp
  from copies_registered [OF s(1) e ne ls now m, of policy] obtain rs cs t0 t' where
    1: "send_copies env self r 0 (map Ret ls) (put_table self (put_msg r m (path_table e)) w) =
       Ret (rs, put_table self t0 (w\<lparr>ids_drawn := ids_drawn w + (length ls - 1)\<rparr>))"
    "register_out_paths (time_at env) (clock_reads w) policy rs t0 = Ret ((), t')"
    "copies env (ids_drawn w) m ls cs" "hd rs = r" "length rs = length ls" "sent_from (path_table e) policy rs cs t'" .
  from handle_out_sends [OF s(1) e determine_routed [OF e put_msg_twice(2) ty s(2,3) 1(1)], of t'] 1(2,5)
  have "ten_extension_handle_out_msg env self r w =
      and_with (each (ten_extension_dispatch_msg env self) rs) (\<lambda>_. ok None)
        (put_table self t' (w\<lparr>ids_drawn := ids_drawn w + (length ls - 1), clock_reads := clock_reads w + length ls\<rparr>))"
    by simp
  with 1(3-6) e show ?thesis by (intro exI [of _ rs] exI [of _ cs] exI [of _ t']) simp
qed

text \<open>A command that names its destinations goes to them instead, and its policy is none.\<close>

lemma handle_out_named:
  assumes s: "sends env w self r m" and ls: "dest_loc m = ls" "ls \<noteq> []" "\<forall>l \<in> set ls. ten_loc_check_integrity l"
    and now: "\<forall>n. 0 \<le> time_at env n"
  shows "\<exists>rs cs t. ten_extension_handle_out_msg env self r w =
      and_with (each (ten_extension_dispatch_msg env self) rs) (\<lambda>_. ok None)
        (put_table self t (w\<lparr>ids_drawn := ids_drawn w + (length ls - 1), clock_reads := clock_reads w + length ls\<rparr>)) \<and>
    copies env (ids_drawn w) (m\<lparr>dest_loc := []\<rparr>) ls cs \<and> hd rs = r \<and> length rs = length ls \<and>
    sent_from (path_table (the (extension_at w self))) TEN_RESULT_RETURN_POLICY_INVALID rs cs t"
proof -
  let ?policy = TEN_RESULT_RETURN_POLICY_INVALID
  from s obtain e where e: "extension_at w self = Some e" by (auto simp: sends_def)
  from copies_registered [OF s e ls(2,3) now refl, of ?policy] obtain rs cs t0 t' where
    1: "send_copies env self r 0 (map Ret ls) (put_table self (put_msg r (m\<lparr>dest_loc := []\<rparr>) (path_table e)) w) =
       Ret (rs, put_table self t0 (w\<lparr>ids_drawn := ids_drawn w + (length ls - 1)\<rparr>))"
    "register_out_paths (time_at env) (clock_reads w) ?policy rs t0 = Ret ((), t')"
    "copies env (ids_drawn w) (m\<lparr>dest_loc := []\<rparr>) ls cs" "hd rs = r" "length rs = length ls"
    "sent_from (path_table e) ?policy rs cs t'" .
  have locs: "map (\<lambda>l. if ten_loc_check_integrity l then Ret l else Abort) ls = map Ret ls" using ls(3) by simp
  have "ten_extension_determine_out_msgs env self r None (put_table self (put_msg r m (path_table e)) w) =
      and_with (send_copies env self r 0 (map Ret ls)) (\<lambda>rs. ok (DETERMINE_OUT_MSGS_SUCCESS rs ?policy))
        (put_table self (put_msg r (m\<lparr>dest_loc := []\<rparr>) (path_table e)) w)"
    using ls(1,2) by (simp add: ten_extension_determine_out_msgs_def ten_extension_determine_out_msg_dest_from_msg_def
        ten_raw_msg_get_dest_cnt_def locs)
  also have "\<dots> = Ret (DETERMINE_OUT_MSGS_SUCCESS rs ?policy, put_table self t0 (w\<lparr>ids_drawn := ids_drawn w + (length ls - 1)\<rparr>))"
    by (simp add: and_with_def 1(1) ok_def)
  finally have "ten_extension_handle_out_msg env self r w =
      and_with (each (ten_extension_dispatch_msg env self) rs) (\<lambda>_. ok None)
        (put_table self t' (w\<lparr>ids_drawn := ids_drawn w + (length ls - 1), clock_reads := clock_reads w + length ls\<rparr>))"
    using handle_out_sends [OF s e, where t' = t'] 1(2,5) by simp
  with 1(3-6) e show ?thesis by (intro exI [of _ rs] exI [of _ cs] exI [of _ t']) simp
qed

section \<open>Where a command goes\<close>

lemma sent_pathsD:
  assumes "sent_from t policy rs cs t'"
  obtains as where "length as = length rs" "distinct as" "out_paths t' = out_paths t @ as" "in_paths t' = in_paths t"
    "list_all2 (\<lambda>q c. msg_at t' q = Some (on_its_way c)) rs cs"
    "list_all2 (\<lambda>a c. \<exists>p g. path_at t' a = Some (p\<lparr>path_group := g\<rparr>) \<and> out_path_for c p \<and>
       (if length rs > 1 then g \<noteq> None \<and> group_at t' (the g) = Some \<lparr>group_policy = policy, group_members = as\<rparr> else g = None)) as cs"
proof -
  from assms obtain t0 t1 where t0: "more_msgs (put_msg (hd rs) (hd cs) t) t0" "registered t0 rs cs t1"
    "t' = (if length rs > 1 then grouped (next_addr t1) [next_addr t0..<next_addr t0 + length rs] policy t1 else t1)"
    by (auto simp: sent_from_def)
  obtain as where as: "as = [next_addr t0..<next_addr t0 + length rs]" "length as = length rs" "distinct as" by auto
  note t = t0(1) t0(2) [unfolded registered_def, folded as(1)] t0(3) [folded as(1)]
  have at: "\<exists>p g. path_at t' a = Some (p\<lparr>path_group := g\<rparr>) \<and> out_path_for c p \<and>
      (if length rs > 1 then g \<noteq> None \<and> group_at t' (the g) = Some \<lparr>group_policy = policy, group_members = as\<rparr> else g = None)"
    if a: "a \<in> set as" and p: "path_at t1 a = Some p" "out_path_for c p" for a c p
  proof (cases "length rs > 1")
    case True
    then have "path_at t' a = Some (p\<lparr>path_group := Some (next_addr t1)\<rparr>)"
      "group_at t' (next_addr t1) = Some \<lparr>group_policy = policy, group_members = as\<rparr>"
      using a p(1) t(3) by (simp_all add: grouped_def)
    with True p(2) show ?thesis by (intro exI [of _ p] exI [of _ "Some (next_addr t1)"]) simp
  next
    case False
    have "p\<lparr>path_group := None\<rparr> = p" using p(2) by (auto simp: out_path_for_def path_for_def)
    with False p t(3) show ?thesis by (intro exI [of _ p] exI [of _ None]) simp
  qed
  have "list_all2 (\<lambda>a c. \<exists>p g. path_at t' a = Some (p\<lparr>path_group := g\<rparr>) \<and> out_path_for c p \<and>
       (if length rs > 1 then g \<noteq> None \<and> group_at t' (the g) = Some \<lparr>group_policy = policy, group_members = as\<rparr> else g = None)) as cs"
  proof (rule list.rel_mono_strong [of "\<lambda>a c. \<exists>p. path_at t1 a = Some p \<and> out_path_for c p"])
    show "list_all2 (\<lambda>a c. \<exists>p. path_at t1 a = Some p \<and> out_path_for c p) as cs" using t(2) by simp
  qed (use at in blast)
  moreover have "out_paths t' = out_paths t @ as" "in_paths t' = in_paths t"
    "list_all2 (\<lambda>q c. msg_at t' q = Some (on_its_way c)) rs cs"
    using t(1,2) by (simp_all add: t(3) more_msgs_def grouped_def put_msg_def)
  ultimately show thesis using that [OF as(2,3)] by simp
qed

text \<open>How the copy of the command \<open>m\<close> for its destination \<open>k\<close> leaves as the message \<open>c\<close>, and what the
  path \<open>p\<close> that waits for its result keeps of \<open>m\<close>.\<close>

definition leaves_as :: "'u environment \<Rightarrow> nat \<Rightarrow> message \<Rightarrow> nat \<Rightarrow> ten_loc \<Rightarrow> message \<Rightarrow> ten_path \<Rightarrow> bool" where
  "leaves_as env n m k l c p \<longleftrightarrow>
     dest_loc c = [l] \<and> src_loc c = src_loc m \<and> msg_name c = msg_name m \<and> msg_type c = msg_type m \<and>
     properties c = properties m \<and> cmd_id c = (if k = 0 then cmd_id m else id_at env (n + (k - 1))) \<and>
     parent_cmd_id c = [] \<and> result_handler c = None \<and> result_handler_data c = None \<and>
     path_cmd_id p = cmd_id c \<and> original_cmd_id p = (if k = 0 then parent_cmd_id m else cmd_id m) \<and>
     cmd_name p = msg_name m \<and> path_src_loc p = src_loc m \<and> path_dest_loc p = l \<and>
     path_result_handler p = result_handler m \<and> path_result_handler_data p = result_handler_data m \<and>
     cached_cmd_result p = None"

lemma leaves_asI:
  assumes "copies env n m ls cs" and "k < length ls" and "out_path_for (cs ! k) p"
  shows "leaves_as env n m k (ls ! k) (on_its_way (cs ! k)) (p\<lparr>path_group := g\<rparr>)"
  using assms
  by (cases "k = 0") (auto simp: copies_def leaves_as_def on_its_way_def out_path_for_def path_for_def copy_for_def)

text \<open>C3: A command that names no destination goes where the graph says: one message for each destination
  of the graph leaves the extension, with the extension as its source and the name and the properties that
  passed the schema check; the first keeps the id and the others have ids of their own.  Before the first
  one is dispatched, every one has an OUT path with its id, the id of the command it was made from and the
  handler of the sender, and several of them form a group with the policy of the graph.  Nothing fails on
  the way: what is left to do is dispatching.\<close>

theorem routed_by_graph:
  assumes "sends env w self r m" and "dest_loc m = []" and "graph_route w self m = Some (ls, policy)"
    and "\<forall>l \<in> set ls. ten_loc_check_integrity l" and "\<forall>n. 0 \<le> time_at env n"
  shows "\<exists>rs as t. ten_extension_handle_out_msg env self r w =
      and_with (each (ten_extension_dispatch_msg env self) rs) (\<lambda>_. ok None)
        (put_table self t (w\<lparr>ids_drawn := ids_drawn w + (length ls - 1), clock_reads := clock_reads w + length ls\<rparr>)) \<and>
    length rs = length ls \<and> length as = length ls \<and> hd rs = r \<and>
    out_paths t = out_paths (path_table (the (extension_at w self))) @ as \<and>
    in_paths t = in_paths (path_table (the (extension_at w self))) \<and>
    (\<forall>k < length ls. \<exists>c p. msg_at t (rs ! k) = Some c \<and> path_at t (as ! k) = Some p \<and>
       leaves_as env (ids_drawn w) m k (ls ! k) c p \<and>
       (if length ls > 1
        then path_group p \<noteq> None \<and> group_at t (the (path_group p)) = Some \<lparr>group_policy = policy, group_members = as\<rparr>
        else path_group p = None))"
proof -
  from handle_out_routed [OF assms] obtain rs cs t where
    1: "ten_extension_handle_out_msg env self r w =
      and_with (each (ten_extension_dispatch_msg env self) rs) (\<lambda>_. ok None)
        (put_table self t (w\<lparr>ids_drawn := ids_drawn w + (length ls - 1), clock_reads := clock_reads w + length ls\<rparr>))"
    "copies env (ids_drawn w) m ls cs" "hd rs = r" "length rs = length ls"
    "sent_from (path_table (the (extension_at w self))) policy rs cs t" by blast
  from sent_pathsD [OF 1(5)] obtain as where
    2: "length as = length rs" "distinct as" "out_paths t = out_paths (path_table (the (extension_at w self))) @ as"
    "in_paths t = in_paths (path_table (the (extension_at w self)))"
    "list_all2 (\<lambda>q c. msg_at t q = Some (on_its_way c)) rs cs"
    "list_all2 (\<lambda>a c. \<exists>p g. path_at t a = Some (p\<lparr>path_group := g\<rparr>) \<and> out_path_for c p \<and>
       (if length rs > 1 then g \<noteq> None \<and> group_at t (the g) = Some \<lparr>group_policy = policy, group_members = as\<rparr> else g = None)) as cs" .
  have "\<exists>c p. msg_at t (rs ! k) = Some c \<and> path_at t (as ! k) = Some p \<and> leaves_as env (ids_drawn w) m k (ls ! k) c p \<and>
       (if length ls > 1
        then path_group p \<noteq> None \<and> group_at t (the (path_group p)) = Some \<lparr>group_policy = policy, group_members = as\<rparr>
        else path_group p = None)" if k: "k < length ls" for k
  proof -
    have "k < length as" using k 1(4) 2(1) by simp
    from list_all2_nthD [OF 2(6) this] obtain p g where
      p: "path_at t (as ! k) = Some (p\<lparr>path_group := g\<rparr>)" "out_path_for (cs ! k) p"
      "if length rs > 1 then g \<noteq> None \<and> group_at t (the g) = Some \<lparr>group_policy = policy, group_members = as\<rparr> else g = None"
      by (elim exE conjE)
    have "msg_at t (rs ! k) = Some (on_its_way (cs ! k))" using 2(5) k 1(4) by (simp add: list_all2_conv_all_nth)
    with p leaves_asI [OF 1(2) k p(2), of g] 1(4) show ?thesis by auto
  qed
  with 1 2(1-4) show ?thesis by (intro exI [of _ rs] exI [of _ as] exI [of _ t]) simp
qed


section \<open>Its results\<close>

text \<open>Which of the results \<open>ms\<close>, in the order of their arrival, the sender gets.\<close>

definition chosen :: "TEN_RESULT_RETURN_POLICY \<Rightarrow> message list \<Rightarrow> message list" where
  "chosen policy ms =
     (if policy = TEN_RESULT_RETURN_POLICY_EACH_OK_AND_ERROR then ms
      else case List.find (\<lambda>m. status_code m \<noteq> TEN_STATUS_CODE_OK) ms of
             Some m \<Rightarrow> [m]
           | None \<Rightarrow> [if policy = TEN_RESULT_RETURN_POLICY_FIRST_ERROR_OR_LAST_OK then last ms else hd ms])"

text \<open>What the sender sees of a result.\<close>

definition seen :: "message \<Rightarrow> 32 word \<times> ten_value" where
  "seen m = (status_code m, properties m)"

lemma seen_restored [simp]: "seen (restored p m b) = seen m"
  by (simp add: seen_def restored_def)

lemma find_pair_None: "List.find (\<lambda>(_, m). Q m) xs = None \<longleftrightarrow> List.find Q (map snd xs) = None"
  by (induction xs) auto

lemma find_pair_Some: "List.find (\<lambda>(_, m). Q m) xs = Some (a, m) \<Longrightarrow> List.find Q (map snd xs) = Some m"
  by (induction xs) (auto split: if_splits)

lemma answers_chosen:
  assumes "xs \<noteq> []"
  shows "map seen (answers P policy xs) = map seen (chosen policy (map snd xs))"
proof (cases "policy = TEN_RESULT_RETURN_POLICY_EACH_OK_AND_ERROR")
  case True
  have "map seen (map (\<lambda>(a, m). restored (P a) m False) (butlast xs)) = map seen (map snd (butlast xs))" by (auto split: prod.splits)
  moreover have "map snd xs = map snd (butlast xs) @ [snd (last xs)]" using assms by (metis append_butlast_last_id list.simps(8,9) map_append)
  ultimately show ?thesis using True by (simp add: answers_def chosen_def split: prod.splits)
next
  case False
  show ?thesis
  proof (cases "List.find (\<lambda>(_, m). status_code m \<noteq> TEN_STATUS_CODE_OK) xs")
    case None
    moreover from this have "List.find (\<lambda>m. status_code m \<noteq> TEN_STATUS_CODE_OK) (map snd xs) = None"
      by (simp only: find_pair_None)
    moreover have "snd (last xs) = last (map snd xs)" "snd (hd xs) = hd (map snd xs)" using assms by (simp_all add: last_map hd_map)
    ultimately show ?thesis
      using False by (cases "last xs"; cases "hd xs") (simp add: answers_def chosen_def)
  next
    case (Some x)
    moreover obtain a m where "x = (a, m)" by (cases x)
    ultimately show ?thesis
      using False find_pair_Some [of "\<lambda>m. status_code m \<noteq> TEN_STATUS_CODE_OK" xs a m] by (simp add: answers_def chosen_def)
  qed
qed

lemma find_in: "List.find Q xs = Some x \<Longrightarrow> x \<in> set xs"
  by (induction xs) (auto split: if_splits)

lemma answers_restored:
  assumes "xs \<noteq> []" and "c \<in> set (answers P policy xs)"
  obtains a m b where "(a, m) \<in> set xs" "c = restored (P a) m b"
proof -
  have ends: "hd xs \<in> set xs" "last xs \<in> set xs" using assms(1) by simp_all
  have "\<exists>x b. x \<in> set xs \<and> c = restored (P (fst x)) (snd x) b"
  proof (cases "policy = TEN_RESULT_RETURN_POLICY_EACH_OK_AND_ERROR")
    case True
    with assms(2) ends show ?thesis by (auto simp: answers_def split: prod.splits dest!: in_set_butlastD) force+
  next
    case False
    with assms(2) ends show ?thesis
      by (cases "List.find (\<lambda>(_, m). status_code m \<noteq> TEN_STATUS_CODE_OK) xs")
        (auto simp: answers_def split: prod.splits if_splits dest!: find_in; force)+
  qed
  with that show thesis by (metis prod.collapse)
qed


text \<open>The group that a command leaves behind fulfils what \<open>group_answered\<close> asks for.\<close>

lemma registered_at:
  assumes "registered t0 rs cs t1" and "as = [next_addr t0..<next_addr t0 + length rs]" and "a \<in> set as"
  obtains k p where "k < length rs" "k < length cs" "as ! k = a" "path_at t1 a = Some p" "out_path_for (cs ! k) p"
    "cmd_id_at t1 a = Some (cmd_id (cs ! k))"
proof -
  from assms(3) obtain k where k: "k < length as" "as ! k = a" by (auto simp: in_set_conv_nth)
  have at: "list_all2 (\<lambda>a c. \<exists>p. path_at t1 a = Some p \<and> out_path_for c p) as cs"
    using assms(1,2) by (simp add: registered_def)
  from list_all2_nthD [OF at k(1)] k(2) obtain p where p: "path_at t1 a = Some p" "out_path_for (cs ! k) p" by blast
  then have "cmd_id_at t1 a = Some (cmd_id (cs ! k))" by (auto simp: cmd_id_at_def out_path_for_def path_for_def)
  moreover have "length as = length rs" "length as = length cs" using assms(2) list_all2_lengthD [OF at] by simp_all
  ultimately show thesis using that [OF _ _ k(2) p] k(1) by simp
qed

text \<open>The paths \<open>as\<close> that wait for the results of \<open>cs\<close>, before (\<open>t1\<close>) and after (\<open>t'\<close>) they form a group.\<close>

definition group_made ::
    "ten_path_table \<Rightarrow> TEN_RESULT_RETURN_POLICY \<Rightarrow> message list \<Rightarrow> nat list \<Rightarrow> ten_path_table \<Rightarrow> ten_path_table \<Rightarrow> bool" where
  "group_made t policy cs as t1 t' \<longleftrightarrow> table_ok t1 \<and> (plain_in t \<longrightarrow> plain_in t1) \<and>
     set as \<subseteq> set (out_paths t1) \<and> distinct as \<and> out_paths t' = out_paths t @ as \<and> length as = length cs \<and>
     ten_paths_create_group as policy t1 = Ret t' \<and>
     (\<forall>a \<in> set as. \<forall>p. path_at t1 a = Some p \<longrightarrow> path_group p = None \<and> cached_cmd_result p = None) \<and>
     (\<forall>a \<in> set as. \<forall>b \<in> set (out_paths t1). cmd_id_at t1 b = cmd_id_at t1 a \<longrightarrow> b = a) \<and>
     (\<forall>c \<in> set cs. \<exists>a \<in> set as. \<exists>p g. path_at t' a = Some (p\<lparr>path_group := g\<rparr>) \<and> out_path_for c p)"

lemma group_madeD:
  assumes "group_made t policy cs as t1 t'"
  shows "table_ok t1" "plain_in t \<Longrightarrow> plain_in t1" "set as \<subseteq> set (out_paths t1)" "distinct as"
    "out_paths t' = out_paths t @ as" "length as = length cs" "ten_paths_create_group as policy t1 = Ret t'"
    "\<And>a p. a \<in> set as \<Longrightarrow> path_at t1 a = Some p \<Longrightarrow> path_group p = None \<and> cached_cmd_result p = None"
    "\<And>a b. a \<in> set as \<Longrightarrow> b \<in> set (out_paths t1) \<Longrightarrow> cmd_id_at t1 b = cmd_id_at t1 a \<Longrightarrow> b = a"
    "\<And>c. c \<in> set cs \<Longrightarrow> \<exists>a \<in> set as. \<exists>p g. path_at t' a = Some (p\<lparr>path_group := g\<rparr>) \<and> out_path_for c p"
  using assms unfolding group_made_def by blast+

lemma sent_group:
  assumes sent: "sent_from t policy rs cs t'" and several: "length rs > 1"
    and ids: "distinct (map cmd_id cs)" "\<forall>a \<in> set (out_paths t). cmd_id_at t a \<notin> Some ` cmd_id ` set cs"
  shows "\<exists>as t1. group_made t policy cs as t1 t'"
proof -
  from sent several obtain t0 t1 where t0: "table_ok t0" "more_msgs (put_msg (hd rs) (hd cs) t) t0" "table_ok t1" "registered t0 rs cs t1"
    "t' = grouped (next_addr t1) [next_addr t0..<next_addr t0 + length rs] policy t1"
    by (auto simp: sent_from_def)
  obtain as where as: "as = [next_addr t0..<next_addr t0 + length rs]" by blast
  note at = registered_at [OF t0(4) as]
  have same: "in_paths t1 = in_paths t" "out_paths t1 = out_paths t @ as" "out_paths t0 = out_paths t" "in_paths t0 = in_paths t"
    "path_at t0 = path_at t"
    using t0(2,4) by (simp_all add: more_msgs_def registered_def put_msg_def as)
  have old: "path_at t1 a = path_at t a" if "a \<in> set (in_paths t) \<union> set (out_paths t)" for a
  proof -
    have "path_at t0 a \<noteq> None" using that t0(1) same by (auto simp: table_ok_def path_ok_def)
    then have "a < next_addr t0" using t0(1) by (auto simp: table_ok_def)
    with t0(4) same(5) show ?thesis by (simp add: registered_def)
  qed
  have plain1: "plain_in t \<longrightarrow> plain_in t1" using old same(1) by (auto simp: plain_in_def)
  have new: "path_group p = None \<and> cached_cmd_result p = None" if "a \<in> set as" "path_at t1 a = Some p" for a p
    using at [OF that(1)] that(2) by (metis (no_types, lifting) option.inject out_path_for_def path_for_def ten_path.select_convs(7,8))
  have own: "b = a" if a: "a \<in> set as" and b: "b \<in> set (out_paths t1)" "cmd_id_at t1 b = cmd_id_at t1 a" for a b
  proof -
    from at [OF a] obtain k where k: "k < length cs" "as ! k = a" "cmd_id_at t1 a = Some (cmd_id (cs ! k))" by metis
    show ?thesis
    proof (cases "b \<in> set as")
      case True
      from at [OF True] obtain j where j: "j < length cs" "as ! j = b" "cmd_id_at t1 b = Some (cmd_id (cs ! j))" by metis
      with k b(2) have "map cmd_id cs ! j = map cmd_id cs ! k" by simp
      with ids(1) j(1) k(1) have "j = k" by (metis length_map nth_eq_iff_index_eq)
      with j k show ?thesis by simp
    next
      case False
      with b(1) same(2) have o: "b \<in> set (out_paths t)" by simp
      with old have "cmd_id_at t1 b = cmd_id_at t b" by (simp add: cmd_id_at_def)
      with o ids(2) b(2) k show ?thesis by (metis image_eqI nth_mem)
    qed
  qed
  have live: "\<forall>a \<in> set as. path_at t1 a \<noteq> None"
  proof
    fix a assume "a \<in> set as"
    from at [OF this] show "path_at t1 a \<noteq> None" by (metis option.distinct(1))
  qed
  have "length as > 1" using several by (simp add: as)
  then have create: "ten_paths_create_group as policy t1 = Ret t'"
    using create_group_eq [OF live] t0(5) by (simp add: as)
  have paths: "\<exists>a \<in> set as. \<exists>p g. path_at t' a = Some (p\<lparr>path_group := g\<rparr>) \<and> out_path_for c p" if c: "c \<in> set cs" for c
  proof -
    have l: "list_all2 (\<lambda>a c. \<exists>p. path_at t1 a = Some p \<and> out_path_for c p) as cs"
      using t0(4) as by (simp add: registered_def)
    from c obtain k where k: "k < length cs" "cs ! k = c" by (auto simp: in_set_conv_nth)
    then have "k < length as" using list_all2_lengthD [OF l] by simp
    with list_all2_nthD [OF l this] k(2) obtain p where "as ! k \<in> set as" "path_at t1 (as ! k) = Some p" "out_path_for c p" by auto
    moreover from this have "path_at t' (as ! k) = Some (p\<lparr>path_group := Some (next_addr t1)\<rparr>)"
      by (simp only: t0(5) as [symmetric]) (simp add: grouped_def)
    ultimately show ?thesis by blast
  qed
  have "out_paths t' = out_paths t @ as" using t0(5) same(2) by (simp add: grouped_def)
  moreover have "set as \<subseteq> set (out_paths t1)" "distinct as" using same(2) as by simp_all
  moreover have "length as = length cs" using t0(4) as by (auto simp: registered_def dest: list_all2_lengthD)
  ultimately have "group_made t policy cs as t1 t'"
    unfolding group_made_def using t0(3) plain1 create new own paths by simp
  then show ?thesis by blast
qed

lemma sent_answered:
  assumes sent: "sent_from t policy rs cs t'" and several: "length rs > 1" and plain: "plain_in t"
    and ids: "distinct (map cmd_id cs)" "\<forall>a \<in> set (out_paths t). cmd_id_at t a \<notin> Some ` cmd_id ` set cs"
    and pol: "policy \<noteq> TEN_RESULT_RETURN_POLICY_INVALID" and as: "out_paths t' = out_paths t @ as"
    and ms: "\<forall>m \<in> set ms. is_result m \<and> is_final m" "distinct (map cmd_id ms)" "cmd_id ` set ms = cmd_id ` set cs"
  shows "\<exists>xs t2. arrive_all h uuids n ms t' = Ret (answers (\<lambda>a. the (path_at t' a)) policy xs, t2) \<and>
    set (out_paths t2) \<inter> set as = {} \<and> map snd xs = ms \<and> xs \<noteq> [] \<and>
    (\<forall>(a, m) \<in> set xs. \<exists>c p g. c \<in> set cs \<and> out_path_for c p \<and> path_at t' a = Some (p\<lparr>path_group := g\<rparr>) \<and> cmd_id c = cmd_id m)"
proof -
  from sent_group [OF sent several ids] obtain t1 as' where "group_made t policy cs as' t1 t'" by blast
  note t1 = group_madeD [OF this]
  have as': "as' = as" using t1(5) as by simp
  let ?R = "\<lambda>m a. a \<in> set as \<and> (\<exists>c p g. c \<in> set cs \<and> out_path_for c p \<and> path_at t' a = Some (p\<lparr>path_group := g\<rparr>) \<and> cmd_id c = cmd_id m)"
  have "\<exists>a. ?R m a" if m: "m \<in> set ms" for m
  proof -
    from m ms(3) obtain c where c: "c \<in> set cs" "cmd_id c = cmd_id m" by (metis image_eqI image_iff)
    from t1(10) [OF c(1)] as' c show ?thesis by blast
  qed
  then obtain f where f: "\<And>m. m \<in> set ms \<Longrightarrow> ?R m (f m)" by metis
  have id: "path_cmd_id (the (path_at t' (f m))) = cmd_id m" if m: "m \<in> set ms" for m
  proof -
    from f [OF m] obtain c p g where "out_path_for c p" "path_at t' (f m) = Some (p\<lparr>path_group := g\<rparr>)" "cmd_id c = cmd_id m" by blast
    then show ?thesis by (auto simp: out_path_for_def path_for_def)
  qed
  have inj: "inj_on f (set ms)"
  proof (rule inj_onI)
    fix m1 m2
    assume m: "m1 \<in> set ms" "m2 \<in> set ms" "f m1 = f m2"
    then have "cmd_id m1 = cmd_id m2" using id [of m1] id [of m2] by simp
    with m ms(2) show "m1 = m2" by (simp add: distinct_map inj_on_def)
  qed
  let ?xs = "map (\<lambda>m. (f m, m)) ms"
  have xs: "map fst ?xs = map f ms" "map snd ?xs = ms" by (simp_all add: comp_def)
  have dist: "distinct (map fst ?xs)" using inj ms(2) by (simp add: comp_def distinct_map)
  have "card (set (map fst ?xs)) = length cs"
  proof -
    have "card (set (map fst ?xs)) = length ms" using distinct_card [OF dist] by simp
    also have "\<dots> = card (cmd_id ` set ms)" using distinct_card [OF ms(2)] by simp
    also have "\<dots> = length cs" unfolding ms(3) using distinct_card [OF ids(1)] by simp
    finally show ?thesis .
  qed
  then have all: "set (map fst ?xs) = set as"
    using f distinct_card [OF t1(4)] t1(6) by (intro card_subset_eq) (auto simp: as')
  have fg: "for_group (\<lambda>a. the (path_at t' a)) (set as) ?xs"
    using f id ms(1) by (auto simp: for_group_def)
  have "\<exists>t2. arrive_all h uuids n (map snd ?xs) t' = Ret (answers (\<lambda>a. the (path_at t' a)) policy ?xs, t2) \<and>
      set (out_paths t2) \<inter> set as' = {}"
    by (rule group_answered [OF t1(1) t1(2) [OF plain] t1(3,4,8,9) pol t1(7) dist all [folded as'] fg [folded as']])
  then obtain t2 where t2: "arrive_all h uuids n ms t' = Ret (answers (\<lambda>a. the (path_at t' a)) policy ?xs, t2)"
    "set (out_paths t2) \<inter> set as = {}" unfolding xs(2) as' by blast
  have "length cs > 1" using several sent by (auto simp: sent_from_def registered_def dest: list_all2_lengthD)
  then have "?xs \<noteq> []" using ms(3) by (cases cs) auto
  moreover have "\<forall>(a, m) \<in> set ?xs. \<exists>c p g. c \<in> set cs \<and> out_path_for c p \<and> path_at t' a = Some (p\<lparr>path_group := g\<rparr>) \<and> cmd_id c = cmd_id m"
    using f by fastforce
  ultimately show ?thesis using t2 xs(2) by blast
qed


lemma copies_ids:
  assumes "copies env n m ls cs" and "ls \<noteq> []"
  shows "map cmd_id cs = cmd_id m # map (id_at env) [n..<n + (length ls - 1)]"
proof (rule nth_equalityI)
  show "length (map cmd_id cs) = length (cmd_id m # map (id_at env) [n..<n + (length ls - 1)])"
    using assms by (cases ls) (auto simp: copies_def)
  fix k
  assume "k < length (map cmd_id cs)"
  with assms show "map cmd_id cs ! k = (cmd_id m # map (id_at env) [n..<n + (length ls - 1)]) ! k"
    by (cases k) (auto simp: copies_def copy_for_def)
qed

lemma copy_in:
  assumes "copies env n m ls cs" and "c \<in> set cs"
  shows "msg_name c = msg_name m" "src_loc c = src_loc m" "result_handler c = result_handler m"
    "result_handler_data c = result_handler_data m"
    "cmd_id c = cmd_id m \<and> parent_cmd_id c = parent_cmd_id m \<or> parent_cmd_id c = cmd_id m"
proof -
  from assms(2) obtain k where "k < length cs" "cs ! k = c" by (auto simp: in_set_conv_nth)
  with assms(1) have "c = m\<lparr>dest_loc := [ls ! k]\<rparr> \<or> copy_for m (id_at env (n + (k - 1))) (ls ! k) c"
    by (auto simp: copies_def split: if_splits)
  then show "msg_name c = msg_name m" "src_loc c = src_loc m" "result_handler c = result_handler m"
    "result_handler_data c = result_handler_data m"
    "cmd_id c = cmd_id m \<and> parent_cmd_id c = parent_cmd_id m \<or> parent_cmd_id c = cmd_id m"
    by (auto simp: copy_for_def)
qed

text \<open>What every result that the sender of \<open>m\<close> gets has to be.\<close>

definition answers_to :: "message \<Rightarrow> message \<Rightarrow> bool" where
  "answers_to m c \<longleftrightarrow> cmd_id c = cmd_id m \<and> original_cmd_name c = msg_name m \<and> dest_loc c = [src_loc m] \<and>
     result_handler c = result_handler m \<and> result_handler_data c = result_handler_data m"

lemma restored_answers:
  assumes "copies env n m ls cs" and "c \<in> set cs" and "out_path_for c p" and "cmd_id x = cmd_id c"
    and "cmd_id m \<noteq> []" and "parent_cmd_id m = []"
  shows "answers_to m (restored (p\<lparr>path_group := g\<rparr>) x b)"
  using copy_in [OF assms(1,2)] assms(3-)
  by (auto simp: answers_to_def restored_def out_path_for_def path_for_def)

text \<open>C2: A command that fans out is answered.  It has several destinations in the graph and an id that,
  like those drawn for its copies, no OUT path has: when the final results of all copies have come
  back, in any order, the sender has got the results its policy promises - the first that is not OK or
  else the first or the last, or every one - in which nothing remains of the copies: they have the id of
  the command that was sent, its name, its sender as the destination, and the handler it was sent with.
  No OUT path of it is left.\<close>

theorem fan_out_answered:
  assumes s: "sends env w self r m" "dest_loc m = []" "graph_route w self m = Some (ls, policy)"
    and ls: "\<forall>l \<in> set ls. ten_loc_check_integrity l" and now: "\<forall>n. 0 \<le> time_at env n"
    and several: "length ls > 1" and pol: "policy \<noteq> TEN_RESULT_RETURN_POLICY_INVALID"
    and m: "cmd_id m \<noteq> []" "parent_cmd_id m = []"
    and t: "t = path_table (the (extension_at w self))" "plain_in t"
    and ids: "ids = cmd_id m # map (id_at env) [ids_drawn w..<ids_drawn w + (length ls - 1)]" "distinct ids"
      "\<forall>a \<in> set (out_paths t). cmd_id_at t a \<notin> Some ` set ids"
  shows "\<exists>rs as t1. ten_extension_handle_out_msg env self r w =
      and_with (each (ten_extension_dispatch_msg env self) rs) (\<lambda>_. ok None)
        (put_table self t1 (w\<lparr>ids_drawn := ids_drawn w + (length ls - 1), clock_reads := clock_reads w + length ls\<rparr>)) \<and>
    out_paths t1 = out_paths t @ as \<and>
    (\<forall>ms. (\<forall>x \<in> set ms. is_result x \<and> is_final x) \<and> distinct (map cmd_id ms) \<and> cmd_id ` set ms = set ids \<longrightarrow>
       (\<exists>outs t2. arrive_all h uuids n ms t1 = Ret (outs, t2) \<and> set (out_paths t2) \<inter> set as = {} \<and>
          map seen outs = map seen (chosen policy ms) \<and> (\<forall>c \<in> set outs. answers_to m c)))"
proof -
  from handle_out_routed [OF s ls now] obtain rs cs t1 where
    1: "ten_extension_handle_out_msg env self r w =
      and_with (each (ten_extension_dispatch_msg env self) rs) (\<lambda>_. ok None)
        (put_table self t1 (w\<lparr>ids_drawn := ids_drawn w + (length ls - 1), clock_reads := clock_reads w + length ls\<rparr>))"
    "copies env (ids_drawn w) m ls cs" "hd rs = r" "length rs = length ls" "sent_from t policy rs cs t1"
    unfolding t(1) by blast
  from sent_pathsD [OF 1(5)] obtain as where as: "out_paths t1 = out_paths t @ as" by blast
  have cs: "map cmd_id cs = ids" using copies_ids [OF 1(2)] several ids(1) by (cases ls) auto
  then have cs': "cmd_id ` set cs = set ids" by (metis list.set_map)
  have fresh: "distinct (map cmd_id cs)" "\<forall>a \<in> set (out_paths t). cmd_id_at t a \<notin> Some ` cmd_id ` set cs"
    using ids(2,3) cs cs' by simp_all
  have several': "length rs > 1" using 1(4) several by simp
  have "\<exists>outs t2. arrive_all h uuids n ms t1 = Ret (outs, t2) \<and> set (out_paths t2) \<inter> set as = {} \<and>
      map seen outs = map seen (chosen policy ms) \<and> (\<forall>c \<in> set outs. answers_to m c)"
    if ms: "\<forall>x \<in> set ms. is_result x \<and> is_final x" "distinct (map cmd_id ms)" "cmd_id ` set ms = set ids" for ms
  proof -
    let ?P = "\<lambda>a. the (path_at t1 a)"
    from sent_answered [OF 1(5) several' t(2) fresh pol as ms(1,2) ms(3) [folded cs'], of h uuids n] obtain xs t2 where
      x: "arrive_all h uuids n ms t1 = Ret (answers ?P policy xs, t2)" "set (out_paths t2) \<inter> set as = {}"
      "map snd xs = ms" "xs \<noteq> []" "\<forall>(a, x) \<in> set xs. \<exists>c p g. c \<in> set cs \<and> out_path_for c p \<and>
         path_at t1 a = Some (p\<lparr>path_group := g\<rparr>) \<and> cmd_id c = cmd_id x" by blast
    have "answers_to m c" if c: "c \<in> set (answers ?P policy xs)" for c
    proof -
      from answers_restored [OF x(4) c] obtain a y b where y: "(a, y) \<in> set xs" "c = restored (?P a) y b" .
      with x(5) obtain d p g where "d \<in> set cs" "out_path_for d p" "path_at t1 a = Some (p\<lparr>path_group := g\<rparr>)" "cmd_id d = cmd_id y"
        by blast
      with restored_answers [OF 1(2) this(1,2) _ m, of y g b] y(2) show ?thesis by simp
    qed
    with x answers_chosen [OF x(4), of ?P policy] show ?thesis by blast
  qed
  with 1(1) as show ?thesis by blast
qed


section \<open>Commands that name several destinations\<close>

lemma group_without_policy:
  assumes t: "table_ok t" and a: "a \<in> set (out_paths t)" "path_at t a = Some p" "path_group p = Some g"
    and G: "group_at t g = Some G" "group_policy G = TEN_RESULT_RETURN_POLICY_INVALID"
    and own: "\<forall>b \<in> set (out_paths t). cmd_id_at t b = Some (path_cmd_id p) \<longrightarrow> b = a"
    and x: "is_result x" "cmd_id x = path_cmd_id p"
  shows "arrive h uuid x t = Abort"
proof -
  let ?t = "snd (alloc_msg x t)" and ?r = "next_addr t"
  have ok: "table_ok ?t" using table_ok_alloc [OF t] by (metis prod.collapse)
  have fields: "path_at ?t = path_at t" "group_at ?t = group_at t" "out_paths ?t = out_paths t" "msg_at ?t ?r = Some x"
    by (simp_all add: alloc_msg_def)
  have "cmd_id_at ?t = cmd_id_at t" by (simp add: fun_eq_iff cmd_id_at_def fields)
  moreover have "List.find (\<lambda>b. cmd_id_at t b = Some (path_cmd_id p)) (out_paths t) = Some a"
  proof (rule find_unique)
    show "cmd_id_at t a = Some (path_cmd_id p)" using a(2) by (simp add: cmd_id_at_def)
  qed (use a(1) own in blast)+
  ultimately have find: "ten_path_table_find_path ?t TEN_PATH_OUT x = Ret (Some a)"
    using x by (simp add: ten_path_table_find_path_def ten_raw_msg_is_cmd_and_result_def is_result_def
        find_path_eq [OF ok] paths_of_def fields)
  have conv: "result_conversion p = None" using a t by (auto simp: table_ok_def path_ok_def)
  have mem: "a \<in> set (group_members G)" using t a G(1) by (fastforce simp: table_ok_def group_ok_def)
  let ?p = "p\<lparr>cached_cmd_result := Some ?r\<rparr>" and ?ms = "remove1 a (group_members G) @ [a]"
  have "ten_path_table_set_result h uuid ?t TEN_PATH_OUT ?r = Ret (Some a, put_members g ?ms (put_path a ?p ?t))"
    using find x(1) a conv G(1) mem
    by (simp add: ten_path_table_set_result_def ten_path_set_result_def load_def fields put_path_def ten_path_get_group_def)
  moreover have "ten_path_table_determine_actual_cmd_result (put_members g ?ms (put_path a ?p ?t)) TEN_PATH_OUT a f = Abort" for f
    using a G by (simp add: ten_path_table_determine_actual_cmd_result_def ten_path_group_resolve_def load_def put_members_def
        put_path_def ten_path_is_in_a_group_def ten_path_get_group_def fields)
  ultimately have "handle_in_result h uuid ?t ?r = Abort"
    using x(1) a(3) by (simp add: handle_in_result_def load_def put_members_def put_path_def fields
        ten_raw_cmd_result_is_final_def ten_path_is_in_a_group_def)
  then show ?thesis by (simp add: arrive_def alloc_msg_def)
qed

text \<open>C40: A command whose sender names several destinations itself is sent to all of them without an error,
  but its group has no policy: the first result that comes back, whichever and whatever it is, fails an
  assertion.\<close>

theorem named_destinations_abort:
  assumes s: "sends env w self r m" and ls: "dest_loc m = ls" "\<forall>l \<in> set ls. ten_loc_check_integrity l" "length ls > 1"
    and now: "\<forall>n. 0 \<le> time_at env n" and t: "t = path_table (the (extension_at w self))"
    and ids: "ids = cmd_id m # map (id_at env) [ids_drawn w..<ids_drawn w + (length ls - 1)]" "distinct ids"
      "\<forall>a \<in> set (out_paths t). cmd_id_at t a \<notin> Some ` set ids"
  shows "\<exists>rs t1. ten_extension_handle_out_msg env self r w =
      and_with (each (ten_extension_dispatch_msg env self) rs) (\<lambda>_. ok None)
        (put_table self t1 (w\<lparr>ids_drawn := ids_drawn w + (length ls - 1), clock_reads := clock_reads w + length ls\<rparr>)) \<and>
    length rs = length ls \<and> (\<forall>x. is_result x \<and> cmd_id x \<in> set ids \<longrightarrow> arrive h uuid x t1 = Abort)"
proof -
  have ne: "ls \<noteq> []" using ls(3) by auto
  from handle_out_named [OF s ls(1) ne ls(2) now] obtain rs cs t1 where
    1: "ten_extension_handle_out_msg env self r w =
      and_with (each (ten_extension_dispatch_msg env self) rs) (\<lambda>_. ok None)
        (put_table self t1 (w\<lparr>ids_drawn := ids_drawn w + (length ls - 1), clock_reads := clock_reads w + length ls\<rparr>))"
    "copies env (ids_drawn w) (m\<lparr>dest_loc := []\<rparr>) ls cs" "length rs = length ls"
    "sent_from t TEN_RESULT_RETURN_POLICY_INVALID rs cs t1"
    unfolding t by blast
  have cs: "map cmd_id cs = ids" using copies_ids [OF 1(2) ne] ids(1) by simp
  then have cs': "cmd_id ` set cs = set ids" by (metis list.set_map)
  have fresh: "distinct (map cmd_id cs)" "\<forall>a \<in> set (out_paths t). cmd_id_at t a \<notin> Some ` cmd_id ` set cs"
    using ids(2,3) cs cs' by simp_all
  have several: "length rs > 1" using 1(3) ls(3) by simp
  from sent_group [OF 1(4) several fresh] obtain t0 as where
    "group_made t TEN_RESULT_RETURN_POLICY_INVALID cs as t0 t1" by blast
  note g = group_madeD [OF this]
  have ok1: "table_ok t1" by (rule create_group_ok [OF g(1,3,4) _ g(7)]) (use g(8) in blast)
  have live: "\<forall>a \<in> set as. path_at t0 a \<noteq> None" using out_path_live [OF g(1)] g(3) by blast
  moreover have "length as > 1" using g(7) by (auto simp: ten_paths_create_group_def split: if_splits)
  ultimately have t1: "t1 = grouped (next_addr t0) as TEN_RESULT_RETURN_POLICY_INVALID t0"
    using create_group_eq [of as t0 TEN_RESULT_RETURN_POLICY_INVALID] g(7) by simp
  have id1: "cmd_id_at t1 = cmd_id_at t0"
    by (auto simp: t1 grouped_def fun_eq_iff cmd_id_at_def option.map_comp comp_def)
  have "arrive h uuid x t1 = Abort" if x: "is_result x" "cmd_id x \<in> set ids" for x
  proof -
    from x(2) cs' obtain c where c: "c \<in> set cs" "cmd_id c = cmd_id x" by (metis image_iff)
    from g(10) [OF c(1)] obtain a p gr where a: "a \<in> set as" "path_at t1 a = Some (p\<lparr>path_group := gr\<rparr>)" "out_path_for c p" by blast
    have "path_at t1 a = map_option (\<lambda>p. p\<lparr>path_group := Some (next_addr t0)\<rparr>) (path_at t0 a)"
      using a(1) by (simp add: t1 grouped_def)
    moreover obtain q where "path_at t0 a = Some q" using live a(1) by blast
    ultimately have "path_group (the (path_at t1 a)) = Some (next_addr t0)" by simp
    with a(2) have gr: "path_group (p\<lparr>path_group := gr\<rparr>) = Some (next_addr t0)" by simp
    have x_id: "cmd_id x = path_cmd_id (p\<lparr>path_group := gr\<rparr>)" using a(3) c(2) by (auto simp: out_path_for_def path_for_def)
    have own: "\<forall>b \<in> set (out_paths t1). cmd_id_at t1 b = Some (path_cmd_id (p\<lparr>path_group := gr\<rparr>)) \<longrightarrow> b = a"
    proof (intro ballI impI)
      fix b
      assume "b \<in> set (out_paths t1)" "cmd_id_at t1 b = Some (path_cmd_id (p\<lparr>path_group := gr\<rparr>))"
      moreover have "cmd_id_at t1 a = Some (path_cmd_id (p\<lparr>path_group := gr\<rparr>))" using a(2) by (simp add: cmd_id_at_def)
      ultimately show "b = a" using g(9) [OF a(1), of b] id1 by (simp add: t1 grouped_def)
    qed
    have out: "a \<in> set (out_paths t1)" using a(1) g(3) by (auto simp: t1 grouped_def)
    have "group_at t1 (next_addr t0) = Some \<lparr>group_policy = TEN_RESULT_RETURN_POLICY_INVALID, group_members = as\<rparr>"
      by (simp add: t1 grouped_def)
    from group_without_policy [OF ok1 out a(2) gr this _ own x(1) x_id] show ?thesis by simp
  qed
  with 1(1,3) show ?thesis by blast
qed


section \<open>An example\<close>

text \<open>An extension that has started and has the command \<open>c\<close> in its hands; the graph sends it to two others.\<close>

definition example_loc :: "string \<Rightarrow> string \<Rightarrow> ten_loc" where
  "example_loc uri name = \<lparr>app_uri = uri, graph_id = ''G'', extension_group_name = ''g'', extension_name = name\<rparr>"

definition sent_command :: "ten_loc list \<Rightarrow> message" where
  "sent_command ls = (ten_raw_cmd_init TEN_MSG_TYPE_CMD)\<lparr>msg_name := ''c'', cmd_id := ''x'', dest_loc := ls\<rparr>"

definition sending_thread :: "ten_loc list \<Rightarrow> unit extension_thread" where
  "sending_thread ls =
     (let x = (\<lambda>name. ten_extension_info_create\<lparr>info_loc := example_loc ''here'' name\<rparr>);
          dests = ten_all_msg_type_dest_info_init\<lparr>dest_cmd :=
            [\<lparr>dest_msg_name = ''c'', dest_policy = TEN_RESULT_RETURN_POLICY_FIRST_ERROR_OR_LAST_OK, dest_infos = [1, 2]\<rparr>]\<rparr>
      in example_thread\<lparr>
        extensions_info := [(x ''e'')\<lparr>msg_dest_info := dests\<rparr>, x ''f'', x ''h''],
        extension_at := [0 \<mapsto> example_extension\<lparr>extension_state := TEN_EXTENSION_STATE_ON_START_DONE, extension_info := Some 0,
          path_table := (ten_path_table_create (OwnedByExtension 10 20))\<lparr>msg_at := [0 \<mapsto> sent_command ls], next_addr := 1\<rparr>\<rparr>]\<rparr>)"

abbreviation from_e :: "message \<Rightarrow> message" where
  "from_e m \<equiv> m\<lparr>src_loc := example_loc ''here'' ''e''\<rparr>"

lemma sending_thread_simps:
  "thread_engine (sending_thread ls) = thread_engine example_thread" "group_name (sending_thread ls) = ''g''"
  "ids_drawn (sending_thread ls) = 0" "clock_reads (sending_thread ls) = 0" "length (extensions_info (sending_thread ls)) = 3"
  "\<exists>e. extension_at (sending_thread ls) 0 = Some e \<and> instance_name e = ''e'' \<and> schema_store e = ten_schema_store_init \<and>
     extension_info e = Some 0 \<and>
     path_table e = (ten_path_table_create (OwnedByExtension 10 20))\<lparr>msg_at := [0 \<mapsto> sent_command ls], next_addr := 1\<rparr>"
  by (simp_all add: sending_thread_def example_thread_def example_extension_def Let_def)

lemma sent_command_simps:
  "msg_type (sent_command ls) = TEN_MSG_TYPE_CMD" "msg_name (sent_command ls) = ''c''" "properties (sent_command ls) = VObject []"
  "dest_loc (sent_command ls) = ls" "cmd_id (sent_command ls) = ''x''" "parent_cmd_id (sent_command ls) = []"
  by (simp_all add: sent_command_def ten_raw_cmd_init_def ten_cmd_base.defs ten_msg.defs create_defs ten_raw_cmd_base_init_def
      ten_raw_msg_init_def ten_value_init_object_with_move_def)

lemma example_sends:
  assumes "\<forall>l \<in> set ls. app_uri l = ''there''"
  shows "sends example_environment (sending_thread ls) 0 0 (from_e (sent_command ls))"
proof -
  obtain e where e: "extension_at (sending_thread ls) 0 = Some e" "instance_name e = ''e''" "schema_store e = ten_schema_store_init"
    "path_table e = (ten_path_table_create (OwnedByExtension 10 20))\<lparr>msg_at := [0 \<mapsto> sent_command ls], next_addr := 1\<rparr>"
    using sending_thread_simps(6) by blast
  have l: "loc_of (sending_thread ls) e = example_loc ''here'' ''e''"
    by (simp add: loc_of_def sending_thread_simps e example_thread_def example_loc_def)
  note ty = sent_command_simps
  have ok: "table_ok (path_table e)" by (auto simp: e(4) ten_path_table_create_def table_ok_def)
  have id: "run_fold (correct_dest_step en) is m = Ret m"
    if "\<forall>i \<in> set is. app_uri (dest_loc m ! i) \<noteq> engine_app_uri en \<and> app_uri (dest_loc m ! i) \<noteq> TEN_STR_LOCALHOST"
    for en :: ten_engine and "is" and m :: message
    using that by (induction "is") (auto simp: correct_dest_step_def)
  have "ten_msg_correct_dest (from_e (sent_command ls)) (thread_engine (sending_thread ls)) = Ret (from_e (sent_command ls))"
    unfolding ten_msg_correct_dest_def
    by (rule id) (use assms in \<open>auto simp: ty sending_thread_simps example_thread_def\<close>)
  moreover have "ten_msg_validate_schema (compiled_on example_environment) (schema_store e) True (from_e (sent_command ls)) =
      Ret (None, from_e (sent_command ls))"
    by (simp add: ten_msg_validate_schema_def ten_raw_msg_validate_schema_def ten_raw_msg_is_cmd_and_result_def ty e(3)
        ten_schema_store_get_msg_schema_def schema_map_def ten_schema_store_init_def find_schema_def)
  ultimately show ?thesis
    unfolding sends_def using e(1,4) ok ty l
    by (intro exI [of _ e] exI [of _ "sent_command ls"] exI [of _ "from_e (sent_command ls)"])
      (simp add: example_loc_def ten_loc_check_integrity_def copyable_def)
qed


lemma example_route:
  "graph_route (sending_thread ls) 0 (from_e (sent_command ls)) =
     Some ([example_loc ''here'' ''f'', example_loc ''here'' ''h''], TEN_RESULT_RETURN_POLICY_FIRST_ERROR_OR_LAST_OK)"
  by (simp add: graph_route_def sending_thread_def example_thread_def example_extension_def Let_def sent_command_simps
      ten_msg_dest_info_qualified_def ten_extension_info_create_def)

lemma example_old_table:
  "out_paths (path_table (the (extension_at (sending_thread ls) 0))) = []"
  "in_paths (path_table (the (extension_at (sending_thread ls) 0))) = []"
  by (simp_all add: sending_thread_def Let_def ten_path_table_create_def)

lemma example_locs: "\<forall>l \<in> set [example_loc u n, example_loc u' n']. ten_loc_check_integrity l"
  by (simp add: example_loc_def ten_loc_check_integrity_def)

lemma example_clock: "\<forall>n. 0 \<le> time_at example_environment n"
  by (simp add: example_environment_def)

lemma example_ids:
  "cmd_id (from_e (sent_command ls)) # map (id_at example_environment)
     [ids_drawn (sending_thread ls)..<ids_drawn (sending_thread ls) + (length [l, l'] - 1)] = [''x'', ''id'' @ show_nat 0]"
  by (simp add: example_environment_def sending_thread_simps sent_command_simps)

lemma example_counts:
  "length [l, l'] = 2" "ids_drawn (sending_thread ls) + (2 - 1) = 1" "clock_reads (sending_thread ls) + 2 = 2" "[] @ as = as"
  "(1 :: nat) < 2"
  by (simp_all add: sending_thread_simps)

lemma example_fresh: "distinct [''x'', ''id'' @ show_nat 0]"
  by simp

theorem routed_by_graph_witness:
  "\<exists>rs as t. ten_extension_handle_out_msg example_environment 0 0 (sending_thread []) =
      and_with (each (ten_extension_dispatch_msg example_environment 0) rs) (\<lambda>_. ok None)
        (put_table 0 t ((sending_thread [])\<lparr>ids_drawn := 1, clock_reads := 2\<rparr>)) \<and>
    length rs = 2 \<and> length as = 2 \<and> out_paths t = as"
proof -
  have "\<forall>l \<in> set []. app_uri l = ''there''" and "dest_loc (from_e (sent_command [])) = []" by (simp_all add: sent_command_simps)
  from routed_by_graph [OF example_sends [OF this(1)] this(2) example_route example_locs example_clock,
      unfolded example_counts(1-4) example_old_table]
  show ?thesis by blast
qed

theorem fan_out_answered_witness:
  "\<exists>rs t1 c t2. ten_extension_handle_out_msg example_environment 0 0 (sending_thread []) =
      and_with (each (ten_extension_dispatch_msg example_environment 0) rs) (\<lambda>_. ok None)
        (put_table 0 t1 ((sending_thread [])\<lparr>ids_drawn := 1, clock_reads := 2\<rparr>)) \<and>
    arrive_all (msg_handlers_of example_environment) (\<lambda>_. ''u'') 0
      [example_result (''id'' @ show_nat 0), example_result ''x''] t1 = Ret ([c], t2) \<and>
    answers_to (from_e (sent_command [])) c \<and> status_code c = TEN_STATUS_CODE_OK"
proof -
  let ?ms = "[example_result (''id'' @ show_nat 0), example_result ''x'']"
  have m: "cmd_id (from_e (sent_command [])) \<noteq> []" "parent_cmd_id (from_e (sent_command [])) = []"
    "dest_loc (from_e (sent_command [])) = []"
    by (simp_all add: sent_command_simps)
  have plain: "plain_in (path_table (the (extension_at (sending_thread []) 0)))" by (simp add: plain_in_def example_old_table)
  have n: "\<forall>l \<in> set []. app_uri l = ''there''" by simp
  have pol: "TEN_RESULT_RETURN_POLICY_FIRST_ERROR_OR_LAST_OK \<noteq> TEN_RESULT_RETURN_POLICY_INVALID" by simp
  have old: "\<forall>a \<in> set (out_paths (path_table (the (extension_at (sending_thread []) 0)))).
      cmd_id_at (path_table (the (extension_at (sending_thread []) 0))) a \<notin> Some ` set [''x'', ''id'' @ show_nat 0]"
    by (simp add: example_old_table)
  note fan = fan_out_answered [OF example_sends [OF n] m(3) example_route example_locs example_clock _ pol m(1,2) refl plain
      example_ids [symmetric] example_fresh old, unfolded example_counts(1-4), OF example_counts(5),
      where h = "msg_handlers_of example_environment" and uuids = "\<lambda>_. ''u''" and n = 0]
  from fan obtain rs as t1 where 1: "ten_extension_handle_out_msg example_environment 0 0 (sending_thread []) =
      and_with (each (ten_extension_dispatch_msg example_environment 0) rs) (\<lambda>_. ok None)
        (put_table 0 t1 ((sending_thread [])\<lparr>ids_drawn := 1, clock_reads := 2\<rparr>))"
    "out_paths t1 = out_paths (path_table (the (extension_at (sending_thread []) 0))) @ as"
    "\<forall>ms. (\<forall>x \<in> set ms. is_result x \<and> is_final x) \<and> distinct (map cmd_id ms) \<and>
       cmd_id ` set ms = set [''x'', ''id'' @ show_nat 0] \<longrightarrow>
       (\<exists>outs t2. arrive_all (msg_handlers_of example_environment) (\<lambda>_. ''u'') 0 ms t1 = Ret (outs, t2) \<and>
          set (out_paths t2) \<inter> set as = {} \<and>
          map seen outs = map seen (chosen TEN_RESULT_RETURN_POLICY_FIRST_ERROR_OR_LAST_OK ms) \<and>
          (\<forall>c \<in> set outs. answers_to (from_e (sent_command [])) c))"
    by (elim exE conjE) (rule that)
  have "(\<forall>x \<in> set ?ms. is_result x \<and> is_final x) \<and> distinct (map cmd_id ?ms) \<and>
       cmd_id ` set ?ms = set [''x'', ''id'' @ show_nat 0]" by auto
  from 1(3) [THEN spec, THEN mp, OF this]
  obtain outs t2 where 2: "arrive_all (msg_handlers_of example_environment) (\<lambda>_. ''u'') 0 ?ms t1 = Ret (outs, t2)"
    "set (out_paths t2) \<inter> set as = {}"
    "map seen outs = map seen (chosen TEN_RESULT_RETURN_POLICY_FIRST_ERROR_OR_LAST_OK ?ms)"
    "\<forall>c \<in> set outs. answers_to (from_e (sent_command [])) c"
    by (elim exE conjE) (rule that)
  from 2(3) obtain c where c: "outs = [c]" "status_code c = TEN_STATUS_CODE_OK" by (auto simp: chosen_def seen_def)
  have "answers_to (from_e (sent_command [])) c" using 2(4) c(1) by simp
  with 1(1) 2(1) [unfolded c(1)] c(2) show ?thesis by (intro exI conjI)
qed

theorem named_destinations_abort_witness:
  "\<exists>rs t1. ten_extension_handle_out_msg example_environment 0 0
      (sending_thread [example_loc ''there'' ''f'', example_loc ''there'' ''h'']) =
      and_with (each (ten_extension_dispatch_msg example_environment 0) rs) (\<lambda>_. ok None)
        (put_table 0 t1 ((sending_thread [example_loc ''there'' ''f'', example_loc ''there'' ''h''])\<lparr>ids_drawn := 1, clock_reads := 2\<rparr>)) \<and>
    length rs = 2 \<and> arrive (msg_handlers_of example_environment) ''u'' (example_result ''x'') t1 = Abort"
proof -
  let ?ls = "[example_loc ''there'' ''f'', example_loc ''there'' ''h'']"
  have there: "\<forall>l \<in> set ?ls. app_uri l = ''there''" by (simp add: example_loc_def)
  have d: "dest_loc (from_e (sent_command ?ls)) = ?ls" by (simp add: sent_command_simps)
  have r: "is_result (example_result ''x'') \<and> cmd_id (example_result ''x'') \<in> set [''x'', ''id'' @ show_nat 0]" by simp
  have old: "\<forall>a \<in> set (out_paths (path_table (the (extension_at (sending_thread ?ls) 0)))).
      cmd_id_at (path_table (the (extension_at (sending_thread ?ls) 0))) a \<notin> Some ` set [''x'', ''id'' @ show_nat 0]"
    by (simp add: example_old_table)
  from named_destinations_abort [OF example_sends [OF there] d example_locs _ example_clock refl example_ids [symmetric]
      example_fresh old, unfolded example_counts(1-4), OF example_counts(5),
      where h = "msg_handlers_of example_environment" and uuid = "''u''"]
  obtain rs t1 where 1: "ten_extension_handle_out_msg example_environment 0 0 (sending_thread ?ls) =
      and_with (each (ten_extension_dispatch_msg example_environment 0) rs) (\<lambda>_. ok None)
        (put_table 0 t1 ((sending_thread ?ls)\<lparr>ids_drawn := 1, clock_reads := 2\<rparr>))" "length rs = 2"
    "\<forall>x. is_result x \<and> cmd_id x \<in> set [''x'', ''id'' @ show_nat 0] \<longrightarrow>
       arrive (msg_handlers_of example_environment) ''u'' x t1 = Abort"
    by (elim exE conjE) (rule that)
  from 1(3) [THEN spec, THEN mp, OF r] 1(1,2) show ?thesis by (intro exI conjI)
qed

end
