(* ===== verification/Links.thy ===== *)
theory Links
  imports Prelude
begin

text \<open>
  Doubly linked nodes, as the lists and the hash tables of the framework embed them in what they hold: nodes
  live in a store by address, and two functions read the links of a node.
\<close>

definition first_of :: "nat list \<Rightarrow> nat option \<Rightarrow> nat option" where
  "first_of xs q = (case xs of [] \<Rightarrow> q | a # _ \<Rightarrow> Some a)"

definition last_of :: "nat option \<Rightarrow> nat list \<Rightarrow> nat option" where
  "last_of p xs = (if xs = [] then p else Some (last xs))"

lemma first_of_simps [simp]:
  "first_of [] q = q" "first_of (a # xs) q = Some a" "first_of (xs @ ys) q = first_of xs (first_of ys q)"
  "xs \<noteq> [] \<Longrightarrow> first_of xs q = Some (hd xs)"
  by (auto simp: first_of_def split: list.splits)

lemma last_of_simps [simp]:
  "last_of p [] = p" "last_of p (xs @ [a]) = Some a" "last_of p [a] = Some a"
  "last_of p (xs @ ys) = last_of (last_of p xs) ys" "last_of p (a # xs) = last_of (Some a) xs"
  "xs \<noteq> [] \<Longrightarrow> last_of p xs = Some (last xs)"
  by (auto simp: last_of_def)

text \<open>The nodes \<open>xs\<close> point to each other, with \<open>p\<close> before and \<open>q\<close> behind them.\<close>

fun linked_by ::
    "('n \<Rightarrow> nat option) \<Rightarrow> ('n \<Rightarrow> nat option) \<Rightarrow> (nat \<Rightarrow> 'n option) \<Rightarrow> nat option \<Rightarrow> nat list \<Rightarrow> nat option \<Rightarrow> bool" where
  "linked_by before behind N p [] q = True"
| "linked_by before behind N p (a # xs) q \<longleftrightarrow>
     (\<exists>n. N a = Some n \<and> before n = p \<and> behind n = first_of xs q) \<and> linked_by before behind N (Some a) xs q"

lemma linked_append [simp]:
  "linked_by f g N p (xs @ ys) q \<longleftrightarrow> linked_by f g N p xs (first_of ys q) \<and> linked_by f g N (last_of p xs) ys q"
  by (induction xs arbitrary: p) auto

lemma linked_cong: "(\<And>a. a \<in> set xs \<Longrightarrow> N' a = N a) \<Longrightarrow> linked_by f g N' p xs q = linked_by f g N p xs q"
  by (induction xs arbitrary: p) auto

lemma linked_upd [simp]: "a \<notin> set xs \<Longrightarrow> linked_by f g (N(a := x)) p xs q = linked_by f g N p xs q"
  by (rule linked_cong) auto

lemma linked_live: "linked_by f g N p xs q \<Longrightarrow> a \<in> set xs \<Longrightarrow> N a \<noteq> None"
  by (induction xs arbitrary: p) auto

text \<open>Stores that agree on the links agree on what is linked.\<close>

lemma linked_links:
  "(\<And>a. a \<in> set xs \<Longrightarrow> map_option (\<lambda>n. (f n, g n)) (N' a) = map_option (\<lambda>n. (f n, g n)) (N a)) \<Longrightarrow>
     linked_by f g N' p xs q = linked_by f g N p xs q"
proof (induction xs arbitrary: p)
  case (Cons a xs)
  have "map_option (\<lambda>n. (f n, g n)) (N' a) = map_option (\<lambda>n. (f n, g n)) (N a)" using Cons.prems by simp
  then have "(\<exists>n. N' a = Some n \<and> f n = p \<and> g n = first_of xs q) = (\<exists>n. N a = Some n \<and> f n = p \<and> g n = first_of xs q)"
    by (cases "N a"; cases "N' a") auto
  with Cons show ?case by simp
qed simp

section \<open>Loops that follow pointers\<close>

text \<open>An operation that may not end: then the outcome is \<open>None\<close>.\<close>

type_synonym ('a, 's) looping = "'s \<Rightarrow> ('a \<times> 's) run option"

definition ends :: "('a, 's) stateful \<Rightarrow> ('a, 's) looping" where
  "ends f w = Some (f w)"

definition then_loop :: "('a, 's) looping \<Rightarrow> ('a \<Rightarrow> ('b, 's) looping) \<Rightarrow> ('b, 's) looping" where
  "then_loop f g w =
     (case f w of
        None \<Rightarrow> None
      | Some Abort \<Rightarrow> Some Abort
      | Some Undef \<Rightarrow> Some Undef
      | Some (Ret (x, w)) \<Rightarrow> g x w)"

lemma then_loop_Ret: "f w = Some (Ret (x, w')) \<Longrightarrow> then_loop f g w = g x w'"
  by (simp add: then_loop_def)

text \<open>\<open>while (p != NULL)\<close> with variables \<open>x\<close>: the body gives the new variables and the next pointer.\<close>

partial_function (option) while_some ::
    "(nat \<Rightarrow> 'x \<Rightarrow> ('x \<times> nat option, 's) stateful) \<Rightarrow> nat option \<Rightarrow> 'x \<Rightarrow> ('x, 's) looping" where
  "while_some body p x w =
     (case p of
        None \<Rightarrow> Some (Ret (x, w))
      | Some a \<Rightarrow>
          (case body a x w of
             Abort \<Rightarrow> Some Abort
           | Undef \<Rightarrow> Some Undef
           | Ret ((x, p), w) \<Rightarrow> while_some body p x w))"

lemma while_some_runs:
  assumes step: "\<And>ds a xs x w. I ds (a # xs) x w \<Longrightarrow>
      \<exists>x' w'. body a x w = Ret ((x', first_of xs None), w') \<and> I (ds @ [a]) xs x' w'"
    and "I ds xs x w"
  shows "\<exists>x' w'. while_some body (first_of xs None) x w = Some (Ret (x', w')) \<and> I (ds @ xs) [] x' w'"
  using assms(2)
proof (induction xs arbitrary: ds x w)
  case Nil
  then show ?case by (subst while_some.simps) simp
next
  case (Cons a xs)
  from step [OF Cons.prems] obtain x' w' where "body a x w = Ret ((x', first_of xs None), w')" "I (ds @ [a]) xs x' w'" by blast
  with Cons.IH [OF this(2)] show ?case by (subst while_some.simps) simp
qed

primrec for_each :: "('i \<Rightarrow> 'x \<Rightarrow> ('x, 's) looping) \<Rightarrow> 'i list \<Rightarrow> 'x \<Rightarrow> ('x, 's) looping" where
  "for_each body [] x = ends (ok x)"
| "for_each body (i # js) x = then_loop (body i x) (for_each body js)"

lemma for_each_runs:
  assumes step: "\<And>ds i js x w. I ds (i # js) x w \<Longrightarrow> \<exists>x' w'. body i x w = Some (Ret (x', w')) \<and> I (ds @ [i]) js x' w'"
    and "I ds js x w"
  shows "\<exists>x' w'. for_each body js x w = Some (Ret (x', w')) \<and> I (ds @ js) [] x' w'"
  using assms(2)
proof (induction js arbitrary: ds x w)
  case (Cons i js)
  from step [OF Cons.prems] obtain x' w' where 1: "body i x w = Some (Ret (x', w'))" "I (ds @ [i]) js x' w'" by blast
  with Cons.IH [OF 1(2)] show ?case by (simp add: then_loop_def)
qed (auto simp: ends_def ok_def)

end
