(* ===== verification/Ten_List.thy ===== *)
theory Ten_List
  imports Links
begin

text \<open>
  The lists of the framework (\<open>core/src/ten_utils/container/list.c\<close>, \<open>list_node.c\<close>, \<open>list_ptr.c\<close>,
  \<open>list_node_ptr.c\<close>): doubly linked nodes that are embedded in what the list holds.  List structs and
  nodes live in a heap by address; a node has its content, and whether it has a destructor, whose calls
  are logged.  Arguments of type \<open>nat\<close> are pointers that are not \<open>NULL\<close>, which every function
  asserts; what is alive has its signature.  The size does not wrap, since every node takes memory.

  The abstract view of a heap gives each list struct the addresses of its nodes in order; every operation
  is shown to do on these sequences what it is for, for all lists of the heap at once.
\<close>

section \<open>The heap\<close>

record 'a listnode =
  ln_next :: "nat option"
  ln_prev :: "nat option"
  ln_content :: 'a
  ln_destroy :: bool

record ten_list =
  li_size :: nat
  li_front :: "nat option"
  li_back :: "nat option"

record 'a list_heap =
  lists :: "nat \<Rightarrow> ten_list option"
  nodes :: "nat \<Rightarrow> 'a listnode option"
  destroyed :: "'a list"

type_synonym ('r, 'a) list_step = "('r, 'a list_heap) stateful"

definition list_of :: "nat \<Rightarrow> (ten_list, 'a) list_step" where
  "list_of self h = map_run (\<lambda>l. (l, h)) (load (lists h) self)"

definition set_list :: "nat \<Rightarrow> (ten_list \<Rightarrow> ten_list) \<Rightarrow> (unit, 'a) list_step" where
  "set_list self f h = map_run (\<lambda>l. ((), h\<lparr>lists := (lists h)(self \<mapsto> f l)\<rparr>)) (load (lists h) self)"

definition pointee :: "nat option \<Rightarrow> 'a list_heap \<Rightarrow> 'a listnode run" where
  "pointee p h = (case p of None \<Rightarrow> Undef | Some a \<Rightarrow> load (nodes h) a)"

definition node_of :: "nat option \<Rightarrow> ('a listnode, 'a) list_step" where
  "node_of p h = map_run (\<lambda>n. (n, h)) (pointee p h)"

definition set_node :: "nat option \<Rightarrow> ('a listnode \<Rightarrow> 'a listnode) \<Rightarrow> (unit, 'a) list_step" where
  "set_node p f h = map_run (\<lambda>n. ((), h\<lparr>nodes := (nodes h)(the p \<mapsto> f n)\<rparr>)) (pointee p h)"

abbreviation set_next :: "nat option \<Rightarrow> nat option \<Rightarrow> (unit, 'a) list_step" where
  "set_next p q \<equiv> set_node p (\<lambda>n. n\<lparr>ln_next := q\<rparr>)"

abbreviation set_prev :: "nat option \<Rightarrow> nat option \<Rightarrow> (unit, 'a) list_step" where
  "set_prev p q \<equiv> set_node p (\<lambda>n. n\<lparr>ln_prev := q\<rparr>)"

section \<open>Operations\<close>

definition ten_list_check_integrity :: "nat \<Rightarrow> (bool, 'a) list_step" where
  "ten_list_check_integrity self =
     and_with (list_of self) (\<lambda>l.
       if li_size l = 0 then ok (li_front l = None \<and> li_back l = None)
       else if li_front l = None \<or> li_back l = None then ok False
       else if (li_size l = 1) \<noteq> (li_front l = li_back l) then ok False
       else and_with (node_of (li_front l)) (\<lambda>f.
              if ln_prev f \<noteq> None then ok False
              else and_with (node_of (li_back l)) (\<lambda>b. ok (ln_next b = None))))"

definition checked :: "nat \<Rightarrow> (ten_list, 'a) list_step" where
  "checked self = and_with (ten_list_check_integrity self) (\<lambda>b. and_with (demand b) (\<lambda>_. list_of self))"

definition ten_list_init :: "nat \<Rightarrow> (unit, 'a) list_step" where
  "ten_list_init self = set_list self (\<lambda>_. \<lparr>li_size = 0, li_front = None, li_back = None\<rparr>)"

definition ten_list_reset :: "nat \<Rightarrow> (unit, 'a) list_step" where
  "ten_list_reset self = and_with (checked self) (\<lambda>_.
     set_list self (\<lambda>_. \<lparr>li_size = 0, li_front = None, li_back = None\<rparr>))"

definition ten_list_size :: "nat \<Rightarrow> (nat, 'a) list_step" where
  "ten_list_size self = and_with (checked self) (\<lambda>l. ok (li_size l))"

definition ten_list_is_empty :: "nat \<Rightarrow> (bool, 'a) list_step" where
  "ten_list_is_empty self = and_with (checked self) (\<lambda>_. and_with (ten_list_size self) (\<lambda>n. ok (n = 0)))"

definition ten_list_front :: "nat \<Rightarrow> (nat option, 'a) list_step" where
  "ten_list_front self = and_with (checked self) (\<lambda>l. ok (li_front l))"

definition ten_list_back :: "nat \<Rightarrow> (nat option, 'a) list_step" where
  "ten_list_back self = and_with (checked self) (\<lambda>l. ok (li_back l))"

definition ten_list_swap :: "nat \<Rightarrow> nat \<Rightarrow> (unit, 'a) list_step" where
  "ten_list_swap self target =
     and_with (checked self) (\<lambda>_.
     and_with (checked target) (\<lambda>_.
     and_with (list_of self) (\<lambda>old.
     and_with (list_of target) (\<lambda>l.
     and_with (set_list self (\<lambda>_. l)) (\<lambda>_.
       set_list target (\<lambda>_. old))))))"

definition ten_list_concat :: "nat \<Rightarrow> nat \<Rightarrow> (unit, 'a) list_step" where
  "ten_list_concat self target =
     and_with (checked self) (\<lambda>_.
     and_with (checked target) (\<lambda>_.
     and_with (ten_list_size target) (\<lambda>n.
       if n = 0 then ok ()
       else and_with (ten_list_size self) (\<lambda>m.
         if m = 0 then ten_list_swap self target
         else
           and_with (list_of self) (\<lambda>l.
           and_with (list_of target) (\<lambda>k.
           and_with (set_next (li_back l) (li_front k)) (\<lambda>_.
           and_with (set_prev (li_front k) (li_back l)) (\<lambda>_.
           and_with (set_list self (\<lambda>l. l\<lparr>li_back := li_back k\<rparr>)) (\<lambda>_.
           and_with (set_list self (\<lambda>l. l\<lparr>li_size := li_size l + li_size k\<rparr>)) (\<lambda>_.
             set_list target (\<lambda>_. \<lparr>li_size = 0, li_front = None, li_back = None\<rparr>)))))))))))"

definition ten_list_push_front :: "nat \<Rightarrow> nat \<Rightarrow> (unit, 'a) list_step" where
  "ten_list_push_front self node =
     and_with (checked self) (\<lambda>_.
     and_with (ten_list_is_empty self) (\<lambda>empty.
     and_with
       (if empty
        then and_with (set_list self (\<lambda>l. l\<lparr>li_front := Some node, li_back := Some node\<rparr>)) (\<lambda>_.
             and_with (set_next (Some node) None) (\<lambda>_. set_prev (Some node) None))
        else and_with (list_of self) (\<lambda>l.
             and_with (set_next (Some node) (li_front l)) (\<lambda>_.
             and_with (set_prev (Some node) None) (\<lambda>_.
             and_with (set_prev (li_front l) (Some node)) (\<lambda>_.
               set_list self (\<lambda>l. l\<lparr>li_front := Some node\<rparr>)))))) (\<lambda>_.
       set_list self (\<lambda>l. l\<lparr>li_size := li_size l + 1\<rparr>))))"

definition ten_list_push_back :: "nat \<Rightarrow> nat \<Rightarrow> (unit, 'a) list_step" where
  "ten_list_push_back self node =
     and_with (checked self) (\<lambda>_.
     and_with (ten_list_is_empty self) (\<lambda>empty.
     and_with
       (if empty
        then and_with (set_list self (\<lambda>l. l\<lparr>li_front := Some node, li_back := Some node\<rparr>)) (\<lambda>_.
             and_with (set_prev (Some node) None) (\<lambda>_. set_next (Some node) None))
        else and_with (list_of self) (\<lambda>l.
             and_with (set_next (Some node) None) (\<lambda>_.
             and_with (set_prev (Some node) (li_back l)) (\<lambda>_.
             and_with (set_next (li_back l) (Some node)) (\<lambda>_.
               set_list self (\<lambda>l. l\<lparr>li_back := Some node\<rparr>)))))) (\<lambda>_.
       set_list self (\<lambda>l. l\<lparr>li_size := li_size l + 1\<rparr>))))"

definition ten_list_pop_front :: "nat \<Rightarrow> (nat option, 'a) list_step" where
  "ten_list_pop_front self =
     and_with (checked self) (\<lambda>_.
     and_with (ten_list_is_empty self) (\<lambda>empty.
       if empty then ok None
       else and_with (list_of self) (\<lambda>l. let node = li_front l in
         and_with
           (and_with (ten_list_size self) (\<lambda>n.
              if n = 1
              then and_with (set_list self (\<lambda>l. l\<lparr>li_back := None, li_front := None\<rparr>)) (\<lambda>_.
                   and_with (set_next node None) (\<lambda>_. set_prev node None))
              else and_with (node_of node) (\<lambda>f.
                   and_with (set_list self (\<lambda>l. l\<lparr>li_front := ln_next f\<rparr>)) (\<lambda>_.
                   and_with (set_prev (ln_next f) None) (\<lambda>_.
                     set_next node None))))) (\<lambda>_.
         and_with (set_list self (\<lambda>l. l\<lparr>li_size := li_size l - 1\<rparr>)) (\<lambda>_.
           ok node)))))"

definition ten_list_pop_back :: "nat \<Rightarrow> (nat option, 'a) list_step" where
  "ten_list_pop_back self =
     and_with (checked self) (\<lambda>_.
     and_with (ten_list_is_empty self) (\<lambda>empty.
       if empty then ok None
       else and_with (list_of self) (\<lambda>l. let node = li_back l in
         and_with
           (and_with (ten_list_size self) (\<lambda>n.
              if n = 1
              then and_with (set_list self (\<lambda>l. l\<lparr>li_front := None, li_back := None\<rparr>)) (\<lambda>_.
                   and_with (set_next node None) (\<lambda>_. set_prev node None))
              else and_with (node_of node) (\<lambda>b.
                   and_with (set_list self (\<lambda>l. l\<lparr>li_back := ln_prev b\<rparr>)) (\<lambda>_.
                   and_with (set_next (ln_prev b) None) (\<lambda>_.
                     set_prev node None))))) (\<lambda>_.
         and_with (set_list self (\<lambda>l. l\<lparr>li_size := li_size l - 1\<rparr>)) (\<lambda>_.
           ok node)))))"

text \<open>The assertions that the neighbours point to the node.\<close>

definition next_points_back :: "nat \<Rightarrow> 'a listnode \<Rightarrow> (bool, 'a) list_step" where
  "next_points_back a n = and_with (node_of (ln_next n)) (\<lambda>m. ok (ln_prev m = Some a))"

definition prev_points_back :: "nat \<Rightarrow> 'a listnode \<Rightarrow> (bool, 'a) list_step" where
  "prev_points_back a n = and_with (node_of (ln_prev n)) (\<lambda>m. ok (ln_next m = Some a))"

definition unlink :: "nat \<Rightarrow> ten_list \<Rightarrow> nat \<Rightarrow> 'a listnode \<Rightarrow> (unit, 'a) list_step" where
  "unlink self l node n =
     (if Some node = li_front l
      then and_with (demand (ln_prev n = None)) (\<lambda>_.
           and_with (next_points_back node n) (\<lambda>b.
           and_with (demand b) (\<lambda>_.
           and_with (set_prev (ln_next n) None) (\<lambda>_.
             set_list self (\<lambda>l. l\<lparr>li_front := ln_next n\<rparr>)))))
      else if Some node = li_back l
      then and_with (demand (ln_next n = None)) (\<lambda>_.
           and_with (prev_points_back node n) (\<lambda>b.
           and_with (demand b) (\<lambda>_.
           and_with (set_next (ln_prev n) None) (\<lambda>_.
             set_list self (\<lambda>l. l\<lparr>li_back := ln_prev n\<rparr>)))))
      else and_with (prev_points_back node n) (\<lambda>b.
           and_with (demand b) (\<lambda>_.
           and_with (next_points_back node n) (\<lambda>b.
           and_with (demand b) (\<lambda>_.
           and_with (set_next (ln_prev n) (ln_next n)) (\<lambda>_.
             set_prev (ln_next n) (ln_prev n)))))))"

definition ten_list_detach_node :: "nat \<Rightarrow> nat \<Rightarrow> (unit, 'a) list_step" where
  "ten_list_detach_node self node =
     and_with (checked self) (\<lambda>_.
     and_with (ten_list_is_empty self) (\<lambda>empty.
     and_with (demand (\<not> empty)) (\<lambda>_.
     and_with (ten_list_size self) (\<lambda>n.
     and_with (list_of self) (\<lambda>l.
     and_with
       (if n = 1
        then and_with (demand (li_front l = Some node)) (\<lambda>_.
             set_list self (\<lambda>l. l\<lparr>li_front := None, li_back := None\<rparr>))
        else and_with (node_of (Some node)) (unlink self l node)) (\<lambda>_.
       set_list self (\<lambda>l. l\<lparr>li_size := li_size l - 1\<rparr>)))))))"

definition ten_listnode_destroy :: "nat option \<Rightarrow> (unit, 'a) list_step" where
  "ten_listnode_destroy p =
     (case p of
        None \<Rightarrow> lift Abort
      | Some a \<Rightarrow> and_with (node_of (Some a)) (\<lambda>n h.
          Ret ((), h\<lparr>nodes := (nodes h)(a := None),
                     destroyed := destroyed h @ (if ln_destroy n then [ln_content n] else [])\<rparr>)))"

definition ten_list_remove_node :: "nat \<Rightarrow> nat \<Rightarrow> (unit, 'a) list_step" where
  "ten_list_remove_node self node =
     and_with (checked self) (\<lambda>_.
     and_with (ten_list_is_empty self) (\<lambda>empty.
     and_with (demand (\<not> empty)) (\<lambda>_.
     and_with (ten_list_detach_node self node) (\<lambda>_.
       ten_listnode_destroy (Some node)))))"

definition ten_list_remove_front :: "nat \<Rightarrow> (unit, 'a) list_step" where
  "ten_list_remove_front self =
     and_with (checked self) (\<lambda>_. and_with (ten_list_pop_front self) ten_listnode_destroy)"

section \<open>Loops\<close>

record list_iterator =
  it_prev :: "nat option"
  it_node :: "nat option"
  it_next :: "nat option"
  it_index :: nat

definition next_of :: "nat option \<Rightarrow> (nat option, 'a) list_step" where
  "next_of p = (case p of None \<Rightarrow> ok None | Some a \<Rightarrow> and_with (node_of (Some a)) (\<lambda>n. ok (ln_next n)))"

definition prev_of :: "nat option \<Rightarrow> (nat option, 'a) list_step" where
  "prev_of p = (case p of None \<Rightarrow> ok None | Some a \<Rightarrow> and_with (node_of (Some a)) (\<lambda>n. ok (ln_prev n)))"

definition ten_list_begin :: "nat \<Rightarrow> (list_iterator, 'a) list_step" where
  "ten_list_begin self =
     and_with (ten_list_front self) (\<lambda>f.
     and_with (next_of f) (\<lambda>n.
       ok \<lparr>it_prev = None, it_node = f, it_next = n, it_index = 0\<rparr>))"

definition ten_list_end :: "nat \<Rightarrow> (list_iterator, 'a) list_step" where
  "ten_list_end self =
     and_with (ten_list_size self) (\<lambda>n.
       if n \<noteq> 0
       then and_with (ten_list_back self) (\<lambda>b.
            and_with (prev_of b) (\<lambda>p.
              ok \<lparr>it_prev = p, it_node = b, it_next = None, it_index = n - 1\<rparr>))
       else ok \<lparr>it_prev = None, it_node = None, it_next = None, it_index = 0\<rparr>)"

definition ten_list_iterator_next :: "list_iterator \<Rightarrow> (list_iterator, 'a) list_step" where
  "ten_list_iterator_next it =
     and_with (next_of (it_next it)) (\<lambda>n.
       ok \<lparr>it_prev = it_node it, it_node = it_next it, it_next = n, it_index = it_index it + 1\<rparr>)"

definition ten_list_iterator_prev :: "list_iterator \<Rightarrow> (list_iterator, 'a) list_step" where
  "ten_list_iterator_prev it =
     and_with (prev_of (it_prev it)) (\<lambda>p.
       ok \<lparr>it_prev = p, it_node = it_prev it, it_next = it_node it, it_index = it_index it - 1\<rparr>)"

text \<open>A loop over a list: the body may end it with a result.  On nodes that are linked in a circle the loop
  has no end, which is the outcome \<open>None\<close>.\<close>

partial_function (option) loop_from ::
    "(list_iterator \<Rightarrow> ('r option, 'a) list_step) \<Rightarrow> list_iterator \<Rightarrow> 'a list_heap \<Rightarrow>
     ('r option \<times> 'a list_heap) run option" where
  "loop_from body it h =
     (case it_node it of
        None \<Rightarrow> Some (Ret (None, h))
      | Some a \<Rightarrow>
          (case body it h of
             Abort \<Rightarrow> Some Abort
           | Undef \<Rightarrow> Some Undef
           | Ret (Some r, h) \<Rightarrow> Some (Ret (Some r, h))
           | Ret (None, h) \<Rightarrow>
               (case ten_list_iterator_next it h of
                  Abort \<Rightarrow> Some Abort
                | Undef \<Rightarrow> Some Undef
                | Ret (it, h) \<Rightarrow> loop_from body it h)))"


definition ten_list_foreach ::
    "nat \<Rightarrow> (list_iterator \<Rightarrow> ('r option, 'a) list_step) \<Rightarrow> 'a list_heap \<Rightarrow>
     ('r option \<times> 'a list_heap) run option" where
  "ten_list_foreach self body h =
     (case and_with (ten_list_size self) (\<lambda>n.
           and_with (demand (n \<le> TEN_LIST_LOOP_MAX_ALLOWABLE_CNT)) (\<lambda>_. ten_list_begin self)) h of
        Abort \<Rightarrow> Some Abort
      | Undef \<Rightarrow> Some Undef
      | Ret (it, h) \<Rightarrow> loop_from body it h)"

text \<open>What comes after a loop, and what comes before.\<close>

definition after_loop ::
    "('b \<times> 's) run option \<Rightarrow> ('b \<Rightarrow> ('c, 's) stateful) \<Rightarrow> ('c \<times> 's) run option" where
  "after_loop l g = map_option (\<lambda>r. run_bind r (\<lambda>(x, h). g x h)) l"

definition ten_list_clear :: "nat \<Rightarrow> 'a list_heap \<Rightarrow> (unit \<times> 'a list_heap) run option" where
  "ten_list_clear self h =
     (case checked self h of
        Abort \<Rightarrow> Some Abort
      | Undef \<Rightarrow> Some Undef
      | Ret (_, h) \<Rightarrow>
          after_loop (ten_list_foreach self (\<lambda>it. and_with (ten_listnode_destroy (it_node it)) (\<lambda>_. ok (None :: unit option))) h)
            (\<lambda>_. set_list self (\<lambda>_. \<lparr>li_size = 0, li_front = None, li_back = None\<rparr>)))"

definition ten_list_reverse_new :: "nat \<Rightarrow> nat \<Rightarrow> 'a list_heap \<Rightarrow> (unit \<times> 'a list_heap) run option" where
  "ten_list_reverse_new src dest h =
     (case and_with (checked src) (\<lambda>_. checked dest) h of
        Abort \<Rightarrow> Some Abort
      | Undef \<Rightarrow> Some Undef
      | Ret (_, h) \<Rightarrow>
          after_loop
            (ten_list_foreach src (\<lambda>it.
               and_with (ten_list_push_front dest (the (it_node it))) (\<lambda>_. ok (None :: unit option))) h)
            (\<lambda>_. ten_list_init src))"

text \<open>The list that the reversal builds is a local variable, at the address \<open>dest\<close>.\<close>

definition ten_list_reverse :: "nat \<Rightarrow> nat \<Rightarrow> 'a list_heap \<Rightarrow> (unit \<times> 'a list_heap) run option" where
  "ten_list_reverse dest src h =
     (case and_with (checked src) (\<lambda>_ h.
         Ret ((), h\<lparr>lists := (lists h)(dest \<mapsto> \<lparr>li_size = 0, li_front = None, li_back = None\<rparr>)\<rparr>)) h of
        Abort \<Rightarrow> Some Abort
      | Undef \<Rightarrow> Some Undef
      | Ret (_, h) \<Rightarrow>
          after_loop
            (ten_list_foreach src (\<lambda>it.
               and_with (ten_list_push_front dest (the (it_node it))) (\<lambda>_. ok (None :: unit option))) h)
            (\<lambda>_. and_with (ten_list_init src) (\<lambda>_.
                  and_with (ten_list_swap dest src) (\<lambda>_ h.
                    Ret ((), h\<lparr>lists := (lists h)(dest := None)\<rparr>)))))"

text \<open>The comparison looks at the contents.\<close>

definition ten_list_push_back_in_order ::
    "nat \<Rightarrow> nat \<Rightarrow> ('a \<Rightarrow> 'a \<Rightarrow> int) \<Rightarrow> bool \<Rightarrow> 'a list_heap \<Rightarrow> (bool \<times> 'a list_heap) run option" where
  "ten_list_push_back_in_order self node cmp skip_if_same h =
     (case and_with (checked self) (\<lambda>_. ten_list_is_empty self) h of
        Abort \<Rightarrow> Some Abort
      | Undef \<Rightarrow> Some Undef
      | Ret (True, h) \<Rightarrow> Some (and_with (ten_list_push_back self node) (\<lambda>_. ok True) h)
      | Ret (False, h) \<Rightarrow>
          after_loop
            (ten_list_foreach self (\<lambda>it.
               and_with (node_of (it_node it)) (\<lambda>x.
               and_with (node_of (Some node)) (\<lambda>n.
                 let result = cmp (ln_content x) (ln_content n) in
                 if result = 0 \<and> skip_if_same then ok (Some False)
                 else if result > 0 then ok None
                 else and_with (ten_list_front self) (\<lambda>front.
                   if it_node it = front
                   then and_with (ten_list_push_front self node) (\<lambda>_. ok (Some True))
                   else
                     and_with (set_next (it_prev it) (Some node)) (\<lambda>_.
                     and_with (set_prev (Some node) (it_prev it)) (\<lambda>_.
                     and_with (set_next (Some node) (it_node it)) (\<lambda>_.
                     and_with (set_prev (it_node it) (Some node)) (\<lambda>_.
                     and_with (set_list self (\<lambda>l. l\<lparr>li_size := li_size l + 1\<rparr>)) (\<lambda>_.
                       ok (Some True))))))))))
               h)
            (\<lambda>r. case r of
                   Some b \<Rightarrow> ok b
                 | None \<Rightarrow> and_with (ten_list_push_back self node) (\<lambda>_. ok True)))"

section \<open>Lists of pointers\<close>

text \<open>The allocator gives the node its address.\<close>

definition ten_ptr_listnode_create :: "nat \<Rightarrow> 'a \<Rightarrow> bool \<Rightarrow> (nat, 'a) list_step" where
  "ten_ptr_listnode_create a ptr destroy h =
     Ret (a, h\<lparr>nodes := (nodes h)(a \<mapsto> \<lparr>ln_next = None, ln_prev = None, ln_content = ptr, ln_destroy = destroy\<rparr>)\<rparr>)"

definition ten_list_push_ptr_back :: "nat \<Rightarrow> nat \<Rightarrow> 'a \<Rightarrow> bool \<Rightarrow> (unit, 'a) list_step" where
  "ten_list_push_ptr_back a self ptr destroy =
     and_with (ten_ptr_listnode_create a ptr destroy) (ten_list_push_back self)"

definition ten_list_push_ptr_front :: "nat \<Rightarrow> nat \<Rightarrow> 'a \<Rightarrow> bool \<Rightarrow> (unit, 'a) list_step" where
  "ten_list_push_ptr_front a self ptr destroy =
     and_with (ten_ptr_listnode_create a ptr destroy) (ten_list_push_front self)"

definition ten_list_find_ptr_custom ::
    "nat \<Rightarrow> 'b \<Rightarrow> ('a \<Rightarrow> 'b \<Rightarrow> bool) \<Rightarrow> 'a list_heap \<Rightarrow> (nat option \<times> 'a list_heap) run option" where
  "ten_list_find_ptr_custom self ptr equal_to h =
     (case checked self h of
        Abort \<Rightarrow> Some Abort
      | Undef \<Rightarrow> Some Undef
      | Ret (_, h) \<Rightarrow>
          after_loop
            (ten_list_foreach self (\<lambda>it.
               and_with (node_of (it_node it)) (\<lambda>x.
                 if equal_to (ln_content x) ptr then ok (Some (it_node it)) else ok None)) h)
            (\<lambda>r. ok (case r of Some a \<Rightarrow> a | None \<Rightarrow> None)))"

definition ten_list_find_ptr :: "nat \<Rightarrow> 'a \<Rightarrow> 'a list_heap \<Rightarrow> (nat option \<times> 'a list_heap) run option" where
  "ten_list_find_ptr self ptr = ten_list_find_ptr_custom self ptr (=)"

definition ten_list_remove_ptr :: "nat \<Rightarrow> 'a \<Rightarrow> 'a list_heap \<Rightarrow> (bool \<times> 'a list_heap) run option" where
  "ten_list_remove_ptr self ptr h =
     (case checked self h of
        Abort \<Rightarrow> Some Abort
      | Undef \<Rightarrow> Some Undef
      | Ret (_, h) \<Rightarrow>
          after_loop
            (ten_list_foreach self (\<lambda>it.
               and_with (node_of (it_node it)) (\<lambda>x.
                 if ln_content x = ptr
                 then and_with (ten_list_remove_node self (the (it_node it))) (\<lambda>_. ok (Some True))
                 else ok None)) h)
            (\<lambda>r. ok (r = Some True)))"

section \<open>Lists that are well formed\<close>

abbreviation linked :: "(nat \<Rightarrow> 'a listnode option) \<Rightarrow> nat option \<Rightarrow> nat list \<Rightarrow> nat option \<Rightarrow> bool" where
  "linked \<equiv> linked_by ln_prev ln_next"

definition struct_for :: "nat list \<Rightarrow> ten_list" where
  "struct_for xs = \<lparr>li_size = length xs, li_front = first_of xs None, li_back = last_of None xs\<rparr>"

lemma struct_for_fields [simp]:
  "li_size (struct_for xs) = length xs" "li_front (struct_for xs) = first_of xs None"
  "li_back (struct_for xs) = last_of None xs"
  by (simp_all add: struct_for_def)

lemma struct_for_nil: "struct_for [] = \<lparr>li_size = 0, li_front = None, li_back = None\<rparr>"
  by (simp add: struct_for_def)

definition holds :: "'a list_heap \<Rightarrow> nat \<Rightarrow> nat list \<Rightarrow> bool" where
  "holds h s xs \<longleftrightarrow> lists h s = Some (struct_for xs) \<and> linked (nodes h) None xs None \<and> distinct xs"

lemma holdsD:
  assumes "holds h s xs"
  shows "lists h s = Some (struct_for xs)" "linked (nodes h) None xs None" "distinct xs"
  using assms by (auto simp: holds_def)

lemmas step_defs = and_with_def ok_def list_of_def set_list_def node_of_def set_node_def pointee_def load_def demand_def

lemma neq_singleton: "xs \<noteq> [] \<Longrightarrow> length xs \<noteq> Suc 0 \<Longrightarrow> distinct xs \<Longrightarrow> hd xs \<noteq> last xs"
  by (cases xs) auto

lemma checked_holds: "holds h s xs \<Longrightarrow> checked s h = Ret (struct_for xs, h)"
proof (cases "xs = []")
  case False
  assume h: "holds h s xs"
  obtain b ys where ys: "xs = ys @ [b]" using False by (cases xs rule: rev_cases) auto
  obtain a zs where zs: "xs = a # zs" using False by (cases xs) auto
  from holdsD(2) [OF h] zs obtain na where "nodes h a = Some na" "ln_prev na = None" by auto
  moreover from holdsD(2) [OF h] ys obtain nb where "nodes h b = Some nb" "ln_next nb = None" by auto
  moreover have "first_of xs None = Some a" using zs by simp
  moreover have "last_of None xs = Some b" using ys by simp
  moreover have "(length xs = Suc 0) = (a = b)"
    using neq_singleton [OF False _ holdsD(3) [OF h]] ys zs by (cases zs rule: rev_cases) auto
  ultimately show ?thesis using False holdsD(1) [OF h]
    by (simp add: checked_def ten_list_check_integrity_def step_defs)
qed (auto simp: checked_def ten_list_check_integrity_def step_defs holds_def)

lemma accessors_hold:
  assumes "holds h s xs"
  shows "list_of s h = Ret (struct_for xs, h)" "ten_list_size s h = Ret (length xs, h)"
    "ten_list_is_empty s h = Ret (xs = [], h)" "ten_list_front s h = Ret (first_of xs None, h)"
    "ten_list_back s h = Ret (last_of None xs, h)"
  using assms checked_holds [OF assms] holdsD(1) [OF assms]
  by (simp_all add: ten_list_size_def ten_list_is_empty_def ten_list_front_def ten_list_back_def and_with_def ok_def
      list_of_def load_def)

section \<open>What operations leave alone\<close>

definition contents :: "'a list_heap \<Rightarrow> nat \<Rightarrow> ('a \<times> bool) option" where
  "contents h a = map_option (\<lambda>n. (ln_content n, ln_destroy n)) (nodes h a)"

definition only_changes :: "nat set \<Rightarrow> nat set \<Rightarrow> 'a list_heap \<Rightarrow> 'a list_heap \<Rightarrow> bool" where
  "only_changes S X h h' \<longleftrightarrow>
     (\<forall>t. t \<notin> S \<longrightarrow> lists h' t = lists h t) \<and> (\<forall>a. a \<notin> X \<longrightarrow> nodes h' a = nodes h a) \<and>
     contents h' = contents h \<and> destroyed h' = destroyed h"

lemma only_changesI:
  assumes "\<And>t. t \<notin> S \<Longrightarrow> lists h' t = lists h t" "\<And>a. a \<notin> X \<Longrightarrow> nodes h' a = nodes h a"
    "\<And>a. contents h' a = contents h a" "destroyed h' = destroyed h"
  shows "only_changes S X h h'"
  using assms by (auto simp: only_changes_def)

lemma push_back_holds:
  assumes h: "holds h s xs" and a: "nodes h a \<noteq> None" "a \<notin> set xs"
  shows "\<exists>h'. ten_list_push_back s a h = Ret ((), h') \<and> holds h' s (xs @ [a]) \<and> only_changes {s} (insert a (set xs)) h h'"
proof (cases xs rule: rev_cases)
  case Nil
  from a(1) obtain n where n: "nodes h a = Some n" by blast
  let ?h = "h\<lparr>lists := (lists h)(s \<mapsto> struct_for [a]), nodes := (nodes h)(a \<mapsto> n\<lparr>ln_prev := None, ln_next := None\<rparr>)\<rparr>"
  have "ten_list_push_back s a h = Ret ((), ?h)"
    using h n Nil holdsD(1) [OF h]
    by (simp add: ten_list_push_back_def checked_holds accessors_hold step_defs struct_for_def Let_def)
  moreover have "holds ?h s [a]" by (simp add: holds_def)
  moreover have "only_changes {s} {a} h ?h" using n by (intro only_changesI) (simp_all add: contents_def)
  ultimately show ?thesis using Nil by auto
next
  case (snoc ys b)
  from a(1) obtain n where n: "nodes h a = Some n" by blast
  from holdsD(2) [OF h] snoc obtain nb where nb: "nodes h b = Some nb" "ln_prev nb = last_of None ys" by auto
  have ab: "a \<noteq> b" "a \<notin> set ys" "b \<notin> set ys" using a(2) snoc holdsD(3) [OF h] by auto
  let ?h = "h\<lparr>lists := (lists h)(s \<mapsto> struct_for (xs @ [a])),
     nodes := (nodes h)(a \<mapsto> n\<lparr>ln_next := None, ln_prev := Some b\<rparr>, b \<mapsto> nb\<lparr>ln_next := Some a\<rparr>)\<rparr>"
  have "ten_list_push_back s a h = Ret ((), ?h)"
    using h n nb(1) snoc ab(1) holdsD(1) [OF h]
    by (simp add: ten_list_push_back_def checked_holds accessors_hold step_defs struct_for_def Let_def)
  moreover have "linked (nodes ?h) None (xs @ [a]) None" using holdsD(2) [OF h] nb snoc ab by (auto simp: fun_upd_twist)
  then have "holds ?h s (xs @ [a])" using holdsD(3) [OF h] a(2) by (simp add: holds_def)
  moreover have "only_changes {s} (insert a (set xs)) h ?h"
    using snoc n nb(1) by (intro only_changesI) (auto simp: contents_def)
  ultimately show ?thesis by blast
qed

lemma push_front_holds:
  assumes h: "holds h s xs" and a: "nodes h a \<noteq> None" "a \<notin> set xs"
  shows "\<exists>h'. ten_list_push_front s a h = Ret ((), h') \<and> holds h' s (a # xs) \<and> only_changes {s} (insert a (set xs)) h h'"
proof (cases xs)
  case Nil
  from a(1) obtain n where n: "nodes h a = Some n" by blast
  let ?h = "h\<lparr>lists := (lists h)(s \<mapsto> struct_for [a]), nodes := (nodes h)(a \<mapsto> n\<lparr>ln_next := None, ln_prev := None\<rparr>)\<rparr>"
  have "ten_list_push_front s a h = Ret ((), ?h)"
    using h n Nil holdsD(1) [OF h]
    by (simp add: ten_list_push_front_def checked_holds accessors_hold step_defs struct_for_def Let_def)
  moreover have "holds ?h s [a]" by (simp add: holds_def)
  moreover have "only_changes {s} {a} h ?h" using n by (intro only_changesI) (simp_all add: contents_def)
  ultimately show ?thesis using Nil by auto
next
  case (Cons b ys)
  from a(1) obtain n where n: "nodes h a = Some n" by blast
  from holdsD(2) [OF h] Cons obtain nb where nb: "nodes h b = Some nb" "ln_next nb = first_of ys None" by auto
  have ab: "a \<noteq> b" "a \<notin> set ys" "b \<notin> set ys" using a(2) Cons holdsD(3) [OF h] by auto
  let ?h = "h\<lparr>lists := (lists h)(s \<mapsto> struct_for (a # xs)),
     nodes := (nodes h)(a \<mapsto> n\<lparr>ln_next := Some b, ln_prev := None\<rparr>, b \<mapsto> nb\<lparr>ln_prev := Some a\<rparr>)\<rparr>"
  have "ten_list_push_front s a h = Ret ((), ?h)"
    using h n nb(1) Cons ab(1) holdsD(1) [OF h]
    by (simp add: ten_list_push_front_def checked_holds accessors_hold step_defs struct_for_def Let_def)
  moreover have "linked (nodes ?h) None (a # xs) None" using holdsD(2) [OF h] nb Cons ab by auto
  then have "holds ?h s (a # xs)" using holdsD(3) [OF h] a(2) by (simp add: holds_def)
  moreover have "only_changes {s} (insert a (set xs)) h ?h"
    using Cons n nb(1) by (intro only_changesI) (auto simp: contents_def)
  ultimately show ?thesis by blast
qed

lemma pop_front_holds:
  assumes h: "holds h s (a # xs)"
  shows "\<exists>h'. ten_list_pop_front s h = Ret (Some a, h') \<and> holds h' s xs \<and> only_changes {s} (insert a (set xs)) h h'"
proof (cases xs)
  case Nil
  from holdsD(2) [OF h] obtain n where n: "nodes h a = Some n" by auto
  let ?h = "h\<lparr>lists := (lists h)(s \<mapsto> struct_for []), nodes := (nodes h)(a \<mapsto> n\<lparr>ln_next := None, ln_prev := None\<rparr>)\<rparr>"
  have "ten_list_pop_front s h = Ret (Some a, ?h)"
    using h n Nil holdsD(1) [OF h]
    by (simp add: ten_list_pop_front_def checked_holds accessors_hold step_defs struct_for_def Let_def)
  moreover have "holds ?h s []" by (simp add: holds_def)
  moreover have "only_changes {s} {a} h ?h" using n by (intro only_changesI) (simp_all add: contents_def)
  ultimately show ?thesis using Nil by auto
next
  case (Cons b ys)
  from holdsD(2) [OF h] Cons obtain n nb where n: "nodes h a = Some n" "ln_next n = Some b" "ln_prev n = None"
    and nb: "nodes h b = Some nb" "ln_next nb = first_of ys None" by auto
  have ab: "a \<noteq> b" "a \<notin> set ys" "b \<notin> set ys" using Cons holdsD(3) [OF h] by auto
  let ?h = "h\<lparr>lists := (lists h)(s \<mapsto> struct_for xs),
     nodes := (nodes h)(b \<mapsto> nb\<lparr>ln_prev := None\<rparr>, a \<mapsto> n\<lparr>ln_next := None\<rparr>)\<rparr>"
  have "ten_list_pop_front s h = Ret (Some a, ?h)"
    using h n(1,2) nb(1) Cons ab(1) holdsD(1) [OF h]
    by (simp add: ten_list_pop_front_def checked_holds accessors_hold step_defs struct_for_def Let_def)
  moreover have "holds ?h s xs" using h nb Cons ab by (simp add: holds_def)
  moreover have "only_changes {s} (insert a (set xs)) h ?h"
    using Cons n(1) nb(1) by (intro only_changesI) (auto simp: contents_def)
  ultimately show ?thesis by blast
qed

lemma pop_back_holds:
  assumes h: "holds h s (xs @ [a])"
  shows "\<exists>h'. ten_list_pop_back s h = Ret (Some a, h') \<and> holds h' s xs \<and> only_changes {s} (insert a (set xs)) h h'"
proof (cases xs rule: rev_cases)
  case Nil
  from holdsD(2) [OF h] obtain n where n: "nodes h a = Some n" by auto
  let ?h = "h\<lparr>lists := (lists h)(s \<mapsto> struct_for []), nodes := (nodes h)(a \<mapsto> n\<lparr>ln_next := None, ln_prev := None\<rparr>)\<rparr>"
  have "ten_list_pop_back s h = Ret (Some a, ?h)"
    using h n Nil holdsD(1) [OF h]
    by (simp add: ten_list_pop_back_def checked_holds accessors_hold step_defs struct_for_def Let_def)
  moreover have "holds ?h s []" by (simp add: holds_def)
  moreover have "only_changes {s} {a} h ?h" using n by (intro only_changesI) (simp_all add: contents_def)
  ultimately show ?thesis using Nil by auto
next
  case (snoc ys b)
  from holdsD(2) [OF h] snoc obtain n nb where n: "nodes h a = Some n" "ln_prev n = Some b" "ln_next n = None"
    and nb: "nodes h b = Some nb" "ln_prev nb = last_of None ys" by auto
  have ab: "a \<noteq> b" "a \<notin> set ys" "b \<notin> set ys" using snoc holdsD(3) [OF h] by auto
  let ?h = "h\<lparr>lists := (lists h)(s \<mapsto> struct_for xs),
     nodes := (nodes h)(b \<mapsto> nb\<lparr>ln_next := None\<rparr>, a \<mapsto> n\<lparr>ln_prev := None\<rparr>)\<rparr>"
  have "ten_list_pop_back s h = Ret (Some a, ?h)"
    using h n(1,2) nb(1) snoc ab(1) holdsD(1) [OF h]
    by (simp add: ten_list_pop_back_def checked_holds accessors_hold step_defs struct_for_def Let_def)
  moreover have "holds ?h s xs" using h nb snoc ab by (simp add: holds_def)
  moreover have "only_changes {s} (insert a (set xs)) h ?h"
    using snoc n(1) nb(1) by (intro only_changesI) (auto simp: contents_def)
  ultimately show ?thesis by blast
qed

lemma detach_holds:
  assumes h: "holds h s (xs @ a # ys)"
  shows "\<exists>h'. ten_list_detach_node s a h = Ret ((), h') \<and> holds h' s (xs @ ys) \<and>
    only_changes {s} (insert a (set (xs @ ys))) h h'"
proof -
  from holdsD(2) [OF h] obtain n where n: "nodes h a = Some n" "ln_prev n = last_of None xs" "ln_next n = first_of ys None" by auto
  have d: "a \<notin> set xs" "a \<notin> set ys" "set xs \<inter> set ys = {}" "distinct xs" "distinct ys" using holdsD(3) [OF h] by auto
  consider "xs = []" "ys = []" | b zs where "xs = []" "ys = b # zs" | b zs where "xs = zs @ [b]" "ys = []"
    | b zs c ws where "xs = zs @ [b]" "ys = c # ws" by (cases xs rule: rev_cases; cases ys) auto
  then show ?thesis
  proof cases
    case 1
    let ?h = "h\<lparr>lists := (lists h)(s \<mapsto> struct_for [])\<rparr>"
    have "ten_list_detach_node s a h = Ret ((), ?h)"
      using h n(1) 1 holdsD(1) [OF h]
      by (simp add: ten_list_detach_node_def checked_holds accessors_hold step_defs struct_for_def Let_def)
    moreover have "holds ?h s []" by (simp add: holds_def)
    moreover have "only_changes {s} {a} h ?h" by (intro only_changesI) (simp_all add: contents_def)
    ultimately show ?thesis using 1 by auto
  next
    case 2
    from holdsD(2) [OF h] 2 obtain nb where nb: "nodes h b = Some nb" "ln_prev nb = Some a" "ln_next nb = first_of zs None" by auto
    have ab: "a \<noteq> b" "b \<notin> set zs" "a \<notin> set zs" using 2 d by auto
    let ?h = "h\<lparr>lists := (lists h)(s \<mapsto> struct_for ys), nodes := (nodes h)(b \<mapsto> nb\<lparr>ln_prev := None\<rparr>)\<rparr>"
    have "ten_list_detach_node s a h = Ret ((), ?h)"
      using h n nb(1,2) 2 ab(1) holdsD(1) [OF h]
      by (simp add: ten_list_detach_node_def unlink_def next_points_back_def checked_holds accessors_hold step_defs struct_for_def Let_def)
    moreover have "holds ?h s ys" using h nb 2 ab by (simp add: holds_def)
    moreover have "only_changes {s} (insert a (set ys)) h ?h"
      using 2 n(1) nb(1) by (intro only_changesI) (auto simp: contents_def)
    ultimately show ?thesis using 2 by auto
  next
    case 3
    from holdsD(2) [OF h] 3 obtain nb where nb: "nodes h b = Some nb" "ln_next nb = Some a" "ln_prev nb = last_of None zs" by auto
    have ab: "a \<noteq> b" "b \<notin> set zs" "a \<notin> set zs" using 3 d by auto
    have front: "Some a \<noteq> first_of zs (Some b)" using ab by (cases zs) auto
    let ?h = "h\<lparr>lists := (lists h)(s \<mapsto> struct_for xs), nodes := (nodes h)(b \<mapsto> nb\<lparr>ln_next := None\<rparr>)\<rparr>"
    have "ten_list_detach_node s a h = Ret ((), ?h)"
      using h n nb(1,2) 3 ab(1) holdsD(1) [OF h] front
      by (simp add: ten_list_detach_node_def unlink_def prev_points_back_def checked_holds accessors_hold step_defs struct_for_def Let_def)
    moreover have "holds ?h s xs" using h nb 3 ab by (simp add: holds_def)
    moreover have "only_changes {s} (insert a (set xs)) h ?h"
      using 3 n(1) nb(1) by (intro only_changesI) (auto simp: contents_def)
    ultimately show ?thesis using 3 by auto
  next
    case 4
    from holdsD(2) [OF h] 4 obtain nb nc where nb: "nodes h b = Some nb" "ln_next nb = Some a" "ln_prev nb = last_of None zs"
      and nc: "nodes h c = Some nc" "ln_prev nc = Some a" "ln_next nc = first_of ws None" by auto
    have ab: "a \<noteq> b" "a \<noteq> c" "b \<noteq> c" "b \<notin> set zs" "a \<notin> set zs" "c \<notin> set zs" "b \<notin> set ws" "a \<notin> set ws" "c \<notin> set ws"
      using 4 d by auto
    have front: "Some a \<noteq> first_of zs (Some b)" using ab by (cases zs) auto
    have last: "Some a \<noteq> last_of (Some c) ws" using ab by (cases ws rule: rev_cases) auto
    let ?h = "h\<lparr>lists := (lists h)(s \<mapsto> struct_for (xs @ ys)),
       nodes := (nodes h)(b \<mapsto> nb\<lparr>ln_next := Some c\<rparr>, c \<mapsto> nc\<lparr>ln_prev := Some b\<rparr>)\<rparr>"
    have "ten_list_detach_node s a h = Ret ((), ?h)"
      using h n nb(1,2) nc(1,2) 4 ab(1-3) holdsD(1) [OF h] front last
      by (simp add: ten_list_detach_node_def unlink_def prev_points_back_def next_points_back_def checked_holds accessors_hold
          step_defs struct_for_def)
    moreover have "holds ?h s (xs @ ys)" using h nb nc 4 ab d by (simp add: holds_def)
    moreover have "only_changes {s} (insert a (set (xs @ ys))) h ?h"
      using 4 n(1) nb(1) nc(1) by (intro only_changesI) (auto simp: contents_def)
    ultimately show ?thesis by blast
  qed
qed

lemma only_changes_trans:
  assumes "only_changes S X h h'" and "only_changes T Y h' h''"
  shows "only_changes (S \<union> T) (X \<union> Y) h h''"
  using assms by (simp add: only_changes_def)

lemma only_changes_mono: "only_changes S X h h' \<Longrightarrow> S \<subseteq> T \<Longrightarrow> X \<subseteq> Y \<Longrightarrow> only_changes T Y h h'"
  by (auto simp: only_changes_def)

lemma only_changes_refl: "only_changes S X h h"
  by (simp add: only_changes_def)

lemma swap_holds:
  assumes "holds h s xs" "holds h t ys"
  shows "\<exists>h'. ten_list_swap s t h = Ret ((), h') \<and> holds h' s ys \<and> holds h' t xs \<and> only_changes {s, t} {} h h'"
proof -
  let ?h = "h\<lparr>lists := (lists h)(s \<mapsto> struct_for ys, t \<mapsto> struct_for xs)\<rparr>"
  have "s = t \<Longrightarrow> struct_for xs = struct_for ys" using holdsD(1) [OF assms(1)] holdsD(1) [OF assms(2)] by simp
  then have "ten_list_swap s t h = Ret ((), ?h)"
    using holdsD(1) [OF assms(1)] holdsD(1) [OF assms(2)]
    by (simp add: ten_list_swap_def checked_holds [OF assms(1)] checked_holds [OF assms(2)] step_defs)
  moreover have "holds ?h s ys" "holds ?h t xs"
    using assms \<open>s = t \<Longrightarrow> _\<close> by (auto simp: holds_def)
  moreover have "only_changes {s, t} {} h ?h" by (intro only_changesI) (simp_all add: contents_def)
  ultimately show ?thesis by blast
qed

lemma concat_holds:
  assumes h: "holds h s xs" "holds h t ys" and st: "s \<noteq> t" and d: "set xs \<inter> set ys = {}"
  shows "\<exists>h'. ten_list_concat s t h = Ret ((), h') \<and> holds h' s (xs @ ys) \<and> holds h' t [] \<and>
    only_changes {s, t} (set xs \<union> set ys) h h'"
proof -
  consider "ys = []" | "xs = []" "ys \<noteq> []" | a zs b ws where "xs = zs @ [a]" "ys = b # ws"
    by (cases xs rule: rev_cases; cases ys) auto
  then show ?thesis
  proof cases
    case 1
    then show ?thesis using h by (auto simp: ten_list_concat_def checked_holds accessors_hold and_with_def ok_def only_changes_refl)
  next
    case 2
    from swap_holds [OF h] obtain h' where "ten_list_swap s t h = Ret ((), h')" "holds h' s ys" "holds h' t xs"
      "only_changes {s, t} {} h h'" by blast
    moreover from this(1) have "ten_list_concat s t h = Ret ((), h')"
      using 2 h by (simp add: ten_list_concat_def checked_holds accessors_hold and_with_def ok_def)
    ultimately show ?thesis using 2 by (auto elim: only_changes_mono)
  next
    case 3
    from holdsD(2) [OF h(1)] 3 obtain na where na: "nodes h a = Some na" "ln_prev na = last_of None zs" by auto
    from holdsD(2) [OF h(2)] 3 obtain nb where nb: "nodes h b = Some nb" "ln_next nb = first_of ws None" by auto
    have ab: "a \<noteq> b" "a \<notin> set zs" "a \<notin> set ws" "b \<notin> set zs" "b \<notin> set ws"
      using 3 d holdsD(3) [OF h(1)] holdsD(3) [OF h(2)] by auto
    let ?h = "h\<lparr>lists := (lists h)(s \<mapsto> struct_for (xs @ ys), t \<mapsto> struct_for []),
       nodes := (nodes h)(a \<mapsto> na\<lparr>ln_next := Some b\<rparr>, b \<mapsto> nb\<lparr>ln_prev := Some a\<rparr>)\<rparr>"
    have "ten_list_concat s t h = Ret ((), ?h)"
      using h na(1) nb(1) 3 ab(1) st holdsD(1) [OF h(1)] holdsD(1) [OF h(2)]
      by (simp add: ten_list_concat_def checked_holds accessors_hold step_defs struct_for_def)
    moreover have "holds ?h s (xs @ ys)" "holds ?h t []" using h na nb 3 ab d st by (simp_all add: holds_def)
    moreover have "only_changes {s, t} (set xs \<union> set ys) h ?h"
      using 3 na(1) nb(1) by (intro only_changesI) (auto simp: contents_def)
    ultimately show ?thesis by blast
  qed
qed

lemma listnode_destroy_eq:
  "nodes h a = Some n \<Longrightarrow> ten_listnode_destroy (Some a) h =
     Ret ((), h\<lparr>nodes := (nodes h)(a := None), destroyed := destroyed h @ (if ln_destroy n then [ln_content n] else [])\<rparr>)"
  by (simp add: ten_listnode_destroy_def step_defs)

section \<open>Loops over well-formed lists\<close>

lemma loop_runs:
  assumes step: "\<And>ds a xs h it. I ds (a # xs) h \<Longrightarrow> it_node it = Some a \<Longrightarrow> it_prev it = last_of None ds \<Longrightarrow>
      \<exists>h'. body it h = Ret (None, h') \<and> I (ds @ [a]) xs h' \<and> next_of (first_of xs None) h' = Ret (first_of (tl xs) None, h')"
    and "I ds xs h"
    and "it_prev it = last_of None ds" "it_node it = first_of xs None" "it_next it = first_of (tl xs) None"
  shows "\<exists>h'. loop_from body it h = Some (Ret (None, h')) \<and> I (ds @ xs) [] h'"
  using assms(2-)
proof (induction xs arbitrary: ds h it)
  case Nil
  then show ?case by (subst loop_from.simps) simp
next
  case (Cons a xs)
  from step [OF Cons.prems(1), of it] Cons.prems obtain h' where
    1: "body it h = Ret (None, h')" "I (ds @ [a]) xs h'" "next_of (first_of xs None) h' = Ret (first_of (tl xs) None, h')"
    by auto
  let ?it = "\<lparr>it_prev = Some a, it_node = first_of xs None, it_next = first_of (tl xs) None, it_index = it_index it + 1\<rparr>"
  have "ten_list_iterator_next it h' = Ret (?it, h')"
    using 1(3) Cons.prems by (simp add: ten_list_iterator_next_def and_with_def ok_def)
  then have "loop_from body it h = loop_from body ?it h'"
    using 1(1) Cons.prems by (subst loop_from.simps) simp
  with Cons.IH [OF 1(2), of ?it] show ?case by simp
qed

text \<open>A loop that has nothing to do at the first nodes gets to the others.\<close>

lemma loop_skips:
  assumes "linked (nodes h) (last_of None ds) (us @ vs) None"
    and "\<And>u it. u \<in> set us \<Longrightarrow> it_node it = Some u \<Longrightarrow> body it h = Ret (None, h)"
    and "it_prev it = last_of None ds" "it_node it = first_of (us @ vs) None" "it_next it = first_of (tl (us @ vs)) None"
  shows "\<exists>it'. loop_from body it h = loop_from body it' h \<and> it_prev it' = last_of (last_of None ds) us \<and>
    it_node it' = first_of vs None \<and> it_next it' = first_of (tl vs) None"
  using assms
proof (induction us arbitrary: ds it)
  case Nil
  then show ?case by auto
next
  case (Cons a us)
  let ?xs = "us @ vs"
  let ?it = "\<lparr>it_prev = Some a, it_node = first_of ?xs None, it_next = first_of (tl ?xs) None, it_index = it_index it + 1\<rparr>"
  have "next_of (first_of ?xs None) h = Ret (first_of (tl ?xs) None, h)"
    using Cons.prems(1) by (cases ?xs) (auto simp: next_of_def step_defs simp del: first_of_simps(3) linked_append)
  then have "ten_list_iterator_next it h = Ret (?it, h)"
    using Cons.prems by (simp add: ten_list_iterator_next_def and_with_def ok_def)
  moreover have "body it h = Ret (None, h)" using Cons.prems(2) [of a it] Cons.prems(4) by simp
  ultimately have eq: "loop_from body it h = loop_from body ?it h"
    using Cons.prems by (subst loop_from.simps) simp
  have "linked (nodes h) (last_of None (ds @ [a])) ?xs None" using Cons.prems(1) by simp
  moreover have "body it h = Ret (None, h)" if "u \<in> set us" "it_node it = Some u" for u it
    using Cons.prems(2) [of u it] that by simp
  ultimately show ?case using Cons.IH [where it = ?it and ds = "ds @ [a]"] Cons.prems(3) eq by simp
qed

lemma foreach_begin:
  assumes h: "holds h s xs" and len: "length xs \<le> TEN_LIST_LOOP_MAX_ALLOWABLE_CNT"
  shows "ten_list_foreach s body h =
     loop_from body \<lparr>it_prev = None, it_node = first_of xs None, it_next = first_of (tl xs) None, it_index = 0\<rparr> h"
proof -
  have "next_of (first_of xs None) h = Ret (first_of (tl xs) None, h)"
    using holdsD(2) [OF h] by (cases xs) (auto simp: next_of_def step_defs)
  then show ?thesis
    using len by (simp add: ten_list_foreach_def ten_list_begin_def accessors_hold [OF h] and_with_def ok_def demand_def)
qed

lemma foreach_skips:
  assumes h: "holds h s (us @ vs)" and len: "length (us @ vs) \<le> TEN_LIST_LOOP_MAX_ALLOWABLE_CNT"
    and body: "\<forall>u \<in> set us. \<forall>it. it_node it = Some u \<longrightarrow> body it h = Ret (None, h)"
  shows "\<exists>it. ten_list_foreach s body h = loop_from body it h \<and> it_prev it = last_of None us \<and>
    it_node it = first_of vs None \<and> it_next it = first_of (tl vs) None"
proof -
  let ?it = "\<lparr>it_prev = None, it_node = first_of (us @ vs) None, it_next = first_of (tl (us @ vs)) None, it_index = 0\<rparr>"
  have "linked (nodes h) (last_of None []) (us @ vs) None" using holdsD(2) [OF h] by simp
  from loop_skips [OF this, of body ?it] body show ?thesis unfolding foreach_begin [OF h len] by simp
qed

definition content_at :: "'a list_heap \<Rightarrow> nat \<Rightarrow> 'a" where
  "content_at h a = fst (the (contents h a))"

text \<open>The contents whose destructors run when the nodes are destroyed in order.\<close>

definition to_destroy :: "(nat \<Rightarrow> ('a \<times> bool) option) \<Rightarrow> nat list \<Rightarrow> 'a list" where
  "to_destroy items xs = map (fst \<circ> the) (filter (\<lambda>c. snd (the c)) (map items xs))"

lemma to_destroy_append [simp]: "to_destroy items (xs @ ys) = to_destroy items xs @ to_destroy items ys"
  by (simp add: to_destroy_def)

lemma clear_holds:
  fixes h :: "'a list_heap"
  assumes h: "holds h s xs" and len: "length xs \<le> TEN_LIST_LOOP_MAX_ALLOWABLE_CNT"
  shows "\<exists>h'. ten_list_clear s h = Some (Ret ((), h')) \<and> holds h' s [] \<and> lists h' = (lists h)(s \<mapsto> struct_for []) \<and>
    nodes h' = (\<lambda>a. if a \<in> set xs then None else nodes h a) \<and> destroyed h' = destroyed h @ to_destroy (contents h) xs"
proof -
  let ?body = "\<lambda>it :: list_iterator. and_with (ten_listnode_destroy (it_node it)) (\<lambda>_. ok (None :: unit option))"
  define I where "I ds xs h' \<longleftrightarrow> distinct (ds @ xs) \<and> linked (nodes h) (last_of None ds) xs None \<and> lists h' = lists h \<and>
    nodes h' = (\<lambda>a. if a \<in> set ds then None else nodes h a) \<and> destroyed h' = destroyed h @ to_destroy (contents h) ds"
    for ds xs and h' :: "'a list_heap"
  have step: "\<exists>h'. ?body it g = Ret (None, h') \<and> I (ds @ [a]) xs h' \<and> next_of (first_of xs None) h' = Ret (first_of (tl xs) None, h')"
    if "I ds (a # xs) g" "it_node it = Some a" for ds a xs g it
  proof -
    from that(1) have i: "distinct (ds @ a # xs)" "linked (nodes h) (last_of None ds) (a # xs) None" "lists g = lists h"
      "nodes g = (\<lambda>a. if a \<in> set ds then None else nodes h a)" "destroyed g = destroyed h @ to_destroy (contents h) ds"
      by (auto simp: I_def)
    from i(2) obtain n where n: "nodes h a = Some n" by auto
    let ?h = "g\<lparr>nodes := (nodes g)(a := None), destroyed := destroyed g @ (if ln_destroy n then [ln_content n] else [])\<rparr>"
    have "nodes g a = Some n" using n i(1,4) by simp
    then have "?body it g = Ret (None, ?h)" using that(2) by (simp add: listnode_destroy_eq and_with_def ok_def)
    moreover have "I (ds @ [a]) xs ?h"
      using i n by (auto simp: I_def to_destroy_def contents_def fun_eq_iff)
    moreover have "next_of (first_of xs None) ?h = Ret (first_of (tl xs) None, ?h)"
      using i by (cases xs) (auto simp: next_of_def step_defs)
    ultimately show ?thesis by blast
  qed
  have "I [] xs h" using h by (simp add: I_def holds_def to_destroy_def)
  then have "\<exists>h'. loop_from ?body \<lparr>it_prev = None, it_node = first_of xs None, it_next = first_of (tl xs) None, it_index = 0\<rparr> h =
      Some (Ret (None, h')) \<and> I ([] @ xs) [] h'"
    by (rule loop_runs [where I = I and body = ?body, rotated]) (rule step; assumption | simp)+
  then obtain h' where h': "ten_list_foreach s ?body h = Some (Ret (None, h'))" "I xs [] h'"
    unfolding foreach_begin [OF h len] by auto
  let ?h = "h'\<lparr>lists := (lists h)(s \<mapsto> struct_for [])\<rparr>"
  have "ten_list_clear s h = Some (Ret ((), ?h))"
    using h'(2) holdsD(1) [OF h]
    by (simp add: ten_list_clear_def checked_holds [OF h] h'(1) after_loop_def step_defs I_def struct_for_nil)
  moreover have "holds ?h s []" by (simp add: holds_def)
  ultimately show ?thesis using h'(2) by (auto simp: I_def)
qed

lemma reverse_loop:
  fixes h :: "'a list_heap"
  assumes h: "holds h s xs" and d: "holds h d ys" and sd: "s \<noteq> d" and disj: "set xs \<inter> set ys = {}"
    and len: "length xs \<le> TEN_LIST_LOOP_MAX_ALLOWABLE_CNT"
  shows "\<exists>h'. ten_list_foreach s (\<lambda>it. and_with (ten_list_push_front d (the (it_node it))) (\<lambda>_. ok (None :: unit option))) h =
      Some (Ret (None, h')) \<and> holds h' d (rev xs @ ys) \<and> only_changes {d} (set xs \<union> set ys) h h'"
proof -
  let ?body = "\<lambda>it :: list_iterator. and_with (ten_list_push_front d (the (it_node it))) (\<lambda>_. ok (None :: unit option))"
  define I where "I ds xs h' \<longleftrightarrow> distinct (ds @ xs) \<and> set xs \<inter> set ys = {} \<and> linked (nodes h') (last_of None ds) xs None \<and>
    holds h' d (rev ds @ ys) \<and> only_changes {d} (set ds \<union> set ys) h h'" for ds xs and h' :: "'a list_heap"
  have step: "\<exists>h'. ?body it g = Ret (None, h') \<and> I (ds @ [a]) xs h' \<and> next_of (first_of xs None) h' = Ret (first_of (tl xs) None, h')"
    if "I ds (a # xs) g" "it_node it = Some a" for ds a xs g it
  proof -
    from that(1) have i: "distinct (ds @ a # xs)" "set (a # xs) \<inter> set ys = {}" "linked (nodes g) (last_of None ds) (a # xs) None"
      "holds g d (rev ds @ ys)" "only_changes {d} (set ds \<union> set ys) h g" by (auto simp: I_def)
    have "nodes g a \<noteq> None" "a \<notin> set (rev ds @ ys)" using i by auto
    from push_front_holds [OF i(4) this] obtain h' where h': "ten_list_push_front d a g = Ret ((), h')"
      "holds h' d (a # rev ds @ ys)" "only_changes {d} (insert a (set (rev ds @ ys))) g h'" by blast
    have c: "linked (nodes h') (Some a) xs None"
      using i(1-3) h'(3) by (subst linked_cong [where N = "nodes g"]) (auto simp: only_changes_def)
    have "only_changes {d} (set (ds @ [a]) \<union> set ys) h h'"
      using only_changes_trans [OF i(5) h'(3)] by (rule only_changes_mono) auto
    with i h'(2) c have "I (ds @ [a]) xs h'" by (auto simp: I_def)
    moreover have "?body it g = Ret (None, h')" using that(2) h'(1) by (simp add: and_with_def ok_def)
    moreover have "next_of (first_of xs None) h' = Ret (first_of (tl xs) None, h')"
      using c by (cases xs) (auto simp: next_of_def step_defs)
    ultimately show ?thesis by blast
  qed
  have "I [] xs h" using holdsD [OF h] d disj by (simp add: I_def only_changes_refl)
  then have "\<exists>h'. loop_from ?body \<lparr>it_prev = None, it_node = first_of xs None, it_next = first_of (tl xs) None, it_index = 0\<rparr> h =
      Some (Ret (None, h')) \<and> I ([] @ xs) [] h'"
    by (rule loop_runs [where I = I and body = ?body, rotated]) (rule step; assumption | simp)+
  then obtain h' where "ten_list_foreach s ?body h = Some (Ret (None, h'))" "I xs [] h'"
    unfolding foreach_begin [OF h len] by auto
  then show ?thesis by (auto simp: I_def)
qed

lemma init_holds:
  assumes "lists h s \<noteq> None"
  shows "\<exists>h'. ten_list_init s h = Ret ((), h') \<and> holds h' s [] \<and> only_changes {s} {} h h'"
proof -
  from assms obtain l where l: "lists h s = Some l" by blast
  let ?h = "h\<lparr>lists := (lists h)(s \<mapsto> struct_for [])\<rparr>"
  have "only_changes {s} {} h ?h" by (intro only_changesI) (simp_all add: contents_def)
  with l show ?thesis
    by (intro exI [of _ ?h]) (simp add: ten_list_init_def step_defs holds_def struct_for_nil)
qed

lemma holds_unchanged:
  assumes "holds h t zs" "only_changes S X h h'" "t \<notin> S" "set zs \<inter> X = {}"
  shows "holds h' t zs"
proof -
  have "linked (nodes h') None zs None = linked (nodes h) None zs None"
    by (rule linked_cong) (use assms(2,4) in \<open>auto simp: only_changes_def\<close>)
  then show ?thesis using assms by (auto simp: holds_def only_changes_def)
qed

lemma reverse_new_holds:
  assumes h: "holds h s xs" "holds h d ys" "s \<noteq> d" "set xs \<inter> set ys = {}" "length xs \<le> TEN_LIST_LOOP_MAX_ALLOWABLE_CNT"
  shows "\<exists>h'. ten_list_reverse_new s d h = Some (Ret ((), h')) \<and> holds h' s [] \<and> holds h' d (rev xs @ ys) \<and>
    only_changes {s, d} (set xs \<union> set ys) h h'"
proof -
  from reverse_loop [OF h] obtain g where g: "ten_list_foreach s
      (\<lambda>it. and_with (ten_list_push_front d (the (it_node it))) (\<lambda>_. ok (None :: unit option))) h = Some (Ret (None, g))"
    "holds g d (rev xs @ ys)" "only_changes {d} (set xs \<union> set ys) h g" by blast
  have "lists g s \<noteq> None" using g(3) h(3) holdsD(1) [OF h(1)] by (simp add: only_changes_def)
  from init_holds [OF this] obtain h' where h': "ten_list_init s g = Ret ((), h')" "holds h' s []" "only_changes {s} {} g h'" by blast
  have "ten_list_reverse_new s d h = Some (Ret ((), h'))"
    using g(1) h'(1) by (simp add: ten_list_reverse_new_def and_with_def checked_holds [OF h(1)] checked_holds [OF h(2)] after_loop_def)
  moreover have "holds h' d (rev xs @ ys)" using holds_unchanged [OF g(2) h'(3)] h(3) by simp
  moreover have "only_changes {s, d} (set xs \<union> set ys) h h'"
    using only_changes_trans [OF g(3) h'(3)] by (rule only_changes_mono) auto
  ultimately show ?thesis using h'(2) by blast
qed

lemma reverse_holds:
  assumes h: "holds h s xs" "lists h d = None" "length xs \<le> TEN_LIST_LOOP_MAX_ALLOWABLE_CNT"
  shows "\<exists>h'. ten_list_reverse d s h = Some (Ret ((), h')) \<and> holds h' s (rev xs) \<and> only_changes {s} (set xs) h h'"
proof -
  let ?h = "h\<lparr>lists := (lists h)(d \<mapsto> struct_for [])\<rparr>"
  have sd: "s \<noteq> d" using holdsD(1) [OF h(1)] h(2) by auto
  have 0: "holds ?h s xs" "holds ?h d []" using h sd by (auto simp: holds_def)
  from reverse_loop [OF 0 sd _ h(3)] obtain g where g: "ten_list_foreach s
      (\<lambda>it. and_with (ten_list_push_front d (the (it_node it))) (\<lambda>_. ok (None :: unit option))) ?h = Some (Ret (None, g))"
    "holds g d (rev xs)" "only_changes {d} (set xs) ?h g" by auto
  have "lists g s \<noteq> None" using g(3) sd holdsD(1) [OF h(1)] by (simp add: only_changes_def)
  from init_holds [OF this] obtain g1 where g1: "ten_list_init s g = Ret ((), g1)" "holds g1 s []" "only_changes {s} {} g g1" by blast
  have "holds g1 d (rev xs)" using holds_unchanged [OF g(2) g1(3)] sd by simp
  from swap_holds [OF this g1(2)] obtain g2 where g2: "ten_list_swap d s g1 = Ret ((), g2)" "holds g2 s (rev xs)"
    "only_changes {d, s} {} g1 g2" by blast
  let ?h' = "g2\<lparr>lists := (lists g2)(d := None)\<rparr>"
  have "ten_list_reverse d s h = Some (Ret ((), ?h'))"
    using g(1) g1(1) g2(1)
    by (simp add: ten_list_reverse_def and_with_def checked_holds [OF h(1)] after_loop_def struct_for_nil [symmetric])
  moreover have "holds ?h' s (rev xs)" using g2(2) sd by (simp add: holds_def)
  moreover have "only_changes {s} (set xs) h ?h'"
    using only_changes_trans [OF only_changes_trans [OF g(3) g1(3)] g2(3)] h(2)
    by (auto simp: only_changes_def contents_def fun_eq_iff)
  ultimately show ?thesis by blast
qed

text \<open>Where a node goes among the nodes with the comparisons \<open>r\<close>, if it goes there.\<close>

fun place :: "(nat \<Rightarrow> int) \<Rightarrow> bool \<Rightarrow> nat \<Rightarrow> nat list \<Rightarrow> nat list option" where
  "place r skip a [] = Some [a]"
| "place r skip a (b # xs) =
     (if r b = 0 \<and> skip then None
      else if r b > 0 then map_option ((#) b) (place r skip a xs)
      else Some (a # b # xs))"

lemma place_split:
  "place r skip a xs =
     (let us = takeWhile (\<lambda>b. r b > 0) xs; vs = dropWhile (\<lambda>b. r b > 0) xs
      in if vs \<noteq> [] \<and> r (hd vs) = 0 \<and> skip then None else Some (us @ a # vs))"
  by (induction xs) (auto simp: Let_def)

lemma place_set: "place r skip a xs = Some ys \<Longrightarrow> set ys = insert a (set xs) \<and> (distinct ys \<longleftrightarrow> distinct xs \<and> a \<notin> set xs)"
  by (induction xs arbitrary: ys) (auto split: if_splits)

lemma content_node: "nodes h b = Some n \<Longrightarrow> ln_content n = content_at h b"
  by (simp add: content_at_def contents_def)

lemma link_before:
  assumes h: "holds h s (us @ b # ws)" and us: "us \<noteq> []" and a: "nodes h a \<noteq> None" "a \<notin> set (us @ b # ws)"
  shows "\<exists>h'. and_with (set_next (Some (last us)) (Some a)) (\<lambda>_.
      and_with (set_prev (Some a) (Some (last us))) (\<lambda>_.
      and_with (set_next (Some a) (Some b)) (\<lambda>_.
      and_with (set_prev (Some b) (Some a)) (\<lambda>_.
      and_with (set_list s (\<lambda>l. l\<lparr>li_size := li_size l + 1\<rparr>)) (\<lambda>_. ok r))))) h = Ret (r, h') \<and>
    holds h' s (us @ a # b # ws) \<and> only_changes {s} (insert a (set (us @ b # ws))) h h'"
proof -
  obtain zs c where us': "us = zs @ [c]" using us by (cases us rule: rev_cases) auto
  from a(1) obtain n where n: "nodes h a = Some n" by blast
  from holdsD(2) [OF h] us' obtain nc nb where nc: "nodes h c = Some nc" "ln_prev nc = last_of None zs"
    and nb: "nodes h b = Some nb" "ln_next nb = first_of ws None" by auto
  have d: "a \<noteq> b" "a \<noteq> c" "b \<noteq> c" "a \<notin> set zs" "a \<notin> set ws" "b \<notin> set zs" "b \<notin> set ws" "c \<notin> set zs" "c \<notin> set ws"
    using holdsD(3) [OF h] a(2) us' by auto
  let ?h = "h\<lparr>nodes := (nodes h)(c \<mapsto> nc\<lparr>ln_next := Some a\<rparr>, a \<mapsto> n\<lparr>ln_prev := Some c, ln_next := Some b\<rparr>, b \<mapsto> nb\<lparr>ln_prev := Some a\<rparr>),
     lists := (lists h)(s \<mapsto> struct_for (us @ a # b # ws))\<rparr>"
  have "first_of zs (Some c) = first_of (zs @ [c, a, b] @ ws) None" by simp
  then have "and_with (set_next (Some (last us)) (Some a)) (\<lambda>_.
      and_with (set_prev (Some a) (Some (last us))) (\<lambda>_.
      and_with (set_next (Some a) (Some b)) (\<lambda>_.
      and_with (set_prev (Some b) (Some a)) (\<lambda>_.
      and_with (set_list s (\<lambda>l. l\<lparr>li_size := li_size l + 1\<rparr>)) (\<lambda>_. ok r))))) h = Ret (r, ?h)"
    using n nc(1) nb(1) d(1-3) us' holdsD(1) [OF h] by (simp add: step_defs struct_for_def)
  moreover have "holds ?h s (us @ a # b # ws)"
    using h n nc nb d us' by (auto simp: holds_def fun_upd_twist)
  moreover have "only_changes {s} (insert a (set (us @ b # ws))) h ?h"
    using us' n nc(1) nb(1) by (intro only_changesI) (auto simp: contents_def)
  ultimately show ?thesis by blast
qed

lemma push_back_in_order_holds:
  fixes h :: "'a list_heap"
  assumes h: "holds h s xs" and a: "nodes h a \<noteq> None" "a \<notin> set xs" and len: "length xs \<le> TEN_LIST_LOOP_MAX_ALLOWABLE_CNT"
    and r: "r = (\<lambda>b. cmp (content_at h b) (content_at h a))"
  shows "case place r skip a xs of
      None \<Rightarrow> ten_list_push_back_in_order s a cmp skip h = Some (Ret (False, h))
    | Some ys \<Rightarrow> \<exists>h'. ten_list_push_back_in_order s a cmp skip h = Some (Ret (True, h')) \<and> holds h' s ys \<and>
        only_changes {s} (insert a (set xs)) h h'"
proof (cases "xs = []")
  case True
  with push_back_holds [OF h a] show ?thesis
    by (auto simp: ten_list_push_back_in_order_def and_with_def ok_def checked_holds [OF h] accessors_hold [OF h])
next
  case False
  let ?body = "\<lambda>it :: list_iterator. and_with (node_of (it_node it)) (\<lambda>x. and_with (node_of (Some a)) (\<lambda>n.
      let result = cmp (ln_content x) (ln_content n) in
      if result = 0 \<and> skip then ok (Some False)
      else if result > 0 then ok None
      else and_with (ten_list_front s) (\<lambda>front.
        if it_node it = front then and_with (ten_list_push_front s a) (\<lambda>_. ok (Some True))
        else
          and_with (set_next (it_prev it) (Some a)) (\<lambda>_.
          and_with (set_prev (Some a) (it_prev it)) (\<lambda>_.
          and_with (set_next (Some a) (it_node it)) (\<lambda>_.
          and_with (set_prev (it_node it) (Some a)) (\<lambda>_.
          and_with (set_list s (\<lambda>l. l\<lparr>li_size := li_size l + 1\<rparr>)) (\<lambda>_. ok (Some True)))))))))"
  let ?after = "\<lambda>r. case r of Some b \<Rightarrow> ok b | None \<Rightarrow> and_with (ten_list_push_back s a) (\<lambda>_. ok True)"
  have op: "ten_list_push_back_in_order s a cmp skip h = after_loop (ten_list_foreach s ?body h) ?after"
    using False by (simp add: ten_list_push_back_in_order_def and_with_def checked_holds [OF h] accessors_hold [OF h])
  define us vs where uv: "us = takeWhile (\<lambda>b. r b > 0) xs" "vs = dropWhile (\<lambda>b. r b > 0) xs"
  have xs: "xs = us @ vs" by (simp add: uv)
  have split: "place r skip a xs = (if vs \<noteq> [] \<and> r (hd vs) = 0 \<and> skip then None else Some (us @ a # vs))"
    by (simp add: place_split uv Let_def)
  from a(1) obtain n where n: "nodes h a = Some n" by blast
  have body: "?body it h = (if r b = 0 \<and> skip then Ret (Some False, h) else if r b > 0 then Ret (None, h) else
      if it_node it = first_of xs None then and_with (ten_list_push_front s a) (\<lambda>_. ok (Some True)) h
      else and_with (set_next (it_prev it) (Some a)) (\<lambda>_.
          and_with (set_prev (Some a) (it_prev it)) (\<lambda>_.
          and_with (set_next (Some a) (it_node it)) (\<lambda>_.
          and_with (set_prev (it_node it) (Some a)) (\<lambda>_.
          and_with (set_list s (\<lambda>l. l\<lparr>li_size := li_size l + 1\<rparr>)) (\<lambda>_. ok (Some True)))))) h)"
    if it: "it_node it = Some b" "b \<in> set xs" for it b
  proof -
    obtain m where m: "nodes h b = Some m" using linked_live [OF holdsD(2) [OF h] it(2)] by blast
    have node: "node_of (Some b) h = Ret (m, h)" "node_of (Some a) h = Ret (n, h)" using m n by (simp_all add: step_defs)
    have r': "r b = cmp (ln_content m) (ln_content n)" using content_node [OF m] content_node [OF n] by (simp add: r)
    show ?thesis
      by (simp add: it(1) r' and_with_Ret [where f = "node_of (Some b)", OF node(1)]
          and_with_Ret [where f = "node_of (Some a)", OF node(2)]
          and_with_Ret [where f = "ten_list_front s", OF accessors_hold(4) [OF h]]
          Let_def ok_def)
  qed
  have "\<forall>u \<in> set us. \<forall>it. it_node it = Some u \<longrightarrow> ?body it h = Ret (None, h)"
  proof (intro ballI allI impI)
    fix u and it :: list_iterator
    assume u: "u \<in> set us" "it_node it = Some u"
    from u(1) have b: "u \<in> set xs" "r u > 0" using set_takeWhileD [of u "\<lambda>b. r b > 0" xs] by (simp_all add: uv)
    show "?body it h = Ret (None, h)" unfolding body [OF u(2) b(1)] using b(2) by simp
  qed
  from foreach_skips [of h s us vs ?body, folded xs, OF h len this]
  have "\<exists>it. ten_list_foreach s ?body h = loop_from ?body it h \<and> it_prev it = last_of None us \<and>
      it_node it = first_of vs None \<and> it_next it = first_of (tl vs) None" by simp
  then obtain it where it: "ten_list_foreach s ?body h = loop_from ?body it h" "it_prev it = last_of None us"
    "it_node it = first_of vs None" "it_next it = first_of (tl vs) None" by blast
  show ?thesis
  proof (cases vs)
    case Nil
    have "ten_list_foreach s ?body h = Some (Ret (None, h))" unfolding it(1) using it(3) Nil by (subst loop_from.simps) simp
    moreover have "place r skip a xs = Some (xs @ [a])" using Nil xs split by simp
    moreover from push_back_holds [OF h a] obtain h' where h': "ten_list_push_back s a h = Ret ((), h')" "holds h' s (xs @ [a])"
      "only_changes {s} (insert a (set xs)) h h'" by blast
    ultimately show ?thesis unfolding op by (simp add: after_loop_def and_with_def ok_def)
  next
    case (Cons b ws)
    have b: "it_node it = Some b" "b \<in> set xs" using it(3) Cons xs by auto
    have nb: "\<not> r b > 0" using Cons hd_dropWhile [of "\<lambda>b. r b > 0" xs] by (simp add: uv)
    have pl: "place r skip a xs = (if r b = 0 \<and> skip then None else Some (us @ a # b # ws))"
      using Cons split by simp
    have hit: "ten_list_foreach s ?body h = Some (Ret (Some x, h'))" if "?body it h = Ret (Some x, h')" for x h'
      unfolding it(1) using that b(1) by (subst loop_from.simps) simp
    consider "r b = 0 \<and> skip" | "\<not> (r b = 0 \<and> skip)" "us = []" | "\<not> (r b = 0 \<and> skip)" "us \<noteq> []" by blast
    then show ?thesis
    proof cases
      case 1
      with body [OF b] have "?body it h = Ret (Some False, h)" by simp
      note run = hit [OF this]
      have p: "place r skip a xs = None" using pl 1 by simp
      show ?thesis unfolding op p by (simp add: run after_loop_def ok_def)
    next
      case 2
      from push_front_holds [OF h a] obtain h' where h': "ten_list_push_front s a h = Ret ((), h')" "holds h' s (a # xs)"
        "only_changes {s} (insert a (set xs)) h h'" by blast
      have "?body it h = Ret (Some True, h')" using body [OF b] 2 nb h'(1) b(1) Cons xs by (simp add: and_with_def ok_def)
      note run = hit [OF this]
      have p: "place r skip a xs = Some (a # xs)" using pl 2 Cons xs by auto
      show ?thesis unfolding op p using h'(2,3) by (simp add: run after_loop_def ok_def)
    next
      case 3
      have "b \<notin> set us" using holdsD(3) [OF h] xs Cons by auto
      then have "Some b \<noteq> first_of xs None" using 3 xs by (cases us) auto
      moreover from link_before [of h s us b ws a "Some True"] h a 3 xs Cons obtain h' where h': "and_with (set_next (Some (last us)) (Some a)) (\<lambda>_.
        and_with (set_prev (Some a) (Some (last us))) (\<lambda>_.
        and_with (set_next (Some a) (Some b)) (\<lambda>_.
        and_with (set_prev (Some b) (Some a)) (\<lambda>_.
        and_with (set_list s (\<lambda>l. l\<lparr>li_size := li_size l + 1\<rparr>)) (\<lambda>_. ok (Some True)))))) h = Ret (Some True, h')"
        "holds h' s (us @ a # b # ws)" "only_changes {s} (insert a (set xs)) h h'" by blast
      moreover have "it_prev it = Some (last us)" using it(2) 3 by simp
      ultimately have "?body it h = Ret (Some True, h')" using body [OF b] 3 nb b(1) by simp
      note run = hit [OF this]
      have p: "place r skip a xs = Some (us @ a # b # ws)" using pl 3 by auto
      show ?thesis unfolding op p using h'(2,3) by (simp add: run after_loop_def ok_def)
    qed
  qed
qed

lemma first_with:
  obtains (none) "\<forall>a \<in> set xs. \<not> P a" "List.find P xs = None"
  | (some) us a vs where "xs = us @ a # vs" "\<forall>u \<in> set us. \<not> P u" "P a" "List.find P xs = Some a"
proof (cases "List.find P xs")
  case None
  with none show ?thesis by (simp add: find_None_iff)
next
  case (Some a)
  then have "xs = takeWhile (\<lambda>b. \<not> P b) xs @ a # tl (dropWhile (\<lambda>b. \<not> P b) xs)" "P a"
    by (induction xs) (auto split: if_splits)
  with some [OF this(1) _ this(2) Some] show ?thesis by (auto dest: set_takeWhileD)
qed

lemma search_loop:
  fixes h :: "'a list_heap"
  assumes h: "holds h s xs" and len: "length xs \<le> TEN_LIST_LOOP_MAX_ALLOWABLE_CNT"
    and body: "\<And>a it. a \<in> set xs \<Longrightarrow> it_node it = Some a \<Longrightarrow>
      body it h = (if P a then map_run (\<lambda>(x, h). (Some x, h)) (found a h) else Ret (None, h))"
    and found: "\<And>a. List.find P xs = Some a \<Longrightarrow> \<exists>x h'. found a h = Ret (x, h')"
  shows "ten_list_foreach s body h =
    (case List.find P xs of None \<Rightarrow> Some (Ret (None, h)) | Some a \<Rightarrow> Some (map_run (\<lambda>(x, h). (Some x, h)) (found a h)))"
proof -
  have skips: "\<exists>it. ten_list_foreach s body h = loop_from body it h \<and> it_node it = first_of vs None"
    if "xs = us @ vs" "\<forall>u \<in> set us. \<not> P u" for us vs
  proof -
    have "\<forall>u \<in> set us. \<forall>it. it_node it = Some u \<longrightarrow> body it h = Ret (None, h)"
    proof (intro ballI allI impI)
      fix u and it :: list_iterator
      assume "u \<in> set us" "it_node it = Some u"
      then show "body it h = Ret (None, h)" using body [of u it] that by simp
    qed
    from foreach_skips [of h s us vs body, folded that(1), OF h len this] show ?thesis by blast
  qed
  show ?thesis
  proof (cases rule: first_with [of xs P])
    case none
    from skips [of xs "[]"] none obtain it where "ten_list_foreach s body h = loop_from body it h" "it_node it = None" by auto
    then show ?thesis using none by (subst (asm) loop_from.simps) simp
  next
    case (some us a vs)
    from skips [of us "a # vs"] some obtain it where it: "ten_list_foreach s body h = loop_from body it h" "it_node it = Some a" by auto
    from found some obtain x h' where "found a h = Ret (x, h')" by blast
    with body [of a it] some it show ?thesis by (subst (asm) loop_from.simps) simp
  qed
qed

lemma find_ptr_holds:
  fixes h :: "'a list_heap"
  assumes h: "holds h s xs" and len: "length xs \<le> TEN_LIST_LOOP_MAX_ALLOWABLE_CNT"
  shows "ten_list_find_ptr_custom s ptr eq h = Some (Ret (List.find (\<lambda>a. eq (content_at h a) ptr) xs, h))"
proof -
  let ?body = "\<lambda>it :: list_iterator. and_with (node_of (it_node it)) (\<lambda>x. if eq (ln_content x) ptr then ok (Some (it_node it)) else ok None)"
  have "ten_list_foreach s ?body h = (case List.find (\<lambda>a. eq (content_at h a) ptr) xs of
      None \<Rightarrow> Some (Ret (None, h)) | Some a \<Rightarrow> Some (map_run (\<lambda>(x, h). (Some x, h)) (Ret (Some a, h))))"
  proof (rule search_loop [OF h len, where found = "\<lambda>a h. Ret (Some a, h)"])
    fix a and it :: list_iterator
    assume "a \<in> set xs" and it: "it_node it = Some a"
    then obtain n where "nodes h a = Some n" using linked_live [OF holdsD(2) [OF h]] by blast
    with it content_node [OF this]
    show "?body it h = (if eq (content_at h a) ptr then map_run (\<lambda>(x, h). (Some x, h)) (Ret (Some a, h)) else Ret (None, h))"
      by (simp add: step_defs)
  qed simp
  then show ?thesis
    by (simp add: ten_list_find_ptr_custom_def checked_holds [OF h] after_loop_def ok_def split: option.splits)
qed

section \<open>The abstract view\<close>

record 'a list_view =
  seqs :: "nat \<Rightarrow> nat list option"
  items :: "nat \<Rightarrow> ('a \<times> bool) option"
  gone :: "'a list"

definition apart :: "(nat \<Rightarrow> nat list option) \<Rightarrow> bool" where
  "apart L \<longleftrightarrow> (\<forall>s t xs ys. L s = Some xs \<longrightarrow> L t = Some ys \<longrightarrow> s \<noteq> t \<longrightarrow> set xs \<inter> set ys = {})"

definition views :: "'a list_heap \<Rightarrow> 'a list_view \<Rightarrow> bool" where
  "views h v \<longleftrightarrow>
     (\<forall>s. case seqs v s of None \<Rightarrow> lists h s = None | Some xs \<Rightarrow> holds h s xs) \<and> apart (seqs v) \<and>
     contents h = items v \<and> destroyed h = gone v"

lemma viewsD:
  assumes "views h v"
  shows "seqs v s = Some xs \<Longrightarrow> holds h s xs" "seqs v s = None \<Longrightarrow> lists h s = None" "apart (seqs v)"
    "contents h = items v" "destroyed h = gone v"
  using assms by (auto simp: views_def split: option.splits dest: spec [of _ s])

lemma apartD: "apart L \<Longrightarrow> L s = Some xs \<Longrightarrow> L t = Some ys \<Longrightarrow> s \<noteq> t \<Longrightarrow> set xs \<inter> set ys = {}"
  unfolding apart_def by blast

lemma apart_upd:
  assumes "apart L" and "\<And>t ys. L t = Some ys \<Longrightarrow> t \<noteq> s \<Longrightarrow> set xs \<inter> set ys = {}"
  shows "apart (L(s \<mapsto> xs))"
  unfolding apart_def using assms(2) apartD [OF assms(1)] by (auto split: if_splits)

lemma views_upd:
  assumes v: "views h v" and ch: "only_changes S X h h'" and own: "\<And>s. s \<in> S \<Longrightarrow> \<exists>ys. L s = Some ys \<and> holds h' s ys"
    and other: "\<And>t. t \<notin> S \<Longrightarrow> L t = seqs v t" "\<And>t zs. t \<notin> S \<Longrightarrow> seqs v t = Some zs \<Longrightarrow> set zs \<inter> X = {}"
    and ap: "apart L"
  shows "views h' (v\<lparr>seqs := L\<rparr>)"
proof -
  have "case L s of None \<Rightarrow> lists h' s = None | Some xs \<Rightarrow> holds h' s xs" for s
  proof (cases "s \<in> S")
    case True
    then show ?thesis using own [OF True] by auto
  next
    case False
    then show ?thesis
      using other(1) [OF False] viewsD(1,2) [OF v] holds_unchanged [OF _ ch False other(2) [OF False]] ch
      by (auto simp: only_changes_def split: option.splits)
  qed
  moreover have "contents h' = items v" "destroyed h' = gone v" using ch viewsD(4,5) [OF v] by (auto simp: only_changes_def)
  ultimately show ?thesis using ap by (simp add: views_def)
qed

lemma views_upd1:
  assumes v: "views h v" and xs: "seqs v s = Some xs" and ch: "only_changes {s} X h h'" and own: "holds h' s ys"
    and X: "set ys \<subseteq> X" "\<And>t zs. seqs v t = Some zs \<Longrightarrow> t \<noteq> s \<Longrightarrow> set zs \<inter> X = {}"
  shows "views h' (v\<lparr>seqs := (seqs v)(s \<mapsto> ys)\<rparr>)"
proof (rule views_upd [OF v ch])
  show "apart ((seqs v)(s \<mapsto> ys))" using X by (intro apart_upd viewsD(3) [OF v]) blast
qed (use own X(2) in auto)

lemma views_upd2:
  assumes v: "views h v" and xs: "seqs v s = Some xs" "seqs v t = Some ys" "s \<noteq> t"
    and ch: "only_changes {s, t} X h h'" and X: "X \<subseteq> set xs \<union> set ys"
    and own: "holds h' s xs'" "holds h' t ys'" and sets: "set xs' \<union> set ys' \<subseteq> set xs \<union> set ys" "set xs' \<inter> set ys' = {}"
  shows "views h' (v\<lparr>seqs := (seqs v)(s \<mapsto> xs', t \<mapsto> ys')\<rparr>)"
proof (rule views_upd [OF v ch])
  have o: "set zs \<inter> (set xs \<union> set ys) = {}" if "seqs v u = Some zs" "u \<noteq> s" "u \<noteq> t" for u zs
    using apartD [OF viewsD(3) [OF v] that(1) xs(1) that(2)] apartD [OF viewsD(3) [OF v] that(1) xs(2) that(3)] by blast
  then show "set zs \<inter> X = {}" if "u \<notin> {s, t}" "seqs v u = Some zs" for u zs using that X by blast
  show "apart ((seqs v)(s \<mapsto> xs', t \<mapsto> ys'))"
    unfolding apart_def using o sets xs(3) apartD [OF viewsD(3) [OF v]] by (auto split: if_splits) blast+
qed (use own xs(3) in auto)

definition unlisted :: "'a list_view \<Rightarrow> nat \<Rightarrow> bool" where
  "unlisted v a \<longleftrightarrow> items v a \<noteq> None \<and> (\<forall>t zs. seqs v t = Some zs \<longrightarrow> a \<notin> set zs)"

lemma unlistedD:
  assumes "views h v" "unlisted v a"
  shows "nodes h a \<noteq> None" "seqs v t = Some zs \<Longrightarrow> a \<notin> set zs"
  using assms viewsD(4) [OF assms(1)] by (auto simp: unlisted_def contents_def dest!: fun_cong [of _ _ a])

definition discard :: "nat list \<Rightarrow> 'a list_view \<Rightarrow> 'a list_view" where
  "discard ds v = v\<lparr>items := (\<lambda>a. if a \<in> set ds then None else items v a), gone := gone v @ to_destroy (items v) ds\<rparr>"

lemma views_discard:
  assumes v: "views h v" and ds: "\<forall>t zs. seqs v t = Some zs \<longrightarrow> set zs \<inter> set ds = {}"
    and h': "lists h' = lists h" "nodes h' = (\<lambda>a. if a \<in> set ds then None else nodes h a)"
      "destroyed h' = destroyed h @ to_destroy (contents h) ds"
  shows "views h' (discard ds v)"
proof -
  have "holds h' s xs" if "seqs v s = Some xs" for s xs
  proof -
    have "linked (nodes h') None xs None = linked (nodes h) None xs None"
      by (rule linked_cong) (use ds that in \<open>auto simp: h'(2)\<close>)
    with viewsD(1) [OF v that] h'(1) show ?thesis by (simp add: holds_def)
  qed
  moreover have "contents h' = (\<lambda>a. if a \<in> set ds then None else items v a)"
    using viewsD(4) [OF v] h'(2) by (auto simp: contents_def fun_eq_iff)
  ultimately show ?thesis using viewsD [OF v] h' by (auto simp: views_def discard_def split: option.splits)
qed

lemma destroy_node:
  assumes "nodes h a = Some n"
  obtains h' where "ten_listnode_destroy (Some a) h = Ret ((), h')" "lists h' = lists h"
    "nodes h' = (\<lambda>b. if b \<in> set [a] then None else nodes h b)" "destroyed h' = destroyed h @ to_destroy (contents h) [a]"
proof (rule that [OF listnode_destroy_eq [OF assms]])
qed (use assms in \<open>auto simp: to_destroy_def contents_def fun_eq_iff\<close>)

lemma views_destroy:
  assumes v: "views h v" and a: "unlisted v a"
  obtains h' where "ten_listnode_destroy (Some a) h = Ret ((), h')" "views h' (discard [a] v)"
proof -
  from unlistedD(1) [OF v a] obtain n where n: "nodes h a = Some n" by blast
  from destroy_node [OF n] obtain h' where h': "ten_listnode_destroy (Some a) h = Ret ((), h')" "lists h' = lists h"
    "nodes h' = (\<lambda>b. if b \<in> set [a] then None else nodes h b)" "destroyed h' = destroyed h @ to_destroy (contents h) [a]" .
  have "\<forall>t zs. seqs v t = Some zs \<longrightarrow> set zs \<inter> set [a] = {}" using unlistedD(2) [OF v a] by simp
  from views_discard [OF v this h'(2-)] h'(1) that show ?thesis by blast
qed

section \<open>Programs over lists\<close>

datatype 'a list_op =
    Init nat
  | Size nat
  | Front nat
  | Back nat
  | Push_front nat nat
  | Push_back nat nat
  | Push_ptr_front nat nat 'a bool
  | Push_ptr_back nat nat 'a bool
  | Push_in_order nat nat "'a \<Rightarrow> 'a \<Rightarrow> int" bool
  | Pop_front nat
  | Pop_back nat
  | Remove_front nat
  | Detach nat nat
  | Remove nat nat
  | Remove_ptr nat 'a
  | Find_ptr nat 'a
  | Swap nat nat
  | Concat nat nat
  | Reverse nat nat
  | Reverse_new nat nat
  | Clear nat

datatype list_result = Done | Node "nat option" | Flag bool | Count nat

fun outcome :: "('r \<Rightarrow> list_result) \<Rightarrow> ('r \<times> 's) run option \<Rightarrow> (list_result \<times> 's) run option" where
  "outcome f r = map_option (map_run (\<lambda>(x, h). (f x, h))) r"

fun perform :: "'a list_op \<Rightarrow> 'a list_heap \<Rightarrow> (list_result \<times> 'a list_heap) run option" where
  "perform (Init s) h = outcome (\<lambda>_. Done) (Some (ten_list_init s h))"
| "perform (Size s) h = outcome Count (Some (ten_list_size s h))"
| "perform (Front s) h = outcome Node (Some (ten_list_front s h))"
| "perform (Back s) h = outcome Node (Some (ten_list_back s h))"
| "perform (Push_front s a) h = outcome (\<lambda>_. Done) (Some (ten_list_push_front s a h))"
| "perform (Push_back s a) h = outcome (\<lambda>_. Done) (Some (ten_list_push_back s a h))"
| "perform (Push_ptr_front a s x d) h = outcome (\<lambda>_. Done) (Some (ten_list_push_ptr_front a s x d h))"
| "perform (Push_ptr_back a s x d) h = outcome (\<lambda>_. Done) (Some (ten_list_push_ptr_back a s x d h))"
| "perform (Push_in_order s a cmp skip) h = outcome Flag (ten_list_push_back_in_order s a cmp skip h)"
| "perform (Pop_front s) h = outcome Node (Some (ten_list_pop_front s h))"
| "perform (Pop_back s) h = outcome Node (Some (ten_list_pop_back s h))"
| "perform (Remove_front s) h = outcome (\<lambda>_. Done) (Some (ten_list_remove_front s h))"
| "perform (Detach s a) h = outcome (\<lambda>_. Done) (Some (ten_list_detach_node s a h))"
| "perform (Remove s a) h = outcome (\<lambda>_. Done) (Some (ten_list_remove_node s a h))"
| "perform (Remove_ptr s x) h = outcome Flag (ten_list_remove_ptr s x h)"
| "perform (Find_ptr s x) h = outcome Node (ten_list_find_ptr s x h)"
| "perform (Swap s t) h = outcome (\<lambda>_. Done) (Some (ten_list_swap s t h))"
| "perform (Concat s t) h = outcome (\<lambda>_. Done) (Some (ten_list_concat s t h))"
| "perform (Reverse d s) h = outcome (\<lambda>_. Done) (ten_list_reverse d s h)"
| "perform (Reverse_new s d) h = outcome (\<lambda>_. Done) (ten_list_reverse_new s d h)"
| "perform (Clear s) h = outcome (\<lambda>_. Done) (ten_list_clear s h)"

text \<open>What the operations are for, on sequences of addresses.\<close>

definition nodes_of :: "'a list_view \<Rightarrow> nat \<Rightarrow> nat list" where
  "nodes_of v s = the (seqs v s)"

definition put_seq :: "nat \<Rightarrow> nat list \<Rightarrow> 'a list_view \<Rightarrow> 'a list_view" where
  "put_seq s xs v = v\<lparr>seqs := (seqs v)(s \<mapsto> xs)\<rparr>"

definition new_item :: "nat \<Rightarrow> 'a \<Rightarrow> bool \<Rightarrow> 'a list_view \<Rightarrow> 'a list_view" where
  "new_item a x d v = v\<lparr>items := (items v)(a \<mapsto> (x, d))\<rparr>"

definition item :: "'a list_view \<Rightarrow> nat \<Rightarrow> 'a" where
  "item v a = fst (the (items v a))"

fun intended :: "'a list_op \<Rightarrow> 'a list_view \<Rightarrow> list_result \<times> 'a list_view" where
  "intended (Init s) v = (Done, put_seq s [] v)"
| "intended (Size s) v = (Count (length (nodes_of v s)), v)"
| "intended (Front s) v = (Node (first_of (nodes_of v s) None), v)"
| "intended (Back s) v = (Node (last_of None (nodes_of v s)), v)"
| "intended (Push_front s a) v = (Done, put_seq s (a # nodes_of v s) v)"
| "intended (Push_back s a) v = (Done, put_seq s (nodes_of v s @ [a]) v)"
| "intended (Push_ptr_front a s x d) v = (Done, put_seq s (a # nodes_of v s) (new_item a x d v))"
| "intended (Push_ptr_back a s x d) v = (Done, put_seq s (nodes_of v s @ [a]) (new_item a x d v))"
| "intended (Push_in_order s a cmp skip) v =
     (case place (\<lambda>b. cmp (item v b) (item v a)) skip a (nodes_of v s) of
        None \<Rightarrow> (Flag False, v)
      | Some ys \<Rightarrow> (Flag True, put_seq s ys v))"
| "intended (Pop_front s) v = (Node (first_of (nodes_of v s) None), put_seq s (tl (nodes_of v s)) v)"
| "intended (Pop_back s) v = (Node (last_of None (nodes_of v s)), put_seq s (butlast (nodes_of v s)) v)"
| "intended (Remove_front s) v =
     (Done, discard [hd (nodes_of v s)] (put_seq s (tl (nodes_of v s)) v))"
| "intended (Detach s a) v = (Done, put_seq s (remove1 a (nodes_of v s)) v)"
| "intended (Remove s a) v = (Done, discard [a] (put_seq s (remove1 a (nodes_of v s)) v))"
| "intended (Remove_ptr s x) v =
     (case List.find (\<lambda>a. item v a = x) (nodes_of v s) of
        None \<Rightarrow> (Flag False, v)
      | Some a \<Rightarrow> (Flag True, discard [a] (put_seq s (remove1 a (nodes_of v s)) v)))"
| "intended (Find_ptr s x) v = (Node (List.find (\<lambda>a. item v a = x) (nodes_of v s)), v)"
| "intended (Swap s t) v = (Done, put_seq t (nodes_of v s) (put_seq s (nodes_of v t) v))"
| "intended (Concat s t) v = (Done, put_seq t [] (put_seq s (nodes_of v s @ nodes_of v t) v))"
| "intended (Reverse d s) v = (Done, put_seq s (rev (nodes_of v s)) v)"
| "intended (Reverse_new s d) v = (Done, put_seq d (rev (nodes_of v s) @ nodes_of v d) (put_seq s [] v))"
| "intended (Clear s) v = (Done, discard (nodes_of v s) (put_seq s [] v))"

text \<open>What the caller has to see to: the lists are there, a node that is pushed is in no list, a node that is
  removed is in the list, lists that are merged are two lists, and loops are over at most 100000 nodes.\<close>

fun allowed :: "'a list_op \<Rightarrow> 'a list_view \<Rightarrow> bool" where
  "allowed (Init s) v \<longleftrightarrow> seqs v s \<noteq> None"
| "allowed (Size s) v \<longleftrightarrow> seqs v s \<noteq> None"
| "allowed (Front s) v \<longleftrightarrow> seqs v s \<noteq> None"
| "allowed (Back s) v \<longleftrightarrow> seqs v s \<noteq> None"
| "allowed (Push_front s a) v \<longleftrightarrow> seqs v s \<noteq> None \<and> unlisted v a"
| "allowed (Push_back s a) v \<longleftrightarrow> seqs v s \<noteq> None \<and> unlisted v a"
| "allowed (Push_ptr_front a s x d) v \<longleftrightarrow> seqs v s \<noteq> None \<and> items v a = None"
| "allowed (Push_ptr_back a s x d) v \<longleftrightarrow> seqs v s \<noteq> None \<and> items v a = None"
| "allowed (Push_in_order s a cmp skip) v \<longleftrightarrow>
     seqs v s \<noteq> None \<and> unlisted v a \<and> length (nodes_of v s) \<le> TEN_LIST_LOOP_MAX_ALLOWABLE_CNT"
| "allowed (Pop_front s) v \<longleftrightarrow> seqs v s \<noteq> None"
| "allowed (Pop_back s) v \<longleftrightarrow> seqs v s \<noteq> None"
| "allowed (Remove_front s) v \<longleftrightarrow> seqs v s \<noteq> None \<and> nodes_of v s \<noteq> []"
| "allowed (Detach s a) v \<longleftrightarrow> seqs v s \<noteq> None \<and> a \<in> set (nodes_of v s)"
| "allowed (Remove s a) v \<longleftrightarrow> seqs v s \<noteq> None \<and> a \<in> set (nodes_of v s)"
| "allowed (Remove_ptr s x) v \<longleftrightarrow> seqs v s \<noteq> None \<and> length (nodes_of v s) \<le> TEN_LIST_LOOP_MAX_ALLOWABLE_CNT"
| "allowed (Find_ptr s x) v \<longleftrightarrow> seqs v s \<noteq> None \<and> length (nodes_of v s) \<le> TEN_LIST_LOOP_MAX_ALLOWABLE_CNT"
| "allowed (Swap s t) v \<longleftrightarrow> seqs v s \<noteq> None \<and> seqs v t \<noteq> None"
| "allowed (Concat s t) v \<longleftrightarrow> seqs v s \<noteq> None \<and> seqs v t \<noteq> None \<and> s \<noteq> t"
| "allowed (Reverse d s) v \<longleftrightarrow>
     seqs v s \<noteq> None \<and> seqs v d = None \<and> length (nodes_of v s) \<le> TEN_LIST_LOOP_MAX_ALLOWABLE_CNT"
| "allowed (Reverse_new s d) v \<longleftrightarrow>
     seqs v s \<noteq> None \<and> seqs v d \<noteq> None \<and> s \<noteq> d \<and> length (nodes_of v s) \<le> TEN_LIST_LOOP_MAX_ALLOWABLE_CNT"
| "allowed (Clear s) v \<longleftrightarrow> seqs v s \<noteq> None \<and> length (nodes_of v s) \<le> TEN_LIST_LOOP_MAX_ALLOWABLE_CNT"

fun perform_all :: "'a list_op list \<Rightarrow> 'a list_heap \<Rightarrow> (list_result list \<times> 'a list_heap) run option" where
  "perform_all [] h = Some (Ret ([], h))"
| "perform_all (p # ps) h =
     (case perform p h of
        None \<Rightarrow> None
      | Some Abort \<Rightarrow> Some Abort
      | Some Undef \<Rightarrow> Some Undef
      | Some (Ret (r, h)) \<Rightarrow> map_option (map_run (\<lambda>(rs, h). (r # rs, h))) (perform_all ps h))"

fun intended_all :: "'a list_op list \<Rightarrow> 'a list_view \<Rightarrow> list_result list \<times> 'a list_view" where
  "intended_all [] v = ([], v)"
| "intended_all (p # ps) v =
     (let (r, v) = intended p v; (rs, v) = intended_all ps v in (r # rs, v))"

fun allowed_all :: "'a list_op list \<Rightarrow> 'a list_view \<Rightarrow> bool" where
  "allowed_all [] v \<longleftrightarrow> True"
| "allowed_all (p # ps) v \<longleftrightarrow> allowed p v \<and> allowed_all ps (snd (intended p v))"

lemma live_item: "views h v \<Longrightarrow> items v a = None \<longleftrightarrow> nodes h a = None"
  by (simp add: viewsD(4) [symmetric] contents_def)

lemma own_list:
  assumes "views h v" "seqs v s \<noteq> None"
  shows "holds h s (nodes_of v s)" "seqs v s = Some (nodes_of v s)"
  using assms viewsD(1) [OF assms(1)] by (auto simp: nodes_of_def)

lemma views_put:
  assumes v: "views h v" and s: "seqs v s \<noteq> None" and B: "\<forall>a \<in> B. unlisted v a"
    and ch: "only_changes {s} X h h'" "holds h' s ys" and X: "X \<subseteq> B \<union> set (nodes_of v s)" "set ys \<subseteq> B \<union> set (nodes_of v s)"
  shows "views h' (put_seq s ys v)"
  unfolding put_seq_def
proof (rule views_upd1 [OF v own_list(2) [OF v s] _ ch(2)])
  show "only_changes {s} (B \<union> set (nodes_of v s)) h h'" using ch(1) by (rule only_changes_mono) (use X in auto)
  fix t zs
  assume t: "seqs v t = Some zs" "t \<noteq> s"
  have "set zs \<inter> B = {}" using B unlistedD(2) [OF v _ t(1)] by blast
  moreover have "set zs \<inter> set (nodes_of v s) = {}" using apartD [OF viewsD(3) [OF v] t(1) own_list(2) [OF v s] t(2)] .
  ultimately show "set zs \<inter> (B \<union> set (nodes_of v s)) = {}" by blast
qed (use X in auto)

lemma views_put_same: 
  assumes "views h v" "seqs v s \<noteq> None" "only_changes {s} X h h'" "holds h' s ys" "X \<subseteq> set (nodes_of v s)" "set ys \<subseteq> set (nodes_of v s)"
  shows "views h' (put_seq s ys v)"
  using views_put [OF assms(1,2) _ assms(3,4), of "{}"] assms(5,6) by simp

lemma views_put_new: 
  assumes "views h v" "seqs v s \<noteq> None" "unlisted v a" "only_changes {s} (insert a (set (nodes_of v s))) h h'" "holds h' s ys"
    "set ys \<subseteq> insert a (set (nodes_of v s))"
  shows "views h' (put_seq s ys v)"
  using views_put [OF assms(1,2) _ assms(4,5), of "{a}"] assms(3,6) by simp

lemma views_put2:
  assumes v: "views h v" and s: "seqs v s \<noteq> None" "seqs v t \<noteq> None" "s \<noteq> t"
    and ch: "only_changes {s, t} X h h'" "X \<subseteq> set (nodes_of v s) \<union> set (nodes_of v t)"
    and own: "holds h' s xs" "holds h' t ys" "set xs \<union> set ys \<subseteq> set (nodes_of v s) \<union> set (nodes_of v t)" "set xs \<inter> set ys = {}"
  shows "views h' (put_seq t ys (put_seq s xs v))"
  using views_upd2 [OF v own_list(2) [OF v s(1)] own_list(2) [OF v s(2)] s(3) ch own] by (simp add: put_seq_def)

lemma views_new:
  assumes v: "views h v" and a: "items v a = None" "seqs v s \<noteq> None"
  shows "views (h\<lparr>nodes := (nodes h)(a \<mapsto> \<lparr>ln_next = None, ln_prev = None, ln_content = x, ln_destroy = d\<rparr>)\<rparr>) (new_item a x d v)"
    "unlisted (new_item a x d v) a" "nodes_of (new_item a x d v) s = nodes_of v s"
    "seqs (new_item a x d v) s \<noteq> None"
proof -
  let ?h = "h\<lparr>nodes := (nodes h)(a \<mapsto> \<lparr>ln_next = None, ln_prev = None, ln_content = x, ln_destroy = d\<rparr>)\<rparr>"
  have none: "nodes h a = None" using viewsD(4) [OF v] a(1) by (auto simp: contents_def dest!: fun_cong [of _ _ a])
  have out: "a \<notin> set zs" if "seqs v t = Some zs" for t zs
    using linked_live [OF holdsD(2) [OF viewsD(1) [OF v that]], of a] none by blast
  have "holds ?h t zs" if "seqs v t = Some zs" for t zs
    using viewsD(1) [OF v that] out [OF that] by (simp add: holds_def)
  moreover have "contents ?h = items (new_item a x d v)"
    using viewsD(4) [OF v] by (auto simp: contents_def new_item_def fun_eq_iff)
  ultimately show "views ?h (new_item a x d v)" using viewsD [OF v] by (auto simp: views_def new_item_def split: option.splits)
  show "unlisted (new_item a x d v) a" using out by (auto simp: unlisted_def new_item_def)
  show "nodes_of (new_item a x d v) s = nodes_of v s" "seqs (new_item a x d v) s \<noteq> None"
    using a(2) by (simp_all add: nodes_of_def new_item_def)
qed

definition performs :: "'a list_op \<Rightarrow> 'a list_heap \<Rightarrow> 'a list_view \<Rightarrow> bool" where
  "performs p h v \<longleftrightarrow>
     (\<exists>h'. perform p h = Some (Ret (fst (intended p v), h')) \<and> views h' (snd (intended p v)))"

lemma performsI: "perform p h = Some (Ret (r, h')) \<Longrightarrow> intended p v = (r, v') \<Longrightarrow> views h' v' \<Longrightarrow> performs p h v"
  by (simp add: performs_def)

lemma push_performs:
  assumes v: "views h v" and s: "seqs v s \<noteq> None" and a: "unlisted v a"
  shows "performs (Push_front s a) h v" "performs (Push_back s a) h v"
proof -
  note own = own_list [OF v s]
  have a': "nodes h a \<noteq> None" "a \<notin> set (nodes_of v s)" using unlistedD [OF v a] own(2) by auto
  from push_front_holds [OF own(1) a'] obtain h' where "ten_list_push_front s a h = Ret ((), h')" "holds h' s (a # nodes_of v s)"
    "only_changes {s} (insert a (set (nodes_of v s))) h h'" by blast
  with views_put_new [OF v s a this(3,2)] show "performs (Push_front s a) h v" by (intro performsI) auto
  from push_back_holds [OF own(1) a'] obtain h' where "ten_list_push_back s a h = Ret ((), h')" "holds h' s (nodes_of v s @ [a])"
    "only_changes {s} (insert a (set (nodes_of v s))) h h'" by blast
  with views_put_new [OF v s a this(3,2)] show "performs (Push_back s a) h v" by (intro performsI) auto
qed

lemma push_ptr_performs:
  assumes v: "views h v" and s: "seqs v s \<noteq> None" and a: "items v a = None"
  shows "performs (Push_ptr_front a s x d) h v" "performs (Push_ptr_back a s x d) h v"
  using push_performs [OF views_new(1) [OF v a s, of x d] views_new(4) [OF v a s, of x d] views_new(2) [OF v a s, of x d]]
    views_new(3) [OF v a s, of x d]
  by (auto simp: performs_def ten_list_push_ptr_front_def ten_list_push_ptr_back_def ten_ptr_listnode_create_def and_with_def)

lemma in_order_performs:
  assumes v: "views h v" and s: "seqs v s \<noteq> None" and a: "unlisted v a"
    and len: "length (nodes_of v s) \<le> TEN_LIST_LOOP_MAX_ALLOWABLE_CNT"
  shows "performs (Push_in_order s a cmp skip) h v"
proof -
  note own = own_list [OF v s]
  have a': "nodes h a \<noteq> None" "a \<notin> set (nodes_of v s)" using unlistedD [OF v a] own(2) by auto
  have "item v = content_at h" using viewsD(4) [OF v] by (simp add: item_def content_at_def fun_eq_iff)
  with push_back_in_order_holds [OF own(1) a' len refl, of cmp skip]
  show ?thesis
  proof (cases "place (\<lambda>b. cmp (item v b) (item v a)) skip a (nodes_of v s)")
    case (Some ys)
    with push_back_in_order_holds [OF own(1) a' len refl, of cmp skip] \<open>item v = content_at h\<close> obtain h' where
      "ten_list_push_back_in_order s a cmp skip h = Some (Ret (True, h'))" "holds h' s ys"
      "only_changes {s} (insert a (set (nodes_of v s))) h h'" by auto
    with views_put_new [OF v s a this(3,2)] place_set [OF Some] Some show ?thesis by (intro performsI) auto
  qed (auto intro!: performsI simp: v)
qed

lemma pop_performs:
  assumes v: "views h v" and s: "seqs v s \<noteq> None"
  shows "performs (Pop_front s) h v" "performs (Pop_back s) h v"
proof -
  note own = own_list [OF v s]
  have "views h (put_seq s [] v)" if "nodes_of v s = []" using v own(2) that by (simp add: put_seq_def fun_upd_idem)
  then have empty: "performs (Pop_front s) h v" "performs (Pop_back s) h v" if "nodes_of v s = []"
    using that by (auto simp: performs_def ten_list_pop_front_def ten_list_pop_back_def checked_holds [OF own(1)]
        accessors_hold [OF own(1)] and_with_def ok_def)
  show "performs (Pop_front s) h v"
  proof (cases "nodes_of v s")
    case (Cons a xs)
    from pop_front_holds [OF own(1) [unfolded Cons]] obtain h' where "ten_list_pop_front s h = Ret (Some a, h')" "holds h' s xs"
      "only_changes {s} (insert a (set xs)) h h'" by blast
    with views_put_same [OF v s this(3,2)] Cons show ?thesis by (intro performsI) auto
  qed (use empty in auto)
  show "performs (Pop_back s) h v"
  proof (cases "nodes_of v s" rule: rev_cases)
    case (snoc xs a)
    from pop_back_holds [OF own(1) [unfolded snoc]] obtain h' where "ten_list_pop_back s h = Ret (Some a, h')" "holds h' s xs"
      "only_changes {s} (insert a (set xs)) h h'" by blast
    with views_put_same [OF v s this(3,2)] snoc show ?thesis by (intro performsI) auto
  qed (use empty in auto)
qed

lemma detached:
  assumes v: "views h v" and s: "seqs v s \<noteq> None" and a: "a \<in> set (nodes_of v s)"
  obtains h' where "ten_list_detach_node s a h = Ret ((), h')" "views h' (put_seq s (remove1 a (nodes_of v s)) v)"
    "unlisted (put_seq s (remove1 a (nodes_of v s)) v) a"
proof -
  note own = own_list [OF v s]
  obtain us vs where xs: "nodes_of v s = us @ a # vs" using split_list [OF a] by blast
  have d: "distinct (us @ a # vs)" using holdsD(3) [OF own(1)] xs by simp
  have r: "remove1 a (nodes_of v s) = us @ vs" using d xs by (simp add: remove1_append)
  from detach_holds [OF own(1) [unfolded xs]] obtain h' where h': "ten_list_detach_node s a h = Ret ((), h')" "holds h' s (us @ vs)"
    "only_changes {s} (insert a (set (us @ vs))) h h'" by blast
  have "views h' (put_seq s (us @ vs) v)" using views_put_same [OF v s h'(3,2)] xs by auto
  moreover have "a \<notin> set zs" if "seqs v t = Some zs" "t \<noteq> s" for t zs
    using apartD [OF viewsD(3) [OF v] that(1) own(2) that(2)] a by blast
  moreover have "items v a \<noteq> None"
    using linked_live [OF holdsD(2) [OF own(1)] a] live_item [OF v] by simp
  ultimately show ?thesis using that [OF h'(1)] r d by (auto simp: unlisted_def put_seq_def)
qed

lemma removed:
  assumes v: "views h v" and s: "seqs v s \<noteq> None" and a: "a \<in> set (nodes_of v s)"
  obtains h' where "ten_list_remove_node s a h = Ret ((), h')" "views h' (discard [a] (put_seq s (remove1 a (nodes_of v s)) v))"
proof -
  note own = own_list [OF v s]
  from detached [OF assms] obtain g where g: "ten_list_detach_node s a h = Ret ((), g)"
    "views g (put_seq s (remove1 a (nodes_of v s)) v)" "unlisted (put_seq s (remove1 a (nodes_of v s)) v) a" .
  from views_destroy [OF g(2,3)] obtain h' where h': "ten_listnode_destroy (Some a) g = Ret ((), h')"
    "views h' (discard [a] (put_seq s (remove1 a (nodes_of v s)) v))" .
  have "nodes_of v s \<noteq> []" using a by auto
  then have "ten_list_remove_node s a h = Ret ((), h')"
    using g(1) h'(1)
    by (simp add: ten_list_remove_node_def checked_holds [OF own(1)] accessors_hold [OF own(1)] and_with_def demand_def)
  with h'(2) that show ?thesis by blast
qed

lemma remove_performs:
  assumes v: "views h v" and s: "seqs v s \<noteq> None"
  shows "a \<in> set (nodes_of v s) \<Longrightarrow> performs (Detach s a) h v" "a \<in> set (nodes_of v s) \<Longrightarrow> performs (Remove s a) h v"
    "nodes_of v s \<noteq> [] \<Longrightarrow> performs (Remove_front s) h v"
proof -
  assume a: "a \<in> set (nodes_of v s)"
  from detached [OF v s a] obtain h' where "ten_list_detach_node s a h = Ret ((), h')"
    "views h' (put_seq s (remove1 a (nodes_of v s)) v)" .
  then show "performs (Detach s a) h v" by (intro performsI) auto
  from removed [OF v s a] obtain h' where "ten_list_remove_node s a h = Ret ((), h')"
    "views h' (discard [a] (put_seq s (remove1 a (nodes_of v s)) v))" .
  then show "performs (Remove s a) h v" by (intro performsI) auto
next
  note own = own_list [OF v s]
  assume "nodes_of v s \<noteq> []"
  then obtain a xs where Cons: "nodes_of v s = a # xs" by (cases "nodes_of v s") auto
  from pop_performs(1) [OF v s] Cons obtain g where g: "ten_list_pop_front s h = Ret (Some a, g)" "views g (put_seq s xs v)"
    by (auto simp: performs_def)
  have "a \<notin> set zs" if "seqs v t = Some zs" "t \<noteq> s" for t zs
    using apartD [OF viewsD(3) [OF v] that(1) own(2) that(2)] Cons by auto
  moreover have "items v a \<noteq> None"
    using linked_live [OF holdsD(2) [OF own(1)], of a] live_item [OF v] Cons by simp
  ultimately have "unlisted (put_seq s xs v) a" using holdsD(3) [OF own(1)] Cons by (auto simp: unlisted_def put_seq_def)
  from views_destroy [OF g(2) this] obtain h' where h': "ten_listnode_destroy (Some a) g = Ret ((), h')"
    "views h' (discard [a] (put_seq s xs v))" .
  have "ten_list_remove_front s h = Ret ((), h')"
    using g(1) h'(1) by (simp add: ten_list_remove_front_def checked_holds [OF own(1)] and_with_def)
  with h'(2) Cons show "performs (Remove_front s) h v" by (intro performsI) auto
qed

lemma item_content: "views h v \<Longrightarrow> content_at h = item v"
  by (simp add: viewsD(4) item_def content_at_def fun_eq_iff)

lemma search_performs:
  fixes h :: "'a list_heap" and x :: 'a
  assumes v: "views h v" and s: "seqs v s \<noteq> None" and len: "length (nodes_of v s) \<le> TEN_LIST_LOOP_MAX_ALLOWABLE_CNT"
  shows "performs (Find_ptr s x) h v" "performs (Remove_ptr s x) h v"
proof -
  note own = own_list [OF v s]
  show "performs (Find_ptr s x) h v"
    using find_ptr_holds [OF own(1) len, of x "(=)"] v item_content [OF v] by (simp add: performs_def ten_list_find_ptr_def)
  let ?P = "\<lambda>a. item v a = x"
  let ?body = "\<lambda>it :: list_iterator. and_with (node_of (it_node it)) (\<lambda>n. if ln_content n = x
      then and_with (ten_list_remove_node s (the (it_node it))) (\<lambda>_. ok (Some True)) else ok None)"
  let ?found = "\<lambda>a. and_with (ten_list_remove_node s a) (\<lambda>_. ok True)"
  have run: "ten_list_foreach s ?body h = (case List.find ?P (nodes_of v s) of
      None \<Rightarrow> Some (Ret (None, h)) | Some a \<Rightarrow> Some (map_run (\<lambda>(x, h). (Some x, h)) (?found a h)))"
  proof (rule search_loop [OF own(1) len])
    fix a and it :: list_iterator
    assume a: "a \<in> set (nodes_of v s)" and it: "it_node it = Some a"
    then obtain n where n: "nodes h a = Some n" using linked_live [OF holdsD(2) [OF own(1)]] by blast
    have c: "ln_content n = item v a" using content_node [OF n] item_content [OF v] by simp
    from removed [OF v s a] obtain h' where "ten_list_remove_node s a h = Ret ((), h')" by blast
    then show "?body it h = (if ?P a then map_run (\<lambda>(x, h). (Some x, h)) (?found a h) else Ret (None, h))"
      using n by (simp add: it c [symmetric] step_defs)
  next
    fix a
    assume "List.find ?P (nodes_of v s) = Some a"
    then have "a \<in> set (nodes_of v s)" by (auto simp: find_Some_iff)
    from removed [OF v s this] show "\<exists>x h'. ?found a h = Ret (x, h')" by (auto simp: and_with_def ok_def)
  qed
  show "performs (Remove_ptr s x) h v"
  proof (cases "List.find ?P (nodes_of v s)")
    case None
    then show ?thesis using run v
      by (simp add: performs_def ten_list_remove_ptr_def checked_holds [OF own(1)] after_loop_def ok_def)
  next
    case (Some a)
    then have "a \<in> set (nodes_of v s)" by (auto simp: find_Some_iff)
    from removed [OF v s this] obtain h' where h': "ten_list_remove_node s a h = Ret ((), h')"
      "views h' (discard [a] (put_seq s (remove1 a (nodes_of v s)) v))" .
    then have "ten_list_foreach s ?body h = Some (Ret (Some True, h'))" using run Some by (simp add: and_with_def ok_def)
    then show ?thesis using h'(2) Some
      by (simp add: performs_def ten_list_remove_ptr_def checked_holds [OF own(1)] after_loop_def ok_def)
  qed
qed

lemma pair_performs:
  assumes v: "views h v" and s: "seqs v s \<noteq> None" "seqs v t \<noteq> None"
  shows "performs (Swap s t) h v" "s \<noteq> t \<Longrightarrow> performs (Concat s t) h v"
    "s \<noteq> t \<Longrightarrow> length (nodes_of v s) \<le> TEN_LIST_LOOP_MAX_ALLOWABLE_CNT \<Longrightarrow> performs (Reverse_new s t) h v"
proof -
  note own = own_list [OF v s(1)] own_list [OF v s(2)]
  have disj: "set (nodes_of v s) \<inter> set (nodes_of v t) = {}" if "s \<noteq> t" using apartD [OF viewsD(3) [OF v] own(2,4) that] .
  from swap_holds [OF own(1,3)] obtain h' where h': "ten_list_swap s t h = Ret ((), h')" "holds h' s (nodes_of v t)"
    "holds h' t (nodes_of v s)" "only_changes {s, t} {} h h'" by blast
  show "performs (Swap s t) h v"
  proof (cases "s = t")
    case True
    with h' views_put_same [OF v s(1), of "{}" h' "nodes_of v t"] show ?thesis by (intro performsI) (auto simp: put_seq_def)
  next
    case False
    with h' views_put2 [OF v s False h'(4) _ h'(2,3)] disj [OF False] show ?thesis by (intro performsI) auto
  qed
  show "performs (Concat s t) h v" if st: "s \<noteq> t"
  proof -
    from concat_holds [OF own(1,3) st disj [OF st]] obtain h' where h': "ten_list_concat s t h = Ret ((), h')"
      "holds h' s (nodes_of v s @ nodes_of v t)" "holds h' t []" "only_changes {s, t} (set (nodes_of v s) \<union> set (nodes_of v t)) h h'"
      by blast
    with views_put2 [OF v s st h'(4) _ h'(2,3)] show ?thesis by (intro performsI) auto
  qed
  show "performs (Reverse_new s t) h v" if st: "s \<noteq> t" and len: "length (nodes_of v s) \<le> TEN_LIST_LOOP_MAX_ALLOWABLE_CNT"
  proof -
    from reverse_new_holds [OF own(1,3) st disj [OF st] len] obtain h' where h': "ten_list_reverse_new s t h = Some (Ret ((), h'))"
      "holds h' s []" "holds h' t (rev (nodes_of v s) @ nodes_of v t)"
      "only_changes {s, t} (set (nodes_of v s) \<union> set (nodes_of v t)) h h'" by blast
    with views_put2 [OF v s st h'(4) _ h'(2,3)] show ?thesis by (intro performsI) auto
  qed
qed

lemma whole_performs:
  assumes v: "views h v" and s: "seqs v s \<noteq> None"
  shows "performs (Init s) h v" "performs (Size s) h v" "performs (Front s) h v" "performs (Back s) h v"
    "length (nodes_of v s) \<le> TEN_LIST_LOOP_MAX_ALLOWABLE_CNT \<Longrightarrow> performs (Clear s) h v"
    "length (nodes_of v s) \<le> TEN_LIST_LOOP_MAX_ALLOWABLE_CNT \<Longrightarrow> seqs v d = None \<Longrightarrow> performs (Reverse d s) h v"
proof -
  note own = own_list [OF v s]
  have "lists h s \<noteq> None" using holdsD(1) [OF own(1)] by simp
  from init_holds [OF this] obtain h' where h': "ten_list_init s h = Ret ((), h')" "holds h' s []" "only_changes {s} {} h h'" by blast
  with views_put_same [OF v s h'(3,2)] show "performs (Init s) h v" by (intro performsI) auto
  show "performs (Size s) h v" "performs (Front s) h v" "performs (Back s) h v"
    using v by (simp_all add: performs_def accessors_hold [OF own(1)])
next
  note own = own_list [OF v s]
  assume len: "length (nodes_of v s) \<le> TEN_LIST_LOOP_MAX_ALLOWABLE_CNT"
  show "performs (Reverse d s) h v" if "seqs v d = None"
  proof -
    from reverse_holds [OF own(1) viewsD(2) [OF v that] len] obtain h' where h': "ten_list_reverse d s h = Some (Ret ((), h'))"
      "holds h' s (rev (nodes_of v s))" "only_changes {s} (set (nodes_of v s)) h h'" by blast
    with views_put_same [OF v s h'(3,2)] show ?thesis by (intro performsI) auto
  qed
  from clear_holds [OF own(1) len] obtain h' where h': "ten_list_clear s h = Some (Ret ((), h'))" "holds h' s []"
    "lists h' = (lists h)(s \<mapsto> struct_for [])" "nodes h' = (\<lambda>a. if a \<in> set (nodes_of v s) then None else nodes h a)"
    "destroyed h' = destroyed h @ to_destroy (contents h) (nodes_of v s)" by blast
  let ?g = "h\<lparr>lists := (lists h)(s \<mapsto> struct_for [])\<rparr>"
  have "holds ?g s []" "only_changes {s} {} h ?g" by (simp_all add: holds_def only_changes_def contents_def fun_eq_iff)
  with views_put_same [OF v s this(2,1)] have g: "views ?g (put_seq s [] v)" by simp
  have "\<forall>t zs. seqs (put_seq s [] v) t = Some zs \<longrightarrow> set zs \<inter> set (nodes_of v s) = {}"
    using apartD [OF viewsD(3) [OF v] _ own(2)] by (auto simp: put_seq_def split: if_splits)
  moreover have "contents ?g = contents h" "nodes ?g = nodes h" by (simp_all add: contents_def fun_eq_iff)
  ultimately have "views h' (discard (nodes_of v s) (put_seq s [] v))" using views_discard [OF g, of "nodes_of v s" h'] h' by (simp cong: if_cong)
  with h'(1) show "performs (Clear s) h v" by (intro performsI) auto
qed

lemma op_performs:
  assumes "views h v" "allowed p v"
  shows "performs p h v"
  using assms(2)
  by (cases p) (auto simp only: allowed.simps intro: push_performs [OF assms(1)] push_ptr_performs [OF assms(1)]
      in_order_performs [OF assms(1)] pop_performs [OF assms(1)] remove_performs [OF assms(1)] search_performs [OF assms(1)]
      pair_performs [OF assms(1)] whole_performs [OF assms(1)])

text \<open>C13: The lists implement sequences: whatever operations are run on any lists of a heap, as long as each is
  called as it is meant to be, every one of them ends, none fails an assertion or follows a pointer that
  leads nowhere, the results are those of the operations on sequences, and the heap then holds what these
  leave; the destructors of removed contents have run once each and in order.\<close>

theorem lists_refine:
  assumes "views h v" "allowed_all ps v"
  shows "\<exists>h'. perform_all ps h = Some (Ret (fst (intended_all ps v), h')) \<and> views h' (snd (intended_all ps v))"
  using assms
proof (induction ps arbitrary: h v)
  case (Cons p ps)
  from op_performs [OF Cons.prems(1)] Cons.prems(2) obtain g where
    g: "perform p h = Some (Ret (fst (intended p v), g))" "views g (snd (intended p v))" by (auto simp: performs_def)
  from Cons.IH [OF g(2)] Cons.prems(2) obtain h' where
    "perform_all ps g = Some (Ret (fst (intended_all ps (snd (intended p v))), h'))" "views h' (snd (intended_all ps (snd (intended p v))))"
    by auto
  with g(1) show ?case by (simp add: split_beta Let_def)
qed simp

section \<open>An example\<close>

definition example_lists :: "string list_heap" where
  "example_lists = \<lparr>lists = [0 \<mapsto> struct_for [], 1 \<mapsto> struct_for []], nodes = Map.empty, destroyed = []\<rparr>"

definition example_view :: "string list_view" where
  "example_view = \<lparr>seqs = [0 \<mapsto> [], 1 \<mapsto> []], items = Map.empty, gone = []\<rparr>"

lemma example_views: "views example_lists example_view"
  by (simp add: views_def example_lists_def example_view_def holds_def apart_def contents_def fun_eq_iff)

definition example_program :: "string list_op list" where
  "example_program =
     [Push_ptr_back 10 0 ''a'' True, Push_ptr_back 11 0 ''b'' True, Push_ptr_front 12 1 ''c'' True, Concat 0 1,
      Reverse 2 0, Remove_ptr 0 ''b'', Pop_front 0, Size 0, Clear 0]"

lemmas example_simps = example_program_def example_view_def put_seq_def new_item_def nodes_of_def item_def unlisted_def
  discard_def to_destroy_def TEN_LIST_LOOP_MAX_ALLOWABLE_CNT_def

lemma example_allowed: "allowed_all example_program example_view"
  by (simp add: example_simps)

theorem lists_refine_witness:
  "\<exists>h'. perform_all example_program example_lists =
      Some (Ret ([Done, Done, Done, Done, Done, Flag True, Node (Some 12), Count 1, Done], h')) \<and>
    destroyed h' = [''b'', ''a''] \<and> contents h' 12 = Some (''c'', True) \<and> contents h' 10 = None"
proof -
  from lists_refine [OF example_views example_allowed] obtain h' where
    1: "perform_all example_program example_lists = Some (Ret (fst (intended_all example_program example_view), h'))"
    "views h' (snd (intended_all example_program example_view))" by blast
  have "fst (intended_all example_program example_view) =
      [Done, Done, Done, Done, Done, Flag True, Node (Some 12), Count 1, Done]"
    "gone (snd (intended_all example_program example_view)) = [''b'', ''a'']"
    "items (snd (intended_all example_program example_view)) 12 = Some (''c'', True)"
    "items (snd (intended_all example_program example_view)) 10 = None"
    by (simp_all add: example_simps)
  with 1 viewsD(4,5) [OF 1(2)] show ?thesis by auto
qed

end
