(* ===== verification/Spec2Isabelle.thy ===== *)
theory Spec2Isabelle
  imports Value_Get Value_Path Schema_Compat Schema_Adjust Path_Group Graph_Value Schema_Store Extension_Send Ten_List
begin

text \<open>
  The core of the TEN framework (\<open>core/src/ten_utils\<close> and \<open>core/src/ten_runtime\<close>): dynamically typed
  values and the schemas they are checked against, and the messages that extensions exchange, from
  the command that enters an extension to the result that finds its way back.  File names without a
  directory are below these two directories; \<open>core/src/axis_*\<close> is a copy of them under another prefix.

  \<^bold>\<open>The program.\<close>  A process is an \<^emph>\<open>app\<close>.  It runs \<^emph>\<open>engines\<close>, one for each graph of \<^emph>\<open>extensions\<close>, and
  extensions only talk through messages.  A message has a source, destinations, a name, and properties,
  which are values.  The engine completes the destinations of a message; the extension it arrives at
  may convert it by rules, checks it against a schema, and handles it.  A command that enters an
  extension leaves an IN path and a command that leaves it an OUT path; its result goes the
  way back by these paths.  A command with several destinations leaves a group of OUT paths, which
  decides by its policy which of the results goes on.

  \<^bold>\<open>Outcomes.\<close>  \<open>'a run\<close> (\<open>Prelude\<close>) is what a C call leads to: a value, a failed \<open>TEN_ASSERT\<close> or
  undefined behaviour, so that a property of the form \<open>f x = Ret y\<close> also says that none of the modelled
  assertions fails and nothing undefined happens.  Error contexts are values of the result.

  \<^bold>\<open>Long lists.\<close>  Every \<open>ten_list_foreach\<close> (\<open>container/list.h\<close>) asserts that its list has at most 100000
  nodes.  \<open>ten_list_foreach_of\<close> (\<open>Prelude\<close>) is this assertion, \<open>walkable xs\<close> that it holds.  It is part of
  the model in the lists themselves (\<open>Ten_List\<close>), in clones, equality, lookup and move of values
  (\<open>Ten_Value\<close>, \<open>Value_Object\<close>), in the destruction of a value that a path write or a change of a message
  replaces, in all loops over paths (\<open>Value_Path\<close>) and the access to message properties (\<open>Msg\<close>), in the
  rules of conversions (\<open>Msg_Conversion\<close>), and in creation, validation, adjustment and compatibility of
  schemas and the reading of a manifest (\<open>Schema\<close>, \<open>Schema_Compat\<close>, \<open>Schema_Store\<close>).  The properties about
  these name the bound.  It is left out in the other loops: the two merges of objects, destinations of
  messages, conversion contexts, graphs, path tables, and the queues of a thread.  What is said about
  these is said of lists of at most 100000 nodes.

  \<^bold>\<open>Values.\<close>
  \<^item> \<open>Ten_Type\<close> (\<open>value/type.c\<close>, \<open>type_info.h\<close>): the type tags, their names, and when a type may be
    connected to another.
  \<^item> \<open>Ten_Value\<close> (\<open>value/value.c\<close>, \<open>value_is.c\<close>, \<open>value_set.c\<close>): the union \<open>ten_value_t\<close> as the datatype
    \<open>ten_value\<close>; \<open>Value_Tree\<close> says when clones are faithful and what equality decides.
  \<^item> \<open>C_Float\<close>, \<open>Value_Convert\<close> (\<open>value_convert.c\<close>, \<open>value_can_convert.c\<close>), \<open>Value_Get\<close>
    (\<open>value_get.c\<close>): conversions and getters on words of the widths of C and on IEEE numbers.  The
    cast of a number that is out of range is the parameter \<open>machine\<close>.
  \<^item> \<open>Value_Object\<close> (\<open>value_object.c\<close>, \<open>value_kv.c\<close>, \<open>value_merge.c\<close>): objects and the two merges,
    proved equal to one reference definition.
  \<^item> \<open>Value_Path\<close> (\<open>value_path.c\<close>, parts of \<open>string.c\<close>): paths such as \<open>a.b[2]\<close>, read, written, parsed.
  \<^item> \<open>Buf\<close> (\<open>buf.c\<close>): byte buffers.  The loop that doubles the size is a \<open>partial_function (option)\<close>,
    since it runs for ever on an empty buffer; \<open>reserve_returns_iff\<close> says exactly when it returns.

  \<^bold>\<open>Schemas.\<close>
  \<^item> \<open>Schema\<close> (\<open>schema/schema.c\<close>, \<open>schema/keywords/\<close>): creation, validation, adjustment.
  \<^item> \<open>Schema_Adjust\<close>: what adjustment establishes and keeps.
  \<^item> \<open>Schema_Compat\<close>: compatibility of schemas, and its soundness for validation.
  \<^item> \<open>Schema_Store\<close> (\<open>schema_store/\<close>): the schemas of an extension, read from its manifest, and the
    check of a message by the schema of its name and direction.

  \<^bold>\<open>Messages.\<close>
  \<^item> \<open>Loc\<close> (\<open>common/loc.c\<close>): locations, as C strings and as values.
  \<^item> \<open>Msg\<close> (\<open>msg/msg.c\<close>, \<open>msg_info.c\<close>, \<open>msg/field/\<close>, \<open>app/predefined_graph.c\<close>): the header of messages,
    their properties, and the completion of their destinations.
  \<^item> \<open>Cmd\<close> (\<open>msg/cmd_base/\<close>, \<open>msg/data/\<close>): commands, results, and copies of messages.  A struct that
    embeds another one is a record that extends it.  Message types whose own clone functions are not
    modelled go through the parameter \<open>msg_handlers\<close>; fresh ids are arguments.
  \<^item> \<open>Msg_Conversion\<close> (\<open>msg_conversion/\<close>): rules, conversions and contexts.

  \<^bold>\<open>Paths.\<close>
  \<^item> \<open>Path_Table\<close> (\<open>path/\<close>): the path table of an extension with all its operations.  Paths, groups and
    messages are shared, so they live in stores by address; an address is never used twice.
  \<^item> \<open>Path_Invariant\<close>: the invariant \<open>table_ok\<close> and one preservation lemma for each operation.
  \<^item> \<open>Path_Flow\<close> (\<open>extension/msg_handling.c\<close>, \<open>extension/internal/path_timer.c\<close>): results that arrive,
    and the timers that give paths up.  The current time is an argument.
  \<^item> \<open>Path_Group\<close>: an abstract group of paths, which the table refines, and what the extension has got
    when all results arrived.

  \<^bold>\<open>Graphs.\<close>
  \<^item> \<open>Graph_Info\<close> (\<open>extension/extension_info/extension_info.c\<close>, \<open>extension/msg_dest_info/\<close>): the
    descriptions of the extensions of a graph, in one list; a pointer to one of them is its position.
    Lookup, copies, and the completion of locations when the graph starts.
  \<^item> \<open>Graph_Value\<close> (\<open>value.c\<close> of these directories, \<open>start_graph/field/extension_info.c\<close>): graphs written
    to values and read back.

  \<^bold>\<open>Extensions.\<close>  The operations of an extension act on the state of its thread (\<open>extension_thread\<close>): the
  extensions with their path tables, the graph, the queues, and a log of what left the thread.
  \<^item> \<open>Extension_Out\<close> (\<open>extension/extension.c\<close>, \<open>ten_env/internal/return.c\<close>): the messages an extension
    sends and the results it returns: schema check, destinations, copies, OUT paths, groups.
  \<^item> \<open>Extension_In\<close> (\<open>extension/msg_handling.c\<close>, \<open>msg_not_connected_cnt.c\<close>, \<open>ten_env/on_xxx.c\<close>,
    \<open>internal/close.c\<close>, \<open>internal/path_timer.c\<close>, \<open>ten_env/internal/send.c\<close>, \<open>extension_thread/\<close>): the
    messages that arrive, the timers, and the life cycle from \<open>on_configure_done\<close> to \<open>on_deinit_done\<close>.
  \<^item> \<open>Extension_Safe\<close>: the invariant \<open>thread_ok\<close>, with one \<open>safe\<close> lemma for each operation.
  \<^item> \<open>Extension_Run\<close>: what the code of an extension may do is a program of calls of \<open>ten_env\<close>, which
    calls back into extensions; \<open>runs\<close> are the states a thread reaches by its tasks, and the first
    properties hold in all of them.
  \<^item> \<open>Extension_Send\<close>: a command on its way: where the graph sends it, and how its results come back.

  \<^bold>\<open>Containers.\<close>
  \<^item> \<open>Links\<close>: doubly linked nodes in a store by address, and the loops that follow their pointers.
  \<^item> \<open>Ten_List\<close> (\<open>container/list.c\<close>, \<open>list_node.c\<close>, \<open>list_ptr.c\<close>, \<open>list_node_ptr.c\<close>): lists in a heap,
    with every operation; they refine sequences of addresses.

  \<^bold>\<open>Interfaces.\<close>  \<open>Contracts\<close> states as locales what one component relies on in another: integer
  representations (interpreted for every word type of values), stores by key (for objects, as long as
  they have room), and
  compatibility relations (for types and schemas).

  \<^bold>\<open>Loops.\<close>  Loops over lists are structural recursions or folds that stop at the first failure.
  Recursions over values and schemas terminate by the size of the tree.  Only \<open>grow_size\<close> of \<open>Buf\<close> and
  the loops that follow pointers in a heap (\<open>Links\<close>, \<open>Ten_List\<close>) may fail to end, as partial functions
  whose outcome is then \<open>None\<close>; the refinement of the lists says that they do end.  Callbacks that send messages which call back again may nest without a bound in C as
  well: \<open>Extension_Run\<close> bounds the depth of this nesting by the argument of \<open>stack\<close>, depth 0 being a
  stack overflow, undefined behaviour.  The properties of reachable states hold for every depth.

  \<^bold>\<open>Not modelled.\<close>  Threads, locks, timers and the event loop of the operating system; allocation
  failure, reference counts, and destruction but for that of replaced values; logging and \<open>printf\<close> beyond what the modelled messages
  use; JSON, which a third-party parser reads; the creation and destruction of extensions and the
  metadata they read in \<open>on_configure_done\<close>; the life cycle of engines and apps and how they work off
  their queues; the correction of locations inside a command that starts a graph, at the end of
  \<open>ten_msg_correct_dest\<close>; connections and protocols; language bindings; the parts in other languages.
\<close>

end
